(* ===== verification/Prelude.thy ===== *)
theory Prelude
  imports Complex_Main "HOL-Library.Char_ord" "HOL-Library.List_Lexorder"
begin

text \<open>
  The values of the TypeScript sources and the operations on them that the components
  share. A JavaScript string is a list of code units; \<open>string\<close> carries the code units
  below 256, which is every character the sources test for. A JavaScript \<open>number\<close> that
  the code may have to reject (it arrives from the wire, or the code asks whether it is
  finite) is a \<open>jnum\<close>: an exact rational or one of the three non-finite values. A
  number the code only adds and compares (a clock reading, a byte count of a row) is
  an \<open>int\<close>. An \<open>unknown\<close> value of the wire is a \<open>json\<close>.

  The named collections hold the facts the component theories rewrite with:
  \<open>js_simps\<close> for strings, numbers and wire objects, \<open>guard_simps\<close> for the
  guards of the conditional writes.
\<close>

named_theorems js_simps
named_theorems guard_simps

section \<open>Numbers\<close>

datatype jnum = Fin rat | PosInf | NegInf | NaN

fun js_is_finite :: "jnum \<Rightarrow> bool" where
  "js_is_finite (Fin _) = True"
| "js_is_finite _ = False"

fun js_is_integer :: "jnum \<Rightarrow> bool" where
  "js_is_integer (Fin r) = (of_int \<lfloor>r\<rfloor> = r)"
| "js_is_integer _ = False"

definition js_max_safe :: int where
  "js_max_safe = 9007199254740991"

fun js_is_safe_integer :: "jnum \<Rightarrow> bool" where
  "js_is_safe_integer (Fin r) = (of_int \<lfloor>r\<rfloor> = r \<and> \<bar>\<lfloor>r\<rfloor>\<bar> \<le> js_max_safe)"
| "js_is_safe_integer _ = False"

text \<open>The finite value of a number, where it has one.\<close>

fun jnum_val :: "jnum \<Rightarrow> rat option" where
  "jnum_val (Fin r) = Some r"
| "jnum_val _ = None"

lemma js_is_finite_iff: "js_is_finite n \<longleftrightarrow> (\<exists>r. n = Fin r)"
  by (cases n) auto

lemma js_is_safe_integer_integer [js_simps]: "js_is_safe_integer n \<Longrightarrow> js_is_integer n"
  by (cases n) auto

lemma js_is_safe_integer_iff:
  "js_is_safe_integer n \<longleftrightarrow> (\<exists>i. n = Fin (of_int i) \<and> \<bar>i\<bar> \<le> js_max_safe)"
proof (cases n)
  case (Fin r)
  have "of_int \<lfloor>r\<rfloor> = r \<longleftrightarrow> (\<exists>i. r = of_int i \<and> i = \<lfloor>r\<rfloor>)"
    by metis
  then show ?thesis by (auto simp: Fin)
qed auto

section \<open>Strings\<close>

definition starts_with :: "string \<Rightarrow> string \<Rightarrow> bool" where
  "starts_with p s \<longleftrightarrow> take (length p) s = p"

definition ends_with :: "string \<Rightarrow> string \<Rightarrow> bool" where
  "ends_with p s \<longleftrightarrow> length p \<le> length s \<and> drop (length s - length p) s = p"

fun split_on :: "char \<Rightarrow> string \<Rightarrow> string list" where
  "split_on c [] = [[]]"
| "split_on c (x # xs) =
     (if x = c then [] # split_on c xs
      else (case split_on c xs of [] \<Rightarrow> [[x]] | y # ys \<Rightarrow> (x # y) # ys))"

fun join_with :: "string \<Rightarrow> string list \<Rightarrow> string" where
  "join_with sep [] = []"
| "join_with sep [x] = x"
| "join_with sep (x # y # ys) = x @ sep @ join_with sep (y # ys)"

text \<open>
  White space as \<open>String.prototype.trim\<close> and the class \<open>\s\<close> read it, among the code
  units below 256: tab, line feed, vertical tab, form feed, carriage return, space and
  the no-break space.
\<close>

definition js_space :: "char \<Rightarrow> bool" where
  "js_space c \<longleftrightarrow> (let n = (of_char c :: nat) in n \<in> {9, 10, 11, 12, 13, 32, 160})"

definition trim_start :: "string \<Rightarrow> string" where
  "trim_start s = dropWhile js_space s"

definition js_trim :: "string \<Rightarrow> string" where
  "js_trim s = rev (dropWhile js_space (rev (dropWhile js_space s)))"

definition control_char :: "char \<Rightarrow> bool" where
  "control_char c \<longleftrightarrow> (let n = (of_char c :: nat) in n < 32 \<or> n = 127)"

definition is_digit :: "char \<Rightarrow> bool" where
  "is_digit c \<longleftrightarrow> (let n = (of_char c :: nat) in 48 \<le> n \<and> n \<le> 57)"

definition is_upper :: "char \<Rightarrow> bool" where
  "is_upper c \<longleftrightarrow> (let n = (of_char c :: nat) in 65 \<le> n \<and> n \<le> 90)"

definition is_lower :: "char \<Rightarrow> bool" where
  "is_lower c \<longleftrightarrow> (let n = (of_char c :: nat) in 97 \<le> n \<and> n \<le> 122)"

definition is_letter :: "char \<Rightarrow> bool" where
  "is_letter c \<longleftrightarrow> is_upper c \<or> is_lower c"

definition is_alnum :: "char \<Rightarrow> bool" where
  "is_alnum c \<longleftrightarrow> is_letter c \<or> is_digit c"

definition is_hex_digit :: "char \<Rightarrow> bool" where
  "is_hex_digit c \<longleftrightarrow> (let n = (of_char c :: nat) in (48 \<le> n \<and> n \<le> 57) \<or> (97 \<le> n \<and> n \<le> 102))"

text \<open>\<open>toLowerCase\<close> and \<open>toUpperCase\<close> where the result is ASCII, which is all the sources compare
  with: the sharp s is the one other character below 256 that becomes ASCII.\<close>

definition to_lower :: "string \<Rightarrow> string" where
  "to_lower s = map (\<lambda>c. if is_upper c then char_of (of_char c + 32 :: nat) else c) s"

definition to_upper :: "string \<Rightarrow> string" where
  "to_upper s = concat (map (\<lambda>c. if is_lower c then [char_of (of_char c - 32 :: nat)]
     else if c = CHR 0xDF then ''SS'' else [c]) s)"

text \<open>The pattern \<open>/^[0-9a-f]{64}$/\<close>: a lower-case SHA-256 digest.\<close>

definition hex64 :: "string \<Rightarrow> bool" where
  "hex64 s \<longleftrightarrow> length s = 64 \<and> list_all is_hex_digit s"

text \<open>Characters that are awkward as literals.\<close>

definition backslash :: char where
  "backslash = CHR 0x5C"

definition nul_char :: char where
  "nul_char = CHR 0x00"

text \<open>The decimal digits of a natural number, as template strings print it.\<close>

fun show_nat :: "nat \<Rightarrow> string" where
  "show_nat n =
     (if n < 10 then [char_of (48 + n)] else show_nat (n div 10) @ [char_of (48 + n mod 10)])"

declare show_nat.simps [simp del]

lemma starts_with_append [js_simps]: "starts_with p (p @ s)"
  by (simp add: starts_with_def)

lemma starts_with_iff: "starts_with p s \<longleftrightarrow> (\<exists>t. s = p @ t)"
  by (metis append_eq_conv_conj starts_with_def append_take_drop_id)

lemma starts_with_append_iff [js_simps]: "starts_with (p @ q) (p @ s) \<longleftrightarrow> starts_with q s"
  by (simp add: starts_with_def)

lemma ends_with_iff: "ends_with p s \<longleftrightarrow> (\<exists>t. s = t @ p)"
proof
  assume "ends_with p s"
  then have "s = take (length s - length p) s @ p"
    by (metis append_take_drop_id ends_with_def)
  then show "\<exists>t. s = t @ p" ..
qed (auto simp: ends_with_def)

lemma split_on_nonempty [simp]: "split_on c s \<noteq> []"
  by (induction s) (auto split: list.splits)

lemma join_split_on: "join_with [c] (split_on c s) = s"
proof (induction s)
  case (Cons x xs)
  obtain y ys where ys: "split_on c xs = y # ys"
    using split_on_nonempty by (meson list.exhaust)
  with Cons show ?case
    by (cases ys) auto
qed simp

lemma split_on_segment_free: "seg \<in> set (split_on c s) \<Longrightarrow> c \<notin> set seg"
proof (induction s arbitrary: seg)
  case (Cons x xs)
  then show ?case
    by (cases "split_on c xs") (auto split: if_splits)
qed simp

lemma split_on_subset: "seg \<in> set (split_on c s) \<Longrightarrow> set seg \<subseteq> set s"
proof (induction s arbitrary: seg)
  case (Cons x xs)
  obtain y ys where ys: "split_on c xs = y # ys"
    using split_on_nonempty by (meson list.exhaust)
  have "set y \<subseteq> set xs" "\<forall>z \<in> set ys. set z \<subseteq> set xs"
    using Cons.IH by (auto simp: ys)
  with Cons.prems ys show ?case by (auto split: if_splits)
qed simp

lemma split_on_id: "c \<notin> set s \<Longrightarrow> split_on c s = [s]"
  by (induction s) auto

lemma split_on_append: "c \<notin> set s \<Longrightarrow> split_on c (s @ c # t) = s # split_on c t"
  by (induction s) auto

lemma split_on_join:
  "xs \<noteq> [] \<Longrightarrow> (\<forall>x \<in> set xs. c \<notin> set x) \<Longrightarrow> split_on c (join_with [c] xs) = xs"
proof (induction "[c]" xs rule: join_with.induct)
  case (3 x y ys)
  then have "split_on c (x @ c # join_with [c] (y # ys)) = x # y # ys"
    by (subst split_on_append) auto
  then show ?case by simp
qed (auto intro: split_on_id)

lemma set_join_with: "set (join_with sep xs) \<subseteq> \<Union> (set ` set xs) \<union> set sep"
  by (induction sep xs rule: join_with.induct) auto

lemma length_join_with:
  "xs \<noteq> [] \<Longrightarrow> Suc (length (join_with [c] xs)) = sum_list (map (\<lambda>x. Suc (length x)) xs)"
  by (induction "[c]" xs rule: join_with.induct) auto

lemma length_join_filter_split:
  "length (join_with [c] (filter P (split_on c s))) \<le> length s"
proof (cases "filter P (split_on c s) = []")
  case False
  let ?f = "\<lambda>x. Suc (length x)"
  have "Suc (length (join_with [c] (filter P (split_on c s))))
          = sum_list (map ?f (filter P (split_on c s)))"
    using False by (rule length_join_with)
  also have "\<dots> \<le> sum_list (map ?f (split_on c s))"
    by (rule sum_list_filter_le_nat)
  also have "\<dots> = Suc (length s)"
    using length_join_with [of "split_on c s" c] by (simp add: join_split_on)
  finally show ?thesis by simp
qed simp

lemma js_trim_shorter: "js_trim s \<noteq> s \<Longrightarrow> length (js_trim s) < length s"
proof -
  assume ne: "js_trim s \<noteq> s"
  let ?d = "dropWhile js_space s"
  let ?e = "dropWhile js_space (rev ?d)"
  have le: "length ?e \<le> length ?d" "length ?d \<le> length s"
    using length_dropWhile_le [of js_space "rev ?d"] by (simp_all add: length_dropWhile_le)
  show ?thesis
  proof (rule ccontr)
    assume "\<not> length (js_trim s) < length s"
    then have "length ?d = length s" "length ?e = length (rev ?d)"
      using le by (simp_all add: js_trim_def)
    then have "?d = s" "?e = rev ?d"
      by (metis append_Nil length_0_conv append_take_drop_id dropWhile_eq_drop length_drop
          diff_is_0_eq' add_diff_cancel_left' le_add_diff_inverse length_dropWhile_le
          takeWhile_dropWhile_id append_eq_append_conv)+
    then have "js_trim s = s" by (simp add: js_trim_def)
    with ne show False ..
  qed
qed

lemma set_js_trim: "set (js_trim s) \<subseteq> set s"
proof
  fix x assume "x \<in> set (js_trim s)"
  then have "x \<in> set (dropWhile js_space s)"
    by (auto simp: js_trim_def dest: set_dropWhileD)
  then show "x \<in> set s" by (rule set_dropWhileD)
qed

lemma js_trim_length: "length (js_trim s) \<le> length s"
  unfolding js_trim_def
  by (metis length_dropWhile_le length_rev order_trans)

lemma dropWhile_id: "(xs \<noteq> [] \<Longrightarrow> \<not> P (hd xs)) \<Longrightarrow> dropWhile P xs = xs"
  by (cases xs) auto

lemma js_trim_ends:
  assumes "js_trim s \<noteq> []"
  shows "\<not> js_space (hd (js_trim s))" and "\<not> js_space (last (js_trim s))"
proof -
  let ?d = "dropWhile js_space s"
  let ?e = "dropWhile js_space (rev ?d)"
  have e: "?e \<noteq> []" using assms by (simp add: js_trim_def)
  have last: "last (js_trim s) = hd ?e"
    using e by (simp add: js_trim_def last_rev)
  from e show "\<not> js_space (last (js_trim s))"
    unfolding last by (rule hd_dropWhile)
  obtain pre where "rev ?d = pre @ ?e"
    by (metis takeWhile_dropWhile_id)
  then have d: "?d = rev ?e @ rev pre" by (metis rev_append rev_rev_ident)
  from d e have ne: "?d \<noteq> []" by (metis append_is_Nil_conv rev_is_Nil_conv)
  from d e have hd: "hd (js_trim s) = hd ?d"
    unfolding js_trim_def by (metis hd_append2 rev_is_Nil_conv)
  from ne show "\<not> js_space (hd (js_trim s))"
    unfolding hd by (rule hd_dropWhile)
qed

lemma js_trim_id:
  assumes "s \<noteq> [] \<Longrightarrow> \<not> js_space (hd s) \<and> \<not> js_space (last s)"
  shows "js_trim s = s"
proof -
  have "dropWhile js_space s = s" using assms by (intro dropWhile_id) simp
  moreover have "dropWhile js_space (rev s) = rev s"
    using assms by (intro dropWhile_id) (simp add: hd_rev)
  ultimately show ?thesis by (simp add: js_trim_def)
qed

lemma js_trim_idem [js_simps]: "js_trim (js_trim s) = js_trim s"
  by (rule js_trim_id) (simp add: js_trim_ends)

section \<open>Values of the wire\<close>

text \<open>
  What \<open>JSON.parse\<close> and an object literal can put where the sources say \<open>unknown\<close>.
  An object is the list of its own enumerable properties in their order; reading an
  absent property gives \<open>undefined\<close>.
\<close>

datatype json =
    JUndef
  | JNull
  | JBool bool
  | JNum jnum
  | JStr string
  | JArr "json list"
  | JObj "(string \<times> json) list"

text \<open>\<open>typeof value === "object" && value !== null\<close>: arrays pass this test.\<close>

fun is_record :: "json \<Rightarrow> bool" where
  "is_record (JObj _) = True"
| "is_record (JArr _) = True"
| "is_record _ = False"

fun obj_keys :: "json \<Rightarrow> string list" where
  "obj_keys (JObj kvs) = map fst kvs"
| "obj_keys (JArr xs) = map show_nat [0..<length xs]"
| "obj_keys _ = []"

fun obj_get :: "json \<Rightarrow> string \<Rightarrow> json" where
  "obj_get (JObj kvs) k = (case map_of kvs k of None \<Rightarrow> JUndef | Some v \<Rightarrow> v)"
| "obj_get _ k = JUndef"

fun as_string :: "json \<Rightarrow> string option" where
  "as_string (JStr s) = Some s"
| "as_string _ = None"

fun as_number :: "json \<Rightarrow> jnum option" where
  "as_number (JNum n) = Some n"
| "as_number _ = None"

fun as_bool :: "json \<Rightarrow> bool option" where
  "as_bool (JBool b) = Some b"
| "as_bool _ = None"

text \<open>\<open>typeof v === "string" && v.length > 0\<close>, as the parsers ask of an id.\<close>

definition nonempty_string :: "json \<Rightarrow> string option" where
  "nonempty_string v =
     (case as_string v of None \<Rightarrow> None | Some s \<Rightarrow> if s = [] then None else Some s)"

text \<open>The first own property outside the allow-list, where there is one.\<close>

definition unsupported_key :: "string list \<Rightarrow> json \<Rightarrow> string option" where
  "unsupported_key allowed v = find (\<lambda>k. k \<notin> set allowed) (obj_keys v)"

lemma nonempty_string_Some [js_simps]:
  "nonempty_string v = Some s \<longleftrightarrow> v = JStr s \<and> s \<noteq> []"
  by (cases v) (auto simp: nonempty_string_def)

lemma as_string_Some [js_simps]: "as_string v = Some s \<longleftrightarrow> v = JStr s"
  by (cases v) auto

lemma as_number_Some [js_simps]: "as_number v = Some n \<longleftrightarrow> v = JNum n"
  by (cases v) auto

lemma unsupported_key_None [js_simps]:
  "unsupported_key allowed v = None \<longleftrightarrow> set (obj_keys v) \<subseteq> set allowed"
  by (auto simp: unsupported_key_def find_None_iff)

lemma unsupported_key_SomeD: "unsupported_key allowed v = Some k \<Longrightarrow> k \<notin> set allowed"
  by (auto simp: unsupported_key_def find_Some_iff)

section \<open>Lists\<close>

lemma find_append: "find P (xs @ ys) = (case find P xs of None \<Rightarrow> find P ys | Some x \<Rightarrow> Some x)"
  by (induction xs) auto

lemma find_SomeD: "find P xs = Some x \<Longrightarrow> P x \<and> x \<in> set xs"
  by (auto simp: find_Some_iff)

lemma length_filter_zero_map:
  "length (filter p xs) = 0 \<Longrightarrow> map (\<lambda>x. if p x then f x else x) xs = xs"
  by (induction xs) (auto split: if_splits)

lemma map_of_map_fst_notin: "k \<notin> set (map fst xs) \<Longrightarrow> map_of xs k = None"
  by (simp add: map_of_eq_None_iff)

text \<open>Reading an optional value with a default: \<open>x ?? d\<close>.\<close>

definition or_default :: "'a option \<Rightarrow> 'a \<Rightarrow> 'a" where
  "or_default x d = (case x of None \<Rightarrow> d | Some v \<Rightarrow> v)"

lemma or_default_simps [simp]: "or_default None d = d" "or_default (Some v) d = v"
  by (simp_all add: or_default_def)

text \<open>\<open>Math.min(Math.max(x, lo), hi)\<close>.\<close>

definition clamp :: "int \<Rightarrow> int \<Rightarrow> int \<Rightarrow> int" where
  "clamp lo hi x = min (max x lo) hi"

lemma clamp_bounds: "lo \<le> hi \<Longrightarrow> lo \<le> clamp lo hi x \<and> clamp lo hi x \<le> hi"
  by (simp add: clamp_def)

text \<open>\<open>Math.round\<close>: to the nearest integer, a half upwards.\<close>

definition js_round :: "rat \<Rightarrow> int" where
  "js_round r = \<lfloor>r + 1 / 2\<rfloor>"

end
