(* ===== verification/Versions.thy ===== *)
theory Versions
  imports Prelude
begin

text \<open>
  The version comparator of \<open>packages/core/src/version-compare.ts\<close> and the capability
  gate of \<open>packages/core/src/remote-update.ts\<close>, which carries its own copy of the
  parser. A version is the list of its three numeric components. Components are exact
  naturals; a component that \<open>Number.parseInt\<close> would turn into \<open>Infinity\<close> makes the
  version unparseable, as \<open>Number.isFinite\<close> does in the code. (The rounding of
  components above \<open>2^53\<close> to a double is not modelled.)
\<close>

section \<open>Parsing\<close>

definition parse_dec :: "string \<Rightarrow> nat" where
  "parse_dec s = foldl (\<lambda>n c. 10 * n + (of_char c - 48)) 0 s"

text \<open>The least natural that rounds to \<open>Infinity\<close>.\<close>

definition js_infinity_bound :: nat where
  "js_infinity_bound = 2 ^ 1024 - 2 ^ 970"

text \<open>One \<open>(\d+)\<close> group: its digits and what follows.\<close>

definition read_digits :: "string \<Rightarrow> (string \<times> string) option" where
  "read_digits s =
     (let d = takeWhile is_digit s
      in if d = [] then None else Some (d, dropWhile is_digit s))"

fun read_dot :: "string \<Rightarrow> string option" where
  "read_dot (c # s) = (if c = CHR ''.'' then Some s else None)"
| "read_dot [] = None"

definition strip_v :: "string \<Rightarrow> string" where
  "strip_v s = (case s of [] \<Rightarrow> [] | c # t \<Rightarrow> if c = CHR ''v'' \<or> c = CHR ''V'' then t else s)"

definition match_triple :: "string \<Rightarrow> string list option" where
  "match_triple s =
     Option.bind (read_digits s) (\<lambda>(a, s1).
     Option.bind (read_dot s1) (\<lambda>s2.
     Option.bind (read_digits s2) (\<lambda>(b, s3).
     Option.bind (read_dot s3) (\<lambda>s4.
     Option.bind (read_digits s4) (\<lambda>(c, _). Some [a, b, c])))))"

definition parse_semver :: "string \<Rightarrow> nat list option" where
  "parse_semver v =
     (case match_triple (strip_v (js_trim v)) of
        None \<Rightarrow> None
      | Some ds \<Rightarrow>
          (let nums = map parse_dec ds
           in if list_ex (\<lambda>n. js_infinity_bound \<le> n) nums then None else Some nums))"

section \<open>Comparison\<close>

text \<open>The loop of \<open>isNewer\<close> over the components still to be compared.\<close>

fun newer_from :: "nat list \<Rightarrow> nat list \<Rightarrow> bool" where
  "newer_from (c # cs) (d # ds) =
     (if d > c then True else if d < c then False else newer_from cs ds)"
| "newer_from _ _ = False"

definition is_newer :: "string \<Rightarrow> string \<Rightarrow> bool" where
  "is_newer current candidate =
     (case (parse_semver current, parse_semver candidate) of
        (Some cur, Some can) \<Rightarrow> newer_from cur can
      | _ \<Rightarrow> False)"

definition REMOTE_DAEMON_UPDATE_MIN_VERSION :: string where
  "REMOTE_DAEMON_UPDATE_MIN_VERSION = ''0.3.6''"

text \<open>The loop of \<open>daemonSupportsRemoteUpdate\<close>: equal to the end means supported.\<close>

fun at_least_from :: "nat list \<Rightarrow> nat list \<Rightarrow> bool" where
  "at_least_from (c # cs) (m # ms) =
     (if c < m then False else if c > m then True else at_least_from cs ms)"
| "at_least_from _ _ = True"

definition daemon_supports_remote_update :: "string option \<Rightarrow> bool" where
  "daemon_supports_remote_update version =
     (case version of
        None \<Rightarrow> False
      | Some v \<Rightarrow>
          if v = [] then False
          else (case (parse_semver v, parse_semver REMOTE_DAEMON_UPDATE_MIN_VERSION) of
                  (Some cur, Some mn) \<Rightarrow> at_least_from cur mn
                | _ \<Rightarrow> False))"

section \<open>Lemmas\<close>

lemma match_triple_length: "match_triple s = Some ds \<Longrightarrow> length ds = 3"
  by (auto simp: match_triple_def bind_eq_Some_conv)

lemma parse_semver_Some:
  "parse_semver v = Some ns \<longleftrightarrow>
     (\<exists>ds. match_triple (strip_v (js_trim v)) = Some ds \<and> ns = map parse_dec ds \<and>
           (\<forall>n \<in> set ns. n < js_infinity_bound))"
  by (cases "match_triple (strip_v (js_trim v))")
     (force simp: parse_semver_def Let_def list_ex_iff not_le simp flip: not_less)+

lemma parse_semver_length: "parse_semver v = Some ns \<Longrightarrow> length ns = 3"
  unfolding parse_semver_Some using match_triple_length by force

lemma newer_from_irrefl: "\<not> newer_from xs xs"
  by (induction xs) auto

lemma newer_from_asym: "newer_from xs ys \<Longrightarrow> \<not> newer_from ys xs"
  by (induction xs ys rule: newer_from.induct) (auto split: if_splits)

lemma newer_from_trans:
  "length xs = length ys \<Longrightarrow> length ys = length zs \<Longrightarrow>
   newer_from xs ys \<Longrightarrow> newer_from ys zs \<Longrightarrow> newer_from xs zs"
  by (induction xs ys zs rule: list_induct3) (auto split: if_splits)

lemma newer_from_total:
  "length xs = length ys \<Longrightarrow> xs \<noteq> ys \<Longrightarrow> newer_from xs ys \<or> newer_from ys xs"
  by (induction xs ys rule: list_induct2) auto

lemma at_least_from_not_newer:
  "length xs = length ys \<Longrightarrow> at_least_from xs ys \<longleftrightarrow> \<not> newer_from xs ys"
  by (induction xs ys rule: list_induct2) auto

lemma of_char_digit [simp]:
  "d < 10 \<Longrightarrow> (of_char (char_of (48 + d) :: char) :: nat) = 48 + d"
  by simp

lemma is_digit_char_of [simp]: "d < 10 \<Longrightarrow> is_digit (char_of (48 + d :: nat))"
  by (simp add: is_digit_def)

lemma parse_dec_snoc: "parse_dec (s @ [c]) = 10 * parse_dec s + (of_char c - 48)"
  by (simp add: parse_dec_def)

lemma show_nat_digits: "list_all is_digit (show_nat n)"
proof (induction n rule: show_nat.induct)
  case (1 n)
  then show ?case by (subst show_nat.simps) simp
qed

lemma show_nat_nonempty [simp]: "show_nat n \<noteq> []"
  by (subst show_nat.simps) simp

lemma parse_dec_show_nat: "parse_dec (show_nat n) = n"
proof (induction n rule: show_nat.induct)
  case (1 n)
  show ?case
  proof (cases "n < 10")
    case True
    then show ?thesis by (subst show_nat.simps) (simp add: parse_dec_def)
  next
    case False
    then have "parse_dec (show_nat n) = 10 * parse_dec (show_nat (n div 10)) + n mod 10"
      by (subst show_nat.simps) (simp add: parse_dec_snoc)
    with 1 False show ?thesis by simp
  qed
qed

lemma read_digits_show_nat:
  assumes "rest = [] \<or> \<not> is_digit (hd rest)"
  shows "read_digits (show_nat n @ rest) = Some (show_nat n, rest)"
proof -
  have all: "\<forall>c \<in> set (show_nat n). is_digit c"
    using show_nat_digits by (simp add: list_all_iff)
  have "takeWhile is_digit rest = []" "dropWhile is_digit rest = rest"
    using assms by (cases rest; simp)+
  with all show ?thesis
    by (simp add: read_digits_def takeWhile_append2 dropWhile_append2)
qed

lemma dot_not_digit [simp]: "\<not> is_digit (CHR ''.'')"
  by (simp add: is_digit_def)

lemma match_triple_shown:
  assumes "suffix = [] \<or> \<not> is_digit (hd suffix)"
  shows "match_triple (show_nat a @ ''.'' @ show_nat b @ ''.'' @ show_nat c @ suffix)
           = Some [show_nat a, show_nat b, show_nat c]"
  by (simp add: match_triple_def read_digits_show_nat assms)

lemma is_newer_iff:
  "is_newer a b \<longleftrightarrow>
     (\<exists>x y. parse_semver a = Some x \<and> parse_semver b = Some y \<and> newer_from x y)"
  by (simp add: is_newer_def split: option.split)

lemma strip_v_shown: "strip_v (show_nat a @ rest) = show_nat a @ rest"
proof -
  obtain c t where ct: "show_nat a = c # t"
    using show_nat_nonempty by (meson list.exhaust)
  then have "is_digit c" using show_nat_digits [of a] by simp
  then have "c \<noteq> CHR ''v''" "c \<noteq> CHR ''V''" by (auto simp: is_digit_def)
  with ct show ?thesis by (simp add: strip_v_def)
qed

lemma parse_min_version: "parse_semver REMOTE_DAEMON_UPDATE_MIN_VERSION = Some [0, 3, 6]"
proof -
  have "js_trim ''0.3.6'' = ''0.3.6''"
    by (rule js_trim_id) (simp add: js_space_def)
  moreover have "match_triple (strip_v ''0.3.6'') = Some [''0'', ''3'', ''6'']"
    by (simp add: strip_v_def match_triple_def read_digits_def is_digit_def)
  moreover have "(8::nat) \<le> js_infinity_bound"
    by (simp add: js_infinity_bound_def)
  ultimately show ?thesis
    by (simp add: parse_semver_Some REMOTE_DAEMON_UPDATE_MIN_VERSION_def parse_dec_def)
qed

lemma daemon_supports_iff:
  "daemon_supports_remote_update (Some v) \<longleftrightarrow>
     (\<exists>ns. parse_semver v = Some ns \<and> at_least_from ns [0, 3, 6])"
proof -
  have "parse_semver [] = None"
    by (simp add: parse_semver_def js_trim_def strip_v_def match_triple_def read_digits_def)
  then show ?thesis
    by (auto simp: daemon_supports_remote_update_def parse_min_version split: option.split)
qed

section \<open>Properties\<close>

lemma is_newer_order:
  "\<not> is_newer a a \<and> \<not> (is_newer a b \<and> is_newer b a) \<and>
   (is_newer a b \<and> is_newer b c \<longrightarrow> is_newer a c)"
proof (intro conjI impI)
  show "\<not> is_newer a a"
    by (auto simp: is_newer_iff newer_from_irrefl)
  show "\<not> (is_newer a b \<and> is_newer b a)"
    by (auto simp: is_newer_iff dest: newer_from_asym)
  assume "is_newer a b \<and> is_newer b c"
  then show "is_newer a c"
    by (auto simp: is_newer_iff) (metis newer_from_trans parse_semver_length)
qed

text \<open>
  The remote-update gate and the release comparator agree: a daemon may be sent
  \<open>update_daemon\<close> exactly when its version parses and the release 0.3.6 is not newer
  than it. The two modules carry separate copies of the comparison, so this is what
  keeps the button of the UI and the "update available" verdict consistent.
\<close>

theorem daemon_gate_agrees_with_is_newer:
  "daemon_supports_remote_update (Some v) \<longleftrightarrow>
     parse_semver v \<noteq> None \<and> \<not> is_newer v REMOTE_DAEMON_UPDATE_MIN_VERSION"
proof -
  have "at_least_from ns [0, 3, 6] \<longleftrightarrow> \<not> newer_from ns [0, 3, 6]"
    if "parse_semver v = Some ns" for ns
    using parse_semver_length [OF that] by (simp add: at_least_from_not_newer)
  then show ?thesis
    by (auto simp: daemon_supports_iff is_newer_iff parse_min_version)
qed

lemma parse_semver_shown:
  assumes "suffix = [] \<or> \<not> is_digit (hd suffix) \<and> \<not> js_space (last suffix)"
    and "a < js_infinity_bound" "b < js_infinity_bound" "c < js_infinity_bound"
  shows "parse_semver (show_nat a @ ''.'' @ show_nat b @ ''.'' @ show_nat c @ suffix)
           = Some [a, b, c]"
proof -
  let ?s = "show_nat a @ ''.'' @ show_nat b @ ''.'' @ show_nat c @ suffix"
  have digit: "\<not> js_space d" if "is_digit d" for d
    using that by (auto simp: js_space_def is_digit_def Let_def)
  have "is_digit (hd (show_nat a))" "is_digit (last (show_nat c))"
    using show_nat_digits [of a] show_nat_digits [of c] by (simp_all add: list_all_iff)
  then have "\<not> js_space (hd ?s)" "\<not> js_space (last ?s)"
    using assms(1) digit by (cases "suffix = []"; simp)+
  then have "js_trim ?s = ?s" by (intro js_trim_id) blast
  moreover have "match_triple ?s = Some [show_nat a, show_nat b, show_nat c]"
    using assms(1) by (intro match_triple_shown) blast
  ultimately show ?thesis
    using assms(2-4) strip_v_shown [of a] by (simp add: parse_semver_Some parse_dec_show_nat)
qed

end
