(* ===== verification/Destinations.thy ===== *)
theory Destinations
  imports Prelude
begin

text \<open>
  The folder and assignment records of \<open>packages/core/src/types.ts\<close>, the effective
  folder type (\<open>effective-type.ts\<close>), the watch debounce window (\<open>folder-watch.ts\<close>)
  and the canonical destination keys that serialize writers (\<open>destination.ts\<close>). An
  optional field that is \<open>null\<close> or absent is \<open>None\<close>. \<open>resolveDestination\<close>
  throws on a malformed prefix; here that is the error \<open>InvalidDestination\<close>.
\<close>

section \<open>Folders and assignments\<close>

datatype folder_type = FSync | FMount | FBackup | FDotfile | FGit

datatype folder_backend = BSftp | BS3 | BLocal | BNfs | BRestic

datatype assignment_mode = ModeInherit | ModeSync | ModeMount

record folder =
  fo_id :: string
  fo_name :: string
  fo_type :: folder_type
  fo_created_at :: "int option"
  fo_encrypted :: "bool option"
  fo_crypt_password :: "string option"
  fo_git_provider :: "string option"
  fo_git_remote :: "string option"
  fo_backend :: "folder_backend option"
  fo_backend_id :: "string option"
  fo_s3_bucket :: "string option"

record folder_assignment =
  fa_id :: string
  fa_folder_id :: string
  fa_host_id :: string
  fa_role :: string
  fa_local_path :: string
  fa_remote_name :: "string option"
  fa_destination :: "string option"
  fa_sync_expr :: "string option"
  fa_enabled :: bool
  fa_mode :: "assignment_mode option"
  fa_conflict_strategy :: "string option"
  fa_pre_sync_cmd :: "string option"
  fa_post_sync_cmd :: "string option"
  fa_ignore_path :: "string option"
  fa_mount_ignore_path :: "string option"
  fa_timeout_sec :: "int option"
  fa_bandwidth_schedule :: "string option"
  fa_max_retries :: "int option"
  fa_available_space_threshold :: "int option"
  fa_cache_profile :: "string option"
  fa_cache_max_size :: "string option"
  fa_restic_repository :: "string option"
  fa_restic_password :: "string option"
  fa_watch_enabled :: "bool option"
  fa_watch_quiet_sec :: "int option"
  fa_ignore_git_metadata :: "bool option"
  fa_respect_gitignore :: "bool option"
  fa_bisync_max_delete_percent :: "int option"
  fa_mount_cache_mode :: "string option"

definition effective_folder_type :: "folder \<Rightarrow> folder_assignment \<Rightarrow> folder_type" where
  "effective_folder_type f a =
     (if fo_type f \<noteq> FSync \<and> fo_type f \<noteq> FMount then fo_type f
      else (case fa_mode a of
              Some ModeMount \<Rightarrow> FMount
            | Some ModeSync \<Rightarrow> FSync
            | _ \<Rightarrow> fo_type f))"

definition normalize_assignment_mode :: "json \<Rightarrow> assignment_mode" where
  "normalize_assignment_mode v =
     (if v = JStr ''sync'' then ModeSync
      else if v = JStr ''mount'' then ModeMount
      else ModeInherit)"

section \<open>The watch window\<close>

definition WATCH_QUIET_SEC_DEFAULT :: int where
  "WATCH_QUIET_SEC_DEFAULT = 30"

definition WATCH_QUIET_SEC_MIN :: int where
  "WATCH_QUIET_SEC_MIN = 10"

definition WATCH_QUIET_SEC_MAX :: int where
  "WATCH_QUIET_SEC_MAX = 300"

text \<open>\<open>Math.trunc\<close>: towards zero.\<close>

definition js_trunc :: "rat \<Rightarrow> int" where
  "js_trunc r = (if 0 \<le> r then \<lfloor>r\<rfloor> else \<lceil>r\<rceil>)"

definition resolve_watch_quiet_sec :: "jnum option \<Rightarrow> int" where
  "resolve_watch_quiet_sec value =
     (case Option.bind value jnum_val of
        None \<Rightarrow> WATCH_QUIET_SEC_DEFAULT
      | Some r \<Rightarrow>
          if r \<le> 0 then WATCH_QUIET_SEC_DEFAULT
          else if r < of_int WATCH_QUIET_SEC_MIN then WATCH_QUIET_SEC_MIN
          else if r > of_int WATCH_QUIET_SEC_MAX then WATCH_QUIET_SEC_MAX
          else js_trunc r)"

definition is_valid_watch_quiet_sec :: "jnum option \<Rightarrow> bool" where
  "is_valid_watch_quiet_sec value =
     (case value of
        None \<Rightarrow> True
      | Some n \<Rightarrow>
          (case jnum_val n of
             None \<Rightarrow> False
           | Some r \<Rightarrow>
               if r \<noteq> of_int (js_trunc r) then False
               else of_int WATCH_QUIET_SEC_MIN \<le> r \<and> r \<le> of_int WATCH_QUIET_SEC_MAX))"

definition normalize_watch_quiet_sec :: "json \<Rightarrow> rat option" where
  "normalize_watch_quiet_sec value =
     (case value of
        JNum n \<Rightarrow>
          (case jnum_val n of
             None \<Rightarrow> None
           | Some r \<Rightarrow>
               if r \<noteq> of_int (js_trunc r) then None
               else if r < of_int WATCH_QUIET_SEC_MIN \<or> r > of_int WATCH_QUIET_SEC_MAX then None
               else Some r)
      | _ \<Rightarrow> None)"

section \<open>Destinations\<close>

datatype destination_error = InvalidDestination

definition join_path :: "string list \<Rightarrow> string" where
  "join_path parts = join_with ''/'' (filter (\<lambda>p. p \<noteq> []) (map js_trim parts))"

definition backslashes_to_slashes :: "string \<Rightarrow> string" where
  "backslashes_to_slashes s = map (\<lambda>c. if c = backslash then CHR ''/'' else c) s"

definition bad_destination_part :: "string \<Rightarrow> bool" where
  "bad_destination_part part \<longleftrightarrow> part = ''.'' \<or> part = ''..'' \<or> nul_char \<in> set part"

definition normalize_destination :: "string \<Rightarrow> string option" where
  "normalize_destination value =
     (let raw = backslashes_to_slashes (js_trim value)
      in if raw = [] then None
         else if starts_with ''/'' raw then None
         else (let parts = filter (\<lambda>p. p \<noteq> []) (split_on (CHR ''/'') raw)
               in if parts = [] \<or> list_ex bad_destination_part parts then None
                  else Some (join_with ''/'' parts)))"

definition default_destination :: "folder \<Rightarrow> folder_assignment \<Rightarrow> string" where
  "default_destination f a =
     (if fo_type f = FBackup then join_path [fo_name f, fa_host_id a] else join_path [fo_name f])"

definition resolve_destination :: "folder \<Rightarrow> folder_assignment \<Rightarrow> destination_error + string" where
  "resolve_destination f a =
     (let explicit = map_option js_trim (fa_destination a)
      in case explicit of
           None \<Rightarrow> Inr (default_destination f a)
         | Some e \<Rightarrow>
             if e = [] then Inr (default_destination f a)
             else (case normalize_destination e of
                     None \<Rightarrow> Inl InvalidDestination
                   | Some d \<Rightarrow> Inr d))"

fun backend_label :: "folder_backend option \<Rightarrow> string" where
  "backend_label None = ''remote''"
| "backend_label (Some BSftp) = ''sftp''"
| "backend_label (Some BS3) = ''s3''"
| "backend_label (Some BLocal) = ''local''"
| "backend_label (Some BNfs) = ''nfs''"
| "backend_label (Some BRestic) = ''restic''"

text \<open>A string that is present and not empty: what \<open>if (s)\<close> asks.\<close>

definition truthy :: "string option \<Rightarrow> string option" where
  "truthy s = (case s of Some (c # t) \<Rightarrow> Some (c # t) | _ \<Rightarrow> None)"

definition backend_identity :: "folder \<Rightarrow> folder_assignment \<Rightarrow> string" where
  "backend_identity f a =
     (let bucket = (if fo_backend f = Some BS3 then truthy (fo_s3_bucket f) else None)
      in case truthy (fo_backend_id f) of
           Some bid \<Rightarrow>
             backend_label (fo_backend f) @ '':'' @ bid @
             (case bucket of
                None \<Rightarrow> ''''
              | Some b \<Rightarrow> '':bucket:'' @ or_default (normalize_destination b) (js_trim b))
         | None \<Rightarrow>
             (case truthy (map_option js_trim (fa_remote_name a)) of
                Some r \<Rightarrow>
                  (case bucket of
                     Some b \<Rightarrow> ''s3:'' @ r @ '':bucket:'' @ js_trim b
                   | None \<Rightarrow> backend_label (fo_backend f) @ '':'' @ r)
              | None \<Rightarrow>
                  (case bucket of
                     Some b \<Rightarrow> ''s3:'' @ b
                   | None \<Rightarrow> ''folder:'' @ fo_id f)))"

definition strip_trailing_slashes :: "string \<Rightarrow> string" where
  "strip_trailing_slashes s = rev (dropWhile (\<lambda>c. c = CHR ''/'') (rev s))"

definition canonical_destination_key ::
    "folder \<Rightarrow> folder_assignment \<Rightarrow> destination_error + string" where
  "canonical_destination_key f a =
     (case truthy (fa_restic_repository a) of
        Some repo \<Rightarrow>
          (let r = strip_trailing_slashes (js_trim repo)
           in Inr (''repo:'' @ (if r = [] then ''/'' else r)))
      | None \<Rightarrow>
          (case resolve_destination f a of
             Inl e \<Rightarrow> Inl e
           | Inr d \<Rightarrow> Inr (backend_identity f a @ '':path:'' @ d)))"

section \<open>Lemmas\<close>

lemma effective_folder_type_fixed:
  "fo_type f \<notin> {FSync, FMount} \<Longrightarrow> effective_folder_type f a = fo_type f"
  by (simp add: effective_folder_type_def)

lemma effective_folder_type_range:
  "fo_type f \<in> {FSync, FMount} \<Longrightarrow> effective_folder_type f a \<in> {FSync, FMount}"
  by (auto simp: effective_folder_type_def split: option.split assignment_mode.split)

lemma js_trunc_of_int [simp]: "js_trunc (of_int i) = i"
  by (simp add: js_trunc_def)

lemmas watch_defs =
  WATCH_QUIET_SEC_DEFAULT_def WATCH_QUIET_SEC_MIN_def WATCH_QUIET_SEC_MAX_def

lemma resolve_watch_bounds:
  "WATCH_QUIET_SEC_MIN \<le> resolve_watch_quiet_sec v \<and> resolve_watch_quiet_sec v \<le> WATCH_QUIET_SEC_MAX"
proof (cases "Option.bind v jnum_val")
  case None
  then show ?thesis by (simp add: resolve_watch_quiet_sec_def watch_defs)
next
  case (Some r)
  have "10 \<le> \<lfloor>r\<rfloor>" if "\<not> r < 10" using that by (simp add: le_floor_iff)
  moreover have "\<lfloor>r\<rfloor> \<le> 300" if "\<not> r > 300" using that by (simp add: floor_le_iff)
  ultimately show ?thesis
    by (auto simp: Some resolve_watch_quiet_sec_def js_trunc_def watch_defs)
qed

lemma resolve_watch_valid:
  assumes "is_valid_watch_quiet_sec (Some n)"
  shows "\<exists>i. n = Fin (of_int i) \<and> resolve_watch_quiet_sec (Some n) = i"
proof -
  from assms obtain r where n: "n = Fin r" and r: "r = of_int (js_trunc r)"
    and b: "10 \<le> r" "r \<le> 300"
    by (cases n) (auto simp: is_valid_watch_quiet_sec_def watch_defs split: if_splits)
  then have "resolve_watch_quiet_sec (Some n) = js_trunc r"
    by (auto simp: resolve_watch_quiet_sec_def watch_defs)
  with n r show ?thesis by metis
qed

text \<open>
  Whatever is stored or sent as \<open>watchQuietSec\<close>, the debounce window the daemon
  uses lies between 10 and 300 seconds, and a value the API accepts is used unchanged.
\<close>

theorem watch_window_bounded:
  "WATCH_QUIET_SEC_MIN \<le> resolve_watch_quiet_sec v \<and>
   resolve_watch_quiet_sec v \<le> WATCH_QUIET_SEC_MAX \<and>
   (v = Some (Fin (of_int i)) \<and> is_valid_watch_quiet_sec v \<longrightarrow> resolve_watch_quiet_sec v = i)"
  using resolve_watch_bounds [of v] resolve_watch_valid [of "Fin (of_int i)"]
  by auto

theorem watch_window_bounded_witness:
  "is_valid_watch_quiet_sec (Some (Fin 45)) \<and> resolve_watch_quiet_sec (Some (Fin 45)) = 45"
proof -
  have "is_valid_watch_quiet_sec (Some (Fin 45))"
    by (simp add: is_valid_watch_quiet_sec_def js_trunc_def watch_defs)
  then show ?thesis
    using watch_window_bounded [of "Some (Fin 45)" 45] by simp
qed

lemma normalized_parts:
  assumes "normalize_destination v = Some d"
  shows "split_on (CHR ''/'') d \<noteq> [] \<and>
    (\<forall>p \<in> set (split_on (CHR ''/'') d). p \<noteq> [] \<and> \<not> bad_destination_part p) \<and>
    backslash \<notin> set d"
proof -
  define raw where "raw = backslashes_to_slashes (js_trim v)"
  define parts where "parts = filter (\<lambda>p. p \<noteq> []) (split_on (CHR ''/'') raw)"
  from assms have d: "d = join_with ''/'' parts" and ne: "parts \<noteq> []"
    and ok: "\<not> list_ex bad_destination_part parts"
    by (auto simp: normalize_destination_def Let_def raw_def parts_def split: if_splits)
  have free: "\<forall>p \<in> set parts. CHR ''/'' \<notin> set p"
    by (auto simp: parts_def dest: split_on_segment_free)
  have split: "split_on (CHR ''/'') d = parts"
    unfolding d using ne free by (rule split_on_join)
  have "backslash \<notin> set raw"
    by (auto simp: raw_def backslashes_to_slashes_def backslash_def)
  moreover have "set d \<subseteq> set raw \<union> {CHR ''/''}"
  proof -
    have "set d \<subseteq> \<Union> (set ` set parts) \<union> {CHR ''/''}"
      using set_join_with [of "''/''" parts] by (simp add: d)
    then show ?thesis by (auto simp: parts_def dest: split_on_subset)
  qed
  ultimately show ?thesis
    using ok ne by (auto simp: split parts_def list_ex_iff backslash_def)
qed

lemma normalize_destination_relative:
  "normalize_destination v = Some d \<Longrightarrow> d \<noteq> [] \<and> \<not> starts_with ''/'' d"
proof -
  assume v: "normalize_destination v = Some d"
  note parts = normalized_parts [OF v]
  then have "d \<noteq> []" by (cases d) auto
  moreover have "hd d \<noteq> CHR ''/''"
    using parts by (cases d) auto
  ultimately show ?thesis by (cases d) (auto simp: starts_with_def)
qed

lemma backslashes_to_slashes_id: "backslash \<notin> set s \<Longrightarrow> backslashes_to_slashes s = s"
  by (auto simp: backslashes_to_slashes_def intro: map_idI)

lemma normalize_destination_fixed:
  assumes "normalize_destination v = Some d" and "js_trim d = d"
  shows "normalize_destination d = Some d"
proof -
  note parts = normalized_parts [OF assms(1)]
  have raw: "backslashes_to_slashes (js_trim d) = d"
    using parts assms(2) by (simp add: backslashes_to_slashes_id)
  have "filter (\<lambda>p. p \<noteq> []) (split_on (CHR ''/'') d) = split_on (CHR ''/'') d"
    using parts by (intro filter_True) blast
  then show ?thesis
    using parts normalize_destination_relative [OF assms(1)]
    by (simp add: normalize_destination_def raw list_ex_iff join_split_on)
qed

text \<open>
  A destination prefix the server accepts is a relative path that cannot escape its
  namespace: it is not empty, does not start with a slash, holds no backslash, and every
  segment is a real name (never empty, \<open>.\<close>, \<open>..\<close>, or with a NUL). Its segments
  are the string between its slashes, so no later reading of the path can differ.
\<close>

theorem normalized_destination_contained:
  assumes "normalize_destination v = Some d"
  shows "d \<noteq> [] \<and> \<not> starts_with ''/'' d \<and> backslash \<notin> set d \<and>
    (\<forall>p \<in> set (split_on (CHR ''/'') d). p \<noteq> [] \<and> p \<noteq> ''.'' \<and> p \<noteq> ''..'' \<and> nul_char \<notin> set p)"
  using normalized_parts [OF assms] normalize_destination_relative [OF assms]
  by (auto simp: bad_destination_part_def)

lemma normalize_destination_length:
  "normalize_destination v = Some d \<Longrightarrow> length d \<le> length (js_trim v)"
  using length_join_filter_split [of "CHR ''/''" "\<lambda>p. p \<noteq> []" "backslashes_to_slashes (js_trim v)"]
  by (auto simp: normalize_destination_def Let_def backslashes_to_slashes_def split: if_splits)

text \<open>
  Renormalizing a normalized prefix changes nothing exactly when the prefix has no
  white space at its ends. The normal form is therefore not canonical: \<open>a /\<close>
  normalizes to the prefix \<open>a\<close> followed by a space, which normalizes to \<open>a\<close>, so
  the same destination written twice can be locked under two keys.
\<close>

theorem normalize_destination_stable_iff:
  assumes "normalize_destination v = Some d"
  shows "normalize_destination d = Some d \<longleftrightarrow> js_trim d = d"
proof
  assume "normalize_destination d = Some d"
  then have "length d \<le> length (js_trim d)" by (rule normalize_destination_length)
  then show "js_trim d = d" using js_trim_shorter by fastforce
qed (rule normalize_destination_fixed [OF assms])

theorem normalize_destination_stable_iff_witness:
  "normalize_destination ''a /'' = Some ''a '' \<and> normalize_destination ''a '' \<noteq> Some ''a ''"
proof -
  have v: "normalize_destination ''a /'' = Some ''a ''"
    by (simp add: normalize_destination_def js_trim_def js_space_def backslashes_to_slashes_def
        backslash_def starts_with_def bad_destination_part_def nul_char_def)
  moreover have "js_trim ''a '' \<noteq> ''a ''"
    by (simp add: js_trim_def js_space_def)
  ultimately show ?thesis
    using normalize_destination_stable_iff [OF v] by simp
qed

theorem normalized_destination_contained_witness:
  "normalize_destination ''team//backups/'' = Some ''team/backups'' \<and>
   \<not> starts_with ''/'' ''team/backups''"
proof -
  have v: "normalize_destination ''team//backups/'' = Some ''team/backups''"
    by (simp add: normalize_destination_def js_trim_def js_space_def backslashes_to_slashes_def
        backslash_def starts_with_def bad_destination_part_def nul_char_def)
  with normalized_destination_contained [OF v] show ?thesis by simp
qed

section \<open>Destination keys\<close>

definition blank_destination :: "folder_assignment \<Rightarrow> bool" where
  "blank_destination a \<longleftrightarrow> map_option js_trim (fa_destination a) \<in> {None, Some []}"

lemma resolve_blank: "blank_destination a \<Longrightarrow> resolve_destination f a = Inr (default_destination f a)"
  by (auto simp: blank_destination_def resolve_destination_def Let_def)

lemma join_path_host_inj:
  "join_path [n, g] = join_path [n, h] \<longleftrightarrow> js_trim g = js_trim h"
  by (auto simp: join_path_def)

lemma canonical_key_plain:
  "truthy (fa_restic_repository a) = None \<Longrightarrow> resolve_destination f a = Inr d \<Longrightarrow>
   canonical_destination_key f a = Inr (backend_identity f a @ '':path:'' @ d)"
  by (simp add: canonical_destination_key_def)

text \<open>
  Who is serialized with whom by default. Two assignments of one folder over the
  same connection, with no explicit prefix and no restic repository, share the lock key
  exactly when the folder is not a backup folder or they are the same host: ordinary
  backups are host-scoped, sync and mount destinations stay shared.
\<close>

theorem default_key_scope:
  assumes "blank_destination a" and "blank_destination b"
    and "truthy (fa_restic_repository a) = None" and "truthy (fa_restic_repository b) = None"
    and "fa_remote_name a = fa_remote_name b"
  shows "canonical_destination_key f a = canonical_destination_key f b \<longleftrightarrow>
    fo_type f \<noteq> FBackup \<or> js_trim (fa_host_id a) = js_trim (fa_host_id b)"
proof -
  have "backend_identity f a = backend_identity f b"
    by (simp only: backend_identity_def assms(5))
  then show ?thesis
    using assms(1-4)
    by (simp add: canonical_key_plain resolve_blank default_destination_def join_path_host_inj)
qed

definition sample_assignment :: "string \<Rightarrow> folder_assignment" where
  "sample_assignment host =
     \<lparr>fa_id = ''a'', fa_folder_id = ''f'', fa_host_id = host, fa_role = ''both'',
      fa_local_path = ''/data'', fa_remote_name = Some ''r'', fa_destination = None,
      fa_sync_expr = None, fa_enabled = True, fa_mode = None, fa_conflict_strategy = None,
      fa_pre_sync_cmd = None, fa_post_sync_cmd = None, fa_ignore_path = None,
      fa_mount_ignore_path = None, fa_timeout_sec = None, fa_bandwidth_schedule = None,
      fa_max_retries = None, fa_available_space_threshold = None, fa_cache_profile = None,
      fa_cache_max_size = None, fa_restic_repository = None, fa_restic_password = None,
      fa_watch_enabled = None, fa_watch_quiet_sec = None, fa_ignore_git_metadata = None,
      fa_respect_gitignore = None, fa_bisync_max_delete_percent = None,
      fa_mount_cache_mode = None\<rparr>"

definition sample_backup_folder :: folder where
  "sample_backup_folder =
     \<lparr>fo_id = ''f'', fo_name = ''Photos'', fo_type = FBackup, fo_created_at = None,
      fo_encrypted = None, fo_crypt_password = None, fo_git_provider = None,
      fo_git_remote = None, fo_backend = Some BSftp, fo_backend_id = None, fo_s3_bucket = None\<rparr>"

theorem default_key_scope_witness:
  "canonical_destination_key sample_backup_folder (sample_assignment ''h1'') \<noteq>
   canonical_destination_key sample_backup_folder (sample_assignment ''h2'')"
proof -
  have "blank_destination (sample_assignment h) \<and>
      truthy (fa_restic_repository (sample_assignment h)) = None" for h
    by (simp add: blank_destination_def sample_assignment_def truthy_def)
  then show ?thesis
    using default_key_scope [of "sample_assignment ''h1''" "sample_assignment ''h2''"
        sample_backup_folder]
    by (simp add: sample_assignment_def sample_backup_folder_def js_trim_def js_space_def)
qed

lemma restic_key_host_independent:
  "fa_restic_repository a = fa_restic_repository b \<Longrightarrow> truthy (fa_restic_repository a) \<noteq> None \<Longrightarrow>
   canonical_destination_key f a = canonical_destination_key g b"
  by (auto simp: canonical_destination_key_def)

end
