(* ===== verification/Seed_Archive.thy ===== *)
theory Seed_Archive
  imports Prelude
begin

text \<open>
  The archive half of the seed contract (\<open>packages/core/src/folder-seed.ts\<close>): the
  archive format a device can produce, the object key of a job's archive, the member
  safety check that runs before anything is extracted, and the space reservation.
  Operator-facing sentences are constructors that carry the values the sentence
  interpolates, so each branch's message is part of the model.
\<close>

section \<open>Limits\<close>

definition SEED_RECOMMENDATION_FILE_THRESHOLD :: int where
  "SEED_RECOMMENDATION_FILE_THRESHOLD = 3000"

definition SEED_SOURCE_MEASUREMENT_MAX_AGE_MS :: int where
  "SEED_SOURCE_MEASUREMENT_MAX_AGE_MS = 26 * 60 * 60000"

definition SEED_SPACE_SAFETY_FACTOR :: rat where
  "SEED_SPACE_SAFETY_FACTOR = 5 / 4"

definition SEED_SPACE_FIXED_OVERHEAD_BYTES :: int where
  "SEED_SPACE_FIXED_OVERHEAD_BYTES = 64 * 1024 * 1024"

definition SEED_ARCHIVE_RATIO_DEFAULT :: rat where
  "SEED_ARCHIVE_RATIO_DEFAULT = 1"

definition SEED_ARCHIVE_MEMBER_SAMPLE_CAP :: nat where
  "SEED_ARCHIVE_MEMBER_SAMPLE_CAP = 20"

definition SEED_PATH_MAX_LENGTH :: nat where
  "SEED_PATH_MAX_LENGTH = 4096"

definition SEED_OBJECT_KEY_PREFIX :: string where
  "SEED_OBJECT_KEY_PREFIX = ''lamasync/seed''"

section \<open>Archive formats\<close>

datatype seed_archive_format = TarZstd | TarGz

record seed_archive_tooling =
  tool_tar :: bool
  tool_zstd :: bool
  tool_gzip :: bool

datatype format_reason = ReasonZstdInstalled | ReasonZstdMissing | ReasonToolingUnreported

record seed_archive_format_choice =
  choice_format :: seed_archive_format
  choice_reason :: format_reason
  choice_fallback :: bool

definition select_seed_archive_format :: "seed_archive_tooling \<Rightarrow> seed_archive_format_choice" where
  "select_seed_archive_format tooling =
     (if tool_zstd tooling
      then \<lparr>choice_format = TarZstd, choice_reason = ReasonZstdInstalled, choice_fallback = False\<rparr>
      else \<lparr>choice_format = TarGz, choice_reason = ReasonZstdMissing, choice_fallback = True\<rparr>)"

definition seed_archive_tooling_ready :: "seed_archive_format \<Rightarrow> seed_archive_tooling \<Rightarrow> bool" where
  "seed_archive_tooling_ready format tooling =
     (if \<not> tool_tar tooling then False
      else if format = TarZstd then tool_zstd tooling else tool_gzip tooling)"

fun seed_archive_extension :: "seed_archive_format \<Rightarrow> string" where
  "seed_archive_extension TarZstd = ''.tar.zst''"
| "seed_archive_extension TarGz = ''.tar.gz''"

definition seed_archive_object_key :: "string \<Rightarrow> seed_archive_format \<Rightarrow> string" where
  "seed_archive_object_key job_id format =
     SEED_OBJECT_KEY_PREFIX @ ''/'' @ job_id @ ''/payload'' @ seed_archive_extension format"

lemma selected_format_ready_iff:
  "seed_archive_tooling_ready (choice_format (select_seed_archive_format t)) t \<longleftrightarrow>
     tool_tar t \<and> (tool_zstd t \<or> tool_gzip t)"
  by (auto simp: select_seed_archive_format_def seed_archive_tooling_ready_def)

section \<open>Archive member safety\<close>

definition windows_drive :: "string \<Rightarrow> bool" where
  "windows_drive s = (case s of c # d # _ \<Rightarrow> is_letter c \<and> d = CHR '':'' | _ \<Rightarrow> False)"

definition is_safe_archive_member :: "string \<Rightarrow> bool" where
  "is_safe_archive_member member =
     (if length member = 0 \<or> length member > SEED_PATH_MAX_LENGTH then False
      else if nul_char \<in> set member then False
      else if starts_with ''/'' member \<or> starts_with [backslash] member then False
      else if windows_drive member then False
      else if backslash \<in> set member then False
      else if list_ex control_char member then False
      else (let segments = split_on (CHR ''/'') member
            in if list_ex (\<lambda>s. s = ''..'') segments then False
               else \<not> list_all (\<lambda>s. s = []) segments))"

datatype member_message = MembersUnsafe nat | MembersSafe

record archive_member_verdict =
  amv_ok :: bool
  amv_offenders :: "string list"
  amv_count :: nat
  amv_message :: member_message

text \<open>The loop of \<open>validateArchiveMembers\<close>, with the offenders collected so far.\<close>

fun collect_offenders :: "nat \<Rightarrow> string list \<Rightarrow> string list \<Rightarrow> string list" where
  "collect_offenders cap offenders [] = offenders"
| "collect_offenders cap offenders (m # ms) =
     (if is_safe_archive_member m then collect_offenders cap offenders ms
      else if length offenders < cap then collect_offenders cap (offenders @ [take 200 m]) ms
      else collect_offenders cap offenders ms)"

definition validate_archive_members :: "string list \<Rightarrow> nat \<Rightarrow> archive_member_verdict" where
  "validate_archive_members members cap =
     (let offenders = collect_offenders cap [] members
      in if length offenders > 0
         then \<lparr>amv_ok = False, amv_offenders = offenders, amv_count = length members,
               amv_message = MembersUnsafe (length offenders)\<rparr>
         else \<lparr>amv_ok = True, amv_offenders = [], amv_count = length members,
               amv_message = MembersSafe\<rparr>)"

lemma collect_offenders_length:
  "length offenders \<le> cap \<Longrightarrow> length (collect_offenders cap offenders ms) \<le> cap"
  by (induction cap offenders ms rule: collect_offenders.induct) auto

lemma collect_offenders_grows:
  "length offenders \<le> length (collect_offenders cap offenders ms)"
  by (induction cap offenders ms rule: collect_offenders.induct) (auto intro: Suc_leD)

lemma collect_offenders_Nil:
  "0 < cap \<Longrightarrow> collect_offenders cap [] ms = [] \<longleftrightarrow> list_all is_safe_archive_member ms"
proof (induction ms)
  case (Cons m ms)
  show ?case
  proof (cases "is_safe_archive_member m")
    case False
    have "length [take 200 m] \<le> length (collect_offenders cap [take 200 m] ms)"
      by (rule collect_offenders_grows)
    with False Cons.prems show ?thesis by auto
  qed (use Cons in simp)
qed simp

lemma collect_offenders_cap_zero: "collect_offenders 0 [] ms = []"
  by (induction ms) auto

lemma validate_ok_iff:
  "0 < cap \<Longrightarrow> amv_ok (validate_archive_members ms cap) \<longleftrightarrow> list_all is_safe_archive_member ms"
  by (auto simp: validate_archive_members_def Let_def collect_offenders_Nil)

text \<open>
  What extraction does with a member name: the directory stack the name resolves to,
  starting in the staging directory. Empty and \<open>.\<close> segments stay, \<open>..\<close> pops.
\<close>

fun walk :: "string list \<Rightarrow> string list \<Rightarrow> string list" where
  "walk dir [] = dir"
| "walk dir (s # ss) =
     (if s = [] \<or> s = ''.'' then walk dir ss
      else if s = ''..'' then walk (butlast dir) ss
      else walk (dir @ [s]) ss)"

definition extraction_target :: "string list \<Rightarrow> string \<Rightarrow> string list" where
  "extraction_target staging member =
     (if starts_with ''/'' member then walk [] (split_on (CHR ''/'') member)
      else walk staging (split_on (CHR ''/'') member))"

lemma walk_no_dotdot:
  "''..'' \<notin> set ss \<Longrightarrow> walk dir ss = dir @ filter (\<lambda>s. s \<noteq> [] \<and> s \<noteq> ''.'') ss"
  by (induction dir ss rule: walk.induct) auto

lemma safe_member_facts:
  "is_safe_archive_member m \<Longrightarrow>
     m \<noteq> [] \<and> \<not> starts_with ''/'' m \<and> backslash \<notin> set m \<and> \<not> windows_drive m \<and>
     ''..'' \<notin> set (split_on (CHR ''/'') m) \<and> (\<forall>c \<in> set m. \<not> control_char c)"
  by (auto simp: is_safe_archive_member_def Let_def list_ex_iff split: if_splits)

text \<open>
  C29. Path traversal is impossible for an accepted archive. If
  \<open>validateArchiveMembers\<close> accepts a member list (with its default sample cap or any
  positive one), then every member, resolved segment by segment from the staging
  directory, ends at or below that directory.
\<close>

theorem accepted_members_stay_in_staging:
  assumes "0 < cap" and "amv_ok (validate_archive_members ms cap)" and "m \<in> set ms"
  shows "\<exists>below. extraction_target staging m = staging @ below"
proof -
  have "is_safe_archive_member m"
    using assms by (simp add: validate_ok_iff list_all_iff)
  note safe = safe_member_facts [OF this]
  then show ?thesis
    by (simp add: extraction_target_def walk_no_dotdot)
qed

theorem accepted_members_stay_in_staging_witness:
  "amv_ok (validate_archive_members [''src/./main.ts'', ''--notes''] SEED_ARCHIVE_MEMBER_SAMPLE_CAP) \<and>
   (\<exists>below. extraction_target [''data'', ''stage''] ''src/./main.ts'' = [''data'', ''stage''] @ below)"
proof -
  have pos: "0 < SEED_ARCHIVE_MEMBER_SAMPLE_CAP" by (simp add: SEED_ARCHIVE_MEMBER_SAMPLE_CAP_def)
  have ok: "amv_ok (validate_archive_members [''src/./main.ts'', ''--notes'']
      SEED_ARCHIVE_MEMBER_SAMPLE_CAP)"
    by (simp add: validate_ok_iff pos is_safe_archive_member_def SEED_PATH_MAX_LENGTH_def
        starts_with_def backslash_def nul_char_def windows_drive_def control_char_def)
  with accepted_members_stay_in_staging [OF pos ok, of "''src/./main.ts''" "[''data'', ''stage'']"]
  show ?thesis by simp
qed

text \<open>
  The fail-closed contract of \<open>validateArchiveMembers\<close> rests on a positive sample
  cap: called with a cap of 0 it collects no offender, and so accepts every list, an
  absolute path and a traversal included.
\<close>

theorem zero_sample_cap_accepts_everything:
  "amv_ok (validate_archive_members ms 0) \<and>
   \<not> is_safe_archive_member ''../../etc/passwd''"
  by (simp add: validate_archive_members_def collect_offenders_cap_zero
      is_safe_archive_member_def starts_with_def backslash_def nul_char_def
      windows_drive_def control_char_def)

end
