(* ===== verification/Seed_Phases.thy ===== *)
theory Seed_Phases
  imports Prelude
begin

text \<open>
  The phases of a seed job, its leases, its two roles, its progress record and the
  progress-aware deadline: the state machine part of \<open>packages/core/src/folder-seed.ts\<close>.
  The union type \<open>SeedJobPhaseOrTerminal\<close> is the datatype \<open>seed_phase\<close>: a working
  phase under \<open>Work\<close>, or one of the three terminal phases. Clock readings are
  \<open>int\<close> milliseconds; the optional budgets of a deadline are \<open>jnum\<close>, because
  the code asks whether they are finite.
\<close>

section \<open>Phases\<close>

datatype seed_job_phase =
    Preflight
  | Measuring_Source
  | Archiving_Source
  | Uploading_Archive
  | Downloading_Archive
  | Verifying_Archive
  | Extracting_Target
  | Verifying_Target
  | Publishing
  | Baseline_Validation

datatype seed_phase = Work seed_job_phase | Completed | Failed | Cancelled

datatype seed_job_status = SPlanned | SRunning | SFailed | SCompleted | SCancelled

definition SEED_JOB_PHASES :: "seed_job_phase list" where
  "SEED_JOB_PHASES =
     [Preflight, Measuring_Source, Archiving_Source, Uploading_Archive, Downloading_Archive,
      Verifying_Archive, Extracting_Target, Verifying_Target, Publishing, Baseline_Validation]"

fun seed_phase_name :: "seed_job_phase \<Rightarrow> string" where
  "seed_phase_name Preflight = ''preflight''"
| "seed_phase_name Measuring_Source = ''measuring_source''"
| "seed_phase_name Archiving_Source = ''archiving_source''"
| "seed_phase_name Uploading_Archive = ''uploading_archive''"
| "seed_phase_name Downloading_Archive = ''downloading_archive''"
| "seed_phase_name Verifying_Archive = ''verifying_archive''"
| "seed_phase_name Extracting_Target = ''extracting_target''"
| "seed_phase_name Verifying_Target = ''verifying_target''"
| "seed_phase_name Publishing = ''publishing''"
| "seed_phase_name Baseline_Validation = ''baseline_validation''"

definition is_terminal_seed_phase :: "seed_phase \<Rightarrow> bool" where
  "is_terminal_seed_phase p \<longleftrightarrow> p = Completed \<or> p = Failed \<or> p = Cancelled"

text \<open>\<open>Array.prototype.indexOf\<close>: the first position, \<open>None\<close> for \<open>-1\<close>.\<close>

fun index_of :: "'a \<Rightarrow> 'a list \<Rightarrow> nat option" where
  "index_of x [] = None"
| "index_of x (y # ys) = (if x = y then Some 0 else map_option Suc (index_of x ys))"

definition seed_phase_index :: "seed_job_phase \<Rightarrow> nat" where
  "seed_phase_index p = (case index_of p SEED_JOB_PHASES of None \<Rightarrow> 0 | Some i \<Rightarrow> i)"

definition SEED_JOB_PHASE_COUNT :: nat where
  "SEED_JOB_PHASE_COUNT = length SEED_JOB_PHASES"

definition can_transition_seed_phase :: "seed_phase \<Rightarrow> seed_phase \<Rightarrow> bool" where
  "can_transition_seed_phase from_p to_p =
     (if is_terminal_seed_phase from_p then False
      else if is_terminal_seed_phase to_p then True
      else if from_p = to_p then True
      else (case (from_p, to_p) of
              (Work a, Work b) \<Rightarrow> seed_phase_index b = seed_phase_index a + 1
            | _ \<Rightarrow> False))"

section \<open>Leases\<close>

definition SEED_JOB_LEASE_MS :: int where
  "SEED_JOB_LEASE_MS = 10 * 60000"

definition SEED_JOB_LEASE_RENEW_INTERVAL_MS :: int where
  "SEED_JOB_LEASE_RENEW_INTERVAL_MS = 60000"

definition SEED_JOB_LEASE_STOP_GRACE_MS :: int where
  "SEED_JOB_LEASE_STOP_GRACE_MS = SEED_JOB_LEASE_MS - SEED_JOB_LEASE_RENEW_INTERVAL_MS"

definition SEED_JOB_HANDOVER_GRACE_MS :: int where
  "SEED_JOB_HANDOVER_GRACE_MS = 5 * 60000"

record seed_lease_facts =
  lf_lease_owner :: "string option"
  lf_lease_expires_at :: "int option"

record seed_claim_facts = seed_lease_facts +
  lf_status :: seed_job_status
  lf_phase :: seed_phase

definition seed_lease_is_live :: "'z seed_lease_facts_scheme \<Rightarrow> string \<Rightarrow> int \<Rightarrow> bool" where
  "seed_lease_is_live lease own now \<longleftrightarrow>
     lf_lease_owner lease = Some own \<and>
     (case lf_lease_expires_at lease of None \<Rightarrow> False | Some e \<Rightarrow> e > now)"

definition seed_job_claimable_by :: "'z seed_claim_facts_scheme \<Rightarrow> string \<Rightarrow> int \<Rightarrow> bool" where
  "seed_job_claimable_by facts own now =
     (if is_terminal_seed_phase (lf_phase facts) then False
      else if lf_status facts \<noteq> SPlanned \<and> lf_status facts \<noteq> SRunning then False
      else if lf_lease_owner facts = None then True
      else (case lf_lease_expires_at facts of None \<Rightarrow> False | Some e \<Rightarrow> e \<le> now))"

definition seed_cleanup_allowed :: "'z seed_claim_facts_scheme \<Rightarrow> string \<Rightarrow> int \<Rightarrow> bool" where
  "seed_cleanup_allowed facts own now =
     (if is_terminal_seed_phase (lf_phase facts) then True
      else if lf_status facts = SCompleted \<or> lf_status facts = SFailed \<or> lf_status facts = SCancelled
      then True
      else seed_lease_is_live facts own now)"

section \<open>Roles\<close>

datatype seed_job_role = Source_Role | Target_Role

definition seed_job_role_for ::
    "string \<Rightarrow> string option \<Rightarrow> string option \<Rightarrow> seed_job_role option" where
  "seed_job_role_for target_host source_host host =
     (case host of
        None \<Rightarrow> None
      | Some h \<Rightarrow>
          if h = [] then None
          else if h = target_host then Some Target_Role
          else if source_host = Some h then Some Source_Role
          else None)"

fun seed_job_phase_role :: "seed_job_phase \<Rightarrow> seed_job_role" where
  "seed_job_phase_role Preflight = Source_Role"
| "seed_job_phase_role Measuring_Source = Source_Role"
| "seed_job_phase_role Archiving_Source = Source_Role"
| "seed_job_phase_role Uploading_Archive = Source_Role"
| "seed_job_phase_role Downloading_Archive = Target_Role"
| "seed_job_phase_role Verifying_Archive = Target_Role"
| "seed_job_phase_role Extracting_Target = Target_Role"
| "seed_job_phase_role Verifying_Target = Target_Role"
| "seed_job_phase_role Publishing = Target_Role"
| "seed_job_phase_role Baseline_Validation = Target_Role"

definition seed_job_role_may_enter_phase :: "seed_job_role \<Rightarrow> seed_job_phase \<Rightarrow> bool" where
  "seed_job_role_may_enter_phase r p \<longleftrightarrow> seed_job_phase_role p = r"

definition seed_job_role_may_report_archive :: "seed_job_role option \<Rightarrow> bool" where
  "seed_job_role_may_report_archive r \<longleftrightarrow> r = Some Source_Role"

definition seed_job_role_may_complete :: "seed_job_role option \<Rightarrow> bool" where
  "seed_job_role_may_complete r \<longleftrightarrow> r = Some Target_Role"

section \<open>Progress\<close>

record seed_job_progress =
  pr_phase :: seed_job_phase
  pr_phase_index :: nat
  pr_phase_count :: nat
  pr_message :: string
  pr_bytes_done :: int
  pr_bytes_total :: "int option"
  pr_entries_done :: int
  pr_entries_total :: "int option"
  pr_updated_at :: int

definition seed_progress_fraction :: "seed_job_progress \<Rightarrow> rat option" where
  "seed_progress_fraction p =
     (let part = (\<lambda>n d :: int. min 1 (max 0 (of_int n / of_int d :: rat)))
      in case pr_bytes_total p of
           Some t \<Rightarrow>
             if t > 0 then Some (part (pr_bytes_done p) t)
             else (case pr_entries_total p of
                     Some e \<Rightarrow> if e > 0 then Some (part (pr_entries_done p) e) else None
                   | None \<Rightarrow> None)
         | None \<Rightarrow>
             (case pr_entries_total p of
                Some e \<Rightarrow> if e > 0 then Some (part (pr_entries_done p) e) else None
              | None \<Rightarrow> None))"

definition start_seed_progress ::
    "seed_job_phase \<Rightarrow> int \<Rightarrow> string \<Rightarrow> int option \<Rightarrow> int option \<Rightarrow> seed_job_progress" where
  "start_seed_progress phase now message bytes_total entries_total =
     \<lparr> pr_phase = phase, pr_phase_index = seed_phase_index phase,
       pr_phase_count = SEED_JOB_PHASE_COUNT, pr_message = message,
       pr_bytes_done = 0, pr_bytes_total = bytes_total,
       pr_entries_done = 0, pr_entries_total = entries_total, pr_updated_at = now \<rparr>"

section \<open>The progress-aware deadline\<close>

definition SEED_STALL_TIMEOUT_FALLBACK_SEC :: int where
  "SEED_STALL_TIMEOUT_FALLBACK_SEC = 600"

definition SEED_STAGE_HARD_CAP_MS :: int where
  "SEED_STAGE_HARD_CAP_MS = 6 * 60 * 60000"

datatype seed_deadline_action = Continue | Fail

datatype seed_deadline_reason = Progressing | Stalled | Hard_Cap

datatype seed_deadline_message =
    Ceiling_Minutes int
  | No_Progress_Sec int int
  | Progress_Continues_Sec int int

record seed_deadline_verdict =
  dv_action :: seed_deadline_action
  dv_reason :: seed_deadline_reason
  dv_since_progress_ms :: int
  dv_elapsed_ms :: int
  dv_stall_ms :: rat
  dv_hard_cap_ms :: rat
  dv_message :: seed_deadline_message

record seed_deadline_input =
  di_started_at :: int
  di_last_progress_at :: int
  di_now :: int
  di_stall_ms :: "jnum option"
  di_hard_cap_ms :: "jnum option"

text \<open>The budget in force: a finite positive one, else the default.\<close>

definition budget_or :: "jnum option \<Rightarrow> int \<Rightarrow> rat" where
  "budget_or v d =
     (case Option.bind v jnum_val of
        None \<Rightarrow> of_int d
      | Some r \<Rightarrow> if r > 0 then r else of_int d)"

definition should_extend_seed_deadline :: "seed_deadline_input \<Rightarrow> seed_deadline_verdict" where
  "should_extend_seed_deadline i =
     (let stall = budget_or (di_stall_ms i) (SEED_STALL_TIMEOUT_FALLBACK_SEC * 1000);
          cap = budget_or (di_hard_cap_ms i) SEED_STAGE_HARD_CAP_MS;
          elapsed = max 0 (di_now i - di_started_at i);
          since = max 0 (di_now i - di_last_progress_at i);
          verdict = (\<lambda>a r m.
            \<lparr> dv_action = a, dv_reason = r, dv_since_progress_ms = since, dv_elapsed_ms = elapsed,
              dv_stall_ms = stall, dv_hard_cap_ms = cap, dv_message = m \<rparr>)
      in if of_int elapsed \<ge> cap then
           verdict Fail Hard_Cap (Ceiling_Minutes (js_round (cap / 60000)))
         else if of_int since \<ge> stall then
           verdict Fail Stalled
             (No_Progress_Sec (js_round (of_int since / 1000)) (js_round (stall / 1000)))
         else
           verdict Continue Progressing
             (Progress_Continues_Sec (js_round (of_int elapsed / 1000))
               (js_round (of_int since / 1000))))"

section \<open>Lemmas\<close>

lemma seed_phase_index_simps [simp]:
  "seed_phase_index Preflight = 0"
  "seed_phase_index Measuring_Source = 1"
  "seed_phase_index Archiving_Source = 2"
  "seed_phase_index Uploading_Archive = 3"
  "seed_phase_index Downloading_Archive = 4"
  "seed_phase_index Verifying_Archive = 5"
  "seed_phase_index Extracting_Target = 6"
  "seed_phase_index Verifying_Target = 7"
  "seed_phase_index Publishing = 8"
  "seed_phase_index Baseline_Validation = 9"
  by (simp_all add: seed_phase_index_def SEED_JOB_PHASES_def)

lemma seed_phase_index_eq [simp]: "seed_phase_index a = seed_phase_index b \<longleftrightarrow> a = b"
  by (cases a; cases b) simp_all

text \<open>Phases are ordered by their index.\<close>

instantiation seed_job_phase :: linorder
begin

definition less_eq_seed_job_phase_def: "a \<le> b \<longleftrightarrow> seed_phase_index a \<le> seed_phase_index b"

definition less_seed_job_phase_def: "a < b \<longleftrightarrow> seed_phase_index a < seed_phase_index b"

instance
proof
  fix x y z :: seed_job_phase
  show "x < y \<longleftrightarrow> x \<le> y \<and> \<not> y \<le> x"
    by (auto simp: less_eq_seed_job_phase_def less_seed_job_phase_def)
  show "x \<le> x" by (simp add: less_eq_seed_job_phase_def)
  show "x \<le> y \<Longrightarrow> y \<le> z \<Longrightarrow> x \<le> z" by (simp add: less_eq_seed_job_phase_def)
  show "x \<le> y \<Longrightarrow> y \<le> x \<Longrightarrow> x = y" by (simp add: less_eq_seed_job_phase_def)
  show "x \<le> y \<or> y \<le> x" by (auto simp: less_eq_seed_job_phase_def)
qed

end

lemmas phase_order = less_eq_seed_job_phase_def less_seed_job_phase_def

lemma SEED_JOB_PHASES_strict: "sorted_wrt (<) SEED_JOB_PHASES"
  by (simp add: SEED_JOB_PHASES_def phase_order)

lemma SEED_JOB_PHASES_all [simp]: "p \<in> set SEED_JOB_PHASES"
  by (cases p) (simp_all add: SEED_JOB_PHASES_def)

lemma seed_phase_index_less: "seed_phase_index p < SEED_JOB_PHASE_COUNT"
  by (cases p) (simp_all add: SEED_JOB_PHASE_COUNT_def SEED_JOB_PHASES_def)

lemma is_terminal_simps [simp]:
  "\<not> is_terminal_seed_phase (Work p)"
  "is_terminal_seed_phase Completed"
  "is_terminal_seed_phase Failed"
  "is_terminal_seed_phase Cancelled"
  by (simp_all add: is_terminal_seed_phase_def)

lemma nonterminal_iff: "\<not> is_terminal_seed_phase p \<longleftrightarrow> (\<exists>w. p = Work w)"
  by (cases p) auto

lemma can_transition_Work [simp]:
  "can_transition_seed_phase (Work a) (Work b) \<longleftrightarrow>
     a = b \<or> seed_phase_index b = seed_phase_index a + 1"
  by (simp add: can_transition_seed_phase_def)

lemma can_transition_terminal [simp]:
  "is_terminal_seed_phase p \<Longrightarrow> \<not> can_transition_seed_phase p q"
  "is_terminal_seed_phase q \<Longrightarrow> can_transition_seed_phase (Work a) q"
  by (simp_all add: can_transition_seed_phase_def)

lemma can_transition_mono:
  "can_transition_seed_phase (Work a) (Work b) \<Longrightarrow> a \<le> b"
  by (auto simp: less_eq_seed_job_phase_def)

lemma can_transition_no_gap:
  "can_transition_seed_phase (Work a) (Work b) \<Longrightarrow> c \<le> b \<Longrightarrow> c \<le> a \<or> c = b"
  using seed_phase_index_eq [of c b] by (auto simp: less_eq_seed_job_phase_def simp del: seed_phase_index_eq)

text \<open>The phases a sequence of transitions went through, as a step relation.\<close>

inductive phase_run :: "seed_phase list \<Rightarrow> seed_phase \<Rightarrow> bool" where
  start: "phase_run [Work Preflight] (Work Preflight)"
| step: "phase_run tr p \<Longrightarrow> can_transition_seed_phase p q \<Longrightarrow> phase_run (tr @ [q]) q"

inductive_cases phase_runE: "phase_run tr p"

lemma phase_run_work:
  "phase_run tr p \<Longrightarrow> \<exists>w. {v. Work v \<in> set tr} = {v. v \<le> w} \<and> (\<forall>v. p = Work v \<longrightarrow> v = w)"
proof (induction rule: phase_run.induct)
  case start
  have "v \<le> Preflight \<longleftrightarrow> v = Preflight" for v
    by (cases v) (simp_all add: phase_order)
  then show ?case by (intro exI [of _ Preflight]) auto
next
  case (step tr p q)
  then obtain w where w: "{v. Work v \<in> set tr} = {v. v \<le> w}" "\<forall>v. p = Work v \<longrightarrow> v = w"
    by blast
  from step obtain v where p: "p = Work v"
    by (meson can_transition_terminal(1) nonterminal_iff)
  with w have v: "v = w" by blast
  show ?case
  proof (cases q)
    case (Work u)
    have "{x. Work x \<in> set (tr @ [q])} = {x. x \<le> w} \<union> {u}"
      using w(1) Work by auto
    also have "\<dots> = {x. x \<le> u}"
      using step.hyps(2) can_transition_mono [of w u] can_transition_no_gap [of w u]
      by (auto simp: p v Work intro: order_trans)
    finally show ?thesis using Work by blast
  qed (use w in auto)
qed

lemma phase_run_nonempty: "phase_run tr p \<Longrightarrow> tr \<noteq> [] \<and> last tr = p"
  by (induction rule: phase_run.induct) auto

lemma phase_run_butlast_nonterminal:
  "phase_run tr p \<Longrightarrow> \<forall>q \<in> set (butlast tr). \<not> is_terminal_seed_phase q"
proof (induction rule: phase_run.induct)
  case (step tr p q)
  then have "\<not> is_terminal_seed_phase p" by auto
  with step phase_run_nonempty [OF step.hyps(1)] show ?case
    by (cases tr rule: rev_cases) (auto simp: butlast_append)
qed simp

lemma seed_lease_is_live_unique:
  "seed_lease_is_live f a now \<Longrightarrow> seed_lease_is_live f b now \<Longrightarrow> a = b"
  by (simp add: seed_lease_is_live_def)

lemma claimable_not_live: "seed_job_claimable_by f a now \<Longrightarrow> \<not> seed_lease_is_live f b now"
  by (auto simp: seed_job_claimable_by_def seed_lease_is_live_def split: option.splits if_splits)

lemma claimable_active:
  "seed_job_claimable_by f a now \<Longrightarrow>
     \<not> is_terminal_seed_phase (lf_phase f) \<and> lf_status f \<in> {SPlanned, SRunning}"
  by (auto simp: seed_job_claimable_by_def split: if_splits)

lemma seed_job_role_for_Some:
  "seed_job_role_for t s h = Some Target_Role \<longleftrightarrow> h = Some t \<and> t \<noteq> []"
  "seed_job_role_for t s h = Some Source_Role \<longleftrightarrow>
     (\<exists>x. h = Some x \<and> s = Some x \<and> x \<noteq> [] \<and> x \<noteq> t)"
  by (auto simp: seed_job_role_for_def split: option.splits if_splits)

lemma budget_or_pos: "0 < d \<Longrightarrow> 0 < budget_or v d"
  by (auto simp: budget_or_def split: option.splits)

text \<open>
  C28. A seed job never skips a phase and never goes back: in every sequence of allowed
  transitions from \<open>preflight\<close>, the working phases visited are exactly the phases up
  to some phase, that phase being the current one while the job is running; and a
  terminal phase can only be the last entry.
\<close>

theorem seed_phases_never_skipped:
  assumes "phase_run tr p"
  shows "(\<exists>w. {v. Work v \<in> set tr} = {v. seed_phase_index v \<le> seed_phase_index w} \<and>
              (\<forall>v. p = Work v \<longrightarrow> v = w)) \<and>
         (\<forall>q. is_terminal_seed_phase q \<and> q \<in> set (butlast tr) \<longrightarrow> False)"
  using phase_run_work [OF assms] phase_run_butlast_nonterminal [OF assms]
  by (auto simp: less_eq_seed_job_phase_def)

theorem seed_phases_never_skipped_witness:
  "phase_run [Work Preflight, Work Measuring_Source, Failed] Failed \<and>
   (\<exists>w. {v. Work v \<in> set [Work Preflight, Work Measuring_Source, Failed]} =
        {v. seed_phase_index v \<le> seed_phase_index w})"
proof -
  have "phase_run ([Work Preflight] @ [Work Measuring_Source]) (Work Measuring_Source)"
    by (rule phase_run.step [OF phase_run.start]) simp
  then have "phase_run (([Work Preflight] @ [Work Measuring_Source]) @ [Failed]) Failed"
    by (rule phase_run.step) simp
  then have r: "phase_run [Work Preflight, Work Measuring_Source, Failed] Failed" by simp
  with seed_phases_never_skipped [OF r] show ?thesis by blast
qed

text \<open>
  The handover is structural: the only transition on which the role that owns the
  phase changes is from \<open>uploading_archive\<close> (the source's last phase) to
  \<open>downloading_archive\<close> (the target's first), and it goes from source to target.
\<close>

theorem seed_handover_is_the_only_role_change:
  assumes "can_transition_seed_phase (Work a) (Work b)"
  shows "(\<not> seed_job_role_may_enter_phase (seed_job_phase_role a) b) =
         (a = Uploading_Archive \<and> b = Downloading_Archive)"
  using assms
  by (cases a; cases b) (simp_all add: seed_job_role_may_enter_phase_def)

theorem seed_handover_is_the_only_role_change_witness:
  "can_transition_seed_phase (Work Uploading_Archive) (Work Downloading_Archive) \<and>
   \<not> seed_job_role_may_enter_phase (seed_job_phase_role Uploading_Archive) Downloading_Archive"
  using seed_handover_is_the_only_role_change [of Uploading_Archive Downloading_Archive]
  by simp

text \<open>
  While a seed job is claimable by anyone, nobody may delete its relay objects, and
  nobody holds a live lease on it: a claim can never race a deletion by another party.
\<close>

theorem seed_claim_excludes_lease_and_cleanup:
  "\<not> (seed_job_claimable_by facts a now \<and>
      (seed_lease_is_live facts b now \<or> seed_cleanup_allowed facts b now))"
  using claimable_not_live [of facts a now b] claimable_active [of facts a now]
  by (auto simp: seed_cleanup_allowed_def)

text \<open>
  The deadline continues exactly when the stage is under its absolute ceiling and
  progress is recent, so whatever budgets are configured no stage that keeps being
  continued outlives the ceiling in force, and with no configured ceiling it is six
  hours.
\<close>

theorem seed_deadline_bounds_a_stage:
  "(dv_action (should_extend_seed_deadline i) = Continue) =
     (of_int (di_now i - di_started_at i) < dv_hard_cap_ms (should_extend_seed_deadline i) \<and>
      of_int (di_now i - di_last_progress_at i) < dv_stall_ms (should_extend_seed_deadline i)) \<and>
   0 < dv_stall_ms (should_extend_seed_deadline i) \<and>
   0 < dv_hard_cap_ms (should_extend_seed_deadline i) \<and>
   dv_hard_cap_ms (should_extend_seed_deadline (i\<lparr>di_hard_cap_ms := None\<rparr>)) = 21600000"
proof -
  let ?s = "budget_or (di_stall_ms i) (SEED_STALL_TIMEOUT_FALLBACK_SEC * 1000)"
  let ?c = "budget_or (di_hard_cap_ms i) SEED_STAGE_HARD_CAP_MS"
  have pos: "0 < ?s" "0 < ?c"
    by (simp_all add: budget_or_pos SEED_STALL_TIMEOUT_FALLBACK_SEC_def SEED_STAGE_HARD_CAP_MS_def)
  have m: "(of_int (max 0 x) :: rat) < b \<longleftrightarrow> of_int x < b" if "0 < b" for x :: int and b :: rat
    using that by (cases "0 \<le> x") (auto simp: max_def intro: order.strict_trans1)
  show ?thesis
    using pos m [OF pos(1), of "di_now i - di_last_progress_at i"]
      m [OF pos(2), of "di_now i - di_started_at i"]
    by (auto simp: should_extend_seed_deadline_def Let_def not_le not_less budget_or_def
        SEED_STAGE_HARD_CAP_MS_def)
qed

lemma seed_progress_fraction_range:
  "seed_progress_fraction p = Some r \<Longrightarrow> 0 \<le> r \<and> r \<le> 1"
  by (auto simp: seed_progress_fraction_def Let_def split: option.splits if_splits)

end
