(* ===== verification/Seed_Facts.thy ===== *)
theory Seed_Facts
  imports Seed_Archive
begin

text \<open>
  The archive facts of a seed job (\<open>SeedJobArchiveFacts\<close> in
  \<open>packages/core/src/folder-seed.ts\<close>): the record the source writes once and the
  target verifies against, its normalization from stored or received JSON, the
  completeness gate of the target, and the immutability comparison. Counts are
  \<open>int\<close>: normalization admits only positive safe integers.
\<close>

section \<open>The records\<close>

datatype relay_cleanup_state = Cleanup_Not_Started | Cleaned | Cleanup_Failed

record seed_relay_cleanup =
  rc_state :: relay_cleanup_state
  rc_attempts :: int
  rc_last_attempt_at :: "int option"
  rc_deleted_keys :: "string list"
  rc_message :: "string option"

definition initial_seed_relay_cleanup :: seed_relay_cleanup where
  "initial_seed_relay_cleanup =
     \<lparr> rc_state = Cleanup_Not_Started, rc_attempts = 0, rc_last_attempt_at = None,
       rc_deleted_keys = [], rc_message = None \<rparr>"

definition is_seed_relay_cleanup_complete :: "seed_relay_cleanup \<Rightarrow> bool" where
  "is_seed_relay_cleanup_complete c \<longleftrightarrow> rc_state c = Cleaned"

record seed_job_archive_facts =
  af_format :: seed_archive_format
  af_bytes :: "int option"
  af_sha256 :: "string option"
  af_object_key :: "string option"
  af_member_count :: "int option"
  af_manifest_fingerprint :: "string option"
  af_manifest_object_key :: "string option"
  af_manifest_bytes :: "int option"
  af_manifest_sha256 :: "string option"
  af_uploaded_at :: "int option"
  af_verified_at :: "int option"
  af_cleanup :: seed_relay_cleanup

definition empty_seed_job_archive_facts :: "seed_archive_format \<Rightarrow> seed_job_archive_facts" where
  "empty_seed_job_archive_facts format =
     \<lparr> af_format = format, af_bytes = None, af_sha256 = None, af_object_key = None,
       af_member_count = None, af_manifest_fingerprint = None, af_manifest_object_key = None,
       af_manifest_bytes = None, af_manifest_sha256 = None, af_uploaded_at = None,
       af_verified_at = None, af_cleanup = initial_seed_relay_cleanup \<rparr>"

section \<open>Normalization\<close>

definition positive_int_or_null :: "json \<Rightarrow> int option" where
  "positive_int_or_null v =
     (case as_number v of
        Some (Fin r) \<Rightarrow>
          if js_is_safe_integer (Fin r) \<and> r > 0 then Some \<lfloor>r\<rfloor> else None
      | _ \<Rightarrow> None)"

definition positive_int_or_zero :: "json \<Rightarrow> int" where
  "positive_int_or_zero v =
     (case as_number v of
        Some (Fin r) \<Rightarrow>
          if js_is_safe_integer (Fin r) \<and> r > 0 then \<lfloor>r\<rfloor> else 0
      | _ \<Rightarrow> 0)"

definition hex_digest_or_null :: "json \<Rightarrow> string option" where
  "hex_digest_or_null v =
     (case as_string v of Some s \<Rightarrow> if hex64 s then Some s else None | None \<Rightarrow> None)"

fun string_items :: "json list \<Rightarrow> string list" where
  "string_items [] = []"
| "string_items (JStr s # xs) = s # string_items xs"
| "string_items (_ # xs) = string_items xs"

fun format_of_json :: "seed_archive_format \<Rightarrow> json \<Rightarrow> seed_archive_format" where
  "format_of_json fallback (JStr s) =
     (if s = ''tar.zstd'' then TarZstd else if s = ''tar.gz'' then TarGz else fallback)"
| "format_of_json fallback _ = fallback"

fun cleanup_state_of_json :: "json \<Rightarrow> relay_cleanup_state" where
  "cleanup_state_of_json (JStr s) =
     (if s = ''cleaned'' then Cleaned else if s = ''failed'' then Cleanup_Failed
      else Cleanup_Not_Started)"
| "cleanup_state_of_json _ = Cleanup_Not_Started"

definition normalize_seed_job_archive_facts ::
    "seed_archive_format \<Rightarrow> json \<Rightarrow> seed_job_archive_facts" where
  "normalize_seed_job_archive_facts fallback v =
     (if \<not> is_record v then empty_seed_job_archive_facts fallback
      else
        (let cleanup = (if is_record (obj_get v ''cleanup'') then obj_get v ''cleanup'' else JObj []);
             deleted = (case obj_get cleanup ''deletedKeys'' of
                          JArr xs \<Rightarrow> take 64 (string_items xs)
                        | _ \<Rightarrow> [])
         in \<lparr> af_format = format_of_json fallback (obj_get v ''format''),
              af_bytes = positive_int_or_null (obj_get v ''bytes''),
              af_sha256 = hex_digest_or_null (obj_get v ''sha256''),
              af_object_key = as_string (obj_get v ''objectKey''),
              af_member_count = positive_int_or_null (obj_get v ''memberCount''),
              af_manifest_fingerprint = hex_digest_or_null (obj_get v ''manifestFingerprint''),
              af_manifest_object_key = as_string (obj_get v ''manifestObjectKey''),
              af_manifest_bytes = positive_int_or_null (obj_get v ''manifestBytes''),
              af_manifest_sha256 = hex_digest_or_null (obj_get v ''manifestSha256''),
              af_uploaded_at = positive_int_or_null (obj_get v ''uploadedAt''),
              af_verified_at = positive_int_or_null (obj_get v ''verifiedAt''),
              af_cleanup =
                \<lparr> rc_state = cleanup_state_of_json (obj_get cleanup ''state''),
                  rc_attempts = positive_int_or_zero (obj_get cleanup ''attempts''),
                  rc_last_attempt_at = positive_int_or_null (obj_get cleanup ''lastAttemptAt''),
                  rc_deleted_keys = deleted,
                  rc_message = map_option (take 240) (as_string (obj_get cleanup ''message'')) \<rparr> \<rparr>))"

section \<open>The gates\<close>

definition seed_archive_facts_complete :: "seed_job_archive_facts \<Rightarrow> bool" where
  "seed_archive_facts_complete a \<longleftrightarrow>
     af_sha256 a \<noteq> None \<and>
     af_bytes a \<noteq> None \<and>
     af_object_key a \<noteq> None \<and>
     af_member_count a \<noteq> None \<and>
     af_manifest_fingerprint a \<noteq> None \<and>
     af_manifest_object_key a \<noteq> None \<and>
     af_manifest_bytes a \<noteq> None \<and>
     af_manifest_sha256 a \<noteq> None"

definition seed_archive_facts_equal :: "seed_job_archive_facts \<Rightarrow> seed_job_archive_facts \<Rightarrow> bool" where
  "seed_archive_facts_equal a b \<longleftrightarrow>
     af_format a = af_format b \<and>
     af_bytes a = af_bytes b \<and>
     af_sha256 a = af_sha256 b \<and>
     af_object_key a = af_object_key b \<and>
     af_member_count a = af_member_count b \<and>
     af_manifest_fingerprint a = af_manifest_fingerprint b \<and>
     af_manifest_object_key a = af_manifest_object_key b \<and>
     af_manifest_bytes a = af_manifest_bytes b \<and>
     af_manifest_sha256 a = af_manifest_sha256 b"

section \<open>Stored form\<close>

text \<open>
  The object \<open>JSON.stringify\<close> writes for a record of facts; reading a stored row back
  is \<open>normalize_seed_job_archive_facts\<close> of it.
\<close>

definition opt_int_json :: "int option \<Rightarrow> json" where
  "opt_int_json x = (case x of None \<Rightarrow> JNull | Some n \<Rightarrow> JNum (Fin (of_int n)))"

definition opt_string_json :: "string option \<Rightarrow> json" where
  "opt_string_json x = (case x of None \<Rightarrow> JNull | Some s \<Rightarrow> JStr s)"

fun format_name :: "seed_archive_format \<Rightarrow> string" where
  "format_name TarZstd = ''tar.zstd''"
| "format_name TarGz = ''tar.gz''"

fun cleanup_state_name :: "relay_cleanup_state \<Rightarrow> string" where
  "cleanup_state_name Cleanup_Not_Started = ''not_started''"
| "cleanup_state_name Cleaned = ''cleaned''"
| "cleanup_state_name Cleanup_Failed = ''failed''"

definition cleanup_json :: "seed_relay_cleanup \<Rightarrow> json" where
  "cleanup_json c =
     JObj [(''state'', JStr (cleanup_state_name (rc_state c))),
           (''attempts'', JNum (Fin (of_int (rc_attempts c)))),
           (''lastAttemptAt'', opt_int_json (rc_last_attempt_at c)),
           (''deletedKeys'', JArr (map JStr (rc_deleted_keys c))),
           (''message'', opt_string_json (rc_message c))]"

definition archive_facts_json :: "seed_job_archive_facts \<Rightarrow> json" where
  "archive_facts_json a =
     JObj [(''format'', JStr (format_name (af_format a))),
           (''bytes'', opt_int_json (af_bytes a)),
           (''sha256'', opt_string_json (af_sha256 a)),
           (''objectKey'', opt_string_json (af_object_key a)),
           (''memberCount'', opt_int_json (af_member_count a)),
           (''manifestFingerprint'', opt_string_json (af_manifest_fingerprint a)),
           (''manifestObjectKey'', opt_string_json (af_manifest_object_key a)),
           (''manifestBytes'', opt_int_json (af_manifest_bytes a)),
           (''manifestSha256'', opt_string_json (af_manifest_sha256 a)),
           (''uploadedAt'', opt_int_json (af_uploaded_at a)),
           (''verifiedAt'', opt_int_json (af_verified_at a)),
           (''cleanup'', cleanup_json (af_cleanup a))]"

definition count_fact :: "int option \<Rightarrow> bool" where
  "count_fact x \<longleftrightarrow> (case x of None \<Rightarrow> True | Some n \<Rightarrow> 0 < n \<and> n \<le> js_max_safe)"

definition digest_fact :: "string option \<Rightarrow> bool" where
  "digest_fact x \<longleftrightarrow> (case x of None \<Rightarrow> True | Some s \<Rightarrow> hex64 s)"

definition cleanup_ok :: "seed_relay_cleanup \<Rightarrow> bool" where
  "cleanup_ok c \<longleftrightarrow>
     0 \<le> rc_attempts c \<and> rc_attempts c \<le> js_max_safe \<and> count_fact (rc_last_attempt_at c) \<and>
     length (rc_deleted_keys c) \<le> 64 \<and>
     (case rc_message c of None \<Rightarrow> True | Some m \<Rightarrow> length m \<le> 240)"

definition archive_facts_ok :: "seed_job_archive_facts \<Rightarrow> bool" where
  "archive_facts_ok a \<longleftrightarrow>
     count_fact (af_bytes a) \<and> digest_fact (af_sha256 a) \<and> count_fact (af_member_count a) \<and>
     digest_fact (af_manifest_fingerprint a) \<and> count_fact (af_manifest_bytes a) \<and>
     digest_fact (af_manifest_sha256 a) \<and> count_fact (af_uploaded_at a) \<and>
     count_fact (af_verified_at a) \<and> cleanup_ok (af_cleanup a)"

section \<open>Lemmas\<close>

lemma positive_int_or_null_ok [simp]: "count_fact (positive_int_or_null v)"
  by (auto simp: count_fact_def positive_int_or_null_def split: option.split jnum.split)

lemma positive_int_or_null_json [simp]:
  "count_fact x \<Longrightarrow> positive_int_or_null (opt_int_json x) = x"
  by (auto simp: count_fact_def positive_int_or_null_def opt_int_json_def split: option.split)

lemma positive_int_or_zero_range: "0 \<le> positive_int_or_zero v \<and> positive_int_or_zero v \<le> js_max_safe"
  by (auto simp: positive_int_or_zero_def js_max_safe_def split: option.split jnum.split)

lemma positive_int_or_zero_json [simp]:
  "0 \<le> n \<Longrightarrow> n \<le> js_max_safe \<Longrightarrow> positive_int_or_zero (JNum (Fin (of_int n))) = n"
  by (auto simp: positive_int_or_zero_def)

lemma hex_digest_or_null_ok [simp]: "digest_fact (hex_digest_or_null v)"
  by (auto simp: digest_fact_def hex_digest_or_null_def split: option.split)

lemma hex_digest_or_null_json [simp]:
  "digest_fact x \<Longrightarrow> hex_digest_or_null (opt_string_json x) = x"
  by (auto simp: digest_fact_def hex_digest_or_null_def opt_string_json_def split: option.split)

lemma as_string_json [simp]: "as_string (opt_string_json x) = x"
  by (simp add: opt_string_json_def split: option.split)

lemma string_items_JStr [simp]: "string_items (map JStr xs) = xs"
  by (induction xs) auto

lemma format_of_json_name [simp]: "format_of_json d (JStr (format_name f)) = f"
  by (cases f) simp_all

lemma cleanup_state_of_json_name [simp]: "cleanup_state_of_json (JStr (cleanup_state_name s)) = s"
  by (cases s) simp_all

declare format_of_json.simps [simp del] and cleanup_state_of_json.simps [simp del]

lemma normalized_facts_ok: "archive_facts_ok (normalize_seed_job_archive_facts d v)"
  using positive_int_or_zero_range
  by (auto simp: normalize_seed_job_archive_facts_def archive_facts_ok_def cleanup_ok_def Let_def
      empty_seed_job_archive_facts_def initial_seed_relay_cleanup_def count_fact_def [of None]
      digest_fact_def [of None] js_max_safe_def split: json.split option.split)

lemma message_take [simp]:
  "(case m of None \<Rightarrow> True | Some s \<Rightarrow> length s \<le> n) \<Longrightarrow> map_option (take n) m = m"
  by (cases m) auto

lemma normalize_stored_facts:
  assumes "archive_facts_ok a"
  shows "normalize_seed_job_archive_facts d (archive_facts_json a) = a"
proof -
  obtain c where c: "af_cleanup a = c" by blast
  have "is_record (cleanup_json c)" by (simp add: cleanup_json_def)
  moreover have "archive_facts_ok a" "cleanup_ok c"
    using assms c by (simp_all add: archive_facts_ok_def)
  ultimately show ?thesis
    by (simp add: normalize_seed_job_archive_facts_def archive_facts_json_def archive_facts_ok_def c
        Let_def, simp add: cleanup_json_def cleanup_ok_def flip: c)
qed

lemma archive_facts_equal_refl [simp]: "seed_archive_facts_equal a a"
  by (simp add: seed_archive_facts_equal_def)

lemma archive_facts_equal_sym: "seed_archive_facts_equal a b \<Longrightarrow> seed_archive_facts_equal b a"
  by (simp add: seed_archive_facts_equal_def)

lemma archive_facts_equal_trans:
  "seed_archive_facts_equal a b \<Longrightarrow> seed_archive_facts_equal b c \<Longrightarrow> seed_archive_facts_equal a c"
  by (simp add: seed_archive_facts_equal_def)

text \<open>Equality of facts ignores exactly the bookkeeping fields.\<close>

lemma archive_facts_equal_iff:
  "seed_archive_facts_equal a b \<longleftrightarrow>
     b = a\<lparr>af_uploaded_at := af_uploaded_at b, af_verified_at := af_verified_at b,
           af_cleanup := af_cleanup b\<rparr>"
  by (cases a; cases b) (auto simp: seed_archive_facts_equal_def)

lemma archive_facts_equal_complete:
  "seed_archive_facts_equal a b \<Longrightarrow> seed_archive_facts_complete a = seed_archive_facts_complete b"
  by (simp add: seed_archive_facts_equal_def seed_archive_facts_complete_def)

text \<open>
  Archive facts survive storage: whatever a row or a request held, the normalized
  facts are well-formed (digests are 64 lower-case hex characters, counts are positive
  safe integers, the cleanup log is bounded), and writing them and reading them back
  gives the same facts, whatever default format the reader passes.
\<close>

theorem archive_facts_round_trip:
  "archive_facts_ok (normalize_seed_job_archive_facts d v) \<and>
   normalize_seed_job_archive_facts d'
     (archive_facts_json (normalize_seed_job_archive_facts d v)) =
   normalize_seed_job_archive_facts d v"
  by (simp add: normalized_facts_ok normalize_stored_facts)

text \<open>
  The target's gate is meaningful: facts that pass it carry a real digest of the
  archive and of the manifest and positive counts, and a record the immutability check
  calls equal passes the gate with the same identity.
\<close>

theorem complete_facts_are_verifiable:
  assumes "seed_archive_facts_complete (normalize_seed_job_archive_facts d v)"
    and "seed_archive_facts_equal (normalize_seed_job_archive_facts d v) b"
  shows "seed_archive_facts_complete b \<and>
    (\<exists>h f m n k. af_sha256 b = Some h \<and> hex64 h \<and>
       af_manifest_fingerprint b = Some f \<and> hex64 f \<and>
       af_manifest_sha256 b = Some m \<and> hex64 m \<and>
       af_bytes b = Some n \<and> 0 < n \<and> af_member_count b = Some k \<and> 0 < k)"
  using assms normalized_facts_ok [of d v] archive_facts_equal_complete [OF assms(2)]
  by (auto simp: seed_archive_facts_equal_def seed_archive_facts_complete_def archive_facts_ok_def
      digest_fact_def count_fact_def)

definition sample_facts :: seed_job_archive_facts where
  "sample_facts =
     \<lparr> af_format = TarZstd, af_bytes = Some 10, af_sha256 = Some (replicate 64 (CHR ''a'')),
       af_object_key = Some ''lamasync/seed/j1/payload.tar.zst'', af_member_count = Some 2,
       af_manifest_fingerprint = Some (replicate 64 (CHR ''b'')),
       af_manifest_object_key = Some ''lamasync/seed/j1/manifest.json'',
       af_manifest_bytes = Some 5, af_manifest_sha256 = Some (replicate 64 (CHR ''c'')),
       af_uploaded_at = Some 7, af_verified_at = None, af_cleanup = initial_seed_relay_cleanup \<rparr>"

lemma sample_facts_complete [simp]: "seed_archive_facts_complete sample_facts"
  by (simp add: sample_facts_def seed_archive_facts_complete_def)

lemma sample_facts_ok [simp]: "archive_facts_ok sample_facts"
  by (simp add: sample_facts_def archive_facts_ok_def count_fact_def digest_fact_def hex64_def
      is_hex_digit_def js_max_safe_def cleanup_ok_def list_all_iff initial_seed_relay_cleanup_def)

theorem complete_facts_are_verifiable_witness:
  "seed_archive_facts_complete (sample_facts\<lparr>af_verified_at := Some 9\<rparr>)"
proof -
  have n: "normalize_seed_job_archive_facts TarGz (archive_facts_json sample_facts) = sample_facts"
    by (simp add: normalize_stored_facts)
  have e: "seed_archive_facts_equal sample_facts (sample_facts\<lparr>af_verified_at := Some 9\<rparr>)"
    by (simp add: seed_archive_facts_equal_def)
  from complete_facts_are_verifiable
    [of TarGz "archive_facts_json sample_facts" "sample_facts\<lparr>af_verified_at := Some 9\<rparr>"]
  show ?thesis using n e by simp
qed

end
