(* ===== verification/Wire_Grammar.thy ===== *)
theory Wire_Grammar
  imports Prelude
begin

text \<open>
  What every request parser of the seed and folder-health surfaces has in common: the
  payload must be an object, unknown fields are refused, and the accepted value is
  rebuilt field by field. The refusals are \<open>wire_error\<close>; the contract the routes rely
  on (the wire is closed, and an accepted payload re-parses to itself) is the locale
  \<open>closed_wire\<close>, interpreted for each parser in the theory that defines it.
\<close>

datatype wire_error =
    Payload_Not_Object
  | Unsupported_Field string
  | Field_Required string
  | Field_Not_String string
  | Field_Not_Boolean string
  | Field_Invalid string
  | Confirm_Required
  | Same_Device
  | Bad_Bucket string

text \<open>The opening of every parser: \<open>isRecord\<close> and the allow-list of keys.\<close>

definition closed_object :: "string list \<Rightarrow> json \<Rightarrow> wire_error option" where
  "closed_object allowed v =
     (if \<not> is_record v then Some Payload_Not_Object
      else map_option Unsupported_Field (unsupported_key allowed v))"

lemma closed_object_None [js_simps]:
  "closed_object allowed v = None \<longleftrightarrow> is_record v \<and> set (obj_keys v) \<subseteq> set allowed"
  by (auto simp: closed_object_def js_simps)

text \<open>\<open>Math.min(Math.floor(value), Number.MAX_SAFE_INTEGER)\<close> of a finite, non-negative number.\<close>

definition bounded_count :: "json \<Rightarrow> int option" where
  "bounded_count v =
     (case Option.bind (as_number v) jnum_val of
        None \<Rightarrow> None
      | Some r \<Rightarrow> if \<lfloor>r\<rfloor> < 0 then None else Some (min \<lfloor>r\<rfloor> js_max_safe))"

lemma bounded_count_range: "bounded_count v = Some n \<Longrightarrow> 0 \<le> n \<and> n \<le> js_max_safe"
  by (auto simp: bounded_count_def js_max_safe_def split: option.splits if_splits)

lemma bounded_count_of_int [js_simps]:
  "0 \<le> n \<Longrightarrow> n \<le> js_max_safe \<Longrightarrow> bounded_count (JNum (Fin (of_int n))) = Some n"
  by (simp add: bounded_count_def)

lemma bounded_count_JNull [simp]: "bounded_count JNull = None" "bounded_count JUndef = None"
  by (simp_all add: bounded_count_def)

definition opt_num :: "int option \<Rightarrow> json" where
  "opt_num x = (case x of None \<Rightarrow> JNull | Some n \<Rightarrow> JNum (Fin (of_int n)))"

definition opt_str :: "string option \<Rightarrow> json" where
  "opt_str x = (case x of None \<Rightarrow> JNull | Some s \<Rightarrow> JStr s)"

lemma opt_simps [simp]:
  "opt_num None = JNull" "opt_num (Some n) = JNum (Fin (of_int n))"
  "opt_str None = JNull" "opt_str (Some s) = JStr s"
  by (simp_all add: opt_num_def opt_str_def)

locale closed_wire =
  fixes parse :: "json \<Rightarrow> wire_error + 'a"
    and allowed :: "string list"
    and wf :: "'a \<Rightarrow> bool"
    and encode :: "'a \<Rightarrow> json"
  assumes closed: "parse v = Inr p \<Longrightarrow> closed_object allowed v = None"
    and accepted_wf: "parse v = Inr p \<Longrightarrow> wf p"
    and encoded: "wf p \<Longrightarrow> parse (encode p) = Inr p"
begin

lemma reparse: "parse v = Inr p \<Longrightarrow> parse (encode p) = Inr p"
  by (rule encoded [OF accepted_wf])

lemma range: "(\<exists>v. parse v = Inr p) \<longleftrightarrow> wf p"
  using accepted_wf encoded by blast

lemma unknown_field: "k \<in> set (obj_keys v) \<Longrightarrow> k \<notin> set allowed \<Longrightarrow> \<exists>e. parse v = Inl e"
  by (metis closed closed_object_None obj_sumE subsetD)

lemma not_object: "\<not> is_record v \<Longrightarrow> \<exists>e. parse v = Inl e"
  by (metis closed closed_object_None obj_sumE)

lemma encode_inj: "wf p \<Longrightarrow> wf q \<Longrightarrow> encode p = encode q \<Longrightarrow> p = q"
  by (metis encoded sum.inject(2))

end

end
