(* ===== verification/Seed_Wire.thy ===== *)
theory Seed_Wire
  imports Wire_Grammar Seed_Phases
begin

text \<open>
  The request payloads of the seed surface and their parsers, from the last part of
  \<open>packages/core/src/folder-seed.ts\<close>. The field \<open>confirm: true\<close> of an accepted
  payload carries no information, so the records do not store it.
\<close>

section \<open>Seed plan requests\<close>

record seed_plan_request =
  spr_folder_id :: string
  spr_host_id :: string
  spr_source_host_id :: string

definition parse_seed_plan_request_payload :: "json \<Rightarrow> wire_error + seed_plan_request" where
  "parse_seed_plan_request_payload v =
     (case closed_object [''folderId'', ''hostId'', ''sourceHostId'', ''confirm''] v of
        Some e \<Rightarrow> Inl e
      | None \<Rightarrow>
     (case nonempty_string (obj_get v ''folderId'') of
        None \<Rightarrow> Inl (Field_Required ''folderId'')
      | Some folder \<Rightarrow>
     (case nonempty_string (obj_get v ''hostId'') of
        None \<Rightarrow> Inl (Field_Required ''hostId'')
      | Some host \<Rightarrow>
     (case nonempty_string (obj_get v ''sourceHostId'') of
        None \<Rightarrow> Inl (Field_Required ''sourceHostId'')
      | Some src \<Rightarrow>
          if src = host then Inl Same_Device
          else if obj_get v ''confirm'' \<noteq> JBool True then Inl Confirm_Required
          else Inr \<lparr> spr_folder_id = folder, spr_host_id = host, spr_source_host_id = src \<rparr>))))"

definition plan_request_ok :: "seed_plan_request \<Rightarrow> bool" where
  "plan_request_ok p \<longleftrightarrow>
     spr_folder_id p \<noteq> [] \<and> spr_host_id p \<noteq> [] \<and> spr_source_host_id p \<noteq> [] \<and>
     spr_source_host_id p \<noteq> spr_host_id p"

definition plan_request_json :: "seed_plan_request \<Rightarrow> json" where
  "plan_request_json p =
     JObj [(''folderId'', JStr (spr_folder_id p)), (''hostId'', JStr (spr_host_id p)),
           (''sourceHostId'', JStr (spr_source_host_id p)), (''confirm'', JBool True)]"

interpretation plan_request: closed_wire
  parse_seed_plan_request_payload "[''folderId'', ''hostId'', ''sourceHostId'', ''confirm'']"
  plan_request_ok plan_request_json
  by unfold_locales
    (auto simp: parse_seed_plan_request_payload_def plan_request_ok_def plan_request_json_def
      js_simps nonempty_string_def split: option.splits if_splits)

section \<open>Seed job actions\<close>

record seed_job_action_payload =
  sja_job_id :: string
  sja_role :: seed_job_role

fun role_name :: "seed_job_role \<Rightarrow> string" where
  "role_name Source_Role = ''source''"
| "role_name Target_Role = ''target''"

definition parse_seed_job_action_payload :: "json \<Rightarrow> wire_error + seed_job_action_payload" where
  "parse_seed_job_action_payload v =
     (case closed_object [''jobId'', ''role''] v of
        Some e \<Rightarrow> Inl e
      | None \<Rightarrow>
     (case nonempty_string (obj_get v ''jobId'') of
        None \<Rightarrow> Inl (Field_Required ''jobId'')
      | Some job \<Rightarrow>
          if length job > 128 then Inl (Field_Required ''jobId'')
          else if obj_get v ''role'' = JStr ''source''
            then Inr \<lparr> sja_job_id = job, sja_role = Source_Role \<rparr>
          else if obj_get v ''role'' = JStr ''target''
            then Inr \<lparr> sja_job_id = job, sja_role = Target_Role \<rparr>
          else Inl (Field_Invalid ''role'')))"

definition job_action_ok :: "seed_job_action_payload \<Rightarrow> bool" where
  "job_action_ok p \<longleftrightarrow> sja_job_id p \<noteq> [] \<and> length (sja_job_id p) \<le> 128"

definition job_action_json :: "seed_job_action_payload \<Rightarrow> json" where
  "job_action_json p =
     JObj [(''jobId'', JStr (sja_job_id p)), (''role'', JStr (role_name (sja_role p)))]"

lemma job_action_encoded:
  "job_action_ok p \<Longrightarrow> parse_seed_job_action_payload (job_action_json p) = Inr p"
  by (cases "sja_role p")
    (simp_all add: parse_seed_job_action_payload_def job_action_ok_def job_action_json_def
      closed_object_def unsupported_key_def nonempty_string_def)

interpretation job_action: closed_wire
  parse_seed_job_action_payload "[''jobId'', ''role'']" job_action_ok job_action_json
proof unfold_locales
  show "parse_seed_job_action_payload v = Inr p \<Longrightarrow> closed_object [''jobId'', ''role''] v = None"
    and "parse_seed_job_action_payload v = Inr p \<Longrightarrow> job_action_ok p" for v p
    by (auto simp: parse_seed_job_action_payload_def job_action_ok_def js_simps
        split: option.splits if_splits)
qed (rule job_action_encoded)

section \<open>Seed job creation\<close>

definition parse_seed_job_create_payload :: "json \<Rightarrow> wire_error + string" where
  "parse_seed_job_create_payload v =
     (case closed_object [''planId'', ''confirm''] v of
        Some e \<Rightarrow> Inl e
      | None \<Rightarrow>
     (case nonempty_string (obj_get v ''planId'') of
        None \<Rightarrow> Inl (Field_Required ''planId'')
      | Some plan \<Rightarrow>
          if obj_get v ''confirm'' \<noteq> JBool True then Inl Confirm_Required
          else Inr plan))"

interpretation job_create: closed_wire
  parse_seed_job_create_payload "[''planId'', ''confirm'']" "\<lambda>p. p \<noteq> []"
  "\<lambda>p. JObj [(''planId'', JStr p), (''confirm'', JBool True)]"
  by unfold_locales
    (auto simp: parse_seed_job_create_payload_def js_simps nonempty_string_def
      split: option.splits if_splits)

section \<open>Progress reports\<close>

record seed_progress_payload =
  spp_phase :: seed_job_phase
  spp_message :: string
  spp_bytes_done :: int
  spp_bytes_total :: "int option"
  spp_entries_done :: int
  spp_entries_total :: "int option"
  spp_lease_owner :: "string option"
  spp_lease_ms :: "int option"

definition progress_fields :: "string list" where
  "progress_fields =
     [''phase'', ''message'', ''bytesDone'', ''bytesTotal'', ''entriesDone'', ''entriesTotal'',
      ''leaseOwner'', ''leaseMs'']"

definition seed_phase_of_name :: "string \<Rightarrow> seed_job_phase option" where
  "seed_phase_of_name s = find (\<lambda>p. seed_phase_name p = s) SEED_JOB_PHASES"

definition parse_seed_progress_payload :: "json \<Rightarrow> wire_error + seed_progress_payload" where
  "parse_seed_progress_payload v =
     (case closed_object progress_fields v of
        Some e \<Rightarrow> Inl e
      | None \<Rightarrow>
     (case Option.bind (as_string (obj_get v ''phase'')) seed_phase_of_name of
        None \<Rightarrow> Inl (Field_Invalid ''phase'')
      | Some phase \<Rightarrow>
          Inr \<lparr> spp_phase = phase,
                spp_message =
                  (case as_string (obj_get v ''message'') of None \<Rightarrow> '''' | Some m \<Rightarrow> take 300 m),
                spp_bytes_done = or_default (bounded_count (obj_get v ''bytesDone'')) 0,
                spp_bytes_total =
                  (if obj_get v ''bytesTotal'' = JNull \<or> obj_get v ''bytesTotal'' = JUndef then None
                   else bounded_count (obj_get v ''bytesTotal'')),
                spp_entries_done = or_default (bounded_count (obj_get v ''entriesDone'')) 0,
                spp_entries_total =
                  (if obj_get v ''entriesTotal'' = JNull \<or> obj_get v ''entriesTotal'' = JUndef then None
                   else bounded_count (obj_get v ''entriesTotal'')),
                spp_lease_owner = map_option (take 128) (as_string (obj_get v ''leaseOwner'')),
                spp_lease_ms = bounded_count (obj_get v ''leaseMs'') \<rparr>))"

definition count_ok :: "int \<Rightarrow> bool" where
  "count_ok n \<longleftrightarrow> 0 \<le> n \<and> n \<le> js_max_safe"

definition opt_count_ok :: "int option \<Rightarrow> bool" where
  "opt_count_ok x \<longleftrightarrow> (case x of None \<Rightarrow> True | Some n \<Rightarrow> count_ok n)"

definition progress_ok :: "seed_progress_payload \<Rightarrow> bool" where
  "progress_ok p \<longleftrightarrow>
     length (spp_message p) \<le> 300 \<and>
     count_ok (spp_bytes_done p) \<and> opt_count_ok (spp_bytes_total p) \<and>
     count_ok (spp_entries_done p) \<and> opt_count_ok (spp_entries_total p) \<and>
     (case spp_lease_owner p of None \<Rightarrow> True | Some s \<Rightarrow> length s \<le> 128) \<and>
     opt_count_ok (spp_lease_ms p)"

definition progress_json :: "seed_progress_payload \<Rightarrow> json" where
  "progress_json p =
     JObj [(''phase'', JStr (seed_phase_name (spp_phase p))),
           (''message'', JStr (spp_message p)),
           (''bytesDone'', opt_num (Some (spp_bytes_done p))),
           (''bytesTotal'', opt_num (spp_bytes_total p)),
           (''entriesDone'', opt_num (Some (spp_entries_done p))),
           (''entriesTotal'', opt_num (spp_entries_total p)),
           (''leaseOwner'', opt_str (spp_lease_owner p)),
           (''leaseMs'', opt_num (spp_lease_ms p))]"

lemma seed_phase_of_name_name [simp]: "seed_phase_of_name (seed_phase_name p) = Some p"
  by (cases p) (simp_all add: seed_phase_of_name_def SEED_JOB_PHASES_def)

lemma seed_phase_of_name_SomeD: "seed_phase_of_name s = Some p \<Longrightarrow> s = seed_phase_name p"
  by (auto simp: seed_phase_of_name_def dest: find_SomeD)

lemma count_ok_bounded: "bounded_count v = Some n \<Longrightarrow> count_ok n"
  using bounded_count_range by (simp add: count_ok_def)

lemma opt_count_ok_bounded [simp]: "opt_count_ok (bounded_count v)"
  by (auto simp: opt_count_ok_def dest: count_ok_bounded split: option.split)

lemma count_ok_default [simp]: "count_ok (or_default (bounded_count v) 0)"
  by (cases "bounded_count v") (auto dest: count_ok_bounded simp: count_ok_def js_max_safe_def)

lemma bounded_opt_num [simp]: "opt_count_ok x \<Longrightarrow> bounded_count (opt_num x) = x"
  by (cases x) (auto simp: opt_count_ok_def count_ok_def js_simps)

lemma bounded_count_num [simp]: "count_ok n \<Longrightarrow> bounded_count (JNum (Fin (of_int n))) = Some n"
  by (simp add: count_ok_def js_simps)

lemma progress_accepted_ok: "parse_seed_progress_payload v = Inr p \<Longrightarrow> progress_ok p"
  by (auto simp: parse_seed_progress_payload_def progress_ok_def opt_count_ok_def [of None]
      split: option.splits)

lemma progress_encoded: "progress_ok p \<Longrightarrow> parse_seed_progress_payload (progress_json p) = Inr p"
  by (cases "spp_lease_owner p"; cases "spp_bytes_total p"; cases "spp_entries_total p")
    (simp_all add: parse_seed_progress_payload_def progress_ok_def progress_json_def
      progress_fields_def closed_object_def unsupported_key_def opt_count_ok_def [of "Some _"])

interpretation progress: closed_wire
  parse_seed_progress_payload progress_fields progress_ok progress_json
  by unfold_locales
    (auto simp: progress_encoded dest: progress_accepted_ok, simp add: parse_seed_progress_payload_def
      split: option.splits)

section \<open>Properties\<close>

text \<open>
  Seed requests are a closed wire: the progress payloads the parser can produce are
  exactly the bounded ones (message at most 300 characters, lease owner at most 128,
  counters in 0 .. 2^53 - 1), and sending an accepted payload again is accepted
  unchanged.
\<close>

theorem progress_wire_is_closed:
  "(\<exists>v. parse_seed_progress_payload v = Inr p) = progress_ok p \<and>
   (parse_seed_progress_payload v = Inr q \<longrightarrow>
      parse_seed_progress_payload (progress_json q) = Inr q \<and>
      set (obj_keys v) \<subseteq> set progress_fields)"
  using progress.range progress.reparse [of v q] progress.closed [of v q]
  by (auto simp: js_simps)

theorem progress_wire_is_closed_witness:
  "parse_seed_progress_payload
     (JObj [(''phase'', JStr ''publishing''), (''bytesDone'', JNum (Fin (7 / 2)))]) =
   Inr \<lparr> spp_phase = Publishing, spp_message = '''', spp_bytes_done = 3, spp_bytes_total = None,
         spp_entries_done = 0, spp_entries_total = None, spp_lease_owner = None,
         spp_lease_ms = None \<rparr> \<and>
   progress_ok \<lparr> spp_phase = Publishing, spp_message = '''', spp_bytes_done = 3,
         spp_bytes_total = None, spp_entries_done = 0, spp_entries_total = None,
         spp_lease_owner = None, spp_lease_ms = None \<rparr>"
  (is "parse_seed_progress_payload ?v = Inr ?p \<and> _")
proof -
  have "seed_phase_of_name ''publishing'' = Some Publishing"
    using seed_phase_of_name_name [of Publishing] by simp
  moreover have "\<lfloor>7 / 2 :: rat\<rfloor> = 3" by (simp add: floor_eq_iff)
  ultimately have p: "parse_seed_progress_payload ?v = Inr ?p"
    by (simp add: parse_seed_progress_payload_def closed_object_def unsupported_key_def
        progress_fields_def bounded_count_def js_max_safe_def)
  with progress_wire_is_closed [of ?p ?v ?p] show ?thesis by blast
qed

text \<open>
  A seed plan is only ever requested for two distinct, named devices with the
  operator's confirmation: that is what an accepted request says, and every such
  request is accepted.
\<close>

theorem plan_requests_name_two_devices:
  "(\<exists>v. parse_seed_plan_request_payload v = Inr p) =
     (spr_folder_id p \<noteq> [] \<and> spr_host_id p \<noteq> [] \<and> spr_source_host_id p \<noteq> [] \<and>
      spr_source_host_id p \<noteq> spr_host_id p)"
  using plan_request.range [of p] by (simp add: plan_request_ok_def)

end
