(* ===== verification/Seed_Pilot.thy ===== *)
theory Seed_Pilot
  imports Wire_Grammar
begin

text \<open>
  The operator's seed pilot (\<open>packages/core/src/seed-pilot.ts\<close>): the configuration that
  authorizes exactly one folder and one ordered device pair, the stored readiness
  verdict of its temporary seed space, and the parser of the write that enables it. The
  operator-facing reasons are constructors carrying what the sentence interpolates;
  \<open>Pilot_Text\<close> is a sentence of a caller's own.
\<close>

section \<open>Configuration\<close>

datatype readiness_state = Readiness_Unknown | Readiness_Ready | Readiness_Failed

record seed_pilot_readiness =
  rd_state :: readiness_state
  rd_bucket :: "string option"
  rd_checked_at :: "int option"
  rd_message :: "string option"
  rd_target_fingerprint :: "string option"

definition unknown_seed_pilot_readiness :: seed_pilot_readiness where
  "unknown_seed_pilot_readiness =
     \<lparr> rd_state = Readiness_Unknown, rd_bucket = None, rd_checked_at = None, rd_message = None,
       rd_target_fingerprint = None \<rparr>"

record seed_pilot_config =
  pc_enabled :: bool
  pc_folder_id :: "string option"
  pc_source_host_id :: "string option"
  pc_target_host_id :: "string option"
  pc_backend_id :: "string option"
  pc_bucket :: "string option"
  pc_updated_at :: "int option"
  pc_readiness :: seed_pilot_readiness

definition empty_seed_pilot_config :: seed_pilot_config where
  "empty_seed_pilot_config =
     \<lparr> pc_enabled = False, pc_folder_id = None, pc_source_host_id = None,
       pc_target_host_id = None, pc_backend_id = None, pc_bucket = None, pc_updated_at = None,
       pc_readiness = unknown_seed_pilot_readiness \<rparr>"

record seed_pilot_request =
  rq_folder_id :: string
  rq_source_host_id :: string
  rq_target_host_id :: string

datatype pilot_reason =
    Pilot_Not_Configured
  | Pilot_Other_Folder
  | Pilot_Other_Source "string option" string
  | Pilot_Other_Target "string option" string
  | Pilot_No_Space
  | Pilot_Authorized
  | Pilot_Probe_Failed "string option"
  | Pilot_Verdict_Stale
  | Pilot_Not_Probed
  | Pilot_Text string

record seed_pilot_eligibility =
  el_eligible :: bool
  el_reason :: pilot_reason

section \<open>Eligibility\<close>

definition seed_pilot_eligibility ::
    "seed_pilot_config option \<Rightarrow> seed_pilot_request \<Rightarrow> seed_pilot_eligibility" where
  "seed_pilot_eligibility config request =
     (let refuse = (\<lambda>r. \<lparr> el_eligible = False, el_reason = r \<rparr>)
      in case config of
           None \<Rightarrow> refuse Pilot_Not_Configured
         | Some c \<Rightarrow>
             if \<not> pc_enabled c then refuse Pilot_Not_Configured
             else if pc_folder_id c \<noteq> Some (rq_folder_id request) then refuse Pilot_Other_Folder
             else if pc_source_host_id c \<noteq> Some (rq_source_host_id request)
               then refuse (Pilot_Other_Source (pc_source_host_id c) (rq_source_host_id request))
             else if pc_target_host_id c \<noteq> Some (rq_target_host_id request)
               then refuse (Pilot_Other_Target (pc_target_host_id c) (rq_target_host_id request))
             else if pc_backend_id c = None \<or> pc_bucket c = None then refuse Pilot_No_Space
             else \<lparr> el_eligible = True, el_reason = Pilot_Authorized \<rparr>)"

definition seed_pilot_matches :: "seed_pilot_config option \<Rightarrow> seed_pilot_request \<Rightarrow> bool" where
  "seed_pilot_matches config request = el_eligible (seed_pilot_eligibility config request)"

definition seed_pilot_readiness_is_current ::
    "seed_pilot_config \<Rightarrow> string option \<Rightarrow> string option \<Rightarrow> bool" where
  "seed_pilot_readiness_is_current c bucket live \<longleftrightarrow>
     rd_state (pc_readiness c) = Readiness_Ready \<and>
     bucket \<noteq> None \<and>
     live \<noteq> None \<and>
     rd_bucket (pc_readiness c) = bucket \<and>
     rd_target_fingerprint (pc_readiness c) = live"

definition seed_pilot_execution_eligibility ::
    "seed_pilot_config option \<Rightarrow> seed_pilot_request \<Rightarrow> string option \<Rightarrow> seed_pilot_eligibility" where
  "seed_pilot_execution_eligibility config request live =
     (let scope = seed_pilot_eligibility config request
      in case config of
           None \<Rightarrow> scope
         | Some c \<Rightarrow>
             if \<not> el_eligible scope then scope
             else if \<not> seed_pilot_readiness_is_current c (pc_bucket c) live then
               (let r = pc_readiness c;
                    stale = (rd_state r = Readiness_Ready \<and> rd_target_fingerprint r \<noteq> live)
                in \<lparr> el_eligible = False,
                     el_reason =
                       (if rd_state r = Readiness_Failed then Pilot_Probe_Failed (rd_message r)
                        else if stale then Pilot_Verdict_Stale
                        else Pilot_Not_Probed) \<rparr>)
             else scope)"

record probe_outcome =
  po_ok :: bool
  po_detail :: string

definition seed_pilot_readiness_verdict ::
    "string option \<Rightarrow> string option \<Rightarrow> probe_outcome \<Rightarrow> int \<Rightarrow> seed_pilot_readiness" where
  "seed_pilot_readiness_verdict bucket fingerprint outcome now =
     \<lparr> rd_state = (if po_ok outcome then Readiness_Ready else Readiness_Failed),
       rd_bucket = bucket,
       rd_checked_at = Some now,
       rd_message = Some (take 300 (js_trim (po_detail outcome))),
       rd_target_fingerprint = fingerprint \<rparr>"

section \<open>The write\<close>

definition lower_alnum :: "char \<Rightarrow> bool" where
  "lower_alnum c \<longleftrightarrow> is_lower c \<or> is_digit c"

text \<open>The pattern \<open>/^[a-z0-9][a-z0-9.-]{1,61}[a-z0-9]$/\<close>.\<close>

definition is_seed_relay_bucket_name :: "string \<Rightarrow> bool" where
  "is_seed_relay_bucket_name s \<longleftrightarrow>
     3 \<le> length s \<and> length s \<le> 63 \<and>
     lower_alnum (hd s) \<and> lower_alnum (last s) \<and>
     list_all (\<lambda>c. lower_alnum c \<or> c = CHR ''.'' \<or> c = CHR ''-'') s"

record seed_pilot_update =
  pu_enabled :: bool
  pu_folder_id :: "string option"
  pu_source_host_id :: "string option"
  pu_target_host_id :: "string option"
  pu_backend_id :: "string option"
  pu_bucket :: "string option"

fun optional_id :: "json \<Rightarrow> string \<Rightarrow> wire_error + string option" where
  "optional_id JUndef _ = Inr None"
| "optional_id JNull _ = Inr None"
| "optional_id (JStr s) _ =
     Inr (if s = [] then None else if js_trim s = [] then None else Some (js_trim s))"
| "optional_id _ field = Inl (Field_Not_String field)"

definition pilot_fields :: "string list" where
  "pilot_fields =
     [''enabled'', ''folderId'', ''sourceHostId'', ''targetHostId'', ''backendId'', ''bucket'',
      ''confirm'']"

text \<open>The checks of an enabling write, in their order; \<open>None\<close> when all pass.\<close>

definition enable_problem :: "seed_pilot_update \<Rightarrow> wire_error option" where
  "enable_problem u =
     (case (pu_folder_id u, pu_source_host_id u, pu_target_host_id u, pu_backend_id u, pu_bucket u) of
        (None, _, _, _, _) \<Rightarrow> Some (Field_Required ''folderId'')
      | (_, None, _, _, _) \<Rightarrow> Some (Field_Required ''sourceHostId'')
      | (_, _, None, _, _) \<Rightarrow> Some (Field_Required ''targetHostId'')
      | (_, _, _, None, _) \<Rightarrow> Some (Field_Required ''backendId'')
      | (_, _, _, _, None) \<Rightarrow> Some (Field_Required ''bucket'')
      | (Some _, Some s, Some t, Some _, Some b) \<Rightarrow>
          if s = t then Some Same_Device
          else if \<not> is_seed_relay_bucket_name b then Some (Bad_Bucket b)
          else None)"

definition parse_seed_pilot_update_payload :: "json \<Rightarrow> wire_error + seed_pilot_update" where
  "parse_seed_pilot_update_payload v =
     (case closed_object pilot_fields v of
        Some e \<Rightarrow> Inl e
      | None \<Rightarrow>
     (if obj_get v ''confirm'' \<noteq> JBool True then Inl Confirm_Required
      else
     (case as_bool (obj_get v ''enabled'') of
        None \<Rightarrow> Inl (Field_Not_Boolean ''enabled'')
      | Some en \<Rightarrow>
     (case optional_id (obj_get v ''folderId'') ''folderId'' of
        Inl e \<Rightarrow> Inl e
      | Inr folder \<Rightarrow>
     (case optional_id (obj_get v ''sourceHostId'') ''sourceHostId'' of
        Inl e \<Rightarrow> Inl e
      | Inr src \<Rightarrow>
     (case optional_id (obj_get v ''targetHostId'') ''targetHostId'' of
        Inl e \<Rightarrow> Inl e
      | Inr tgt \<Rightarrow>
     (case optional_id (obj_get v ''backendId'') ''backendId'' of
        Inl e \<Rightarrow> Inl e
      | Inr backend \<Rightarrow>
     (case optional_id (obj_get v ''bucket'') ''bucket'' of
        Inl e \<Rightarrow> Inl e
      | Inr bucket \<Rightarrow>
          (let u = \<lparr> pu_enabled = en, pu_folder_id = folder, pu_source_host_id = src,
                     pu_target_host_id = tgt, pu_backend_id = backend, pu_bucket = bucket \<rparr>
           in case (if en then enable_problem u else None) of
                Some e \<Rightarrow> Inl e
              | None \<Rightarrow> Inr u)))))))))"

section \<open>The grammar of the write\<close>

definition id_ok :: "string option \<Rightarrow> bool" where
  "id_ok x \<longleftrightarrow> (case x of None \<Rightarrow> True | Some s \<Rightarrow> s \<noteq> [] \<and> js_trim s = s)"

definition pilot_update_ok :: "seed_pilot_update \<Rightarrow> bool" where
  "pilot_update_ok u \<longleftrightarrow>
     id_ok (pu_folder_id u) \<and> id_ok (pu_source_host_id u) \<and> id_ok (pu_target_host_id u) \<and>
     id_ok (pu_backend_id u) \<and> id_ok (pu_bucket u) \<and>
     (pu_enabled u \<longrightarrow> enable_problem u = None)"

definition pilot_update_json :: "seed_pilot_update \<Rightarrow> json" where
  "pilot_update_json u =
     JObj [(''enabled'', JBool (pu_enabled u)), (''folderId'', opt_str (pu_folder_id u)),
           (''sourceHostId'', opt_str (pu_source_host_id u)),
           (''targetHostId'', opt_str (pu_target_host_id u)),
           (''backendId'', opt_str (pu_backend_id u)), (''bucket'', opt_str (pu_bucket u)),
           (''confirm'', JBool True)]"

lemma optional_id_ok: "optional_id v f = Inr x \<Longrightarrow> id_ok x"
  by (cases v) (auto simp: id_ok_def js_simps split: if_splits)

lemma optional_id_str [simp]: "id_ok x \<Longrightarrow> optional_id (opt_str x) f = Inr x"
  by (cases x) (auto simp: id_ok_def)

lemma as_bool_Some [js_simps]: "as_bool v = Some b \<longleftrightarrow> v = JBool b"
  by (cases v) auto

lemma pilot_update_closed: "parse_seed_pilot_update_payload v = Inr u \<Longrightarrow> closed_object pilot_fields v = None"
  by (auto simp: parse_seed_pilot_update_payload_def split: option.splits)

lemma pilot_update_accepted: "parse_seed_pilot_update_payload v = Inr u \<Longrightarrow> pilot_update_ok u"
  by (auto simp: parse_seed_pilot_update_payload_def pilot_update_ok_def Let_def
      dest: optional_id_ok split: option.splits sum.splits if_splits)

lemma pilot_update_encoded:
  assumes "pilot_update_ok u"
  shows "parse_seed_pilot_update_payload (pilot_update_json u) = Inr u"
proof -
  have "closed_object pilot_fields (pilot_update_json u) = None"
    by (simp add: closed_object_def pilot_update_json_def unsupported_key_def pilot_fields_def)
  moreover obtain en f s t b k where "u =
      \<lparr> pu_enabled = en, pu_folder_id = f, pu_source_host_id = s, pu_target_host_id = t,
        pu_backend_id = b, pu_bucket = k \<rparr>"
    by (cases u) blast
  ultimately show ?thesis
    using assms
    by (simp add: parse_seed_pilot_update_payload_def pilot_update_ok_def pilot_update_json_def Let_def)
qed

interpretation pilot_update: closed_wire
  parse_seed_pilot_update_payload pilot_fields pilot_update_ok pilot_update_json
  by unfold_locales (fact pilot_update_closed pilot_update_accepted pilot_update_encoded)+

section \<open>Lemmas\<close>

lemma eligible_iff:
  "el_eligible (seed_pilot_eligibility config r) \<longleftrightarrow>
     (\<exists>c. config = Some c \<and> pc_enabled c \<and> pc_folder_id c = Some (rq_folder_id r) \<and>
          pc_source_host_id c = Some (rq_source_host_id r) \<and>
          pc_target_host_id c = Some (rq_target_host_id r) \<and>
          pc_backend_id c \<noteq> None \<and> pc_bucket c \<noteq> None)"
  by (auto simp: seed_pilot_eligibility_def Let_def split: option.split)

lemma execution_eligible_iff:
  "el_eligible (seed_pilot_execution_eligibility config r live) \<longleftrightarrow>
     (\<exists>c. config = Some c \<and> el_eligible (seed_pilot_eligibility config r) \<and>
          rd_state (pc_readiness c) = Readiness_Ready \<and> live \<noteq> None \<and>
          rd_bucket (pc_readiness c) = pc_bucket c \<and>
          rd_target_fingerprint (pc_readiness c) = live)"
  by (auto simp: seed_pilot_execution_eligibility_def Let_def seed_pilot_readiness_is_current_def
      eligible_iff split: option.splits)

lemma eligible_unique:
  "el_eligible (seed_pilot_eligibility config r) \<Longrightarrow>
   el_eligible (seed_pilot_eligibility config r') \<Longrightarrow> r = (r' :: seed_pilot_request)"
  by (cases r; cases r') (auto simp: eligible_iff)

lemma eligible_reason:
  "el_eligible (seed_pilot_execution_eligibility config r live) \<longleftrightarrow>
     el_reason (seed_pilot_execution_eligibility config r live) = Pilot_Authorized"
  by (auto simp: seed_pilot_execution_eligibility_def seed_pilot_eligibility_def Let_def
      split: option.splits)

text \<open>The configuration an accepted write stores before any probe has run.\<close>

definition config_of_update :: "seed_pilot_update \<Rightarrow> seed_pilot_readiness \<Rightarrow> int \<Rightarrow> seed_pilot_config" where
  "config_of_update u r now =
     \<lparr> pc_enabled = pu_enabled u, pc_folder_id = pu_folder_id u,
       pc_source_host_id = pu_source_host_id u, pc_target_host_id = pu_target_host_id u,
       pc_backend_id = pu_backend_id u, pc_bucket = pu_bucket u, pc_updated_at = Some now,
       pc_readiness = r \<rparr>"

text \<open>
  The pilot authorizes one ordered pair: if a request may run against some probed
  seed space, then no other folder, source or target may, in particular not the reverse
  direction, and no other probe target is accepted.
\<close>

theorem pilot_authorizes_one_pair:
  assumes "el_eligible (seed_pilot_execution_eligibility config r live)"
  shows "el_eligible (seed_pilot_execution_eligibility config r' live') = (r' = r \<and> live' = live)"
  using assms eligible_unique [of config r r']
  by (auto simp: execution_eligible_iff)

definition sample_pilot :: seed_pilot_config where
  "sample_pilot =
     \<lparr> pc_enabled = True, pc_folder_id = Some ''f'', pc_source_host_id = Some ''a'',
       pc_target_host_id = Some ''b'', pc_backend_id = Some ''s3'', pc_bucket = Some ''seed'',
       pc_updated_at = Some 1,
       pc_readiness =
         seed_pilot_readiness_verdict (Some ''seed'') (Some ''fp'') \<lparr> po_ok = True, po_detail = ''ok'' \<rparr> 2 \<rparr>"

theorem pilot_authorizes_one_pair_witness:
  "\<not> el_eligible (seed_pilot_execution_eligibility (Some sample_pilot)
        \<lparr> rq_folder_id = ''f'', rq_source_host_id = ''b'', rq_target_host_id = ''a'' \<rparr> (Some ''fp''))"
  using pilot_authorizes_one_pair
    [of "Some sample_pilot" "\<lparr> rq_folder_id = ''f'', rq_source_host_id = ''a'', rq_target_host_id = ''b'' \<rparr>"
        "Some ''fp''" "\<lparr> rq_folder_id = ''f'', rq_source_host_id = ''b'', rq_target_host_id = ''a'' \<rparr>"
        "Some ''fp''"]
  by (simp add: execution_eligible_iff eligible_iff sample_pilot_def seed_pilot_readiness_verdict_def)

text \<open>
  An enabling write can only be accepted when it names a folder, two different
  devices, a backend and a legal bucket; the configuration it stores matches that one
  request and nothing else, and it runs nothing until a probe of this bucket passed.
\<close>

theorem enabling_write_scope:
  assumes "parse_seed_pilot_update_payload v = Inr u" and "pu_enabled u"
  shows "\<exists>r. rq_source_host_id r \<noteq> rq_target_host_id r \<and>
           (\<forall>r'. seed_pilot_matches (Some (config_of_update u rd now)) r' = (r' = r)) \<and>
           \<not> el_eligible (seed_pilot_execution_eligibility
                (Some (config_of_update u unknown_seed_pilot_readiness now)) r live)"
proof -
  from pilot_update_accepted [OF assms(1)] assms(2)
  have "enable_problem u = None" by (simp add: pilot_update_ok_def)
  then obtain f s t b k where u: "pu_folder_id u = Some f" "pu_source_host_id u = Some s"
    "pu_target_host_id u = Some t" "pu_backend_id u = Some b" "pu_bucket u = Some k" "s \<noteq> t"
    by (auto simp: enable_problem_def split: option.splits if_splits)
  let ?r = "\<lparr> rq_folder_id = f, rq_source_host_id = s, rq_target_host_id = t \<rparr>"
  have "seed_pilot_matches (Some (config_of_update u rd now)) r' = (r' = ?r)" for r'
    using u assms(2)
    by (cases r') (auto simp: seed_pilot_matches_def eligible_iff config_of_update_def)
  with u show ?thesis
    by (intro exI [of _ ?r])
      (auto simp: execution_eligible_iff config_of_update_def unknown_seed_pilot_readiness_def)
qed

theorem enabling_write_scope_witness:
  "\<exists>r. seed_pilot_matches
     (Some (config_of_update
        \<lparr> pu_enabled = True, pu_folder_id = Some ''f'', pu_source_host_id = Some ''a'',
          pu_target_host_id = Some ''b'', pu_backend_id = Some ''s3'', pu_bucket = Some ''seed'' \<rparr>
        unknown_seed_pilot_readiness 0)) r"
  (is "\<exists>r. seed_pilot_matches (Some (config_of_update ?u _ _)) r")
proof -
  have "pilot_update_ok ?u"
    by (simp add: pilot_update_ok_def id_ok_def js_trim_def js_space_def enable_problem_def
        is_seed_relay_bucket_name_def lower_alnum_def is_lower_def is_digit_def)
  from pilot_update_encoded [OF this] show ?thesis
    using enabling_write_scope [of "pilot_update_json ?u" ?u unknown_seed_pilot_readiness 0]
    by fastforce
qed

end
