(* ===== verification/Seed_Space.thy ===== *)
theory Seed_Space
  imports Seed_Archive
begin

text \<open>
  The space a target must reserve for a seed, the byte formatting the sentences use, and
  the recommendation (\<open>computeSeedSpacePlan\<close>, \<open>formatSeedBytes\<close>,
  \<open>recommendSeed\<close> of \<open>packages/core/src/folder-seed.ts\<close>). Quantities are exact
  rationals; the rounding of a double product is not modelled.
\<close>

record seed_space_input =
  si_source_bytes :: jnum
  si_source_files :: jnum
  si_target_free_bytes :: "jnum option"
  si_archive_ratio :: "jnum option"
  si_safety_factor :: "jnum option"
  si_fixed_overhead_bytes :: "jnum option"

text \<open>
  \<open>toFixed(d)\<close> of a non-negative number: the nearest multiple of \<open>10^-d\<close>, the
  larger one on a tie.
\<close>

definition to_fixed :: "nat \<Rightarrow> rat \<Rightarrow> string" where
  "to_fixed d x =
     (let n = nat (js_round (x * 10 ^ d));
          frac = show_nat (n mod 10 ^ d)
      in show_nat (n div 10 ^ d) @ ''.'' @ replicate (d - length frac) (CHR ''0'') @ frac)"

definition format_seed_bytes :: "jnum \<Rightarrow> string" where
  "format_seed_bytes v =
     (case jnum_val v of
        None \<Rightarrow> ''unknown''
      | Some n \<Rightarrow>
          if n < 0 then ''unknown''
          else if n < 1024 then show_nat (nat \<lfloor>n\<rfloor>) @ '' B''
          else if n < 1024 * 1024 then to_fixed 1 (n / 1024) @ '' KiB''
          else if n < 1024 * 1024 * 1024 then to_fixed 1 (n / (1024 * 1024)) @ '' MiB''
          else if n < 1024 * 1024 * 1024 * 1024 then to_fixed 2 (n / (1024 * 1024 * 1024)) @ '' GiB''
          else to_fixed 2 (n / (1024 * 1024 * 1024 * 1024)) @ '' TiB'')"

datatype space_message =
    Free_Space_Unknown
  | Space_Fits string string
  | Space_Short string string string

record seed_space_plan =
  sp_source_bytes :: rat
  sp_source_files :: rat
  sp_archive_bytes_estimate :: int
  sp_extracted_bytes :: rat
  sp_peak_bytes :: rat
  sp_required_free_bytes :: rat
  sp_target_free_bytes :: "int option"
  sp_shortfall_bytes :: rat
  sp_ok :: bool
  sp_message :: space_message

definition non_negative :: "jnum \<Rightarrow> rat" where
  "non_negative v = (case jnum_val v of None \<Rightarrow> 0 | Some r \<Rightarrow> if r > 0 then r else 0)"

text \<open>A finite positive override, else the default.\<close>

definition positive_or :: "jnum option \<Rightarrow> rat \<Rightarrow> rat" where
  "positive_or v d =
     (case Option.bind v jnum_val of None \<Rightarrow> d | Some r \<Rightarrow> if r \<le> 0 then d else r)"

definition compute_seed_space_plan :: "seed_space_input \<Rightarrow> seed_space_plan" where
  "compute_seed_space_plan i =
     (let source_bytes = non_negative (si_source_bytes i);
          source_files = non_negative (si_source_files i);
          ratio = positive_or (si_archive_ratio i) SEED_ARCHIVE_RATIO_DEFAULT;
          safety = positive_or (si_safety_factor i) SEED_SPACE_SAFETY_FACTOR;
          overhead = (case si_fixed_overhead_bytes i of
                        None \<Rightarrow> of_int SEED_SPACE_FIXED_OVERHEAD_BYTES
                      | Some v \<Rightarrow> non_negative v);
          archive = \<lceil>source_bytes * ratio\<rceil>;
          peak = of_int archive + source_bytes;
          required = of_int \<lceil>peak * safety\<rceil> + overhead;
          free = map_option (\<lambda>r. max 0 \<lfloor>r\<rfloor>) (Option.bind (si_target_free_bytes i) jnum_val);
          ok = (case free of None \<Rightarrow> False | Some f \<Rightarrow> of_int f \<ge> required);
          shortfall = (case free of None \<Rightarrow> 0 | Some f \<Rightarrow> max 0 (required - of_int f));
          message = (case free of
                       None \<Rightarrow> Free_Space_Unknown
                     | Some f \<Rightarrow>
                         if ok then
                           Space_Fits (format_seed_bytes (Fin required)) (format_seed_bytes (Fin (of_int f)))
                         else
                           Space_Short (format_seed_bytes (Fin shortfall))
                             (format_seed_bytes (Fin required)) (format_seed_bytes (Fin (of_int f))))
      in \<lparr> sp_source_bytes = source_bytes, sp_source_files = source_files,
           sp_archive_bytes_estimate = archive, sp_extracted_bytes = source_bytes,
           sp_peak_bytes = peak, sp_required_free_bytes = required, sp_target_free_bytes = free,
           sp_shortfall_bytes = shortfall, sp_ok = ok, sp_message = message \<rparr>)"

section \<open>The recommendation\<close>

text \<open>The entry count, its formatted size and the threshold of the two sentences.\<close>

datatype recommendation_reason =
    Above_Threshold int string rat
  | Below_Threshold int string rat

record seed_recommendation =
  re_recommended :: bool
  re_threshold_files :: rat
  re_reason :: recommendation_reason

definition floor_non_negative :: "jnum \<Rightarrow> int" where
  "floor_non_negative v = (case jnum_val v of None \<Rightarrow> 0 | Some r \<Rightarrow> max 0 \<lfloor>r\<rfloor>)"

definition recommend_seed :: "jnum \<Rightarrow> jnum \<Rightarrow> rat option \<Rightarrow> seed_recommendation" where
  "recommend_seed file_count total_bytes threshold =
     (let t = or_default threshold (of_int SEED_RECOMMENDATION_FILE_THRESHOLD);
          files = floor_non_negative file_count;
          size = format_seed_bytes (Fin (of_int (floor_non_negative total_bytes)))
      in if of_int files \<ge> t then
           \<lparr> re_recommended = True, re_threshold_files = t, re_reason = Above_Threshold files size t \<rparr>
         else
           \<lparr> re_recommended = False, re_threshold_files = t, re_reason = Below_Threshold files size t \<rparr>)"

section \<open>Lemmas\<close>

lemma non_negative_ge [simp]: "0 \<le> non_negative v"
  by (simp add: non_negative_def split: option.split)

lemma positive_or_pos: "0 < d \<Longrightarrow> 0 < positive_or v d"
  by (simp add: positive_or_def split: option.split)

lemma positive_or_None [simp]: "positive_or None d = d"
  by (simp add: positive_or_def)

lemma space_ok_iff:
  "sp_ok (compute_seed_space_plan i) \<longleftrightarrow>
     (\<exists>f. sp_target_free_bytes (compute_seed_space_plan i) = Some f \<and>
          sp_required_free_bytes (compute_seed_space_plan i) \<le> of_int f)"
  by (auto simp: compute_seed_space_plan_def Let_def split: option.splits)

lemma space_shortfall:
  "sp_target_free_bytes (compute_seed_space_plan i) = Some f \<Longrightarrow>
   sp_shortfall_bytes (compute_seed_space_plan i) =
     max 0 (sp_required_free_bytes (compute_seed_space_plan i) - of_int f)"
  by (auto simp: compute_seed_space_plan_def Let_def split: option.splits)

lemma space_archive:
  "sp_source_bytes (compute_seed_space_plan i) * positive_or (si_archive_ratio i) 1
     \<le> of_int (sp_archive_bytes_estimate (compute_seed_space_plan i))"
  by (simp add: compute_seed_space_plan_def Let_def SEED_ARCHIVE_RATIO_DEFAULT_def)

lemma space_required:
  "sp_peak_bytes (compute_seed_space_plan i) * positive_or (si_safety_factor i) (5 / 4)
     \<le> sp_required_free_bytes (compute_seed_space_plan i)"
proof -
  have "x \<le> of_int \<lceil>x\<rceil> + y" if "0 \<le> y" for x y :: rat
    using le_of_int_ceiling [of x] that by linarith
  then show ?thesis
    by (auto simp: compute_seed_space_plan_def Let_def SEED_SPACE_SAFETY_FACTOR_def
        SEED_SPACE_FIXED_OVERHEAD_BYTES_def split: option.split)
qed

lemma space_peak:
  "sp_peak_bytes (compute_seed_space_plan i) =
     of_int (sp_archive_bytes_estimate (compute_seed_space_plan i)) +
     sp_source_bytes (compute_seed_space_plan i)"
  "sp_source_bytes (compute_seed_space_plan i) = non_negative (si_source_bytes i)"
  by (simp_all add: compute_seed_space_plan_def Let_def)

lemma space_peak_pos:
  "si_fixed_overhead_bytes i = None \<Longrightarrow> 0 < sp_required_free_bytes (compute_seed_space_plan i)"
proof -
  assume o: "si_fixed_overhead_bytes i = None"
  let ?b = "non_negative (si_source_bytes i)"
  let ?r = "positive_or (si_archive_ratio i) SEED_ARCHIVE_RATIO_DEFAULT"
  let ?s = "positive_or (si_safety_factor i) SEED_SPACE_SAFETY_FACTOR"
  have r: "0 < ?r" "0 < ?s"
    by (simp_all add: positive_or_pos SEED_ARCHIVE_RATIO_DEFAULT_def SEED_SPACE_SAFETY_FACTOR_def)
  then have "0 \<le> \<lceil>?b * ?r\<rceil>" by (simp add: zero_le_ceiling order.strict_trans2 [OF _ mult_nonneg_nonneg])
  then have "0 \<le> (of_int \<lceil>?b * ?r\<rceil> + ?b) * ?s" using r by simp
  then have "0 \<le> \<lceil>(of_int \<lceil>?b * ?r\<rceil> + ?b) * ?s\<rceil>"
    by (simp add: zero_le_ceiling order.strict_trans2 [of "- 1"])
  then have "(0 :: rat) \<le> of_int \<lceil>(of_int \<lceil>?b * ?r\<rceil> + ?b) * ?s\<rceil>" by simp
  then show ?thesis
    by (simp add: compute_seed_space_plan_def Let_def o SEED_SPACE_FIXED_OVERHEAD_BYTES_def add_nonneg_pos)
qed

text \<open>
  An approved space plan really has room: with the default ratio and safety factor,
  \<open>ok\<close> implies that the target reported free space and that it covers the archive and
  the extracted tree at the same time (at least twice the source) plus a quarter of the
  peak; unknown free space is never approved.
\<close>

theorem approved_space_holds_both_copies:
  assumes "sp_ok (compute_seed_space_plan i)"
    and "si_archive_ratio i = None" and "si_safety_factor i = None"
  shows "\<exists>f. sp_target_free_bytes (compute_seed_space_plan i) = Some f \<and>
    2 * non_negative (si_source_bytes i) \<le> sp_peak_bytes (compute_seed_space_plan i) \<and>
    5 / 4 * sp_peak_bytes (compute_seed_space_plan i) \<le> of_int f \<and>
    sp_shortfall_bytes (compute_seed_space_plan i) = 0"
proof -
  from assms(1) obtain f where f: "sp_target_free_bytes (compute_seed_space_plan i) = Some f"
    and req: "sp_required_free_bytes (compute_seed_space_plan i) \<le> of_int f"
    by (auto simp: space_ok_iff)
  have "2 * non_negative (si_source_bytes i) \<le> sp_peak_bytes (compute_seed_space_plan i)"
    using space_archive [of i] space_peak [of i] assms(2) by simp
  moreover have "5 / 4 * sp_peak_bytes (compute_seed_space_plan i) \<le> of_int f"
    using space_required [of i] req assms(3) by (simp add: mult.commute)
  moreover have "sp_shortfall_bytes (compute_seed_space_plan i) = 0"
    using space_shortfall [OF f] req by simp
  ultimately show ?thesis using f by blast
qed

definition sample_space :: seed_space_input where
  "sample_space =
     \<lparr> si_source_bytes = Fin 1000, si_source_files = Fin 3, si_target_free_bytes = Some (Fin 100000000),
       si_archive_ratio = None, si_safety_factor = None, si_fixed_overhead_bytes = None \<rparr>"

theorem approved_space_holds_both_copies_witness:
  "sp_ok (compute_seed_space_plan sample_space) \<and>
   5 / 4 * sp_peak_bytes (compute_seed_space_plan sample_space) \<le> 100000000"
proof -
  have "sp_ok (compute_seed_space_plan sample_space)"
    by (simp add: compute_seed_space_plan_def sample_space_def Let_def non_negative_def
        SEED_ARCHIVE_RATIO_DEFAULT_def SEED_SPACE_SAFETY_FACTOR_def
        SEED_SPACE_FIXED_OVERHEAD_BYTES_def)
  moreover have "sp_target_free_bytes (compute_seed_space_plan sample_space) = Some 100000000"
    by (simp add: compute_seed_space_plan_def sample_space_def Let_def)
  ultimately show ?thesis
    using approved_space_holds_both_copies [of sample_space] by (simp add: sample_space_def)
qed

lemma recommend_seed_iff:
  "re_recommended (recommend_seed n b None) \<longleftrightarrow> SEED_RECOMMENDATION_FILE_THRESHOLD \<le> floor_non_negative n"
  by (simp add: recommend_seed_def Let_def)

end
