(* ===== verification/Seed_Staging.thy ===== *)
theory Seed_Staging
  imports Seed_Archive
begin

text \<open>
  The staging policy of a seed (\<open>packages/core/src/folder-seed.ts\<close>): path
  normalization, the parent of a path, the derived staging sibling of a target and the
  verdict that decides whether a staging directory may be published over a target.
\<close>

section \<open>Paths\<close>

text \<open>\<open>replace(/\/+/g, "/")\<close>.\<close>

fun collapse_slashes :: "string \<Rightarrow> string" where
  "collapse_slashes (c # d # cs) =
     (if c = CHR ''/'' \<and> d = CHR ''/'' then collapse_slashes (d # cs)
      else c # collapse_slashes (d # cs))"
| "collapse_slashes s = s"

text \<open>What follows, and what precedes, the last slash.\<close>

definition base_name :: "string \<Rightarrow> string" where
  "base_name s = rev (takeWhile (\<lambda>c. c \<noteq> CHR ''/'') (rev s))"

definition dir_part :: "string \<Rightarrow> string" where
  "dir_part s = rev (tl (dropWhile (\<lambda>c. c \<noteq> CHR ''/'') (rev s)))"

definition normalize_absolute_path :: "string \<Rightarrow> string option" where
  "normalize_absolute_path path =
     (let trimmed = js_trim path
      in if trimmed = [] \<or> length trimmed > SEED_PATH_MAX_LENGTH then None
         else if \<not> starts_with ''/'' trimmed then None
         else (let collapsed = collapse_slashes trimmed
               in if collapsed = ''/'' then Some ''/''
                  else Some (if ends_with ''/'' collapsed then butlast collapsed else collapsed)))"

definition parent_path_of :: "string \<Rightarrow> string option" where
  "parent_path_of path =
     (case normalize_absolute_path path of
        None \<Rightarrow> None
      | Some n \<Rightarrow> Some (if dir_part n = [] then ''/'' else dir_part n))"

definition SEED_STAGING_DIR_PREFIX :: string where
  "SEED_STAGING_DIR_PREFIX = ''.lamasync-seed-staging-''"

definition seed_staging_path :: "string \<Rightarrow> string \<Rightarrow> string option" where
  "seed_staging_path target_path job_id =
     (case normalize_absolute_path target_path of
        None \<Rightarrow> None
      | Some target \<Rightarrow>
          (let parent = or_default (parent_path_of target) ''/'';
               base = (if base_name target = [] then ''target'' else base_name target);
               job = take 64 (filter (\<lambda>c. is_alnum c \<or> c = CHR ''-'') job_id);
               safe_job = (if job = [] then ''job'' else job)
           in Some ((if parent = ''/'' then [] else parent) @ ''/'' @ SEED_STAGING_DIR_PREFIX @
                    base @ ''-'' @ safe_job)))"

section \<open>The staging verdict\<close>

record staging_location_input =
  sl_staging_path :: string
  sl_target_path :: string
  sl_staging_device :: "int option"
  sl_target_device :: "int option"
  sl_same_filesystem_proven :: "bool option"

datatype staging_message =
    Staging_Not_Absolute
  | Staging_Inside_Target
  | Staging_Not_Sibling "string option"
  | Staging_Not_Derived string
  | Staging_Other_Filesystem
  | Staging_Unproven
  | Staging_Sibling_Ok

record staging_location_verdict =
  sv_ok :: bool
  sv_adjacent_to_target :: bool
  sv_derived_sibling :: bool
  sv_inside_target :: bool
  sv_same_filesystem :: "bool option"
  sv_message :: staging_message

definition same_filesystem_of :: "staging_location_input \<Rightarrow> bool option" where
  "same_filesystem_of i =
     (case sl_same_filesystem_proven i of
        Some b \<Rightarrow> Some b
      | None \<Rightarrow>
          (case (sl_staging_device i, sl_target_device i) of
             (Some a, Some b) \<Rightarrow> Some (a = b)
           | _ \<Rightarrow> None))"

definition validate_staging_location :: "staging_location_input \<Rightarrow> staging_location_verdict" where
  "validate_staging_location i =
     (case (normalize_absolute_path (sl_staging_path i), normalize_absolute_path (sl_target_path i)) of
        (Some staging, Some target) \<Rightarrow>
          (let staging_parent = parent_path_of staging;
               target_parent = parent_path_of target;
               staging_base = base_name staging;
               inside = (staging = target \<or> starts_with (target @ ''/'') staging);
               adjacent = (staging_parent \<noteq> None \<and> staging_parent = target_parent);
               derived = starts_with SEED_STAGING_DIR_PREFIX staging_base;
               same = same_filesystem_of i;
               verdict = (\<lambda>ok m.
                 \<lparr> sv_ok = ok, sv_adjacent_to_target = adjacent, sv_derived_sibling = derived,
                   sv_inside_target = inside, sv_same_filesystem = same, sv_message = m \<rparr>)
           in if inside then verdict False Staging_Inside_Target
              else if \<not> adjacent then verdict False (Staging_Not_Sibling target_parent)
              else if \<not> derived then verdict False (Staging_Not_Derived staging_base)
              else if same = Some False then verdict False Staging_Other_Filesystem
              else if same = None then verdict False Staging_Unproven
              else verdict True Staging_Sibling_Ok)
      | _ \<Rightarrow>
          \<lparr> sv_ok = False, sv_adjacent_to_target = False, sv_derived_sibling = False,
            sv_inside_target = False, sv_same_filesystem = None, sv_message = Staging_Not_Absolute \<rparr>)"

section \<open>Lemmas\<close>

lemma base_name_no_slash: "CHR ''/'' \<notin> set (base_name s)"
  by (auto simp: base_name_def dest: set_takeWhileD)

lemma split_last_slash:
  assumes "CHR ''/'' \<in> set s"
  shows "s = dir_part s @ CHR ''/'' # base_name s"
proof -
  let ?P = "\<lambda>c. c \<noteq> CHR ''/''"
  have d: "dropWhile ?P (rev s) \<noteq> []" using assms by (auto simp: dropWhile_eq_Nil_conv)
  then have "hd (dropWhile ?P (rev s)) = CHR ''/''"
    using hd_dropWhile [OF d] by simp
  with d have "dropWhile ?P (rev s) = CHR ''/'' # tl (dropWhile ?P (rev s))"
    by (metis list.collapse)
  then have "rev s = takeWhile ?P (rev s) @ CHR ''/'' # tl (dropWhile ?P (rev s))"
    by (metis takeWhile_dropWhile_id)
  then have "rev (rev s) = rev (takeWhile ?P (rev s) @ CHR ''/'' # tl (dropWhile ?P (rev s)))"
    by (rule arg_cong)
  then show ?thesis by (simp add: base_name_def dir_part_def)
qed

lemma last_slash_parts:
  assumes "CHR ''/'' \<notin> set b"
  shows "base_name (d @ CHR ''/'' # b) = b" "dir_part (d @ CHR ''/'' # b) = d"
  using assms by (auto simp: base_name_def dir_part_def takeWhile_append dropWhile_append)

text \<open>No two slashes in a row.\<close>

abbreviation single_slashes :: "string \<Rightarrow> bool" where
  "single_slashes s \<equiv> successively (\<lambda>a b. \<not> (a = CHR ''/'' \<and> b = CHR ''/'')) s"

lemma hd_collapse: "s \<noteq> [] \<Longrightarrow> collapse_slashes s \<noteq> [] \<and> hd (collapse_slashes s) = hd s"
  by (induction s rule: collapse_slashes.induct) auto

lemma collapse_single: "single_slashes (collapse_slashes s)"
proof (induction s rule: collapse_slashes.induct)
  case (1 c d cs)
  with hd_collapse [of "d # cs"] show ?case
    by (cases "collapse_slashes (d # cs)") auto
qed auto

lemma collapse_id: "single_slashes s \<Longrightarrow> collapse_slashes s = s"
  by (induction s rule: collapse_slashes.induct) auto

lemma starts_with_slash_iff: "starts_with ''/'' s \<longleftrightarrow> s \<noteq> [] \<and> hd s = CHR ''/''"
  by (cases s) (auto simp: starts_with_def)

lemma ends_with_slash_iff: "ends_with ''/'' s \<longleftrightarrow> s \<noteq> [] \<and> last s = CHR ''/''"
  by (cases s rule: rev_cases) (auto simp: ends_with_def)

lemma normalize_SomeD:
  assumes "normalize_absolute_path p = Some t"
  shows "t \<noteq> [] \<and> hd t = CHR ''/'' \<and> single_slashes t \<and> (t \<noteq> ''/'' \<longrightarrow> last t \<noteq> CHR ''/'')"
proof -
  let ?c = "collapse_slashes (js_trim p)"
  from assms have ne: "js_trim p \<noteq> []" and hd: "hd (js_trim p) = CHR ''/''"
    and t: "t = (if ?c = ''/'' then ''/'' else if ends_with ''/'' ?c then butlast ?c else ?c)"
    by (auto simp: normalize_absolute_path_def Let_def starts_with_slash_iff split: if_splits)
  have c: "?c \<noteq> []" "hd ?c = CHR ''/''" "single_slashes ?c"
    using hd_collapse [OF ne] hd collapse_single by auto
  show ?thesis
  proof (cases "?c \<noteq> ''/'' \<and> ends_with ''/'' ?c")
    case True
    then obtain u where u: "?c = u @ [CHR ''/'']"
      by (metis append_butlast_last_id ends_with_slash_iff)
    with True have "u \<noteq> []" by auto
    moreover have "last u \<noteq> CHR ''/''" "single_slashes u"
      using c(3) \<open>u \<noteq> []\<close> by (auto simp: u successively_append_iff)
    ultimately show ?thesis using True c(2) t by (simp add: u)
  next
    case False
    with c t show ?thesis by (auto simp: ends_with_slash_iff)
  qed
qed

lemma normalize_id:
  assumes "js_trim t = t" "length t \<le> SEED_PATH_MAX_LENGTH" "t \<noteq> []" "hd t = CHR ''/''"
    and "single_slashes t" "t \<noteq> ''/'' \<longrightarrow> last t \<noteq> CHR ''/''"
  shows "normalize_absolute_path t = Some t"
  using assms
  by (simp add: normalize_absolute_path_def starts_with_slash_iff ends_with_slash_iff collapse_id)

lemma length_collapse: "length (collapse_slashes s) \<le> length s"
  by (induction s rule: collapse_slashes.induct) auto

lemma normalize_length:
  assumes "normalize_absolute_path p = Some t"
  shows "length t \<le> SEED_PATH_MAX_LENGTH"
proof -
  have "length t \<le> length (collapse_slashes (js_trim p))" and "length (js_trim p) \<le> SEED_PATH_MAX_LENGTH"
    using assms by (auto simp: normalize_absolute_path_def Let_def split: if_splits)
  with length_collapse [of "js_trim p"] show ?thesis by linarith
qed

lemma normalize_idem:
  assumes "normalize_absolute_path p = Some t" "js_trim t = t"
  shows "normalize_absolute_path t = Some t"
  using normalize_SomeD [OF assms(1)] normalize_length [OF assms(1)] assms(2)
  by (intro normalize_id) auto

lemma normalized_split:
  assumes "normalize_absolute_path p = Some t" "t \<noteq> ''/''"
  shows "t = dir_part t @ CHR ''/'' # base_name t \<and> base_name t \<noteq> [] \<and> dir_part t \<noteq> ''/''"
proof -
  note t = normalize_SomeD [OF assms(1)]
  then have "CHR ''/'' \<in> set t" by (metis hd_in_set)
  then have s: "t = dir_part t @ CHR ''/'' # base_name t" by (rule split_last_slash)
  have "base_name t \<noteq> []"
    using t assms(2) s by (metis last_snoc)
  moreover have "dir_part t \<noteq> ''/''"
  proof
    assume "dir_part t = ''/''"
    then have "t = ''//'' @ base_name t" using s by simp
    moreover have "\<not> single_slashes (''//'' @ base_name t)" by simp
    ultimately show False using t by metis
  qed
  ultimately show ?thesis using s by blast
qed

text \<open>The name of the staging directory of a target's base name, for one job.\<close>

definition staging_name :: "string \<Rightarrow> string \<Rightarrow> string" where
  "staging_name base job =
     SEED_STAGING_DIR_PREFIX @ base @ ''-'' @
     (let j = take 64 (filter (\<lambda>c. is_alnum c \<or> c = CHR ''-'') job) in if j = [] then ''job'' else j)"

lemma not_space_alnum: "is_alnum c \<or> c = CHR ''-'' \<Longrightarrow> \<not> js_space c \<and> c \<noteq> CHR ''/''"
  by (auto simp: is_alnum_def is_letter_def is_upper_def is_lower_def is_digit_def js_space_def Let_def)

lemma staging_name_chars:
  "CHR ''/'' \<notin> set b \<Longrightarrow> CHR ''/'' \<notin> set (staging_name b j)"
  "staging_name b j \<noteq> []"
  "\<not> js_space (last (staging_name b j))"
proof -
  let ?f = "take 64 (filter (\<lambda>c. is_alnum c \<or> c = CHR ''-'') j)"
  have f: "\<forall>c \<in> set ?f. is_alnum c \<or> c = CHR ''-''" by (auto dest: in_set_takeD)
  then have f': "\<forall>c \<in> set ?f. \<not> js_space c \<and> c \<noteq> CHR ''/''" using not_space_alnum by blast
  then show "CHR ''/'' \<notin> set b \<Longrightarrow> CHR ''/'' \<notin> set (staging_name b j)"
    by (auto simp: staging_name_def SEED_STAGING_DIR_PREFIX_def Let_def)
  show "staging_name b j \<noteq> []" by (simp add: staging_name_def SEED_STAGING_DIR_PREFIX_def)
  have "\<not> js_space (CHR ''b'')" by (simp add: js_space_def)
  define g where "g = (if ?f = [] then ''job'' else ?f)"
  have "\<not> js_space (last g)"
    using f' \<open>\<not> js_space (CHR ''b'')\<close> last_in_set [of ?f] by (simp add: g_def)
  moreover have "g \<noteq> []" by (simp add: g_def)
  moreover have "staging_name b j = (SEED_STAGING_DIR_PREFIX @ b @ ''-'') @ g"
    by (simp add: staging_name_def g_def Let_def)
  ultimately show "\<not> js_space (last (staging_name b j))" by simp
qed

lemma seed_staging_path_eq:
  assumes "normalize_absolute_path p = Some t" "js_trim t = t" "t \<noteq> ''/''"
  shows "seed_staging_path p j = Some (dir_part t @ CHR ''/'' # staging_name (base_name t) j)"
  using assms normalized_split [OF assms(1,3)] normalize_idem [OF assms(1,2)]
  by (simp add: seed_staging_path_def parent_path_of_def staging_name_def Let_def)

lemma normalize_sibling:
  assumes "normalize_absolute_path p = Some t" "t \<noteq> ''/''"
    and "CHR ''/'' \<notin> set n" "n \<noteq> []" "\<not> js_space (last n)"
    and "length (dir_part t @ CHR ''/'' # n) \<le> SEED_PATH_MAX_LENGTH"
  shows "normalize_absolute_path (dir_part t @ CHR ''/'' # n) = Some (dir_part t @ CHR ''/'' # n)"
proof -
  let ?s = "dir_part t @ CHR ''/'' # n"
  note t = normalize_SomeD [OF assms(1)] and split = normalized_split [OF assms(1,2)]
  have hd: "hd ?s = CHR ''/''"
    using t split by (metis append_is_Nil_conv hd_append2 list.sel(1) append_Nil)
  have "single_slashes (dir_part t @ CHR ''/'' # base_name t)" using t split by metis
  moreover have "single_slashes n" and "hd n \<noteq> CHR ''/''"
    using assms(3,4) hd_in_set [of n] by (auto simp: successively_conv_nth in_set_conv_nth)
  ultimately have "single_slashes ?s"
    using assms(4) by (auto simp: successively_append_iff successively_Cons)
  moreover have "js_trim ?s = ?s"
    using hd assms(4,5) by (intro js_trim_id) (simp add: js_space_def)
  moreover have "last ?s \<noteq> CHR ''/''"
    using assms(3,4) by (metis last_appendR last_ConsR last_in_set list.distinct(1))
  ultimately show ?thesis using hd assms(6) by (intro normalize_id) auto
qed

lemma sibling_outside:
  assumes "CHR ''/'' \<notin> set n"
  shows "\<not> starts_with ((d @ CHR ''/'' # b) @ ''/'') (d @ CHR ''/'' # n)"
proof
  assume "starts_with ((d @ CHR ''/'' # b) @ ''/'') (d @ CHR ''/'' # n)"
  then obtain r where "d @ CHR ''/'' # n = ((d @ CHR ''/'' # b) @ ''/'') @ r"
    by (auto simp: starts_with_iff)
  then have "n = b @ CHR ''/'' # r" by simp
  with assms show False by simp
qed

lemma prefix_staging_name: "starts_with SEED_STAGING_DIR_PREFIX (staging_name b j)"
  by (simp add: staging_name_def js_simps)

lemma staging_name_longer: "staging_name b j \<noteq> b"
proof
  assume "staging_name b j = b"
  then have "length (staging_name b j) = length b" by simp
  then show False by (simp add: staging_name_def SEED_STAGING_DIR_PREFIX_def)
qed

text \<open>
  The staging path LamaSync derives for a target is one its own policy accepts, once
  the device has proven the filesystem: for every target other than the root directory
  (whose normal form has no trailing white space and leaves room for the name), the
  derived path is a direct sibling of the target and never inside it.
\<close>

theorem derived_staging_is_accepted:
  assumes "normalize_absolute_path target = Some t" and "t \<noteq> ''/''" and "js_trim t = t"
    and "seed_staging_path target job = Some s" and "length s \<le> SEED_PATH_MAX_LENGTH"
  shows "validate_staging_location
           \<lparr> sl_staging_path = s, sl_target_path = target, sl_staging_device = None,
             sl_target_device = None, sl_same_filesystem_proven = Some True \<rparr> =
         \<lparr> sv_ok = True, sv_adjacent_to_target = True, sv_derived_sibling = True,
           sv_inside_target = False, sv_same_filesystem = Some True,
           sv_message = Staging_Sibling_Ok \<rparr>"
proof -
  let ?d = "dir_part t" and ?b = "base_name t"
  let ?n = "staging_name (base_name t) job"
  have s: "s = ?d @ CHR ''/'' # ?n"
    using assms(4) seed_staging_path_eq [OF assms(1,3,2)] by simp
  note split = normalized_split [OF assms(1,2)]
  note n = staging_name_chars(1) [of ?b job, OF base_name_no_slash] staging_name_chars(2,3) [of ?b job]
  have ns: "normalize_absolute_path s = Some s"
    using normalize_sibling [OF assms(1,2) n] assms(5) s by simp
  have nt: "normalize_absolute_path t = Some t" by (rule normalize_idem [OF assms(1,3)])
  have parts: "base_name s = ?n" "dir_part s = ?d"
    unfolding s using last_slash_parts [OF n(1)] by auto
  have "s \<noteq> t" using s split staging_name_longer by (metis list.inject same_append_eq)
  moreover have "\<not> starts_with (t @ ''/'') s"
    using sibling_outside [OF n(1), of ?d ?b] split s by metis
  ultimately show ?thesis
    using ns nt assms(1) parts prefix_staging_name
    by (simp add: validate_staging_location_def parent_path_of_def same_filesystem_of_def Let_def)
qed

theorem derived_staging_is_accepted_witness:
  "sv_ok (validate_staging_location
     \<lparr> sl_staging_path = ''/data/.lamasync-seed-staging-projects-j1'',
       sl_target_path = ''/data//projects/'', sl_staging_device = None, sl_target_device = None,
       sl_same_filesystem_proven = Some True \<rparr>)"
proof -
  have n: "normalize_absolute_path ''/data//projects/'' = Some ''/data/projects''"
    by code_simp
  have t: "js_trim ''/data/projects'' = ''/data/projects''" by code_simp
  have p: "seed_staging_path ''/data//projects/'' ''j1'' =
      Some ''/data/.lamasync-seed-staging-projects-j1''" by code_simp
  show ?thesis
    using derived_staging_is_accepted [OF n _ t p] by (simp add: SEED_PATH_MAX_LENGTH_def)
qed

text \<open>
  What the verdict guarantees: an accepted staging directory and its target (other
  than the root, and without trailing white space in their normal forms) are two
  different entries of one directory, and the staging entry carries LamaSync's prefix,
  so publishing can only ever rename a directory this feature named.
\<close>

theorem accepted_staging_is_a_sibling:
  assumes "sv_ok (validate_staging_location i)"
    and "normalize_absolute_path (sl_staging_path i) = Some s" and "js_trim s = s"
    and "normalize_absolute_path (sl_target_path i) = Some t" and "js_trim t = t" and "t \<noteq> ''/''"
  shows "\<exists>dir n b. s = dir @ ''/'' @ SEED_STAGING_DIR_PREFIX @ n \<and> t = dir @ ''/'' @ b \<and>
           CHR ''/'' \<notin> set n \<and> CHR ''/'' \<notin> set b \<and> b \<noteq> SEED_STAGING_DIR_PREFIX @ n \<and>
           same_filesystem_of i = Some True"
proof -
  have ns: "normalize_absolute_path s = Some s" and nt: "normalize_absolute_path t = Some t"
    using normalize_idem assms by blast+
  from assms(1) have st: "s \<noteq> t" and par: "parent_path_of s = parent_path_of t"
    and der: "starts_with SEED_STAGING_DIR_PREFIX (base_name s)"
    and same: "same_filesystem_of i = Some True"
    using assms(2,4) ns nt
    by (auto simp: validate_staging_location_def Let_def split: if_splits)
  from der obtain n where n: "base_name s = SEED_STAGING_DIR_PREFIX @ n"
    by (auto simp: starts_with_iff)
  then have "s \<noteq> ''/''" by (auto simp: base_name_def SEED_STAGING_DIR_PREFIX_def)
  note ss = normalized_split [OF assms(2) this] and ts = normalized_split [OF assms(4,6)]
  have "dir_part s = dir_part t"
    using par ns nt ss ts by (auto simp: parent_path_of_def split: if_splits)
  then show ?thesis
    using ss ts st n same base_name_no_slash [of s] base_name_no_slash [of t]
    by (intro exI [of _ "dir_part t"] exI [of _ n] exI [of _ "base_name t"]) (auto simp: n)
qed

theorem accepted_staging_is_a_sibling_witness:
  "\<exists>dir n. ''/data/.lamasync-seed-staging-p-j1'' = dir @ ''/'' @ SEED_STAGING_DIR_PREFIX @ n"
proof -
  let ?i = "\<lparr> sl_staging_path = ''/data/.lamasync-seed-staging-p-j1'', sl_target_path = ''/data/p'',
              sl_staging_device = Some 7, sl_target_device = Some 7,
              sl_same_filesystem_proven = None \<rparr>"
  have s: "normalize_absolute_path (sl_staging_path ?i) = Some ''/data/.lamasync-seed-staging-p-j1''"
    and t: "normalize_absolute_path (sl_target_path ?i) = Some ''/data/p''"
    and ts: "js_trim ''/data/.lamasync-seed-staging-p-j1'' = ''/data/.lamasync-seed-staging-p-j1''"
    and tt: "js_trim ''/data/p'' = ''/data/p''" and ok: "sv_ok (validate_staging_location ?i)"
    by code_simp+
  show ?thesis using accepted_staging_is_a_sibling [OF ok s ts t tt] by blast
qed

text \<open>
  The root directory defeats the check that staging is never inside the target: for
  the target \<open>/\<close> the derived staging directory lies inside it, and it is accepted
  as a sibling, because the containment test compares with the prefix \<open>//\<close>.
\<close>

theorem root_target_accepts_staging_inside:
  "seed_staging_path ''/'' ''j1'' = Some ''/.lamasync-seed-staging-target-j1'' \<and>
   validate_staging_location
     \<lparr> sl_staging_path = ''/.lamasync-seed-staging-target-j1'', sl_target_path = ''/'',
       sl_staging_device = None, sl_target_device = None, sl_same_filesystem_proven = Some True \<rparr> =
   \<lparr> sv_ok = True, sv_adjacent_to_target = True, sv_derived_sibling = True,
     sv_inside_target = False, sv_same_filesystem = Some True, sv_message = Staging_Sibling_Ok \<rparr>"
  by code_simp

end
