(* ===== verification/Folder_Health.thy ===== *)
theory Folder_Health
  imports Wire_Grammar Seed_Archive
begin

text \<open>
  Managed-folder health and guided intervention (\<open>packages/core/src/folder-health.ts\<close>):
  the facts a daemon reports, the derivation of the state and its reasons, the grammar
  of intervention and plan requests, and the binding of an execution to the plan an
  operator reviewed. \<open>liveFingerprint\<close> is a nested option: absent means not
  measured, \<open>null\<close> means no rules.
\<close>

section \<open>States, reasons and actions\<close>

datatype folder_health_state =
    Healthy | New_Host | Resync_Required | Recoverable | Unsafe | Blocked | Busy | State_Unknown

fun FOLDER_HEALTH_SEVERITY :: "folder_health_state \<Rightarrow> nat" where
  "FOLDER_HEALTH_SEVERITY Unsafe = 6"
| "FOLDER_HEALTH_SEVERITY Resync_Required = 5"
| "FOLDER_HEALTH_SEVERITY Blocked = 4"
| "FOLDER_HEALTH_SEVERITY Recoverable = 3"
| "FOLDER_HEALTH_SEVERITY New_Host = 2"
| "FOLDER_HEALTH_SEVERITY Busy = 1"
| "FOLDER_HEALTH_SEVERITY Healthy = 0"
| "FOLDER_HEALTH_SEVERITY State_Unknown = 0"

datatype folder_health_reason_code =
    RC_Ok
  | RC_Never_Reported
  | RC_Run_In_Progress
  | RC_Assignment_Disabled
  | RC_Paused
  | RC_Rclone_Missing
  | RC_Unsupported_Folder_Type
  | RC_Local_Path_Missing
  | RC_Local_Path_Not_Directory
  | RC_Local_Path_Unreadable
  | RC_Local_Path_Unwritable
  | RC_Disk_Space_Low
  | RC_Baseline_Missing
  | RC_Baseline_Incomplete
  | RC_Baseline_Error
  | RC_Baseline_Not_Established
  | RC_Filter_Changed
  | RC_Interrupted
  | RC_Last_Run_Failed
  | RC_Conflicts_Pending

datatype folder_health_action =
    Act_Diagnose | Act_Plan | Act_Sync | Act_Initialize | Act_Seed | Act_Resync | Act_Resume | Act_Cancel

section \<open>Facts\<close>

datatype local_dir_state = Dir_Ok | Dir_Missing | Dir_Not_Directory | Dir_Unreadable | Dir_Unwritable

datatype filter_source = Filter_None | Filter_Lamasyncignore | Filter_Gitignore | Filter_Combined

record folder_health_watcher_facts =
  wf_enabled :: bool
  wf_running :: bool
  wf_quiet_sec :: "int option"

record folder_health_filter_facts =
  ff_fingerprint :: "string option"
  ff_live_fingerprint :: "string option option"
  ff_source :: filter_source
  ff_changed_since_baseline :: bool
  ff_pattern_count :: int

record folder_health_baseline_facts =
  bf_present :: bool
  bf_ready :: bool
  bf_error :: bool
  bf_path1_count :: "int option"
  bf_path2_count :: "int option"
  bf_updated_at :: "int option"
  bf_fingerprint :: string

record folder_health_last_run_facts =
  lr_status :: string
  lr_summary :: "string option"
  lr_at :: "int option"

record folder_health_deep_measurement =
  dm_path_count :: int
  dm_total_bytes :: int
  dm_measured_at :: int

text \<open>The target device's own proof about its staging sibling (\<open>SeedStagingProof\<close>).\<close>

record seed_staging_proof =
  stp_target_path :: "string option"
  stp_target_parent :: "string option"
  stp_staging_parent :: "string option"
  stp_same_filesystem :: "bool option"
  stp_device :: "int option"
  stp_checked_at :: int

record folder_health_facts =
  hf_folder_type :: string
  hf_effective_type :: string
  hf_enabled :: bool
  hf_paused :: bool
  hf_run_in_progress :: bool
  hf_rclone_available :: bool
  hf_archive :: "seed_archive_tooling option"
  hf_seed_staging :: "seed_staging_proof option"
  hf_local_dir :: local_dir_state
  hf_free_space_bytes :: "int option"
  hf_free_space_threshold_bytes :: "int option"
  hf_watcher :: "folder_health_watcher_facts option"
  hf_filter :: folder_health_filter_facts
  hf_baseline :: folder_health_baseline_facts
  hf_active_phase :: "string option"
  hf_pending_conflicts :: int
  hf_last_run :: "folder_health_last_run_facts option"
  hf_measurement :: "folder_health_deep_measurement option"

section \<open>Reason templates\<close>

definition show_int :: "int \<Rightarrow> string" where
  "show_int i = (if i < 0 then CHR ''-'' # show_nat (nat (- i)) else show_nat (nat i))"

fun reason_state :: "folder_health_reason_code \<Rightarrow> folder_health_state" where
  "reason_state RC_Ok = Healthy"
| "reason_state RC_Never_Reported = State_Unknown"
| "reason_state RC_Run_In_Progress = Busy"
| "reason_state RC_Assignment_Disabled = Blocked"
| "reason_state RC_Paused = Blocked"
| "reason_state RC_Rclone_Missing = Blocked"
| "reason_state RC_Unsupported_Folder_Type = Healthy"
| "reason_state RC_Local_Path_Missing = Blocked"
| "reason_state RC_Local_Path_Not_Directory = Blocked"
| "reason_state RC_Local_Path_Unreadable = Blocked"
| "reason_state RC_Local_Path_Unwritable = Blocked"
| "reason_state RC_Disk_Space_Low = Blocked"
| "reason_state RC_Baseline_Missing = New_Host"
| "reason_state RC_Baseline_Incomplete = Resync_Required"
| "reason_state RC_Baseline_Error = Unsafe"
| "reason_state RC_Baseline_Not_Established = Resync_Required"
| "reason_state RC_Filter_Changed = Resync_Required"
| "reason_state RC_Interrupted = Recoverable"
| "reason_state RC_Last_Run_Failed = Recoverable"
| "reason_state RC_Conflicts_Pending = Recoverable"

fun reason_action :: "folder_health_reason_code \<Rightarrow> folder_health_action option" where
  "reason_action RC_Ok = None"
| "reason_action RC_Never_Reported = Some Act_Diagnose"
| "reason_action RC_Run_In_Progress = Some Act_Cancel"
| "reason_action RC_Assignment_Disabled = None"
| "reason_action RC_Paused = None"
| "reason_action RC_Rclone_Missing = Some Act_Diagnose"
| "reason_action RC_Unsupported_Folder_Type = None"
| "reason_action RC_Local_Path_Missing = Some Act_Sync"
| "reason_action RC_Local_Path_Not_Directory = Some Act_Diagnose"
| "reason_action RC_Local_Path_Unreadable = Some Act_Diagnose"
| "reason_action RC_Local_Path_Unwritable = Some Act_Diagnose"
| "reason_action RC_Disk_Space_Low = Some Act_Diagnose"
| "reason_action RC_Baseline_Missing = Some Act_Initialize"
| "reason_action RC_Baseline_Incomplete = Some Act_Resync"
| "reason_action RC_Baseline_Error = Some Act_Resync"
| "reason_action RC_Baseline_Not_Established = Some Act_Resync"
| "reason_action RC_Filter_Changed = Some Act_Resync"
| "reason_action RC_Interrupted = Some Act_Resume"
| "reason_action RC_Last_Run_Failed = Some Act_Resume"
| "reason_action RC_Conflicts_Pending = Some Act_Sync"

text \<open>The sentences that interpolate a fact; the others are fixed by their code.\<close>

datatype health_message =
    Fixed_Message folder_health_reason_code
  | Message_With folder_health_reason_code string

definition remote_listing_empty :: "folder_health_baseline_facts \<Rightarrow> bool" where
  "remote_listing_empty b \<longleftrightarrow>
     bf_path1_count b = Some 0 \<and> or_default (bf_path2_count b) 0 > 0"

definition reason_message :: "folder_health_reason_code \<Rightarrow> folder_health_facts \<Rightarrow> health_message" where
  "reason_message code f =
     (case code of
        RC_Run_In_Progress \<Rightarrow>
          (case hf_active_phase f of
             Some (c # p) \<Rightarrow> Message_With code (c # p)
           | _ \<Rightarrow> Fixed_Message code)
      | RC_Unsupported_Folder_Type \<Rightarrow> Message_With code (hf_effective_type f)
      | RC_Disk_Space_Low \<Rightarrow>
          (case hf_free_space_bytes f of
             None \<Rightarrow> Fixed_Message code
           | Some n \<Rightarrow> Message_With code (show_int n))
      | RC_Baseline_Not_Established \<Rightarrow>
          (if remote_listing_empty (hf_baseline f) then Message_With code ''empty''
           else Fixed_Message code)
      | RC_Conflicts_Pending \<Rightarrow> Message_With code (show_int (hf_pending_conflicts f))
      | _ \<Rightarrow> Fixed_Message code)"

record folder_health_reason =
  hr_code :: folder_health_reason_code
  hr_message :: health_message
  hr_action :: "folder_health_action option"

section \<open>Derivation\<close>

definition precondition_codes :: "folder_health_facts \<Rightarrow> folder_health_reason_code list" where
  "precondition_codes f =
     (if \<not> hf_enabled f then [RC_Assignment_Disabled] else []) @
     (if hf_paused f then [RC_Paused] else []) @
     (if \<not> hf_rclone_available f then [RC_Rclone_Missing] else []) @
     (if hf_effective_type f \<noteq> ''sync'' then [RC_Unsupported_Folder_Type] else []) @
     (case hf_local_dir f of
        Dir_Missing \<Rightarrow> [RC_Local_Path_Missing]
      | Dir_Not_Directory \<Rightarrow> [RC_Local_Path_Not_Directory]
      | Dir_Unreadable \<Rightarrow> [RC_Local_Path_Unreadable]
      | Dir_Unwritable \<Rightarrow> [RC_Local_Path_Unwritable]
      | Dir_Ok \<Rightarrow> []) @
     (case (hf_free_space_threshold_bytes f, hf_free_space_bytes f) of
        (Some limit, Some free) \<Rightarrow> if limit > 0 \<and> free < limit then [RC_Disk_Space_Low] else []
      | _ \<Rightarrow> [])"

definition baseline_codes :: "folder_health_facts \<Rightarrow> folder_health_reason_code list" where
  "baseline_codes f =
     (let b = hf_baseline f
      in if hf_effective_type f \<noteq> ''sync'' then []
         else if bf_error b then [RC_Baseline_Error]
         else if \<not> bf_present b then [RC_Baseline_Missing]
         else if \<not> bf_ready b then [RC_Baseline_Incomplete]
         else if remote_listing_empty b then [RC_Baseline_Not_Established]
         else [])"

definition last_run_codes :: "folder_health_facts \<Rightarrow> folder_health_reason_code list" where
  "last_run_codes f =
     (case map_option lr_status (hf_last_run f) of
        None \<Rightarrow> []
      | Some status \<Rightarrow>
          if hf_effective_type f = ''sync'' \<and> status \<noteq> ''success'' \<and> status \<noteq> ''recovery'' then
            (if status = ''retry'' \<or> status = ''deferred'' then [RC_Interrupted]
             else if status = ''failed'' then [RC_Last_Run_Failed]
             else [])
          else [])"

definition health_codes :: "folder_health_facts \<Rightarrow> folder_health_reason_code list" where
  "health_codes f =
     (let codes = precondition_codes f @ baseline_codes f @
            (if ff_changed_since_baseline (hf_filter f) then [RC_Filter_Changed] else []) @
            (if hf_pending_conflicts f > 0 then [RC_Conflicts_Pending] else []) @
            last_run_codes f @
            (if hf_run_in_progress f then [RC_Run_In_Progress] else [])
      in if codes = [] then [RC_Ok] else codes)"

definition make_reason :: "folder_health_facts \<Rightarrow> folder_health_reason_code \<Rightarrow> folder_health_reason" where
  "make_reason f code =
     \<lparr> hr_code = code, hr_message = reason_message code f, hr_action = reason_action code \<rparr>"

text \<open>The loop over the codes: keep the first state of the greatest severity.\<close>

fun worst_state :: "folder_health_state \<Rightarrow> int \<Rightarrow> folder_health_reason_code list \<Rightarrow> folder_health_state" where
  "worst_state w sev [] = w"
| "worst_state w sev (c # cs) =
     (let s = int (FOLDER_HEALTH_SEVERITY (reason_state c))
      in if s > sev then worst_state (reason_state c) s cs else worst_state w sev cs)"

text \<open>\<open>findIndex\<close>, \<open>splice\<close> and \<open>unshift\<close> of the run in progress.\<close>

fun move_run_first :: "folder_health_reason list \<Rightarrow> folder_health_reason list" where
  "move_run_first rs =
     (case find (\<lambda>r. hr_code r = RC_Run_In_Progress) rs of
        None \<Rightarrow> rs
      | Some r \<Rightarrow>
          r # takeWhile (\<lambda>r. hr_code r \<noteq> RC_Run_In_Progress) rs @
            tl (dropWhile (\<lambda>r. hr_code r \<noteq> RC_Run_In_Progress) rs))"

definition derive_folder_health ::
    "folder_health_facts \<Rightarrow> folder_health_state \<times> folder_health_reason list" where
  "derive_folder_health f =
     (let codes = health_codes f;
          reasons = map (make_reason f) codes;
          worst = worst_state Healthy (- 1) codes;
          worst = (if worst = New_Host \<and> hf_effective_type f \<noteq> ''sync'' then Healthy else worst)
      in if hf_run_in_progress f then (Busy, move_run_first reasons) else (worst, reasons))"

definition FOLDER_HEALTH_STALE_MS :: int where
  "FOLDER_HEALTH_STALE_MS = 15 * 60000"

definition FOLDER_PLAN_TTL_MS :: int where
  "FOLDER_PLAN_TTL_MS = 30 * 60000"

definition folder_health_staleness :: "int \<Rightarrow> int \<Rightarrow> bool \<times> int option" where
  "folder_health_staleness reported_at now =
     (let age = now - reported_at
      in if age < 0 then (False, None) else (age > FOLDER_HEALTH_STALE_MS, Some age))"

section \<open>Interventions\<close>

datatype folder_intervention = Initialize | Seed | Resync | Resume | Cancel

datatype folder_bootstrap_authority = Remote_Authority | Local_Authority

fun intervention_requires_authority :: "folder_intervention \<Rightarrow> bool" where
  "intervention_requires_authority i = (i = Initialize \<or> i = Seed \<or> i = Resync)"

fun intervention_requires_confirm :: "folder_intervention \<Rightarrow> bool" where
  "intervention_requires_confirm i = (i \<noteq> Cancel)"

fun intervention_requires_plan :: "folder_intervention \<Rightarrow> bool" where
  "intervention_requires_plan i = (i = Initialize \<or> i = Seed \<or> i = Resync)"

fun required_authority :: "folder_intervention \<Rightarrow> folder_bootstrap_authority option" where
  "required_authority Initialize = Some Remote_Authority"
| "required_authority Seed = Some Local_Authority"
| "required_authority Resync = None"
| "required_authority Resume = None"
| "required_authority Cancel = None"

fun intervention_name :: "folder_intervention \<Rightarrow> string" where
  "intervention_name Initialize = ''initialize''"
| "intervention_name Seed = ''seed''"
| "intervention_name Resync = ''resync''"
| "intervention_name Resume = ''resume''"
| "intervention_name Cancel = ''cancel''"

definition intervention_of_json :: "json \<Rightarrow> folder_intervention option" where
  "intervention_of_json v =
     (case as_string v of
        None \<Rightarrow> None
      | Some s \<Rightarrow> find (\<lambda>i. intervention_name i = s) [Initialize, Seed, Resync, Resume, Cancel])"

fun authority_name :: "folder_bootstrap_authority \<Rightarrow> string" where
  "authority_name Remote_Authority = ''remote''"
| "authority_name Local_Authority = ''local''"

definition authority_of_json :: "json \<Rightarrow> folder_bootstrap_authority option" where
  "authority_of_json v =
     (if v = JStr ''remote'' then Some Remote_Authority
      else if v = JStr ''local'' then Some Local_Authority
      else None)"

text \<open>\<open>Number.isInteger(raw)\<close> and \<open>0 \<le> raw \<le> 100\<close>.\<close>

definition percent_of_json :: "json \<Rightarrow> int option" where
  "percent_of_json v =
     (case Option.bind (as_number v) jnum_val of
        None \<Rightarrow> None
      | Some r \<Rightarrow> if of_int \<lfloor>r\<rfloor> = r \<and> 0 \<le> r \<and> r \<le> 100 then Some \<lfloor>r\<rfloor> else None)"

record folder_intervention_payload =
  ip_folder_id :: string
  ip_intervention :: folder_intervention
  ip_authority :: "folder_bootstrap_authority option"
  ip_plan_id :: "string option"
  ip_confirm :: bool
  ip_max_delete_percent :: "int option"

definition intervention_fields :: "string list" where
  "intervention_fields =
     [''folderId'', ''intervention'', ''authority'', ''planId'', ''confirm'', ''maxDeletePercent'']"

text \<open>The authority step of the parser: an error, or the authority to carry.\<close>

definition parse_authority ::
    "folder_intervention \<Rightarrow> json \<Rightarrow> wire_error + folder_bootstrap_authority option" where
  "parse_authority kind v =
     (if intervention_requires_authority kind then
        (case authority_of_json v of
           None \<Rightarrow> Inl (Field_Invalid ''authority'')
         | Some a \<Rightarrow>
             if required_authority kind \<noteq> None \<and> required_authority kind \<noteq> Some a
             then Inl (Field_Invalid ''authority'')
             else Inr (Some a))
      else if v \<noteq> JUndef then Inl (Unsupported_Field ''authority'')
      else Inr None)"

definition parse_plan_id :: "folder_intervention \<Rightarrow> json \<Rightarrow> wire_error + string option" where
  "parse_plan_id kind v =
     (case (if v = JUndef then Inr None
            else (case nonempty_string v of
                    None \<Rightarrow> Inl (Field_Invalid ''planId'')
                  | Some s \<Rightarrow> Inr (Some s))) of
        Inl e \<Rightarrow> Inl e
      | Inr plan \<Rightarrow>
          if intervention_requires_plan kind \<and> plan = None then Inl (Field_Required ''planId'')
          else if \<not> intervention_requires_plan kind \<and> plan \<noteq> None
            then Inl (Unsupported_Field ''planId'')
          else Inr plan)"

definition parse_percent :: "json \<Rightarrow> wire_error + int option" where
  "parse_percent v =
     (if v = JUndef then Inr None
      else (case percent_of_json v of
              None \<Rightarrow> Inl (Field_Invalid ''maxDeletePercent'')
            | Some n \<Rightarrow> Inr (Some n)))"

definition parse_folder_intervention_payload :: "json \<Rightarrow> wire_error + folder_intervention_payload" where
  "parse_folder_intervention_payload v =
     (if \<not> is_record v then Inl Payload_Not_Object
      else
     (case nonempty_string (obj_get v ''folderId'') of
        None \<Rightarrow> Inl (Field_Required ''folderId'')
      | Some folder \<Rightarrow>
     (case intervention_of_json (obj_get v ''intervention'') of
        None \<Rightarrow> Inl (Field_Invalid ''intervention'')
      | Some kind \<Rightarrow>
     (case unsupported_key intervention_fields v of
        Some k \<Rightarrow> Inl (Unsupported_Field k)
      | None \<Rightarrow>
     (case parse_authority kind (obj_get v ''authority'') of
        Inl e \<Rightarrow> Inl e
      | Inr auth \<Rightarrow>
     (case parse_plan_id kind (obj_get v ''planId'') of
        Inl e \<Rightarrow> Inl e
      | Inr plan \<Rightarrow>
          if intervention_requires_confirm kind \<and> obj_get v ''confirm'' \<noteq> JBool True
          then Inl Confirm_Required
          else
     (case parse_percent (obj_get v ''maxDeletePercent'') of
        Inl e \<Rightarrow> Inl e
      | Inr pct \<Rightarrow>
          Inr \<lparr> ip_folder_id = folder, ip_intervention = kind, ip_authority = auth,
                ip_plan_id = plan, ip_confirm = (obj_get v ''confirm'' = JBool True),
                ip_max_delete_percent = pct \<rparr>)))))))"

record folder_plan_request =
  fpr_folder_id :: string
  fpr_intervention :: folder_intervention
  fpr_authority :: folder_bootstrap_authority
  fpr_max_delete_percent :: "int option"

definition validate_bisync_max_delete_percent :: "json \<Rightarrow> wire_error option" where
  "validate_bisync_max_delete_percent v =
     (if v = JNull \<or> v = JUndef then None
      else if percent_of_json v = None then Some (Field_Invalid ''bisyncMaxDeletePercent'')
      else None)"

definition parse_folder_plan_request_payload :: "json \<Rightarrow> wire_error + folder_plan_request" where
  "parse_folder_plan_request_payload v =
     (if \<not> is_record v then Inl Payload_Not_Object
      else
     (case nonempty_string (obj_get v ''folderId'') of
        None \<Rightarrow> Inl (Field_Required ''folderId'')
      | Some folder \<Rightarrow>
     (case intervention_of_json (obj_get v ''intervention'') of
        None \<Rightarrow> Inl (Field_Invalid ''intervention'')
      | Some kind \<Rightarrow>
          if kind = Resume \<or> kind = Cancel then Inl (Field_Invalid ''intervention'')
          else
     (case authority_of_json (obj_get v ''authority'') of
        None \<Rightarrow> Inl (Field_Invalid ''authority'')
      | Some a \<Rightarrow>
          if required_authority kind \<noteq> None \<and> required_authority kind \<noteq> Some a
          then Inl (Field_Invalid ''authority'')
          else
     (case unsupported_key [''folderId'', ''intervention'', ''authority'', ''maxDeletePercent''] v of
        Some k \<Rightarrow> Inl (Unsupported_Field k)
      | None \<Rightarrow>
     (case validate_bisync_max_delete_percent (obj_get v ''maxDeletePercent'') of
        Some e \<Rightarrow> Inl e
      | None \<Rightarrow>
          Inr \<lparr> fpr_folder_id = folder, fpr_intervention = kind, fpr_authority = a,
                fpr_max_delete_percent = percent_of_json (obj_get v ''maxDeletePercent'') \<rparr>))))))"

definition parse_folder_diagnose_payload :: "json \<Rightarrow> wire_error + string" where
  "parse_folder_diagnose_payload v =
     (if \<not> is_record v then Inl Payload_Not_Object
      else
     (case nonempty_string (obj_get v ''folderId'') of
        None \<Rightarrow> Inl (Field_Required ''folderId'')
      | Some folder \<Rightarrow>
     (case unsupported_key [''folderId''] v of
        Some k \<Rightarrow> Inl (Unsupported_Field k)
      | None \<Rightarrow> Inr folder)))"

section \<open>Reviewed plans\<close>

record plan_changes =
  ch_would_copy :: "string list"
  ch_would_delete :: "string list"
  ch_would_mkdir :: "string list"
  ch_files :: int
  ch_bytes :: int

record folder_sync_plan =
  fp_id :: string
  fp_host_id :: string
  fp_folder_id :: string
  fp_assignment_id :: string
  fp_intervention :: folder_intervention
  fp_authority :: folder_bootstrap_authority
  fp_max_delete_percent :: "int option"
  fp_summary :: string
  fp_changes :: plan_changes
  fp_config_revision :: int
  fp_filter_fingerprint :: "string option"
  fp_baseline_fingerprint :: "string option"
  fp_created_at :: int
  fp_expires_at :: int

record plan_semantic_request =
  psr_intervention :: folder_intervention
  psr_authority :: "folder_bootstrap_authority option"
  psr_max_delete_percent :: "int option"

record folder_plan_execution =
  pe_intervention :: folder_intervention
  pe_authority :: folder_bootstrap_authority
  pe_max_delete_percent :: "int option"

datatype plan_refusal =
    Reviewed_As folder_intervention folder_intervention
  | Reviewed_Authority folder_bootstrap_authority folder_bootstrap_authority
  | Reviewed_Threshold "int option" "int option"

text \<open>The reason of a refusal, or the execution the plan authorizes.\<close>

definition check_plan_semantics ::
    "folder_sync_plan \<Rightarrow> plan_semantic_request \<Rightarrow> plan_refusal + folder_plan_execution" where
  "check_plan_semantics plan req =
     (let wanted = (case psr_authority req of
                      Some a \<Rightarrow> Some a
                    | None \<Rightarrow> required_authority (fp_intervention plan))
      in if psr_intervention req \<noteq> fp_intervention plan
           then Inl (Reviewed_As (fp_intervention plan) (psr_intervention req))
         else if (case wanted of None \<Rightarrow> False | Some a \<Rightarrow> a \<noteq> fp_authority plan)
           then Inl (Reviewed_Authority (fp_authority plan) (the wanted))
         else if psr_max_delete_percent req \<noteq> None \<and>
                 psr_max_delete_percent req \<noteq> fp_max_delete_percent plan
           then Inl (Reviewed_Threshold (fp_max_delete_percent plan) (psr_max_delete_percent req))
         else Inr \<lparr> pe_intervention = fp_intervention plan, pe_authority = fp_authority plan,
                    pe_max_delete_percent = fp_max_delete_percent plan \<rparr>)"

definition plan_has_content_changes :: "folder_sync_plan \<Rightarrow> bool" where
  "plan_has_content_changes plan \<longleftrightarrow>
     (let c = fp_changes plan
      in ch_would_copy c \<noteq> [] \<or> ch_would_delete c \<noteq> [] \<or> ch_would_mkdir c \<noteq> [] \<or>
         ch_files c > 0 \<or> ch_bytes c > 0)"

datatype plan_invalid_reason =
    Plan_Expired | Plan_Config_Changed | Plan_Filter_Changed | Plan_Baseline_Changed

record plan_live_state =
  pl_now :: int
  pl_config_revision :: int
  pl_filter_fingerprint :: "string option"
  pl_baseline_fingerprint :: "string option"

text \<open>\<open>None\<close> is the verdict \<open>valid: true\<close>.\<close>

definition check_folder_plan_validity ::
    "folder_sync_plan \<Rightarrow> plan_live_state \<Rightarrow> plan_invalid_reason option" where
  "check_folder_plan_validity plan live =
     (if pl_now live \<ge> fp_expires_at plan then Some Plan_Expired
      else if pl_config_revision live \<noteq> fp_config_revision plan then Some Plan_Config_Changed
      else if pl_filter_fingerprint live \<noteq> fp_filter_fingerprint plan then Some Plan_Filter_Changed
      else if pl_baseline_fingerprint live \<noteq> fp_baseline_fingerprint plan
        then Some Plan_Baseline_Changed
      else None)"

section \<open>Lemmas\<close>

text \<open>The loop computes the first state of greatest severity.\<close>

lemma worst_state_cases:
  "worst_state w sev cs = w \<and> (\<forall>c \<in> set cs. int (FOLDER_HEALTH_SEVERITY (reason_state c)) \<le> sev) \<or>
   (\<exists>c \<in> set cs. worst_state w sev cs = reason_state c \<and>
      sev < int (FOLDER_HEALTH_SEVERITY (reason_state c)) \<and>
      (\<forall>d \<in> set cs. FOLDER_HEALTH_SEVERITY (reason_state d) \<le> FOLDER_HEALTH_SEVERITY (reason_state c)))"
proof (induction cs arbitrary: w sev)
  case (Cons c cs)
  let ?s = "int (FOLDER_HEALTH_SEVERITY (reason_state c))"
  show ?case
  proof (cases "?s > sev")
    case True
    then show ?thesis using Cons.IH [of "reason_state c" ?s] by (auto simp: Let_def) 
  next
    case False
    then show ?thesis using Cons.IH [of w sev] by (auto simp: Let_def) 
  qed
qed simp

lemma worst_state_max:
  assumes "cs \<noteq> []"
  shows "\<exists>c \<in> set cs. worst_state Healthy (- 1) cs = reason_state c \<and>
    (\<forall>d \<in> set cs. FOLDER_HEALTH_SEVERITY (reason_state d) \<le> FOLDER_HEALTH_SEVERITY (reason_state c))"
proof -
  from assms obtain c where "c \<in> set cs" by (cases cs) auto
  moreover have "\<not> int (FOLDER_HEALTH_SEVERITY (reason_state c)) \<le> - 1" by simp
  ultimately show ?thesis using worst_state_cases [of Healthy "- 1" cs] by blast
qed

lemma severity_zero: "FOLDER_HEALTH_SEVERITY s = 0 \<longleftrightarrow> s = Healthy \<or> s = State_Unknown"
  by (cases s) auto

lemma health_codes_nonempty [simp]: "health_codes f \<noteq> []"
  by (simp add: health_codes_def Let_def)

lemma never_reported_not_derived: "RC_Never_Reported \<notin> set (health_codes f)"
  by (auto simp: health_codes_def Let_def precondition_codes_def baseline_codes_def last_run_codes_def
      split: local_dir_state.splits option.splits if_splits)

lemma new_host_is_sync:
  "RC_Baseline_Missing \<in> set (health_codes f) \<Longrightarrow> hf_effective_type f = ''sync''"
  by (auto simp: health_codes_def Let_def precondition_codes_def baseline_codes_def last_run_codes_def
      split: local_dir_state.splits option.splits if_splits)

lemma reason_state_New_Host: "reason_state c = New_Host \<longleftrightarrow> c = RC_Baseline_Missing"
  by (cases c) auto

lemma reason_state_Unknown: "reason_state c = State_Unknown \<longleftrightarrow> c = RC_Never_Reported"
  by (cases c) auto

lemma reason_state_Healthy: "reason_state c = Healthy \<longleftrightarrow> c = RC_Ok \<or> c = RC_Unsupported_Folder_Type"
  by (cases c) auto

text \<open>The correction for folders that are not synced never fires.\<close>

lemma worst_new_host_sync:
  "worst_state Healthy (- 1) (health_codes f) = New_Host \<Longrightarrow> hf_effective_type f = ''sync''"
  by (metis health_codes_nonempty new_host_is_sync reason_state_New_Host worst_state_max)

lemma derive_state:
  "\<not> hf_run_in_progress f \<Longrightarrow>
   fst (derive_folder_health f) = worst_state Healthy (- 1) (health_codes f)"
  using worst_new_host_sync [of f] by (auto simp: derive_folder_health_def Let_def)

lemma derive_state_max:
  assumes "\<not> hf_run_in_progress f"
  shows "\<exists>c \<in> set (health_codes f). fst (derive_folder_health f) = reason_state c \<and>
    (\<forall>d \<in> set (health_codes f).
       FOLDER_HEALTH_SEVERITY (reason_state d) \<le> FOLDER_HEALTH_SEVERITY (reason_state c))"
  using worst_state_max [OF health_codes_nonempty, of f] assms by (simp add: derive_state)

lemma set_move_run_first: "set (move_run_first rs) = set rs"
proof (cases "find (\<lambda>r. hr_code r = RC_Run_In_Progress) rs")
  case (Some r)
  let ?P = "\<lambda>r. hr_code r \<noteq> RC_Run_In_Progress"
  have r: "r \<in> set rs" "hr_code r = RC_Run_In_Progress"
    using find_SomeD [OF Some] by auto
  then have d: "dropWhile ?P rs \<noteq> []" by (auto simp: dropWhile_eq_Nil_conv)
  have "hd (dropWhile ?P rs) = r"
    using Some
  proof (induction rs)
    case (Cons a rs)
    then show ?case by (auto split: if_splits)
  qed simp
  then have "rs = takeWhile ?P rs @ r # tl (dropWhile ?P rs)"
    using d by (metis list.collapse takeWhile_dropWhile_id)
  then have "set rs = set (takeWhile ?P rs @ r # tl (dropWhile ?P rs))" by (rule arg_cong)
  then show ?thesis using Some by auto
qed simp

declare move_run_first.simps [simp del]

lemma reason_codes:
  "hr_code ` set (snd (derive_folder_health f)) = set (health_codes f)"
  by (auto simp: derive_folder_health_def Let_def set_move_run_first make_reason_def image_image)

text \<open>The facts that make a sync folder healthy.\<close>

definition healthy_sync_facts :: "folder_health_facts \<Rightarrow> bool" where
  "healthy_sync_facts f \<longleftrightarrow>
     hf_enabled f \<and> \<not> hf_paused f \<and> hf_rclone_available f \<and> hf_local_dir f = Dir_Ok \<and>
     \<not> (\<exists>limit free. hf_free_space_threshold_bytes f = Some limit \<and>
          hf_free_space_bytes f = Some free \<and> 0 < limit \<and> free < limit) \<and>
     bf_present (hf_baseline f) \<and> bf_ready (hf_baseline f) \<and> \<not> bf_error (hf_baseline f) \<and>
     \<not> remote_listing_empty (hf_baseline f) \<and>
     \<not> ff_changed_since_baseline (hf_filter f) \<and> hf_pending_conflicts f \<le> 0 \<and>
     \<not> (\<exists>s \<in> {''retry'', ''deferred'', ''failed''}. map_option lr_status (hf_last_run f) = Some s)"

lemma precondition_codes_sync_Nil:
  "hf_effective_type f = ''sync'' \<Longrightarrow>
   precondition_codes f = [] \<longleftrightarrow>
     hf_enabled f \<and> \<not> hf_paused f \<and> hf_rclone_available f \<and> hf_local_dir f = Dir_Ok \<and>
     \<not> (\<exists>limit free. hf_free_space_threshold_bytes f = Some limit \<and>
          hf_free_space_bytes f = Some free \<and> 0 < limit \<and> free < limit)"
  by (auto simp: precondition_codes_def split: local_dir_state.splits option.splits)

lemma baseline_codes_sync_Nil:
  "hf_effective_type f = ''sync'' \<Longrightarrow>
   baseline_codes f = [] \<longleftrightarrow>
     bf_present (hf_baseline f) \<and> bf_ready (hf_baseline f) \<and> \<not> bf_error (hf_baseline f) \<and>
     \<not> remote_listing_empty (hf_baseline f)"
  by (auto simp: baseline_codes_def Let_def)

lemma last_run_codes_sync_Nil:
  "hf_effective_type f = ''sync'' \<Longrightarrow>
   last_run_codes f = [] \<longleftrightarrow>
     \<not> (\<exists>s \<in> {''retry'', ''deferred'', ''failed''}. map_option lr_status (hf_last_run f) = Some s)"
  by (auto simp: last_run_codes_def split: option.splits)

lemma health_codes_ok_iff:
  assumes "hf_effective_type f = ''sync''" "\<not> hf_run_in_progress f"
  shows "health_codes f = [RC_Ok] \<longleftrightarrow> healthy_sync_facts f"
proof -
  have n: "RC_Ok \<notin> set (precondition_codes f)" "RC_Ok \<notin> set (baseline_codes f)"
    "RC_Ok \<notin> set (last_run_codes f)"
    by (auto simp: precondition_codes_def baseline_codes_def last_run_codes_def Let_def
        split: local_dir_state.splits option.splits if_splits)
  let ?all = "precondition_codes f @ baseline_codes f @
            (if ff_changed_since_baseline (hf_filter f) then [RC_Filter_Changed] else []) @
            (if hf_pending_conflicts f > 0 then [RC_Conflicts_Pending] else []) @ last_run_codes f"
  have "?all \<noteq> [RC_Ok]"
  proof
    assume "?all = [RC_Ok]"
    then have "RC_Ok \<in> set ?all" by (metis list.set_intros(1))
    then show False using n by (auto split: if_splits)
  qed
  moreover have "health_codes f = (if ?all = [] then [RC_Ok] else ?all)"
    using assms(2) by (simp only: health_codes_def Let_def if_False append_Nil2)
  ultimately have "health_codes f = [RC_Ok] \<longleftrightarrow> ?all = []" by metis
  also have "\<dots> \<longleftrightarrow> healthy_sync_facts f"
    using precondition_codes_sync_Nil [OF assms(1)] baseline_codes_sync_Nil [OF assms(1)]
      last_run_codes_sync_Nil [OF assms(1)]
    by (auto simp: healthy_sync_facts_def not_less)
  finally show ?thesis .
qed

lemma unsupported_not_sync:
  "RC_Unsupported_Folder_Type \<in> set (health_codes f) \<Longrightarrow> hf_effective_type f \<noteq> ''sync''"
  by (auto simp: health_codes_def Let_def precondition_codes_def baseline_codes_def last_run_codes_def
      split: local_dir_state.splits option.splits if_splits)

lemma ok_only: "RC_Ok \<in> set (health_codes f) \<Longrightarrow> health_codes f = [RC_Ok]"
  by (auto simp: health_codes_def Let_def precondition_codes_def baseline_codes_def last_run_codes_def
      split: local_dir_state.splits option.splits if_splits)

text \<open>
  C31. A sync folder is reported healthy exactly when every fact supports it: it is
  switched on, not paused, not running, rclone and the local directory are usable, the
  free space is above the floor, the listing pair exists, is ready, free of errors and
  not empty on the remote side only, the filter is unchanged, no conflict is pending and
  the last run did not end in retry, deferral or failure.
\<close>

theorem healthy_exactly_when:
  assumes "hf_effective_type f = ''sync''"
  shows "(fst (derive_folder_health f) = Healthy) =
         (\<not> hf_run_in_progress f \<and> healthy_sync_facts f)"
proof (cases "hf_run_in_progress f")
  case False
  obtain c where c: "c \<in> set (health_codes f)" "fst (derive_folder_health f) = reason_state c"
    "\<forall>d \<in> set (health_codes f). FOLDER_HEALTH_SEVERITY (reason_state d) \<le> FOLDER_HEALTH_SEVERITY (reason_state c)"
    using derive_state_max [OF False] by blast
  have "c \<noteq> RC_Unsupported_Folder_Type" using c(1) unsupported_not_sync assms by blast
  then have "reason_state c = Healthy \<longleftrightarrow> c = RC_Ok" by (simp add: reason_state_Healthy)
  also have "\<dots> \<longleftrightarrow> health_codes f = [RC_Ok]" using c(1) ok_only by fastforce
  also have "\<dots> \<longleftrightarrow> healthy_sync_facts f" by (rule health_codes_ok_iff [OF assms False])
  finally show ?thesis using False c(2) by simp
qed (simp add: derive_folder_health_def Let_def)

definition sample_health_facts :: folder_health_facts where
  "sample_health_facts =
     \<lparr> hf_folder_type = ''sync'', hf_effective_type = ''sync'', hf_enabled = True, hf_paused = False,
       hf_run_in_progress = False, hf_rclone_available = True, hf_archive = None,
       hf_seed_staging = None, hf_local_dir = Dir_Ok, hf_free_space_bytes = Some 500,
       hf_free_space_threshold_bytes = Some 100, hf_watcher = None,
       hf_filter = \<lparr> ff_fingerprint = None, ff_live_fingerprint = None, ff_source = Filter_None,
                     ff_changed_since_baseline = False, ff_pattern_count = 0 \<rparr>,
       hf_baseline = \<lparr> bf_present = True, bf_ready = True, bf_error = False,
                       bf_path1_count = Some 3, bf_path2_count = Some 3, bf_updated_at = None,
                       bf_fingerprint = ''fp'' \<rparr>,
       hf_active_phase = None, hf_pending_conflicts = 0, hf_last_run = None, hf_measurement = None \<rparr>"

theorem healthy_exactly_when_witness:
  "fst (derive_folder_health sample_health_facts) = Healthy"
  using healthy_exactly_when [of sample_health_facts]
  by (simp add: sample_health_facts_def healthy_sync_facts_def remote_listing_empty_def)

text \<open>
  The reported state is never better than any of its reasons: with no run in
  progress it is the state of one of the listed reasons and no listed reason has a
  greater severity; during a run it is \<open>busy\<close> and the run is the first reason.
\<close>

theorem state_is_the_worst_reason:
  "(if hf_run_in_progress f then
      fst (derive_folder_health f) = Busy \<and>
      hr_code (hd (snd (derive_folder_health f))) = RC_Run_In_Progress
    else
      fst (derive_folder_health f) \<in> reason_state ` hr_code ` set (snd (derive_folder_health f)) \<and>
      Max ((\<lambda>r. FOLDER_HEALTH_SEVERITY (reason_state (hr_code r))) ` set (snd (derive_folder_health f)))
        = FOLDER_HEALTH_SEVERITY (fst (derive_folder_health f)))"
proof (cases "hf_run_in_progress f")
  case True
  let ?rs = "map (make_reason f) (health_codes f)"
  have "RC_Run_In_Progress \<in> set (health_codes f)"
    using True by (auto simp: health_codes_def Let_def)
  then have "find (\<lambda>r. hr_code r = RC_Run_In_Progress) ?rs \<noteq> None"
    by (auto simp: find_None_iff make_reason_def)
  then obtain r where r: "find (\<lambda>r. hr_code r = RC_Run_In_Progress) ?rs = Some r" by blast
  then have "hr_code r = RC_Run_In_Progress" by (auto dest: find_SomeD)
  with True r show ?thesis
    by (simp add: derive_folder_health_def Let_def move_run_first.simps)
next
  case False
  then obtain c where c: "c \<in> set (health_codes f)" "fst (derive_folder_health f) = reason_state c"
    "\<forall>d \<in> set (health_codes f). FOLDER_HEALTH_SEVERITY (reason_state d) \<le> FOLDER_HEALTH_SEVERITY (reason_state c)"
    using derive_state_max by blast
  have im: "(\<lambda>r. FOLDER_HEALTH_SEVERITY (reason_state (hr_code r))) ` set (snd (derive_folder_health f)) =
      (\<lambda>c. FOLDER_HEALTH_SEVERITY (reason_state c)) ` set (health_codes f)"
    using reason_codes [of f] by (metis (no_types, lifting) image_image image_cong)
  have "Max ((\<lambda>c. FOLDER_HEALTH_SEVERITY (reason_state c)) ` set (health_codes f)) =
      FOLDER_HEALTH_SEVERITY (reason_state c)"
    using c by (intro Max_eqI) auto
  then show ?thesis using False c im by (simp add: reason_codes)
qed

text \<open>
  The reason list is not ordered worst first: for a disabled assignment whose saved
  record carries a critical error, the first reason is the switched-off one while the
  state, taken from the second, is \<open>unsafe\<close>.
\<close>

theorem reasons_are_not_worst_first:
  "(let f = sample_health_facts\<lparr>hf_enabled := False,
              hf_baseline := (hf_baseline sample_health_facts)\<lparr>bf_error := True\<rparr>\<rparr>
    in fst (derive_folder_health f) = Unsafe \<and>
       map hr_code (snd (derive_folder_health f)) = [RC_Assignment_Disabled, RC_Baseline_Error])"
  by (simp add: Let_def sample_health_facts_def derive_folder_health_def health_codes_def
      precondition_codes_def baseline_codes_def last_run_codes_def make_reason_def)

lemma check_plan_semantics_Inr:
  "check_plan_semantics plan req = Inr e \<longleftrightarrow>
     e = \<lparr> pe_intervention = fp_intervention plan, pe_authority = fp_authority plan,
           pe_max_delete_percent = fp_max_delete_percent plan \<rparr> \<and>
     psr_intervention req = fp_intervention plan \<and>
     (psr_authority req = Some (fp_authority plan) \<or>
      psr_authority req = None \<and> required_authority (fp_intervention plan) \<in> {None, Some (fp_authority plan)}) \<and>
     psr_max_delete_percent req \<in> {None, fp_max_delete_percent plan}"
  by (auto simp: check_plan_semantics_def Let_def split: option.splits if_splits)

lemma authority_of_json_name [simp]: "authority_of_json (JStr (authority_name a)) = Some a"
  by (cases a) (simp_all add: authority_of_json_def)

lemma intervention_of_json_name [simp]: "intervention_of_json (JStr (intervention_name i)) = Some i"
  by (cases i) (simp_all add: intervention_of_json_def)

lemma percent_of_json_range: "percent_of_json v = Some n \<Longrightarrow> 0 \<le> n \<and> n \<le> 100"
  by (auto simp: percent_of_json_def floor_le_iff split: option.splits if_splits)

lemma percent_of_json_num [simp]:
  "0 \<le> n \<Longrightarrow> n \<le> 100 \<Longrightarrow> percent_of_json (JNum (Fin (of_int n))) = Some n"
  by (simp add: percent_of_json_def)

definition intervention_payload_ok :: "folder_intervention_payload \<Rightarrow> bool" where
  "intervention_payload_ok p \<longleftrightarrow>
     ip_folder_id p \<noteq> [] \<and>
     (ip_intervention p \<in> {Initialize, Seed, Resync} \<longrightarrow>
        (\<exists>a. ip_authority p = Some a \<and> required_authority (ip_intervention p) \<in> {None, Some a}) \<and>
        (\<exists>s. ip_plan_id p = Some s \<and> s \<noteq> []) \<and> ip_confirm p) \<and>
     (ip_intervention p \<in> {Resume, Cancel} \<longrightarrow>
        ip_authority p = None \<and> ip_plan_id p = None \<and> (ip_intervention p = Resume \<longrightarrow> ip_confirm p)) \<and>
     (case ip_max_delete_percent p of None \<Rightarrow> True | Some n \<Rightarrow> 0 \<le> n \<and> n \<le> 100)"

definition intervention_payload_json :: "folder_intervention_payload \<Rightarrow> json" where
  "intervention_payload_json p =
     JObj ([(''folderId'', JStr (ip_folder_id p)),
            (''intervention'', JStr (intervention_name (ip_intervention p)))] @
           (case ip_authority p of None \<Rightarrow> [] | Some a \<Rightarrow> [(''authority'', JStr (authority_name a))]) @
           (case ip_plan_id p of None \<Rightarrow> [] | Some s \<Rightarrow> [(''planId'', JStr s)]) @
           (if ip_confirm p then [(''confirm'', JBool True)] else []) @
           (case ip_max_delete_percent p of
              None \<Rightarrow> []
            | Some n \<Rightarrow> [(''maxDeletePercent'', JNum (Fin (of_int n)))]))"

lemma parse_authority_Inr:
  "parse_authority k v = Inr a \<longleftrightarrow>
     (if k \<in> {Initialize, Seed, Resync}
      then (\<exists>b. a = Some b \<and> authority_of_json v = Some b \<and> required_authority k \<in> {None, Some b})
      else v = JUndef \<and> a = None)"
  by (cases k) (auto simp: parse_authority_def split: option.splits)

lemma parse_plan_id_Inr:
  "parse_plan_id k v = Inr a \<longleftrightarrow>
     (if k \<in> {Initialize, Seed, Resync} then (\<exists>s. v = JStr s \<and> s \<noteq> [] \<and> a = Some s)
      else v = JUndef \<and> a = None)"
  by (cases k; cases v) (auto simp: parse_plan_id_def nonempty_string_def split: option.splits if_splits)

lemma parse_percent_Inr:
  "parse_percent v = Inr a \<longleftrightarrow>
     (v = JUndef \<and> a = None \<or> v \<noteq> JUndef \<and> (\<exists>n. a = Some n \<and> percent_of_json v = Some n))"
  by (auto simp: parse_percent_def split: option.splits)

lemma parse_intervention_Inr:
  "parse_folder_intervention_payload v = Inr p \<longleftrightarrow>
     is_record v \<and> set (obj_keys v) \<subseteq> set intervention_fields \<and>
     nonempty_string (obj_get v ''folderId'') = Some (ip_folder_id p) \<and>
     intervention_of_json (obj_get v ''intervention'') = Some (ip_intervention p) \<and>
     parse_authority (ip_intervention p) (obj_get v ''authority'') = Inr (ip_authority p) \<and>
     parse_plan_id (ip_intervention p) (obj_get v ''planId'') = Inr (ip_plan_id p) \<and>
     (ip_intervention p \<noteq> Cancel \<longrightarrow> ip_confirm p) \<and>
     ip_confirm p = (obj_get v ''confirm'' = JBool True) \<and>
     parse_percent (obj_get v ''maxDeletePercent'') = Inr (ip_max_delete_percent p)"
  by (cases p)
    (auto simp: parse_folder_intervention_payload_def unsupported_key_None [symmetric]
      simp del: unsupported_key_None split: option.splits sum.splits)

lemma intervention_accepted_ok:
  "parse_folder_intervention_payload v = Inr p \<Longrightarrow> intervention_payload_ok p"
  by (auto simp: parse_intervention_Inr intervention_payload_ok_def parse_authority_Inr
      parse_plan_id_Inr parse_percent_Inr js_simps dest: percent_of_json_range split: if_splits)

lemma intervention_encoded:
  assumes "intervention_payload_ok p"
  shows "parse_folder_intervention_payload (intervention_payload_json p) = Inr p"
proof -
  obtain f i a s c m where p: "p = \<lparr> ip_folder_id = f, ip_intervention = i, ip_authority = a,
      ip_plan_id = s, ip_confirm = c, ip_max_delete_percent = m \<rparr>"
    by (cases p) blast
  show ?thesis
    using assms
    by (cases i; cases a; cases s; cases c; cases m)
      (simp_all add: p parse_intervention_Inr intervention_payload_ok_def
        intervention_payload_json_def parse_authority_Inr parse_plan_id_Inr parse_percent_Inr
        intervention_fields_def js_simps intervention_of_json_def authority_of_json_def [of "JStr ''remote''"]
        authority_of_json_def [of "JStr ''local''"] split: if_splits)
qed

interpretation intervention: closed_wire
  parse_folder_intervention_payload intervention_fields intervention_payload_ok
  intervention_payload_json
proof unfold_locales
  show "parse_folder_intervention_payload v = Inr p \<Longrightarrow> closed_object intervention_fields v = None" for v p
    by (simp add: parse_intervention_Inr js_simps)
qed (fact intervention_accepted_ok intervention_encoded)+

text \<open>
  Every accepted intervention is one the operator spelled out: the payloads the
  parser can produce are exactly those where a reseed names its authoritative side (the
  remote for \<open>initialize\<close>, this host for \<open>seed\<close>), a reviewed plan and a
  confirmation, a resume carries a confirmation, neither resume nor cancel names a side
  or a plan, and a deletion threshold is a percentage.
\<close>

theorem interventions_are_explicit:
  "(\<exists>v. parse_folder_intervention_payload v = Inr p) = intervention_payload_ok p"
  by (rule intervention.range)

text \<open>
  C30. A request can be refused but never widens what was reviewed: when an intervention
  payload passes the semantics check of a plan, the run uses the plan's own values and
  they agree with every value the request names, so a plan reviewed for one side, one
  intervention or one threshold never authorizes another.
\<close>

theorem execution_is_the_reviewed_plan:
  assumes "parse_folder_intervention_payload v = Inr p"
    and "check_plan_semantics plan
           \<lparr> psr_intervention = ip_intervention p, psr_authority = ip_authority p,
             psr_max_delete_percent = ip_max_delete_percent p \<rparr> = Inr e"
  shows "pe_intervention e = ip_intervention p \<and> pe_intervention e = fp_intervention plan \<and>
         pe_authority e = fp_authority plan \<and>
         (ip_intervention p \<in> {Initialize, Seed, Resync} \<longrightarrow> ip_authority p = Some (pe_authority e)) \<and>
         (\<forall>n. ip_max_delete_percent p = Some n \<longrightarrow> pe_max_delete_percent e = Some n)"
proof -
  have e: "e = \<lparr> pe_intervention = fp_intervention plan, pe_authority = fp_authority plan,
        pe_max_delete_percent = fp_max_delete_percent plan \<rparr>"
    and i: "ip_intervention p = fp_intervention plan"
    and a: "ip_authority p \<in> {None, Some (fp_authority plan)}"
    and m: "ip_max_delete_percent p \<in> {None, fp_max_delete_percent plan}"
    using assms(2) [unfolded check_plan_semantics_Inr] by simp_all blast+
  have "ip_authority p = Some (pe_authority e)" if "ip_intervention p \<in> {Initialize, Seed, Resync}"
    using intervention_accepted_ok [OF assms(1), unfolded intervention_payload_ok_def] that a e
    by fastforce
  moreover have "pe_max_delete_percent e = Some n" if "ip_max_delete_percent p = Some n" for n
    using that m e by simp
  ultimately show ?thesis using e i by simp
qed

definition sample_plan :: folder_sync_plan where
  "sample_plan =
     \<lparr> fp_id = ''p1'', fp_host_id = ''h'', fp_folder_id = ''f'', fp_assignment_id = ''a'',
       fp_intervention = Resync, fp_authority = Local_Authority, fp_max_delete_percent = Some 10,
       fp_summary = '''', fp_changes = \<lparr> ch_would_copy = [''x''], ch_would_delete = [],
       ch_would_mkdir = [], ch_files = 1, ch_bytes = 1 \<rparr>, fp_config_revision = 1,
       fp_filter_fingerprint = None, fp_baseline_fingerprint = Some ''b'', fp_created_at = 0,
       fp_expires_at = 100 \<rparr>"

theorem execution_is_the_reviewed_plan_witness:
  "\<exists>e. check_plan_semantics sample_plan
     \<lparr> psr_intervention = Resync, psr_authority = Some Local_Authority,
       psr_max_delete_percent = Some 10 \<rparr> = Inr e \<and> pe_max_delete_percent e = Some 10"
proof -
  let ?p = "\<lparr> ip_folder_id = ''f'', ip_intervention = Resync, ip_authority = Some Local_Authority,
              ip_plan_id = Some ''p1'', ip_confirm = True, ip_max_delete_percent = Some 10 \<rparr>"
  have "intervention_payload_ok ?p" by (simp add: intervention_payload_ok_def)
  note parsed = intervention_encoded [OF this]
  obtain e where e: "check_plan_semantics sample_plan
     \<lparr> psr_intervention = Resync, psr_authority = Some Local_Authority,
       psr_max_delete_percent = Some 10 \<rparr> = Inr e"
    by (simp add: check_plan_semantics_def sample_plan_def)
  with execution_is_the_reviewed_plan [OF parsed, of sample_plan e] show ?thesis by simp
qed

text \<open>
  A reviewed plan is valid exactly before its expiry and while the configuration
  revision, the filter fingerprint and the listing-pair fingerprint are the ones it was
  built against.
\<close>

theorem plan_valid_exactly_when:
  "(check_folder_plan_validity plan live = None) =
     (pl_now live < fp_expires_at plan \<and>
      pl_config_revision live = fp_config_revision plan \<and>
      pl_filter_fingerprint live = fp_filter_fingerprint plan \<and>
      pl_baseline_fingerprint live = fp_baseline_fingerprint plan)"
  by (simp add: check_folder_plan_validity_def)

end
