(* ===== verification/Seed_Plan.thy ===== *)
theory Seed_Plan
  imports Folder_Health Seed_Space Seed_Staging Seed_Pilot
begin

text \<open>
  Seed plans: the record and its validity (\<open>packages/core/src/folder-seed.ts\<close>) and the
  read-only builder (\<open>buildSeedPlan\<close>, \<open>seedPlanValidityFor\<close> of
  \<open>packages/server/src/seed-jobs.ts\<close>). What the builder reads from the database is an
  argument: the assignments of the folder, the derived health records, the host's
  configuration revision, the pilot's verdict and the fresh id. Sentences are
  \<open>plan_message\<close> constructors carrying what they interpolate.
\<close>

section \<open>The plan\<close>

datatype plan_message =
    Authority_Usable string int int int
  | Authority_Unmeasured string
  | Authority_Stale string int
  | Authority_Empty string
  | Filter_Unreported
  | Filter_Mismatch
  | Filter_Built string "string option"
  | Space_Sentence space_message
  | Staging_Sentence staging_message
  | Staging_Not_Derivable
  | Target_Unmeasured string
  | Target_Populated string int
  | Target_Empty string
  | Tooling_Present
  | Tooling_Unreported
  | Tooling_Missing
  | Execution_Pilot_Authorized
  | Execution_Available
  | Execution_Refused pilot_reason
  | Execution_Unavailable
  | Plan_Is_Expired
  | Plan_Assignment_Changed
  | Plan_Filter_Set_Changed
  | Plan_Sync_Record_Changed
  | Plan_Current

record seed_source_authority =
  au_host_id :: string
  au_assignment_id :: string
  au_assigned :: bool
  au_is_target :: bool
  au_measurement_usable :: bool
  au_measurement_age_ms :: "int option"
  au_file_count :: int
  au_total_bytes :: int
  au_measured_at :: "int option"
  au_message :: plan_message

record seed_source_facts =
  sf_file_count :: int
  sf_total_bytes :: int
  sf_measured_at :: int
  sf_measured_on_host_id :: "string option"
  sf_manifest_fingerprint :: "string option"

record seed_target_facts =
  tf_free_bytes :: "int option"
  tf_free_bytes_measured_at :: "int option"
  tf_measured_on_host_id :: "string option"
  tf_staging_root :: "string option"
  tf_staging_same_filesystem :: "bool option"
  tf_measured_entries :: "int option"

record seed_filter_universe_facts =
  fu_fingerprint :: "string option"
  fu_target_fingerprint :: "string option"
  fu_match :: bool
  fu_pattern_count :: int
  fu_archive_implemented :: bool
  fu_message :: plan_message

record seed_plan_archive =
  pa_format :: seed_archive_format
  pa_tooling :: seed_archive_tooling
  pa_tooling_ready :: bool
  pa_estimate_bytes :: int
  pa_choice_reason :: format_reason
  pa_fallback :: bool

record seed_staging_policy =
  py_adjacent_to_target :: bool
  py_derived_sibling :: bool
  py_inside_target :: bool
  py_same_filesystem :: "bool option"
  py_message :: plan_message

record seed_plan_execution =
  ex_available :: bool
  ex_reason :: plan_message

text \<open>The verdict and the sentence of the space plan, with its reservation.\<close>

record seed_plan_space =
  ps_plan :: seed_space_plan
  ps_ok :: bool
  ps_message :: plan_message

record seed_plan =
  pl_id :: string
  pl_host_id :: string
  pl_folder_id :: string
  pl_assignment_id :: string
  pl_recommendation :: seed_recommendation
  pl_source_host_id :: string
  pl_source_authority :: seed_source_authority
  pl_source :: seed_source_facts
  pl_target :: seed_target_facts
  pl_space :: seed_plan_space
  pl_filter_universe :: seed_filter_universe_facts
  pl_archive :: seed_plan_archive
  pl_staging_policy :: seed_staging_policy
  pl_revision :: int
  pl_filter :: "string option"
  pl_baseline :: "string option"
  pl_created_at :: int
  pl_expires_at :: int
  pl_execution :: seed_plan_execution

section \<open>Execution\<close>

definition SEED_ARCHIVE_TRANSPORT_IMPLEMENTED :: bool where
  "SEED_ARCHIVE_TRANSPORT_IMPLEMENTED = False"

definition SEED_FILTER_AWARE_ARCHIVE_IMPLEMENTED :: bool where
  "SEED_FILTER_AWARE_ARCHIVE_IMPLEMENTED = True"

definition SEED_PLAN_TTL_MS :: int where
  "SEED_PLAN_TTL_MS = 30 * 60000"

record seed_plan_execution_options =
  op_transport_implemented :: "bool option"
  op_pilot :: "seed_pilot_eligibility option"

definition seed_plan_execution_of :: "seed_plan_execution_options \<Rightarrow> seed_plan_execution" where
  "seed_plan_execution_of options =
     (let transport = or_default (op_transport_implemented options) SEED_ARCHIVE_TRANSPORT_IMPLEMENTED;
          pilot_eligible = (case op_pilot options of None \<Rightarrow> False | Some p \<Rightarrow> el_eligible p)
      in if transport \<or> pilot_eligible then
           \<lparr> ex_available = True,
             ex_reason = (if pilot_eligible then Execution_Pilot_Authorized else Execution_Available) \<rparr>
         else
           \<lparr> ex_available = False,
             ex_reason =
               (case op_pilot options of
                  Some p \<Rightarrow> if el_reason p = Pilot_Text [] then Execution_Unavailable
                             else Execution_Refused (el_reason p)
                | None \<Rightarrow> Execution_Unavailable) \<rparr>)"

definition seed_target_emptiness :: "seed_target_facts \<Rightarrow> bool \<times> plan_message" where
  "seed_target_emptiness target =
     (let host = or_default (tf_measured_on_host_id target) ''the target device''
      in case tf_measured_entries target of
           None \<Rightarrow> (False, Target_Unmeasured host)
         | Some n \<Rightarrow> if n \<noteq> 0 then (False, Target_Populated host n) else (True, Target_Empty host))"

section \<open>Prerequisites and validity\<close>

datatype seed_prerequisite_id =
    Pre_Source_Authority | Pre_Filter_Universe | Pre_Staging_Same_Filesystem | Pre_Target_Empty
  | Pre_Target_Tooling | Pre_Target_Space | Pre_Transport

record seed_prerequisite =
  pq_id :: seed_prerequisite_id
  pq_ok :: bool
  pq_message :: plan_message

definition staging_policy_ok :: "seed_staging_policy \<Rightarrow> bool" where
  "staging_policy_ok p \<longleftrightarrow>
     py_adjacent_to_target p \<and> py_derived_sibling p \<and> \<not> py_inside_target p \<and>
     py_same_filesystem p = Some True"

definition seed_plan_prerequisites ::
    "seed_plan \<Rightarrow> seed_plan_execution_options \<Rightarrow> seed_prerequisite list" where
  "seed_plan_prerequisites plan options =
     (let emptiness = seed_target_emptiness (pl_target plan)
      in [\<lparr> pq_id = Pre_Source_Authority,
            pq_ok = au_measurement_usable (pl_source_authority plan),
            pq_message = au_message (pl_source_authority plan) \<rparr>,
          \<lparr> pq_id = Pre_Filter_Universe,
            pq_ok = fu_archive_implemented (pl_filter_universe plan) \<and> fu_match (pl_filter_universe plan),
            pq_message = fu_message (pl_filter_universe plan) \<rparr>,
          \<lparr> pq_id = Pre_Staging_Same_Filesystem, pq_ok = staging_policy_ok (pl_staging_policy plan),
            pq_message = py_message (pl_staging_policy plan) \<rparr>,
          \<lparr> pq_id = Pre_Target_Empty, pq_ok = fst emptiness, pq_message = snd emptiness \<rparr>,
          \<lparr> pq_id = Pre_Target_Tooling, pq_ok = pa_tooling_ready (pl_archive plan),
            pq_message =
              (if pa_tooling_ready (pl_archive plan) then Tooling_Present else Tooling_Unreported) \<rparr>,
          \<lparr> pq_id = Pre_Target_Space, pq_ok = ps_ok (pl_space plan),
            pq_message = ps_message (pl_space plan) \<rparr>,
          \<lparr> pq_id = Pre_Transport, pq_ok = ex_available (seed_plan_execution_of options),
            pq_message = Execution_Unavailable \<rparr>])"

datatype seed_plan_invalid =
    Invalid_Expired | Invalid_Config_Changed | Invalid_Filter_Changed | Invalid_Baseline_Changed
  | Invalid_Not_Runnable | Invalid_Missing

record seed_plan_validity =
  vd_valid :: bool
  vd_reason :: "seed_plan_invalid option"
  vd_message :: plan_message

record seed_plan_live =
  lv_now :: int
  lv_config_revision :: int
  lv_filter_fingerprint :: "string option"
  lv_baseline_fingerprint :: "string option"

definition invalid_plan :: "seed_plan_invalid \<Rightarrow> plan_message \<Rightarrow> seed_plan_validity" where
  "invalid_plan r m = \<lparr> vd_valid = False, vd_reason = Some r, vd_message = m \<rparr>"

definition check_seed_plan_validity ::
    "seed_plan \<Rightarrow> seed_plan_live \<Rightarrow> seed_plan_execution_options \<Rightarrow> seed_plan_validity" where
  "check_seed_plan_validity plan live options =
     (if lv_now live \<ge> pl_expires_at plan then invalid_plan Invalid_Expired Plan_Is_Expired
      else if lv_config_revision live \<noteq> pl_revision plan
        then invalid_plan Invalid_Config_Changed Plan_Assignment_Changed
      else if lv_filter_fingerprint live \<noteq> pl_filter plan
        then invalid_plan Invalid_Filter_Changed Plan_Filter_Set_Changed
      else if lv_baseline_fingerprint live \<noteq> pl_baseline plan
        then invalid_plan Invalid_Baseline_Changed Plan_Sync_Record_Changed
      else if \<not> au_measurement_usable (pl_source_authority plan)
        then invalid_plan Invalid_Not_Runnable (au_message (pl_source_authority plan))
      else if \<not> fu_archive_implemented (pl_filter_universe plan)
        then invalid_plan Invalid_Not_Runnable (fu_message (pl_filter_universe plan))
      else if \<not> fu_match (pl_filter_universe plan)
        then invalid_plan Invalid_Not_Runnable (fu_message (pl_filter_universe plan))
      else if \<not> pa_tooling_ready (pl_archive plan)
        then invalid_plan Invalid_Not_Runnable Tooling_Missing
      else if \<not> ps_ok (pl_space plan)
        then invalid_plan Invalid_Not_Runnable (ps_message (pl_space plan))
      else if \<not> staging_policy_ok (pl_staging_policy plan)
        then invalid_plan Invalid_Not_Runnable (py_message (pl_staging_policy plan))
      else if \<not> fst (seed_target_emptiness (pl_target plan))
        then invalid_plan Invalid_Not_Runnable (snd (seed_target_emptiness (pl_target plan)))
      else if \<not> ex_available (seed_plan_execution_of options)
        then invalid_plan Invalid_Not_Runnable (ex_reason (seed_plan_execution_of options))
      else \<lparr> vd_valid = True, vd_reason = None, vd_message = Plan_Current \<rparr>)"

section \<open>Building a plan\<close>

record assignment_row =
  ar_id :: string
  ar_folder_id :: string
  ar_host_id :: string
  ar_local_path :: string

record folder_health_record =
  fr_assignment_id :: string
  fr_facts :: folder_health_facts
  fr_reported_at :: int

datatype build_refusal =
    No_Assignments | Target_Not_Assigned | Source_Is_Target | Source_Not_Assigned

definition find_record :: "folder_health_record list \<Rightarrow> string \<Rightarrow> folder_health_record option" where
  "find_record records assignment = find (\<lambda>r. fr_assignment_id r = assignment) records"

definition record_measurement :: "folder_health_record option \<Rightarrow> folder_health_deep_measurement option" where
  "record_measurement r = Option.bind r (\<lambda>x. hf_measurement (fr_facts x))"

definition record_live_filter :: "folder_health_record option \<Rightarrow> string option option" where
  "record_live_filter r = Option.bind r (\<lambda>x. ff_live_fingerprint (hf_filter (fr_facts x)))"

definition record_same_filesystem :: "folder_health_record option \<Rightarrow> bool option" where
  "record_same_filesystem r =
     Option.bind r (\<lambda>x. Option.bind (hf_seed_staging (fr_facts x)) stp_same_filesystem)"

definition source_authority_of ::
    "assignment_row \<Rightarrow> folder_health_deep_measurement option \<Rightarrow> int \<Rightarrow> seed_source_authority" where
  "source_authority_of source m now =
     (let age = map_option (\<lambda>x. max 0 (now - dm_measured_at x)) m;
          fresh = (case age of None \<Rightarrow> False | Some a \<Rightarrow> a \<le> SEED_SOURCE_MEASUREMENT_MAX_AGE_MS);
          usable = (case m of None \<Rightarrow> False | Some x \<Rightarrow> fresh \<and> dm_path_count x > 0);
          ms = or_default age 0
      in \<lparr> au_host_id = ar_host_id source, au_assignment_id = ar_id source, au_assigned = True,
           au_is_target = False, au_measurement_usable = usable, au_measurement_age_ms = age,
           au_file_count = or_default (map_option dm_path_count m) 0,
           au_total_bytes = or_default (map_option dm_total_bytes m) 0,
           au_measured_at = map_option dm_measured_at m,
           au_message =
             (case m of
                None \<Rightarrow> Authority_Unmeasured (ar_host_id source)
              | Some x \<Rightarrow>
                  if usable then
                    Authority_Usable (ar_host_id source) (dm_path_count x) (dm_total_bytes x)
                      (js_round (of_int ms / 60000))
                  else if \<not> fresh then
                    Authority_Stale (ar_host_id source) (js_round (of_int ms / 3600000))
                  else Authority_Empty (ar_host_id source)) \<rparr>)"

definition filter_universe_of ::
    "string \<Rightarrow> folder_health_record option \<Rightarrow> folder_health_record option \<Rightarrow> seed_filter_universe_facts" where
  "filter_universe_of source_host source target =
     (let s = record_live_filter source; t = record_live_filter target;
          match = (s \<noteq> None \<and> t \<noteq> None \<and> t = s)
      in \<lparr> fu_fingerprint = or_default s None, fu_target_fingerprint = or_default t None,
           fu_match = match,
           fu_pattern_count =
             or_default (map_option (\<lambda>r. ff_pattern_count (hf_filter (fr_facts r))) source) 0,
           fu_archive_implemented = SEED_FILTER_AWARE_ARCHIVE_IMPLEMENTED,
           fu_message =
             (if s = None \<or> t = None then Filter_Unreported
              else if \<not> match then Filter_Mismatch
              else Filter_Built source_host (or_default s None)) \<rparr>)"

definition staging_policy_of :: "string \<Rightarrow> bool option \<Rightarrow> seed_staging_policy" where
  "staging_policy_of target_path proven =
     (case seed_staging_path target_path ''plan'' of
        None \<Rightarrow>
          \<lparr> py_adjacent_to_target = False, py_derived_sibling = False, py_inside_target = False,
            py_same_filesystem = None, py_message = Staging_Not_Derivable \<rparr>
      | Some staging \<Rightarrow>
          (let v = validate_staging_location
                     \<lparr> sl_staging_path = staging, sl_target_path = target_path,
                       sl_staging_device = None, sl_target_device = None,
                       sl_same_filesystem_proven = proven \<rparr>
           in \<lparr> py_adjacent_to_target = sv_adjacent_to_target v,
                py_derived_sibling = sv_derived_sibling v, py_inside_target = sv_inside_target v,
                py_same_filesystem = sv_same_filesystem v,
                py_message = Staging_Sentence (sv_message v) \<rparr>))"

definition plan_archive_of :: "seed_archive_tooling option \<Rightarrow> int \<Rightarrow> seed_plan_archive" where
  "plan_archive_of tooling estimate =
     (let choice = (case tooling of
                      Some t \<Rightarrow> select_seed_archive_format t
                    | None \<Rightarrow> \<lparr> choice_format = TarGz, choice_reason = ReasonToolingUnreported,
                               choice_fallback = True \<rparr>)
      in \<lparr> pa_format = choice_format choice,
           pa_tooling = or_default tooling \<lparr> tool_tar = False, tool_zstd = False, tool_gzip = False \<rparr>,
           pa_tooling_ready =
             (case tooling of
                None \<Rightarrow> False
              | Some t \<Rightarrow> seed_archive_tooling_ready (choice_format choice) t),
           pa_estimate_bytes = estimate, pa_choice_reason = choice_reason choice,
           pa_fallback = choice_fallback choice \<rparr>)"

definition target_facts_of :: "assignment_row \<Rightarrow> folder_health_record option \<Rightarrow> seed_target_facts" where
  "target_facts_of target r =
     \<lparr> tf_free_bytes = Option.bind r (\<lambda>x. hf_free_space_bytes (fr_facts x)),
       tf_free_bytes_measured_at = map_option fr_reported_at r,
       tf_measured_on_host_id = (case r of None \<Rightarrow> None | Some _ \<Rightarrow> Some (ar_host_id target)),
       tf_staging_root = parent_path_of (ar_local_path target),
       tf_staging_same_filesystem = record_same_filesystem r,
       tf_measured_entries = map_option dm_path_count (record_measurement r) \<rparr>"

definition space_input_of :: "int \<Rightarrow> int \<Rightarrow> int option \<Rightarrow> seed_space_input" where
  "space_input_of bytes files free =
     \<lparr> si_source_bytes = Fin (of_int bytes), si_source_files = Fin (of_int files),
       si_target_free_bytes = map_option (\<lambda>n. Fin (of_int n)) free, si_archive_ratio = None,
       si_safety_factor = None, si_fixed_overhead_bytes = None \<rparr>"

record build_environment =
  be_assignments :: "assignment_row list"
  be_records :: "folder_health_record list"
  be_revision :: "string \<Rightarrow> int option"
  be_pilot :: "seed_pilot_request \<Rightarrow> seed_pilot_eligibility"

definition build_seed_plan ::
    "build_environment \<Rightarrow> string \<Rightarrow> string \<Rightarrow> string \<Rightarrow> int \<Rightarrow> string \<Rightarrow> build_refusal + seed_plan" where
  "build_seed_plan env folder target_host source_host now new_id =
     (let assignments = filter (\<lambda>a. ar_folder_id a = folder) (be_assignments env)
      in if assignments = [] then Inl No_Assignments
         else case find (\<lambda>a. ar_host_id a = target_host) assignments of
           None \<Rightarrow> Inl Target_Not_Assigned
         | Some target \<Rightarrow>
        (if source_host = target_host then Inl Source_Is_Target
         else case find (\<lambda>a. ar_host_id a = source_host) assignments of
           None \<Rightarrow> Inl Source_Not_Assigned
         | Some source \<Rightarrow>
             (let target_record = find_record (be_records env) (ar_id target);
                  source_record = find_record (be_records env) (ar_id source);
                  m = record_measurement source_record;
                  authority = source_authority_of source m now;
                  files = or_default (map_option dm_path_count m) 0;
                  bytes = or_default (map_option dm_total_bytes m) 0;
                  target_facts = target_facts_of target target_record;
                  base = compute_seed_space_plan (space_input_of bytes files (tf_free_bytes target_facts));
                  space = (if \<not> au_measurement_usable authority
                           then \<lparr> ps_plan = base, ps_ok = False, ps_message = au_message authority \<rparr>
                           else \<lparr> ps_plan = base, ps_ok = sp_ok base,
                                  ps_message = Space_Sentence (sp_message base) \<rparr>)
              in Inr \<lparr> pl_id = new_id, pl_host_id = ar_host_id target, pl_folder_id = folder,
                       pl_assignment_id = ar_id target,
                       pl_recommendation =
                         recommend_seed (Fin (of_int files)) (Fin (of_int bytes)) None,
                       pl_source_host_id = ar_host_id source,
                       pl_source_authority = authority,
                       pl_source =
                         \<lparr> sf_file_count = files, sf_total_bytes = bytes,
                           sf_measured_at = or_default (map_option dm_measured_at m) 0,
                           sf_measured_on_host_id = Some (ar_host_id source),
                           sf_manifest_fingerprint = None \<rparr>,
                       pl_target = target_facts, pl_space = space,
                       pl_filter_universe =
                         filter_universe_of (ar_host_id source) source_record target_record,
                       pl_archive =
                         plan_archive_of (Option.bind target_record (\<lambda>x. hf_archive (fr_facts x)))
                           (sp_archive_bytes_estimate base),
                       pl_staging_policy =
                         staging_policy_of (ar_local_path target) (record_same_filesystem target_record),
                       pl_revision = or_default (be_revision env (ar_host_id target)) 0,
                       pl_filter = or_default (record_live_filter target_record) None,
                       pl_baseline =
                         map_option (\<lambda>r. bf_fingerprint (hf_baseline (fr_facts r))) target_record,
                       pl_created_at = now, pl_expires_at = now + SEED_PLAN_TTL_MS,
                       pl_execution =
                         seed_plan_execution_of
                           \<lparr> op_transport_implemented = None,
                             op_pilot = Some (be_pilot env
                               \<lparr> rq_folder_id = folder, rq_source_host_id = ar_host_id source,
                                 rq_target_host_id = ar_host_id target \<rparr>) \<rparr> \<rparr>)))"

text \<open>The pair a plan asks the pilot about.\<close>

definition plan_request_of :: "seed_plan \<Rightarrow> seed_pilot_request" where
  "plan_request_of plan =
     \<lparr> rq_folder_id = pl_folder_id plan, rq_source_host_id = pl_source_host_id plan,
       rq_target_host_id = pl_host_id plan \<rparr>"

definition seed_plan_validity_for :: "build_environment \<Rightarrow> seed_plan \<Rightarrow> int \<Rightarrow> seed_plan_validity" where
  "seed_plan_validity_for env plan now =
     (let r = find_record (be_records env) (pl_assignment_id plan)
      in check_seed_plan_validity plan
           \<lparr> lv_now = now,
             lv_config_revision = or_default (be_revision env (pl_host_id plan)) 0,
             lv_filter_fingerprint = or_default (record_live_filter r) (pl_filter plan),
             lv_baseline_fingerprint =
               (case r of
                  None \<Rightarrow> pl_baseline plan
                | Some x \<Rightarrow> Some (bf_fingerprint (hf_baseline (fr_facts x)))) \<rparr>
           \<lparr> op_transport_implemented = None, op_pilot = Some (be_pilot env (plan_request_of plan)) \<rparr>)"

section \<open>Lemmas\<close>

lemma execution_available_iff:
  "ex_available (seed_plan_execution_of opt) \<longleftrightarrow>
     op_transport_implemented opt = Some True \<or> (\<exists>p. op_pilot opt = Some p \<and> el_eligible p)"
  by (auto simp: seed_plan_execution_of_def Let_def SEED_ARCHIVE_TRANSPORT_IMPLEMENTED_def or_default_def
      split: option.splits)

lemma valid_iff:
  "vd_valid (check_seed_plan_validity plan live opt) \<longleftrightarrow>
     lv_now live < pl_expires_at plan \<and> lv_config_revision live = pl_revision plan \<and>
     lv_filter_fingerprint live = pl_filter plan \<and> lv_baseline_fingerprint live = pl_baseline plan \<and>
     au_measurement_usable (pl_source_authority plan) \<and>
     fu_archive_implemented (pl_filter_universe plan) \<and> fu_match (pl_filter_universe plan) \<and>
     pa_tooling_ready (pl_archive plan) \<and> ps_ok (pl_space plan) \<and>
     staging_policy_ok (pl_staging_policy plan) \<and>
     fst (seed_target_emptiness (pl_target plan)) \<and> ex_available (seed_plan_execution_of opt)"
  by (simp add: check_seed_plan_validity_def invalid_plan_def)

lemma target_empty_iff: "fst (seed_target_emptiness t) \<longleftrightarrow> tf_measured_entries t = Some 0"
  by (simp add: seed_target_emptiness_def Let_def split: option.split)

lemma authority_usable_iff:
  "au_measurement_usable (source_authority_of a m now) \<longleftrightarrow>
     (\<exists>x. m = Some x \<and> now - dm_measured_at x \<le> SEED_SOURCE_MEASUREMENT_MAX_AGE_MS \<and> 0 < dm_path_count x)"
  by (auto simp: source_authority_of_def Let_def SEED_SOURCE_MEASUREMENT_MAX_AGE_MS_def split: option.splits)

lemma filter_match_iff:
  "fu_match (filter_universe_of h s t) \<longleftrightarrow>
     (\<exists>x. record_live_filter s = Some x \<and> record_live_filter t = Some x)"
  by (auto simp: filter_universe_of_def Let_def)

lemma staging_proven:
  "staging_policy_ok (staging_policy_of path proven) \<Longrightarrow>
     proven = Some True \<and> (\<exists>s. seed_staging_path path ''plan'' = Some s)"
  by (auto simp: staging_policy_ok_def staging_policy_of_def validate_staging_location_def Let_def
      same_filesystem_of_def split: option.splits if_splits)

lemma space_input_free:
  "sp_target_free_bytes (compute_seed_space_plan (space_input_of b n free)) = map_option (max 0) free"
  by (cases free) (simp_all add: compute_seed_space_plan_def space_input_of_def Let_def)

lemma build_seed_plan_Inr:
  assumes "build_seed_plan env folder th sh now pid = Inr plan"
  obtains target source where
    "target \<in> set (be_assignments env)" "ar_folder_id target = folder" "ar_host_id target = th"
    "source \<in> set (be_assignments env)" "ar_folder_id source = folder" "ar_host_id source = sh"
    "sh \<noteq> th" "pl_folder_id plan = folder" "pl_host_id plan = th" "pl_source_host_id plan = sh"
    "pl_expires_at plan = now + SEED_PLAN_TTL_MS"
    "pl_source_authority plan =
       source_authority_of source (record_measurement (find_record (be_records env) (ar_id source))) now"
    "pl_target plan = target_facts_of target (find_record (be_records env) (ar_id target))"
    "ps_ok (pl_space plan) \<longrightarrow> au_measurement_usable (pl_source_authority plan) \<and>
       sp_ok (compute_seed_space_plan (space_input_of
         (au_total_bytes (pl_source_authority plan)) (au_file_count (pl_source_authority plan))
         (tf_free_bytes (pl_target plan))))"
    "pl_filter_universe plan =
       filter_universe_of sh (find_record (be_records env) (ar_id source))
         (find_record (be_records env) (ar_id target))"
    "pl_staging_policy plan =
       staging_policy_of (ar_local_path target)
         (record_same_filesystem (find_record (be_records env) (ar_id target)))"
proof -
  let ?as = "filter (\<lambda>a. ar_folder_id a = folder) (be_assignments env)"
  from assms obtain target source where t: "find (\<lambda>a. ar_host_id a = th) ?as = Some target"
    and s: "find (\<lambda>a. ar_host_id a = sh) ?as = Some source" and ne: "sh \<noteq> th"
    by (auto simp: build_seed_plan_def Let_def split: if_splits option.splits)
  note eq = assms [unfolded build_seed_plan_def Let_def]
  from find_SomeD [OF t] find_SomeD [OF s]
  have "target \<in> set (be_assignments env)" "ar_folder_id target = folder" "ar_host_id target = th"
    "source \<in> set (be_assignments env)" "ar_folder_id source = folder" "ar_host_id source = sh"
    by auto
  then show thesis
    using eq t s ne
    by (intro that [of target source])
      (auto simp: source_authority_of_def Let_def split: if_splits)
qed

text \<open>
  The list of prerequisites the API and the UI show is the verdict: a plan is valid
  exactly when it has not expired, the configuration, filter and baseline are the ones
  it was built against, and every listed prerequisite is satisfied.
\<close>

theorem prerequisites_decide_validity:
  "vd_valid (check_seed_plan_validity plan live options) =
     (lv_now live < pl_expires_at plan \<and> lv_config_revision live = pl_revision plan \<and>
      lv_filter_fingerprint live = pl_filter plan \<and> lv_baseline_fingerprint live = pl_baseline plan \<and>
      list_all pq_ok (seed_plan_prerequisites plan options))"
  by (auto simp: valid_iff seed_plan_prerequisites_def Let_def)


text \<open>An environment in which every fact of a seed from host a to host b is in place.\<close>

definition sample_environment :: build_environment where
  "sample_environment =
     (let facts = (\<lambda>entries bytes. sample_health_facts
            \<lparr>hf_archive := Some \<lparr> tool_tar = True, tool_zstd = True, tool_gzip = True \<rparr>,
             hf_seed_staging := Some \<lparr> stp_target_path = None, stp_target_parent = None,
               stp_staging_parent = None, stp_same_filesystem = Some True, stp_device = None,
               stp_checked_at = 0 \<rparr>,
             hf_free_space_bytes := Some 1000000000,
             hf_filter := (hf_filter sample_health_facts)\<lparr>ff_live_fingerprint := Some None\<rparr>,
             hf_measurement := Some \<lparr> dm_path_count = entries, dm_total_bytes = bytes,
               dm_measured_at = 0 \<rparr>\<rparr>)
      in \<lparr> be_assignments =
             [\<lparr> ar_id = ''1'', ar_folder_id = ''f'', ar_host_id = ''a'', ar_local_path = ''/a/p'' \<rparr>,
              \<lparr> ar_id = ''2'', ar_folder_id = ''f'', ar_host_id = ''b'', ar_local_path = ''/b/p'' \<rparr>],
           be_records =
             [\<lparr> fr_assignment_id = ''1'', fr_facts = facts 5 100, fr_reported_at = 0 \<rparr>,
              \<lparr> fr_assignment_id = ''2'', fr_facts = facts 0 0, fr_reported_at = 0 \<rparr>],
           be_revision = (\<lambda>_. Some 1),
           be_pilot = (\<lambda>_. \<lparr> el_eligible = True, el_reason = Pilot_Authorized \<rparr>) \<rparr>)"

lemma sample_plan_valid:
  obtains plan where "build_seed_plan sample_environment ''f'' ''b'' ''a'' 10 ''p1'' = Inr plan"
    "vd_valid (seed_plan_validity_for sample_environment plan 20)"
    "pl_id plan = ''p1''" "pl_folder_id plan = ''f''" "pl_host_id plan = ''b''"
    "pl_source_host_id plan = ''a''" "pa_format (pl_archive plan) = TarZstd"
proof -
  obtain plan where b: "build_seed_plan sample_environment ''f'' ''b'' ''a'' 10 ''p1'' = Inr plan"
    by (simp add: build_seed_plan_def sample_environment_def Let_def)
  have st: "staging_policy_of ''/b/p'' (Some True) =
      \<lparr> py_adjacent_to_target = True, py_derived_sibling = True, py_inside_target = False,
        py_same_filesystem = Some True, py_message = Staging_Sentence Staging_Sibling_Ok \<rparr>"
    by code_simp
  have sp: "sp_ok (compute_seed_space_plan (space_input_of 100 5 (Some 1000000000)))"
    by (simp add: compute_seed_space_plan_def space_input_of_def Let_def non_negative_def
        SEED_ARCHIVE_RATIO_DEFAULT_def SEED_SPACE_SAFETY_FACTOR_def
        SEED_SPACE_FIXED_OVERHEAD_BYTES_def)
  have v: "vd_valid (seed_plan_validity_for sample_environment plan 20)"
    using b st sp
    by (auto simp: build_seed_plan_def sample_environment_def Let_def seed_plan_validity_for_def valid_iff
        find_record_def record_measurement_def record_live_filter_def record_same_filesystem_def
        authority_usable_iff filter_match_iff target_facts_of_def target_empty_iff
        execution_available_iff staging_policy_ok_def SEED_PLAN_TTL_MS_def
        SEED_SOURCE_MEASUREMENT_MAX_AGE_MS_def sample_health_facts_def filter_universe_of_def
        SEED_FILTER_AWARE_ARCHIVE_IMPLEMENTED_def plan_archive_of_def select_seed_archive_format_def
        seed_archive_tooling_ready_def)
  have "pl_id plan = ''p1''" "pl_folder_id plan = ''f''" "pl_host_id plan = ''b''"
    "pl_source_host_id plan = ''a''" "pa_format (pl_archive plan) = TarZstd"
    using b
    by (auto simp: build_seed_plan_def sample_environment_def Let_def plan_archive_of_def
        find_record_def sample_health_facts_def target_facts_of_def record_measurement_def
        select_seed_archive_format_def seed_archive_tooling_ready_def)
  with b v show thesis by (rule that)
qed


end
