(* ===== verification/Seed_Jobs.thy ===== *)
theory Seed_Jobs
  imports Seed_Phases Seed_Facts Seed_Plan
begin

text \<open>
  The persisted seed jobs of \<open>packages/server/src/seed-jobs.ts\<close>. The table
  \<open>folder_seed_jobs\<close> is the list of its rows, each row already decoded
  (\<open>rowToSeedJob\<close>; the archive column round-trips by \<open>archive_facts_round_trip\<close>).
  A row extends the claim facts of \<open>Seed_Phases\<close>, so the lease rules of the core
  module apply to it as they are. An SQL UPDATE is \<open>db_update\<close>: it rewrites the rows
  its WHERE clause selects and reports how many there were. Every writer is its WHERE
  clause and its SET list, and returns the row read back, or nothing when no row changed.
\<close>

section \<open>Rows\<close>

record seed_job_staging_facts =
  sg_path :: string
  sg_target_path :: string
  sg_required_free_bytes :: rat
  sg_free_bytes_at_plan :: "int option"

record seed_job = seed_claim_facts +
  sj_id :: string
  sj_plan_id :: string
  sj_folder_id :: string
  sj_host_id :: string
  sj_source_host_id :: "string option"
  sj_assignment_id :: string
  sj_progress :: seed_job_progress
  sj_source :: seed_source_facts
  sj_archive :: seed_job_archive_facts
  sj_staging :: seed_job_staging_facts
  sj_error :: "string option"
  sj_summary :: "string option"
  sj_created_at :: int
  sj_started_at :: "int option"
  sj_updated_at :: int
  sj_finished_at :: "int option"

type_synonym seed_jobs = "seed_job list"

definition db_update :: "('r \<Rightarrow> bool) \<Rightarrow> ('r \<Rightarrow> 'r) \<Rightarrow> 'r list \<Rightarrow> 'r list \<times> nat" where
  "db_update where_clause set_clause tbl =
     (map (\<lambda>r. if where_clause r then set_clause r else r) tbl, length (filter where_clause tbl))"

definition get_seed_job :: "seed_jobs \<Rightarrow> string \<Rightarrow> seed_job option" where
  "get_seed_job tbl job = find (\<lambda>r. sj_id r = job) tbl"

definition create_seed_job :: "seed_jobs \<Rightarrow> seed_job \<Rightarrow> seed_jobs" where
  "create_seed_job tbl job = tbl @ [job]"

text \<open>\<open>ORDER BY created_at DESC\<close>: newest first, insertion order reversed among equals left as is.\<close>

definition newest_first :: "seed_jobs \<Rightarrow> seed_jobs" where
  "newest_first = sort_key (\<lambda>r. - sj_created_at r)"

definition list_seed_jobs :: "seed_jobs \<Rightarrow> string \<Rightarrow> int \<Rightarrow> seed_jobs" where
  "list_seed_jobs tbl folder limit =
     take (nat (min (max 1 limit) 50)) (newest_first (filter (\<lambda>r. sj_folder_id r = folder) tbl))"

definition active_seed_job_for_pair :: "seed_jobs \<Rightarrow> string \<Rightarrow> string \<Rightarrow> string \<Rightarrow> string option" where
  "active_seed_job_for_pair tbl folder source_host target_host =
     (case newest_first (filter (\<lambda>r. sj_folder_id r = folder \<and> sj_source_host_id r = Some source_host \<and>
              sj_host_id r = target_host \<and> \<not> is_terminal_seed_phase (lf_phase r)) tbl) of
        [] \<Rightarrow> None
      | r # _ \<Rightarrow> Some (sj_id r))"

definition delete_seed_jobs_for_assignment :: "seed_jobs \<Rightarrow> string \<Rightarrow> seed_jobs" where
  "delete_seed_jobs_for_assignment tbl assignment = filter (\<lambda>r. sj_assignment_id r \<noteq> assignment) tbl"

definition initial_seed_job_progress :: "seed_job_phase \<Rightarrow> int \<Rightarrow> seed_job_progress" where
  "initial_seed_job_progress phase now =
     \<lparr> pr_phase = phase, pr_phase_index = seed_phase_index phase,
       pr_phase_count = SEED_JOB_PHASE_COUNT,
       pr_message = ''Seed plan approved; waiting for the device to start.'',
       pr_bytes_done = 0, pr_bytes_total = None, pr_entries_done = 0, pr_entries_total = None,
       pr_updated_at = now \<rparr>"

section \<open>The last-writer-wins helpers\<close>

text \<open>\<open>status IN ('planned', 'running')\<close>.\<close>

definition status_open :: "seed_job \<Rightarrow> bool" where
  "status_open r \<longleftrightarrow> lf_status r = SPlanned \<or> lf_status r = SRunning"

definition set_progress :: "seed_job_progress \<Rightarrow> string \<Rightarrow> int \<Rightarrow> seed_job \<Rightarrow> seed_job" where
  "set_progress p own expires r =
     r\<lparr> lf_phase := Work (pr_phase p), sj_progress := p, lf_status := SRunning,
        sj_started_at := (case sj_started_at r of None \<Rightarrow> Some (pr_updated_at p) | Some t \<Rightarrow> Some t),
        lf_lease_owner := Some own, lf_lease_expires_at := Some expires,
        sj_updated_at := pr_updated_at p \<rparr>"

definition update_seed_job_progress ::
    "seed_jobs \<Rightarrow> string \<Rightarrow> seed_job_progress \<Rightarrow> string \<Rightarrow> int \<Rightarrow> seed_jobs \<times> seed_job option" where
  "update_seed_job_progress tbl job p own expires =
     (let tbl' = fst (db_update (\<lambda>r. sj_id r = job \<and> status_open r) (set_progress p own expires) tbl)
      in (tbl', get_seed_job tbl' job))"

record seed_outcome =
  oc_status :: seed_job_status
  oc_phase :: seed_phase
  oc_summary :: "string option"
  oc_error :: "string option"
  oc_now :: int

definition set_outcome :: "seed_outcome \<Rightarrow> seed_job \<Rightarrow> seed_job" where
  "set_outcome x r =
     r\<lparr> lf_status := oc_status x, lf_phase := oc_phase x, sj_summary := oc_summary x,
        sj_error := oc_error x, lf_lease_owner := None, lf_lease_expires_at := None,
        sj_updated_at := oc_now x, sj_finished_at := Some (oc_now x) \<rparr>"

definition finish_seed_job ::
    "seed_jobs \<Rightarrow> string \<Rightarrow> seed_outcome \<Rightarrow> seed_jobs \<times> seed_job option" where
  "finish_seed_job tbl job x =
     (let tbl' = fst (db_update (\<lambda>r. sj_id r = job \<and> status_open r) (set_outcome x) tbl)
      in (tbl', get_seed_job tbl' job))"

definition update_seed_job_archive ::
    "seed_jobs \<Rightarrow> string \<Rightarrow> seed_job_archive_facts \<Rightarrow> int \<Rightarrow> seed_jobs \<times> seed_job option" where
  "update_seed_job_archive tbl job facts now =
     (let tbl' = fst (db_update (\<lambda>r. sj_id r = job)
                        (\<lambda>r. r\<lparr> sj_archive := facts, sj_updated_at := now \<rparr>) tbl)
      in (tbl', get_seed_job tbl' job))"

section \<open>The conditional writers\<close>

text \<open>
  The shared shape: run the UPDATE, return nothing when it changed no row, else read the
  row back.
\<close>

definition cas_write ::
    "(seed_job \<Rightarrow> bool) \<Rightarrow> (seed_job \<Rightarrow> seed_job) \<Rightarrow> seed_jobs \<Rightarrow> string \<Rightarrow> seed_jobs \<times> seed_job option" where
  "cas_write guard change tbl job =
     (let (tbl', changes) = db_update (\<lambda>r. sj_id r = job \<and> guard r) change tbl
      in (tbl', if changes = 0 then None else get_seed_job tbl' job))"

text \<open>The row is open: \<open>status IN (...) AND phase NOT IN (...)\<close>.\<close>

definition row_open :: "seed_job \<Rightarrow> bool" where
  "row_open r \<longleftrightarrow> status_open r \<and> \<not> is_terminal_seed_phase (lf_phase r)"

text \<open>\<open>status = 'running' AND phase NOT IN (...)\<close> and the owner's lease is live.\<close>

definition row_owned :: "string \<Rightarrow> int \<Rightarrow> seed_job \<Rightarrow> bool" where
  "row_owned own now r \<longleftrightarrow>
     lf_status r = SRunning \<and> \<not> is_terminal_seed_phase (lf_phase r) \<and>
     lf_lease_owner r = Some own \<and>
     (case lf_lease_expires_at r of None \<Rightarrow> False | Some e \<Rightarrow> e > now)"

definition lease_lapsed :: "int \<Rightarrow> seed_job \<Rightarrow> bool" where
  "lease_lapsed now r \<longleftrightarrow> (case lf_lease_expires_at r of None \<Rightarrow> False | Some e \<Rightarrow> e \<le> now)"

record conditional_lease =
  cl_owner :: string
  cl_expires_at :: int
  cl_now :: int

definition claim_guard :: "conditional_lease \<Rightarrow> seed_job \<Rightarrow> bool" where
  "claim_guard l r \<longleftrightarrow> row_open r \<and> (lf_lease_owner r = None \<or> lease_lapsed (cl_now l) r)"

definition claim_seed_job_progress ::
    "seed_jobs \<Rightarrow> string \<Rightarrow> seed_job_progress \<times> conditional_lease \<Rightarrow> seed_jobs \<times> seed_job option" where
  "claim_seed_job_progress tbl job x =
     (let (p, l) = x
      in cas_write (claim_guard l) (set_progress p (cl_owner l) (cl_expires_at l)) tbl job)"

definition report_owned_seed_job_progress ::
    "seed_jobs \<Rightarrow> string \<Rightarrow> seed_job_progress \<times> conditional_lease \<Rightarrow> seed_jobs \<times> seed_job option" where
  "report_owned_seed_job_progress tbl job x =
     (let (p, l) = x
      in cas_write (row_owned (cl_owner l) (cl_now l))
           (\<lambda>r. r\<lparr> lf_phase := Work (pr_phase p), sj_progress := p, sj_updated_at := pr_updated_at p,
                   lf_lease_expires_at := Some (cl_expires_at l) \<rparr>) tbl job)"

definition update_owned_seed_job_archive ::
    "seed_jobs \<Rightarrow> string \<Rightarrow> seed_job_archive_facts \<times> string \<times> int \<Rightarrow> seed_jobs \<times> seed_job option" where
  "update_owned_seed_job_archive tbl job x =
     (let (facts, own, now) = x
      in cas_write (row_owned own now) (\<lambda>r. r\<lparr> sj_archive := facts, sj_updated_at := now \<rparr>) tbl job)"

definition finish_owned_seed_job ::
    "seed_jobs \<Rightarrow> string \<Rightarrow> string \<times> seed_outcome \<Rightarrow> seed_jobs \<times> seed_job option" where
  "finish_owned_seed_job tbl job x =
     (let (own, y) = x in cas_write (row_owned own (oc_now y)) (set_outcome y) tbl job)"

section \<open>The role-scoped writers\<close>

definition claimable_by :: "string \<Rightarrow> int \<Rightarrow> seed_job \<Rightarrow> bool" where
  "claimable_by own now r \<longleftrightarrow>
     lf_lease_owner r = None \<or> lf_lease_owner r = Some own \<or> lease_lapsed now r"

definition report_guard :: "conditional_lease \<Rightarrow> seed_phase \<Rightarrow> seed_job \<Rightarrow> bool" where
  "report_guard l from_phase r \<longleftrightarrow>
     lf_phase r = from_phase \<and> row_open r \<and> claimable_by (cl_owner l) (cl_now l) r"

definition report_seed_job_progress_guarded ::
    "seed_jobs \<Rightarrow> string \<Rightarrow> seed_job_progress \<times> conditional_lease \<times> seed_phase \<Rightarrow>
     seed_jobs \<times> seed_job option" where
  "report_seed_job_progress_guarded tbl job x =
     (let (p, l, from_phase) = x
      in cas_write (report_guard l from_phase) (set_progress p (cl_owner l) (cl_expires_at l)) tbl job)"

definition archive_once_guard :: "string \<Rightarrow> int \<Rightarrow> seed_phase \<Rightarrow> seed_job \<Rightarrow> bool" where
  "archive_once_guard own now from_phase r \<longleftrightarrow>
     lf_phase r = from_phase \<and> row_open r \<and> lf_lease_owner r = Some own \<and>
     (case lf_lease_expires_at r of None \<Rightarrow> False | Some e \<Rightarrow> e > now) \<and>
     af_sha256 (sj_archive r) = None"

definition report_seed_job_archive_once ::
    "seed_jobs \<Rightarrow> string \<Rightarrow> seed_job_archive_facts \<times> string \<times> int \<times> seed_phase \<Rightarrow>
     seed_jobs \<times> seed_job option" where
  "report_seed_job_archive_once tbl job x =
     (let (facts, own, now, from_phase) = x
      in cas_write (archive_once_guard own now from_phase)
           (\<lambda>r. r\<lparr> sj_archive := facts, lf_lease_owner := None, lf_lease_expires_at := None,
                   sj_updated_at := now \<rparr>) tbl job)"

definition renew_seed_job_lease_guarded ::
    "seed_jobs \<Rightarrow> string \<Rightarrow> conditional_lease \<times> seed_phase \<Rightarrow> seed_jobs \<times> seed_job option" where
  "renew_seed_job_lease_guarded tbl job x =
     (let (l, from_phase) = x
      in cas_write (\<lambda>r. lf_phase r = from_phase \<and> row_owned (cl_owner l) (cl_now l) r)
           (\<lambda>r. r\<lparr> lf_lease_expires_at := Some (cl_expires_at l), sj_updated_at := cl_now l \<rparr>) tbl job)"

definition finish_seed_job_owned_by ::
    "seed_jobs \<Rightarrow> string \<Rightarrow> string \<times> seed_outcome \<times> seed_phase \<Rightarrow> seed_jobs \<times> seed_job option" where
  "finish_seed_job_owned_by tbl job x =
     (let (own, y, from_phase) = x
      in cas_write (\<lambda>r. lf_phase r = from_phase \<and> row_owned own (oc_now y) r) (set_outcome y) tbl job)"

definition finish_seed_job_as_operator ::
    "seed_jobs \<Rightarrow> string \<Rightarrow> seed_outcome \<times> seed_phase \<Rightarrow> seed_jobs \<times> seed_job option" where
  "finish_seed_job_as_operator tbl job x =
     (let (y, from_phase) = x
      in cas_write (\<lambda>r. lf_phase r = from_phase \<and> row_open r) (set_outcome y) tbl job)"

section \<open>The reaper\<close>

definition reaped_error :: string where
  "reaped_error = ''the device stopped reporting progress and its lease expired''"

definition stale_row :: "int \<Rightarrow> seed_job \<Rightarrow> bool" where
  "stale_row now r \<longleftrightarrow>
     lf_status r = SRunning \<and>
     (case lf_lease_expires_at r of
        Some e \<Rightarrow> e \<le> now
      | None \<Rightarrow> sj_updated_at r \<le> now - SEED_JOB_HANDOVER_GRACE_MS)"

definition reap_row :: "int \<Rightarrow> seed_job \<Rightarrow> seed_job" where
  "reap_row now r =
     r\<lparr> lf_status := SFailed, lf_phase := Failed, sj_error := Some reaped_error,
        lf_lease_owner := None, lf_lease_expires_at := None, sj_updated_at := now,
        sj_finished_at := Some now \<rparr>"

definition reap_stale_seed_jobs :: "seed_jobs \<Rightarrow> int \<Rightarrow> seed_jobs \<times> nat" where
  "reap_stale_seed_jobs tbl now = db_update (stale_row now) (reap_row now) tbl"

section \<open>The stored plans\<close>

definition get_seed_plan :: "seed_plan list \<Rightarrow> string \<Rightarrow> seed_plan option" where
  "get_seed_plan plans pid = find (\<lambda>p. pl_id p = pid) plans"

definition list_seed_plans :: "seed_plan list \<Rightarrow> string \<Rightarrow> int \<Rightarrow> seed_plan list" where
  "list_seed_plans plans folder limit =
     take (nat (min (max 1 limit) 50))
       (sort_key (\<lambda>p. - pl_created_at p) (filter (\<lambda>p. pl_folder_id p = folder) plans))"

definition delete_seed_plans_for_assignment :: "seed_plan list \<Rightarrow> string \<Rightarrow> seed_plan list" where
  "delete_seed_plans_for_assignment plans assignment =
     filter (\<lambda>p. pl_assignment_id p \<noteq> assignment) plans"

definition prune_expired_seed_plans :: "seed_plan list \<Rightarrow> int \<Rightarrow> int \<Rightarrow> seed_plan list \<times> nat" where
  "prune_expired_seed_plans plans now grace =
     (filter (\<lambda>p. \<not> pl_expires_at p < now - grace) plans,
      length (filter (\<lambda>p. pl_expires_at p < now - grace) plans))"

text \<open>
  \<open>recordSeedPlan\<close>: an insert; on a key that is already there, the columns the
  conflict clause names are rewritten and the others keep their value.
\<close>

definition merge_seed_plan :: "seed_plan \<Rightarrow> seed_plan \<Rightarrow> seed_plan" where
  "merge_seed_plan old new =
     new\<lparr> pl_folder_id := pl_folder_id old, pl_host_id := pl_host_id old,
          pl_assignment_id := pl_assignment_id old,
          pl_recommendation := (pl_recommendation old)\<lparr>re_reason := re_reason (pl_recommendation new)\<rparr>,
          pl_source := (pl_source new)\<lparr>sf_manifest_fingerprint := sf_manifest_fingerprint (pl_source old)\<rparr>,
          pl_target := (pl_target new)
            \<lparr>tf_measured_on_host_id := tf_measured_on_host_id (pl_target old),
             tf_staging_root := tf_staging_root (pl_target old),
             tf_staging_same_filesystem := tf_staging_same_filesystem (pl_target old)\<rparr> \<rparr>"

definition record_seed_plan :: "seed_plan list \<Rightarrow> seed_plan \<Rightarrow> seed_plan list" where
  "record_seed_plan plans plan =
     (if list_ex (\<lambda>p. pl_id p = pl_id plan) plans
      then map (\<lambda>p. if pl_id p = pl_id plan then merge_seed_plan p plan else p) plans
      else plans @ [plan])"

section \<open>The contract of the conditional writers\<close>

definition replace_row :: "seed_job \<Rightarrow> seed_jobs \<Rightarrow> seed_jobs" where
  "replace_row r' tbl = map (\<lambda>r. if sj_id r = sj_id r' then r' else r) tbl"

text \<open>The columns no writer sets: the two are versions of one job.\<close>

definition same_job :: "seed_job \<Rightarrow> seed_job \<Rightarrow> bool" where
  "same_job r r' \<longleftrightarrow>
     sj_id r' = sj_id r \<and> sj_plan_id r' = sj_plan_id r \<and> sj_folder_id r' = sj_folder_id r \<and>
     sj_host_id r' = sj_host_id r \<and> sj_source_host_id r' = sj_source_host_id r \<and>
     sj_assignment_id r' = sj_assignment_id r \<and> sj_source r' = sj_source r \<and>
     sj_staging r' = sj_staging r \<and> sj_created_at r' = sj_created_at r"

lemma same_job_refl [simp]: "same_job r r"
  by (simp add: same_job_def)

lemma same_job_trans: "same_job a b \<Longrightarrow> same_job b c \<Longrightarrow> same_job a c"
  by (simp add: same_job_def)

lemma same_job_id: "same_job r r' \<Longrightarrow> sj_id r' = sj_id r"
  by (simp add: same_job_def)

lemma same_row:
  "distinct (map sj_id tbl) \<Longrightarrow> r \<in> set tbl \<Longrightarrow> s \<in> set tbl \<Longrightarrow> sj_id r = sj_id s \<Longrightarrow> r = s"
  by (auto simp: distinct_map dest: inj_onD)

locale guarded_writer =
  fixes do_write :: "seed_jobs \<Rightarrow> string \<Rightarrow> 'a \<Rightarrow> seed_jobs \<times> seed_job option"
    and guard :: "'a \<Rightarrow> seed_job \<Rightarrow> bool"
    and change :: "'a \<Rightarrow> seed_job \<Rightarrow> seed_job"
  assumes refuses: "\<forall>r \<in> set tbl. sj_id r = job \<longrightarrow> \<not> guard x r \<Longrightarrow> do_write tbl job x = (tbl, None)"
    and writes: "distinct (map sj_id tbl) \<Longrightarrow> r \<in> set tbl \<Longrightarrow> guard x r \<Longrightarrow>
      do_write tbl (sj_id r) x = (replace_row (change x r) tbl, Some (change x r))"
    and needs_open: "guard x r \<Longrightarrow> row_open r"
    and keeps_job: "same_job r (change x r)"
begin

lemma cases_of_write:
  assumes "distinct (map sj_id tbl)"
  obtains (refused) "do_write tbl job x = (tbl, None)" "\<forall>r \<in> set tbl. sj_id r = job \<longrightarrow> \<not> guard x r"
    | (written) r where "r \<in> set tbl" "sj_id r = job" "guard x r"
        "do_write tbl job x = (replace_row (change x r) tbl, Some (change x r))"
proof (cases "\<exists>r \<in> set tbl. sj_id r = job \<and> guard x r")
  case True
  then obtain r where "r \<in> set tbl" "sj_id r = job" "guard x r" by blast
  with writes [OF assms this(1,3)] show thesis by (intro written) auto
next
  case False
  with refuses [of tbl job x] show thesis by (intro refused) auto
qed

lemma ids_kept:
  assumes "distinct (map sj_id tbl)"
  shows "map sj_id (fst (do_write tbl job x)) = map sj_id tbl"
  using assms
proof (cases rule: cases_of_write [of tbl job x])
  case (written r)
  then show ?thesis using same_job_id [OF keeps_job, of x r] by (auto simp: replace_row_def)
qed simp_all

lemma refusal_is_no_write:
  "distinct (map sj_id tbl) \<Longrightarrow> snd (do_write tbl job x) = None \<Longrightarrow> fst (do_write tbl job x) = tbl"
  by (rule cases_of_write [of tbl job x]) auto

lemma closed_rows_untouched:
  assumes "distinct (map sj_id tbl)" "r \<in> set tbl" "\<not> row_open r"
  shows "r \<in> set (fst (do_write tbl job x))"
  using assms(1)
proof (cases rule: cases_of_write [of tbl job x])
  case (written s)
  have "sj_id s \<noteq> sj_id r"
  proof
    assume "sj_id s = sj_id r"
    with same_row [OF assms(1) written(1) assms(2)] have "s = r" by simp
    with written(3) assms(3) show False using needs_open by blast
  qed
  then have "r = (if sj_id r = sj_id (change x s) then change x s else r)"
    using same_job_id [OF keeps_job, of x s] by simp
  then have "r \<in> set (replace_row (change x s) tbl)"
    unfolding replace_row_def set_map using assms(2) by (rule image_eqI)
  then show ?thesis using written(4) by simp
qed (use assms in simp)

lemma rows_evolve:
  assumes "distinct (map sj_id tbl)" "r' \<in> set (fst (do_write tbl job x))"
  shows "r' \<in> set tbl \<or> (\<exists>r \<in> set tbl. sj_id r = job \<and> guard x r \<and> r' = change x r)"
  using assms(1)
proof (cases rule: cases_of_write [of tbl job x])
  case (written r)
  then show ?thesis using assms(2) by (auto simp: replace_row_def)
qed (use assms in simp)

lemma result_row:
  assumes "distinct (map sj_id tbl)" "snd (do_write tbl job x) = Some r'"
  shows "\<exists>r \<in> set tbl. sj_id r = job \<and> guard x r \<and> r' = change x r \<and> same_job r r'"
  using assms(1)
proof (cases rule: cases_of_write [of tbl job x])
  case (written r)
  then show ?thesis using assms(2) keeps_job by auto
qed (use assms in simp)

end

section \<open>Every conditional writer meets the contract\<close>

lemma get_seed_job_SomeD: "get_seed_job tbl job = Some r \<Longrightarrow> r \<in> set tbl \<and> sj_id r = job"
  by (auto simp: get_seed_job_def dest: find_SomeD)

lemma get_seed_job_in:
  assumes "distinct (map sj_id tbl)" "r \<in> set tbl"
  shows "get_seed_job tbl (sj_id r) = Some r"
proof (cases "get_seed_job tbl (sj_id r)")
  case None
  then show ?thesis using assms(2) by (auto simp: get_seed_job_def find_None_iff)
next
  case (Some s)
  with get_seed_job_SomeD [OF Some] same_row [OF assms(1), of s r] assms(2) show ?thesis by simp
qed

lemma cas_write_refuses:
  assumes "\<forall>r \<in> set tbl. sj_id r = job \<longrightarrow> \<not> g r"
  shows "cas_write g c tbl job = (tbl, None)"
proof -
  have "filter (\<lambda>r. sj_id r = job \<and> g r) tbl = []"
    using assms by (auto simp: filter_empty_conv)
  moreover have "map (\<lambda>r. if sj_id r = job \<and> g r then c r else r) tbl = tbl"
    using assms by - (rule map_idI, auto)
  ultimately show ?thesis by (simp add: cas_write_def db_update_def)
qed

lemma cas_write_writes:
  assumes "distinct (map sj_id tbl)" "r \<in> set tbl" "g r" "sj_id (c r) = sj_id r"
  shows "cas_write g c tbl (sj_id r) = (replace_row (c r) tbl, Some (c r))"
proof -
  have u: "s = r" if "s \<in> set tbl" "sj_id s = sj_id r" for s
    using same_row [OF assms(1) that(1) assms(2) that(2)] .
  have m: "map (\<lambda>s. if sj_id s = sj_id r \<and> g s then c s else s) tbl = replace_row (c r) tbl"
    using assms(3,4) u by (auto simp: replace_row_def dest!: u)
  have "distinct (map sj_id (replace_row (c r) tbl))"
  proof -
    have "map sj_id (replace_row (c r) tbl) = map sj_id tbl"
      using assms(4) by (auto simp: replace_row_def)
    then show ?thesis using assms(1) by simp
  qed
  moreover have "c r \<in> set (replace_row (c r) tbl)"
    using assms(2,4) by (force simp: replace_row_def)
  ultimately have "get_seed_job (replace_row (c r) tbl) (sj_id r) = Some (c r)"
    using get_seed_job_in assms(4) by metis
  moreover have "filter (\<lambda>s. sj_id s = sj_id r \<and> g s) tbl \<noteq> []"
    using assms(2,3) by (auto simp: filter_empty_conv)
  ultimately show ?thesis by (simp add: cas_write_def db_update_def m)
qed

lemma cas_write_guarded:
  assumes "\<And>tbl job x. do_write tbl job x = cas_write (g x) (c x) tbl job"
    and "\<And>x r. g x r \<Longrightarrow> row_open r" and "\<And>x r. same_job r (c x r)"
  shows "guarded_writer do_write g c"
  using assms same_job_id
  by unfold_locales (auto simp: cas_write_refuses intro!: cas_write_writes)

lemma row_owned_open [guard_simps]: "row_owned own now r \<Longrightarrow> row_open r"
  by (auto simp: row_owned_def row_open_def status_open_def)

lemma set_progress_same [guard_simps]: "same_job r (set_progress p own e r)"
  by (simp add: same_job_def set_progress_def)

lemma set_outcome_same [guard_simps]: "same_job r (set_outcome x r)"
  by (simp add: same_job_def set_outcome_def)

abbreviation set_archive_handover :: "seed_job_archive_facts \<Rightarrow> int \<Rightarrow> seed_job \<Rightarrow> seed_job" where
  "set_archive_handover facts now r \<equiv>
     r\<lparr> sj_archive := facts, lf_lease_owner := None, lf_lease_expires_at := None, sj_updated_at := now \<rparr>"

interpretation claim: guarded_writer claim_seed_job_progress
  "\<lambda>(p, l). claim_guard l" "\<lambda>(p, l). set_progress p (cl_owner l) (cl_expires_at l)"
  by (rule cas_write_guarded)
    (auto simp: claim_seed_job_progress_def claim_guard_def guard_simps split: prod.splits)

interpretation owned_report: guarded_writer report_owned_seed_job_progress
  "\<lambda>(p, l). row_owned (cl_owner l) (cl_now l)"
  "\<lambda>(p, l) r. r\<lparr> lf_phase := Work (pr_phase p), sj_progress := p, sj_updated_at := pr_updated_at p,
                lf_lease_expires_at := Some (cl_expires_at l) \<rparr>"
  by (rule cas_write_guarded)
    (auto simp: report_owned_seed_job_progress_def guard_simps same_job_def split: prod.splits)

interpretation owned_archive: guarded_writer update_owned_seed_job_archive
  "\<lambda>(facts, own, now). row_owned own now"
  "\<lambda>(facts, own, now) r. r\<lparr> sj_archive := facts, sj_updated_at := now \<rparr>"
  by (rule cas_write_guarded)
    (auto simp: update_owned_seed_job_archive_def guard_simps same_job_def split: prod.splits)

interpretation owned_finish: guarded_writer finish_owned_seed_job
  "\<lambda>(own, y). row_owned own (oc_now y)" "\<lambda>(own, y). set_outcome y"
  by (rule cas_write_guarded) (auto simp: finish_owned_seed_job_def guard_simps split: prod.splits)

interpretation report: guarded_writer report_seed_job_progress_guarded
  "\<lambda>(p, l, ph). report_guard l ph" "\<lambda>(p, l, ph). set_progress p (cl_owner l) (cl_expires_at l)"
  by (rule cas_write_guarded)
    (auto simp: report_seed_job_progress_guarded_def report_guard_def guard_simps split: prod.splits)

interpretation archive_once: guarded_writer report_seed_job_archive_once
  "\<lambda>(facts, own, now, ph). archive_once_guard own now ph"
  "\<lambda>(facts, own, now, ph). set_archive_handover facts now"
  by (rule cas_write_guarded)
    (auto simp: report_seed_job_archive_once_def archive_once_guard_def same_job_def split: prod.splits)

interpretation renewal: guarded_writer renew_seed_job_lease_guarded
  "\<lambda>(l, ph) r. lf_phase r = ph \<and> row_owned (cl_owner l) (cl_now l) r"
  "\<lambda>(l, ph) r. r\<lparr> lf_lease_expires_at := Some (cl_expires_at l), sj_updated_at := cl_now l \<rparr>"
  by (rule cas_write_guarded)
    (auto simp: renew_seed_job_lease_guarded_def guard_simps same_job_def split: prod.splits)

interpretation party_finish: guarded_writer finish_seed_job_owned_by
  "\<lambda>(own, y, ph) r. lf_phase r = ph \<and> row_owned own (oc_now y) r" "\<lambda>(own, y, ph). set_outcome y"
  by (rule cas_write_guarded) (auto simp: finish_seed_job_owned_by_def guard_simps split: prod.splits)

interpretation operator_finish: guarded_writer finish_seed_job_as_operator
  "\<lambda>(y, ph) r. lf_phase r = ph \<and> row_open r" "\<lambda>(y, ph). set_outcome y"
  by (rule cas_write_guarded) (auto simp: finish_seed_job_as_operator_def guard_simps split: prod.splits)

section \<open>Lemmas\<close>

lemma row_owned_iff [guard_simps]:
  "row_owned own now r \<longleftrightarrow>
     lf_status r = SRunning \<and> \<not> is_terminal_seed_phase (lf_phase r) \<and> seed_lease_is_live r own now"
  by (auto simp: row_owned_def seed_lease_is_live_def)

lemma claim_guard_iff: "claim_guard l r \<longleftrightarrow> seed_job_claimable_by r (cl_owner l) (cl_now l)"
  by (auto simp: claim_guard_def seed_job_claimable_by_def row_open_def status_open_def lease_lapsed_def)

lemma set_progress_live: "now < e \<Longrightarrow> seed_lease_is_live (set_progress p own e r) own now"
  by (simp add: seed_lease_is_live_def set_progress_def)

lemma set_outcome_terminal:
  "is_terminal_seed_phase (oc_phase x) \<Longrightarrow> \<not> row_open (set_outcome x r)"
  by (simp add: row_open_def set_outcome_def)

lemma stale_not_live: "stale_row now r \<Longrightarrow> \<not> seed_lease_is_live r own now"
  by (auto simp: stale_row_def seed_lease_is_live_def split: option.splits)

lemma reap_row_closed [simp]: "\<not> row_open (reap_row now r)" "\<not> stale_row t (reap_row now r)"
  by (simp_all add: reap_row_def row_open_def stale_row_def)

lemma reap_row_same: "same_job r (reap_row now r)"
  by (simp add: same_job_def reap_row_def)

lemma active_pair_None:
  "active_seed_job_for_pair tbl f s t = None \<longleftrightarrow>
     (\<forall>r \<in> set tbl. sj_folder_id r = f \<and> sj_source_host_id r = Some s \<and> sj_host_id r = t \<longrightarrow>
        is_terminal_seed_phase (lf_phase r))"
proof -
  let ?P = "\<lambda>r. sj_folder_id r = f \<and> sj_source_host_id r = Some s \<and> sj_host_id r = t \<and>
    \<not> is_terminal_seed_phase (lf_phase r)"
  have "active_seed_job_for_pair tbl f s t = None \<longleftrightarrow> set (newest_first (filter ?P tbl)) = {}"
    by (auto simp: active_seed_job_for_pair_def split: list.splits)
  also have "\<dots> \<longleftrightarrow> set (filter ?P tbl) = {}" by (simp add: newest_first_def)
  finally show ?thesis by auto
qed

section \<open>Properties\<close>

text \<open>
  C27. The WHERE clause of the claim is the rule of the core module: the coordinator's
  claim succeeds exactly when the stored job exists and \<open>seedJobClaimableBy\<close> allows
  it, and a refused claim changes no row.
\<close>

theorem claim_implements_the_rule:
  assumes "distinct (map sj_id tbl)"
  shows "(snd (claim_seed_job_progress tbl job (p, l)) \<noteq> None) =
           (\<exists>r. get_seed_job tbl job = Some r \<and> seed_job_claimable_by r (cl_owner l) (cl_now l)) \<and>
         (snd (claim_seed_job_progress tbl job (p, l)) = None \<longrightarrow>
            fst (claim_seed_job_progress tbl job (p, l)) = tbl)"
  using assms
proof (cases rule: claim.cases_of_write [of tbl job "(p, l)"])
  case refused
  then show ?thesis using get_seed_job_SomeD [of tbl job] by (auto simp: claim_guard_iff)
next
  case (written r)
  then show ?thesis using get_seed_job_in [OF assms written(1)] by (auto simp: claim_guard_iff)
qed

definition sample_job :: seed_job where
  "sample_job =
     \<lparr> lf_lease_owner = None, lf_lease_expires_at = None, lf_status = SPlanned,
       lf_phase = Work Preflight, sj_id = ''j1'', sj_plan_id = ''p1'', sj_folder_id = ''f'',
       sj_host_id = ''b'', sj_source_host_id = Some ''a'', sj_assignment_id = ''2'',
       sj_progress = initial_seed_job_progress Preflight 0,
       sj_source = \<lparr> sf_file_count = 5, sf_total_bytes = 100, sf_measured_at = 0,
                     sf_measured_on_host_id = Some ''a'', sf_manifest_fingerprint = None \<rparr>,
       sj_archive = empty_seed_job_archive_facts TarZstd,
       sj_staging = \<lparr> sg_path = '''', sg_target_path = '''', sg_required_free_bytes = 0,
                      sg_free_bytes_at_plan = None \<rparr>,
       sj_error = None, sj_summary = None, sj_created_at = 0, sj_started_at = None,
       sj_updated_at = 0, sj_finished_at = None \<rparr>"

definition sample_lease :: conditional_lease where
  "sample_lease = \<lparr> cl_owner = ''a'', cl_expires_at = 100, cl_now = 0 \<rparr>"

lemma sample_job_simps [simp]:
  "sj_id sample_job = ''j1''" "row_open sample_job" "lf_lease_owner sample_job = None"
  "lf_phase sample_job = Work Preflight"
  by (simp_all add: sample_job_def row_open_def status_open_def)

lemma sample_claimable [simp]: "seed_job_claimable_by sample_job own now"
  by (simp add: seed_job_claimable_by_def sample_job_def)

theorem claim_implements_the_rule_witness:
  "snd (claim_seed_job_progress [sample_job] ''j1'' (initial_seed_job_progress Preflight 0, sample_lease))
     \<noteq> None"
  using claim_implements_the_rule [of "[sample_job]" "''j1''" "initial_seed_job_progress Preflight 0" sample_lease]
  by (simp add: get_seed_job_def)

text \<open>
  A claim is exclusive: once a claim has succeeded, every further claim of the same
  job, by the same host or by another, is refused and changes nothing for as long as the
  granted lease has not expired.
\<close>

theorem claim_is_exclusive:
  assumes "distinct (map sj_id tbl)"
    and "snd (claim_seed_job_progress tbl job (p, l)) = Some r"
    and "cl_now l' < cl_expires_at l"
  shows "claim_seed_job_progress (fst (claim_seed_job_progress tbl job (p, l))) job (p', l') =
         (fst (claim_seed_job_progress tbl job (p, l)), None)"
proof -
  let ?tbl' = "fst (claim_seed_job_progress tbl job (p, l))"
  from assms(1) show ?thesis
  proof (cases rule: claim.cases_of_write [of tbl job "(p, l)"])
    case (written r0)
    let ?r = "set_progress p (cl_owner l) (cl_expires_at l) r0"
    have tbl': "?tbl' = replace_row ?r tbl" using written by simp
    have "\<forall>q \<in> set ?tbl'. sj_id q = job \<longrightarrow> \<not> claim_guard l' q"
    proof (intro ballI impI)
      fix q assume "q \<in> set ?tbl'" "sj_id q = job"
      then have "q = ?r" using written(2) same_job_id [OF set_progress_same]
        by (auto simp: tbl' replace_row_def split: if_splits)
      then have "seed_lease_is_live q (cl_owner l) (cl_now l')"
        using set_progress_live [OF assms(3)] by simp
      then show "\<not> claim_guard l' q" using claimable_not_live by (auto simp: claim_guard_iff)
    qed
    then show ?thesis using claim.refuses [of ?tbl' job "(p', l')"] by simp
  qed (use assms(2) in simp)
qed

theorem claim_is_exclusive_witness:
  "snd (claim_seed_job_progress
     (fst (claim_seed_job_progress [sample_job] ''j1'' (initial_seed_job_progress Preflight 0, sample_lease)))
     ''j1'' (initial_seed_job_progress Preflight 5, \<lparr> cl_owner = ''a'', cl_expires_at = 200, cl_now = 5 \<rparr>)) = None"
proof -
  let ?p = "initial_seed_job_progress Preflight 0"
  have "snd (claim_seed_job_progress [sample_job] (sj_id sample_job) (?p, sample_lease)) =
      Some (set_progress ?p ''a'' 100 sample_job)"
    using claim.writes [of "[sample_job]" sample_job "(?p, sample_lease)"]
    by (simp add: claim_guard_iff sample_lease_def)
  then show ?thesis
    using claim_is_exclusive [of "[sample_job]" "''j1''" ?p sample_lease _
      "\<lparr> cl_owner = ''a'', cl_expires_at = 200, cl_now = 5 \<rparr>" "initial_seed_job_progress Preflight 5"]
    by (simp add: sample_lease_def)
qed

text \<open>
  An ended job is immutable: a row in a terminal phase is left exactly as it is by
  all nine conditional writers, whatever job they name, and by the reaper when its
  status is not \<open>running\<close>.
\<close>

theorem ended_jobs_are_immutable:
  assumes "distinct (map sj_id tbl)" and "r \<in> set tbl" and "is_terminal_seed_phase (lf_phase r)"
    and "lf_status r \<noteq> SRunning"
  shows "r \<in> set (fst (claim_seed_job_progress tbl job x1)) \<and>
         r \<in> set (fst (report_owned_seed_job_progress tbl job x2)) \<and>
         r \<in> set (fst (update_owned_seed_job_archive tbl job x3)) \<and>
         r \<in> set (fst (finish_owned_seed_job tbl job x4)) \<and>
         r \<in> set (fst (report_seed_job_progress_guarded tbl job x5)) \<and>
         r \<in> set (fst (report_seed_job_archive_once tbl job x6)) \<and>
         r \<in> set (fst (renew_seed_job_lease_guarded tbl job x7)) \<and>
         r \<in> set (fst (finish_seed_job_owned_by tbl job x8)) \<and>
         r \<in> set (fst (finish_seed_job_as_operator tbl job x9)) \<and>
         r \<in> set (fst (reap_stale_seed_jobs tbl now))"
proof -
  have c: "\<not> row_open r" using assms(3) by (simp add: row_open_def)
  have "r \<in> set (fst (reap_stale_seed_jobs tbl now))"
    using assms(2,4) by (force simp: reap_stale_seed_jobs_def db_update_def stale_row_def)
  then show ?thesis
    using claim.closed_rows_untouched [OF assms(1,2) c] owned_report.closed_rows_untouched [OF assms(1,2) c]
      owned_archive.closed_rows_untouched [OF assms(1,2) c] owned_finish.closed_rows_untouched [OF assms(1,2) c]
      report.closed_rows_untouched [OF assms(1,2) c] archive_once.closed_rows_untouched [OF assms(1,2) c]
      renewal.closed_rows_untouched [OF assms(1,2) c] party_finish.closed_rows_untouched [OF assms(1,2) c]
      operator_finish.closed_rows_untouched [OF assms(1,2) c]
    by blast
qed

theorem ended_jobs_are_immutable_witness:
  "sample_job\<lparr>lf_phase := Completed, lf_status := SCompleted\<rparr> \<in>
     set (fst (finish_seed_job_as_operator [sample_job\<lparr>lf_phase := Completed, lf_status := SCompleted\<rparr>] ''j1''
       (\<lparr> oc_status = SFailed, oc_phase = Failed, oc_summary = None, oc_error = None, oc_now = 9 \<rparr>, Completed)))"
  using ended_jobs_are_immutable
    [of "[sample_job\<lparr>lf_phase := Completed, lf_status := SCompleted\<rparr>]"
        "sample_job\<lparr>lf_phase := Completed, lf_status := SCompleted\<rparr>"]
  by simp

text \<open>
  The reaper is sound and complete: it ends exactly the running jobs nobody is
  keeping alive (the lease has expired, or there is no lease and the row has not been
  touched for the handover grace), it never ends a job somebody holds a live lease on,
  and one pass leaves nothing for a second one.
\<close>

theorem reaper_ends_exactly_stale_jobs:
  "snd (reap_stale_seed_jobs tbl now) = length (filter (stale_row now) tbl) \<and>
   fst (reap_stale_seed_jobs tbl now) = map (\<lambda>r. if stale_row now r then reap_row now r else r) tbl \<and>
   filter (\<lambda>r. stale_row now r \<and> (\<exists>own. seed_lease_is_live r own now)) tbl = [] \<and>
   reap_stale_seed_jobs (fst (reap_stale_seed_jobs tbl now)) now = (fst (reap_stale_seed_jobs tbl now), 0)"
proof -
  have n: "filter (stale_row now) (map (\<lambda>r. if stale_row now r then reap_row now r else r) tbl) = []"
    by (auto simp: filter_empty_conv)
  have "reap_stale_seed_jobs (fst (reap_stale_seed_jobs tbl now)) now = (fst (reap_stale_seed_jobs tbl now), 0)"
    using n length_filter_zero_map [of "stale_row now" "map (\<lambda>r. if stale_row now r then reap_row now r else r) tbl"]
    by (simp add: reap_stale_seed_jobs_def db_update_def)
  then show ?thesis
    using stale_not_live by (auto simp: reap_stale_seed_jobs_def db_update_def filter_empty_conv)
qed

end
