(* ===== verification/Principals.thy ===== *)
theory Principals
  imports Prelude
begin

text \<open>
  Who a request comes from (\<open>AuthPrincipal\<close> of \<open>core/src/types.ts\<close>) and the gates of
  \<open>server/src/auth.ts\<close>. How a request comes by its principal is \<open>Auth_Boundary\<close>; \<open>None\<close> is a
  request without one.
\<close>

section \<open>Principals\<close>

datatype auth_principal =
    Master_Key
  | Admin_Key string
  | Device_Key string string
  | Deploy_Key string
  | Mobile_Token string
  | Web_Session string bool

fun require_admin :: "auth_principal option \<Rightarrow> bool" where
  "require_admin (Some Master_Key) = True"
| "require_admin (Some (Admin_Key _)) = True"
| "require_admin (Some (Web_Session _ admin)) = admin"
| "require_admin _ = False"

fun device_host_id :: "auth_principal option \<Rightarrow> string option" where
  "device_host_id (Some (Device_Key _ host)) = Some host"
| "device_host_id _ = None"

text \<open>The host-ownership gate of the daemon-facing routes; \<open>None\<close> is a request without host id.\<close>

fun device_may_access_host :: "auth_principal option \<Rightarrow> string option \<Rightarrow> bool" where
  "device_may_access_host None host = False"
| "device_may_access_host (Some Master_Key) host = True"
| "device_may_access_host (Some (Admin_Key _)) host = True"
| "device_may_access_host (Some (Web_Session _ admin)) host = admin"
| "device_may_access_host (Some (Device_Key _ h)) host = (host = Some h)"
| "device_may_access_host (Some _) host = False"

lemma device_key_only_own_host:
  "device_may_access_host (Some (Device_Key key h)) (Some host) \<longleftrightarrow> host = h"
  by simp

lemma device_may_access_host_iff:
  "device_may_access_host who (Some host) \<longleftrightarrow> require_admin who \<or> device_host_id who = Some host"
  by (cases "(who, Some host)" rule: device_may_access_host.cases) auto

end
