(* ===== verification/Seed_Routes.thy ===== *)
theory Seed_Routes
  imports Seed_Jobs Seed_Wire Principals
begin

text \<open>
  The seed routes (\<open>packages/server/src/routes/folder-seed.ts\<close>): who may act on a
  seed job, and the handlers that prepare plans, create jobs, record progress and
  archive facts, renew leases and end jobs. A handler takes the authenticated principal,
  the request body, the clock and the stored rows, and returns its reply and the rows;
  it runs to completion before the next request, as a synchronous SQLite handler does.
  Broadcasts to web sockets carry the returned row and are not modelled.
\<close>

section \<open>Authority over a job\<close>

datatype seed_job_authority = Operator | Party seed_job_role string | Denied

definition seed_job_authority_of :: "auth_principal option \<Rightarrow> seed_job \<Rightarrow> seed_job_authority" where
  "seed_job_authority_of who job =
     (if require_admin who then Operator
      else case device_host_id who of
        None \<Rightarrow> Denied
      | Some host \<Rightarrow>
          (case seed_job_role_for (sj_host_id job) (sj_source_host_id job) (Some host) of
             None \<Rightarrow> Denied
           | Some r \<Rightarrow> Party r host))"

section \<open>Replies\<close>

datatype refusal =
    Forbidden
  | Folder_Not_Found
  | Plan_Not_Found
  | Job_Not_Found
  | Bad_Request wire_error
  | Build_Refused build_refusal
  | Execution_Not_Available plan_message
  | Plan_Not_Valid plan_message
  | Seed_Already_Active string
  | Already_Finished
  | Phase_Of_Other_Role seed_job_role seed_job_phase
  | Source_Half_Finished
  | Facts_Missing
  | Illegal_Transition seed_phase seed_job_phase
  | Moved_On
  | Pilot_Refused pilot_reason
  | Operator_Has_No_Archive
  | Target_Never_Authors
  | Not_Uploading seed_phase
  | Facts_Immutable
  | Lease_Not_Held
  | Only_Target_Completes
  | Device_May_Not_Cancel

datatype 'a reply = Reply nat 'a | Refuse nat refusal

section \<open>Plans and job creation\<close>

record queued_seed_action =
  qa_id :: string
  qa_host_id :: string
  qa_job_id :: string
  qa_role :: seed_job_role
  qa_created_at :: int

record seed_server =
  ss_folders :: "string list"
  ss_plans :: "seed_plan list"
  ss_jobs :: seed_jobs
  ss_actions :: "queued_seed_action list"

text \<open>One action for the source, when the job names one, and one for the target.\<close>

definition enqueue_seed_job_actions :: "seed_job \<Rightarrow> string \<Rightarrow> string \<Rightarrow> int \<Rightarrow> queued_seed_action list" where
  "enqueue_seed_job_actions job id1 id2 now =
     (case sj_source_host_id job of
        None \<Rightarrow> []
      | Some s \<Rightarrow>
          if s = [] then []
          else [\<lparr> qa_id = id1, qa_host_id = s, qa_job_id = sj_id job, qa_role = Source_Role,
                  qa_created_at = now \<rparr>]) @
     [\<lparr> qa_id = id2, qa_host_id = sj_host_id job, qa_job_id = sj_id job, qa_role = Target_Role,
        qa_created_at = now \<rparr>]"

text \<open>\<open>{ ...body, key: value }\<close>.\<close>

fun obj_put :: "string \<Rightarrow> json \<Rightarrow> json \<Rightarrow> json" where
  "obj_put k v (JObj kvs) = JObj (filter (\<lambda>(k', _). k' \<noteq> k) kvs @ [(k, v)])"
| "obj_put k v _ = JObj [(k, v)]"

definition post_seed_plans ::
    "build_environment \<Rightarrow> auth_principal option \<Rightarrow> string \<Rightarrow> json \<Rightarrow> int \<Rightarrow> string \<Rightarrow> seed_server \<Rightarrow>
     seed_server \<times> (seed_plan \<times> seed_plan_validity) reply" where
  "post_seed_plans env who folder body now new_id st =
     (if \<not> require_admin who then (st, Refuse 403 Forbidden)
      else if folder \<notin> set (ss_folders st) then (st, Refuse 404 Folder_Not_Found)
      else case parse_seed_plan_request_payload (obj_put ''folderId'' (JStr folder) body) of
        Inl e \<Rightarrow> (st, Refuse 400 (Bad_Request e))
      | Inr p \<Rightarrow>
          (case build_seed_plan env folder (spr_host_id p) (spr_source_host_id p) now new_id of
             Inl e \<Rightarrow> (st, Refuse (if e = Source_Is_Target then 409 else 404) (Build_Refused e))
           | Inr plan \<Rightarrow>
               (let plans = record_seed_plan (ss_plans st) plan;
                    stored = or_default (get_seed_plan plans (pl_id plan)) plan
                in (st\<lparr> ss_plans := plans \<rparr>,
                    Reply 201 (stored, seed_plan_validity_for env stored now)))))"

definition new_seed_job :: "seed_plan \<Rightarrow> string \<Rightarrow> int \<Rightarrow> seed_job" where
  "new_seed_job plan new_id now =
     \<lparr> lf_lease_owner = None, lf_lease_expires_at = None, lf_status = SPlanned,
       lf_phase = Work Preflight, sj_id = new_id, sj_plan_id = pl_id plan,
       sj_folder_id = pl_folder_id plan, sj_host_id = pl_host_id plan,
       sj_source_host_id = Some (pl_source_host_id plan), sj_assignment_id = pl_assignment_id plan,
       sj_progress = initial_seed_job_progress Preflight now, sj_source = pl_source plan,
       sj_archive = empty_seed_job_archive_facts (pa_format (pl_archive plan)),
       sj_staging = \<lparr> sg_path = '''', sg_target_path = '''',
                      sg_required_free_bytes = sp_required_free_bytes (ps_plan (pl_space plan)),
                      sg_free_bytes_at_plan = tf_free_bytes (pl_target plan) \<rparr>,
       sj_error = None, sj_summary = None, sj_created_at = now, sj_started_at = None,
       sj_updated_at = now, sj_finished_at = None \<rparr>"

definition post_seed_jobs ::
    "build_environment \<Rightarrow> auth_principal option \<Rightarrow> json \<Rightarrow> int \<Rightarrow> string \<Rightarrow> string \<Rightarrow> string \<Rightarrow>
     seed_server \<Rightarrow> seed_server \<times> seed_job reply" where
  "post_seed_jobs env who body now new_id act1 act2 st =
     (if \<not> require_admin who then (st, Refuse 403 Forbidden)
      else case parse_seed_job_create_payload body of
        Inl e \<Rightarrow> (st, Refuse 400 (Bad_Request e))
      | Inr pid \<Rightarrow>
     (case get_seed_plan (ss_plans st) pid of
        None \<Rightarrow> (st, Refuse 404 Plan_Not_Found)
      | Some plan \<Rightarrow>
          (let execution = seed_plan_execution_of
                 \<lparr> op_transport_implemented = None, op_pilot = Some (be_pilot env (plan_request_of plan)) \<rparr>;
               validity = seed_plan_validity_for env plan now
           in if \<not> ex_available execution
                then (st, Refuse 503 (Execution_Not_Available (ex_reason execution)))
              else if \<not> vd_valid validity
                then (st, Refuse 409 (Plan_Not_Valid (vd_message validity)))
              else case active_seed_job_for_pair (ss_jobs st) (pl_folder_id plan)
                          (pl_source_host_id plan) (pl_host_id plan) of
                Some active \<Rightarrow> (st, Refuse 409 (Seed_Already_Active active))
              | None \<Rightarrow>
                  (let job = new_seed_job plan new_id now
                   in (st\<lparr> ss_jobs := create_seed_job (ss_jobs st) job,
                           ss_actions := ss_actions st @ enqueue_seed_job_actions job act1 act2 now \<rparr>,
                       Reply 201 job)))))"

section \<open>Reads\<close>

definition get_seed_job_route :: "auth_principal option \<Rightarrow> string \<Rightarrow> seed_jobs \<Rightarrow> seed_job reply" where
  "get_seed_job_route who job tbl =
     (case get_seed_job tbl job of
        None \<Rightarrow> Refuse 404 Job_Not_Found
      | Some r \<Rightarrow>
          if seed_job_authority_of who r = Denied then Refuse 403 Forbidden else Reply 200 r)"

definition get_seed_plan_route ::
    "build_environment \<Rightarrow> auth_principal option \<Rightarrow> string \<Rightarrow> int \<Rightarrow> seed_plan list \<Rightarrow>
     (seed_plan \<times> seed_plan_validity) reply" where
  "get_seed_plan_route env who pid now plans =
     (case get_seed_plan plans pid of
        None \<Rightarrow> Refuse 404 Plan_Not_Found
      | Some plan \<Rightarrow>
          if \<not> require_admin who \<and>
             seed_job_role_for (pl_host_id plan) (Some (pl_source_host_id plan)) (device_host_id who) = None
          then Refuse 403 Forbidden
          else Reply 200 (plan, seed_plan_validity_for env plan now))"

definition list_seed_jobs_route :: "auth_principal option \<Rightarrow> string \<Rightarrow> int \<Rightarrow> seed_server \<Rightarrow> seed_jobs reply" where
  "list_seed_jobs_route who folder limit st =
     (if \<not> require_admin who then Refuse 403 Forbidden
      else if folder \<notin> set (ss_folders st) then Refuse 404 Folder_Not_Found
      else Reply 200 (list_seed_jobs (ss_jobs st) folder limit))"

section \<open>Progress\<close>

definition clamp_lease :: "int \<Rightarrow> int" where
  "clamp_lease ms = clamp 30000 (60 * 60000) ms"

text \<open>The rules a party is held to before the transition is looked at.\<close>

definition party_progress_refusal :: "seed_job_role \<Rightarrow> seed_job_phase \<Rightarrow> seed_job \<Rightarrow> (nat \<times> refusal) option" where
  "party_progress_refusal r next_phase job =
     (if \<not> seed_job_role_may_enter_phase r next_phase then Some (403, Phase_Of_Other_Role r next_phase)
      else if r = Source_Role \<and> af_sha256 (sj_archive job) \<noteq> None then Some (409, Source_Half_Finished)
      else if r = Target_Role \<and> \<not> seed_archive_facts_complete (sj_archive job) then Some (409, Facts_Missing)
      else None)"

definition post_progress ::
    "auth_principal option \<Rightarrow> string \<Rightarrow> json \<Rightarrow> int \<Rightarrow> seed_jobs \<Rightarrow> seed_jobs \<times> seed_job reply" where
  "post_progress who job_id body now tbl =
     (case get_seed_job tbl job_id of
        None \<Rightarrow> (tbl, Refuse 404 Job_Not_Found)
      | Some job \<Rightarrow>
     (let authority = seed_job_authority_of who job
      in if authority = Denied then (tbl, Refuse 403 Forbidden)
         else if is_terminal_seed_phase (lf_phase job) then (tbl, Refuse 409 Already_Finished)
         else case parse_seed_progress_payload body of
           Inl e \<Rightarrow> (tbl, Refuse 400 (Bad_Request e))
         | Inr p \<Rightarrow>
        (case (case authority of
                 Party r _ \<Rightarrow> party_progress_refusal r (spp_phase p) job
               | _ \<Rightarrow> None) of
           Some (code, why) \<Rightarrow> (tbl, Refuse code why)
         | None \<Rightarrow>
             if \<not> can_transition_seed_phase (lf_phase job) (Work (spp_phase p))
             then (tbl, Refuse 409 (Illegal_Transition (lf_phase job) (spp_phase p)))
             else
            (let progress = (start_seed_progress (spp_phase p) now (spp_message p)
                   (spp_bytes_total p) (spp_entries_total p))
                   \<lparr> pr_bytes_done := spp_bytes_done p, pr_entries_done := spp_entries_done p \<rparr>;
                 own = (case authority of
                          Party _ host \<Rightarrow> host
                        | _ \<Rightarrow> or_default (spp_lease_owner p) (sj_host_id job));
                 lease_ms = or_default (spp_lease_ms p) SEED_JOB_LEASE_MS
             in case report_seed_job_progress_guarded tbl (sj_id job)
                       (progress,
                        \<lparr> cl_owner = own, cl_expires_at = now + clamp_lease lease_ms, cl_now = now \<rparr>,
                        lf_phase job) of
                  (tbl', None) \<Rightarrow> (tbl', Refuse 409 Moved_On)
                | (tbl', Some updated) \<Rightarrow> (tbl', Reply 200 updated)))))"

section \<open>Archive facts\<close>

text \<open>\<open>{ ...job.archive, ...body }\<close>: what the body names replaces the recorded value.\<close>

definition spread_facts :: "seed_job_archive_facts \<Rightarrow> (string \<times> json) list \<Rightarrow> json" where
  "spread_facts facts body =
     (case archive_facts_json facts of JObj kvs \<Rightarrow> JObj (body @ kvs) | j \<Rightarrow> JObj body)"

definition post_archive ::
    "(seed_pilot_request \<Rightarrow> seed_pilot_eligibility) \<Rightarrow> auth_principal option \<Rightarrow> string \<Rightarrow>
     (string \<times> json) list \<Rightarrow> int \<Rightarrow> seed_jobs \<Rightarrow> seed_jobs \<times> seed_job reply" where
  "post_archive pilot who job_id body now tbl =
     (case get_seed_job tbl job_id of
        None \<Rightarrow> (tbl, Refuse 404 Job_Not_Found)
      | Some job \<Rightarrow>
     (let verdict = pilot \<lparr> rq_folder_id = sj_folder_id job,
                            rq_source_host_id = or_default (sj_source_host_id job) '''',
                            rq_target_host_id = sj_host_id job \<rparr>
      in if \<not> el_eligible verdict then (tbl, Refuse 503 (Pilot_Refused (el_reason verdict)))
         else case seed_job_authority_of who job of
           Denied \<Rightarrow> (tbl, Refuse 403 Forbidden)
         | Operator \<Rightarrow> (tbl, Refuse 403 Operator_Has_No_Archive)
         | Party r host \<Rightarrow>
             if \<not> seed_job_role_may_report_archive (Some r) then (tbl, Refuse 403 Target_Never_Authors)
             else if is_terminal_seed_phase (lf_phase job) then (tbl, Refuse 409 Already_Finished)
             else if lf_phase job \<noteq> Work Uploading_Archive
               then (tbl, Refuse 409 (Not_Uploading (lf_phase job)))
             else
            (let facts = normalize_seed_job_archive_facts (af_format (sj_archive job))
                           (spread_facts (sj_archive job) body)
             in case report_seed_job_archive_once tbl (sj_id job) (facts, host, now, lf_phase job) of
                  (tbl', Some updated) \<Rightarrow> (tbl', Reply 200 updated)
                | (tbl', None) \<Rightarrow>
                    (case get_seed_job tbl' (sj_id job) of
                       Some current \<Rightarrow>
                         if seed_archive_facts_equal (sj_archive current) facts
                         then (tbl', Reply 200 current)
                         else (tbl', Refuse 409 Facts_Immutable)
                     | None \<Rightarrow> (tbl', Refuse 409 Facts_Immutable)))))"

section \<open>Leases and outcomes\<close>

definition post_lease ::
    "auth_principal option \<Rightarrow> string \<Rightarrow> string option \<Rightarrow> int option \<Rightarrow> int \<Rightarrow> seed_jobs \<Rightarrow>
     seed_jobs \<times> seed_job reply" where
  "post_lease who job_id owner_req lease_ms now tbl =
     (case get_seed_job tbl job_id of
        None \<Rightarrow> (tbl, Refuse 404 Job_Not_Found)
      | Some job \<Rightarrow>
     (let authority = seed_job_authority_of who job;
          wrong_half = (case (authority, lf_phase job) of
                          (Party r _, Work p) \<Rightarrow>
                            if seed_job_role_may_enter_phase r p then None else Some (r, p)
                        | _ \<Rightarrow> None)
      in if authority = Denied then (tbl, Refuse 403 Forbidden)
         else case wrong_half of
           Some (r, p) \<Rightarrow> (tbl, Refuse 409 (Phase_Of_Other_Role r p))
         | None \<Rightarrow>
            (let ms = clamp_lease (or_default lease_ms SEED_JOB_LEASE_MS);
                 own = (case authority of
                          Party _ host \<Rightarrow> host
                        | _ \<Rightarrow> or_default owner_req (or_default (lf_lease_owner job) (sj_host_id job)))
             in case renew_seed_job_lease_guarded tbl (sj_id job)
                       (\<lparr> cl_owner = own, cl_expires_at = now + ms, cl_now = now \<rparr>, lf_phase job) of
                  (tbl', None) \<Rightarrow> (tbl', Refuse 409 Lease_Not_Held)
                | (tbl', Some updated) \<Rightarrow> (tbl', Reply 200 updated))))"

datatype completion = Complete_Completed | Complete_Failed | Complete_Cancelled

fun completion_status :: "completion \<Rightarrow> seed_job_status" where
  "completion_status Complete_Completed = SCompleted"
| "completion_status Complete_Failed = SFailed"
| "completion_status Complete_Cancelled = SCancelled"

fun completion_phase :: "completion \<Rightarrow> seed_phase" where
  "completion_phase Complete_Completed = Completed"
| "completion_phase Complete_Failed = Failed"
| "completion_phase Complete_Cancelled = Cancelled"

definition outcome_of :: "completion \<Rightarrow> string option \<Rightarrow> string option \<Rightarrow> int \<Rightarrow> seed_outcome" where
  "outcome_of c summary err now =
     \<lparr> oc_status = completion_status c, oc_phase = completion_phase c, oc_summary = summary,
       oc_error = err, oc_now = now \<rparr>"

definition post_complete ::
    "auth_principal option \<Rightarrow> string \<Rightarrow> completion \<Rightarrow> string option \<Rightarrow> string option \<Rightarrow> int \<Rightarrow>
     seed_jobs \<Rightarrow> seed_jobs \<times> seed_job reply" where
  "post_complete who job_id status summary err now tbl =
     (case get_seed_job tbl job_id of
        None \<Rightarrow> (tbl, Refuse 404 Job_Not_Found)
      | Some job \<Rightarrow>
     (let authority = seed_job_authority_of who job;
          finish = (\<lambda>w. case w of
             (tbl', None) \<Rightarrow> (tbl', Refuse 409 Moved_On)
           | (tbl', Some updated) \<Rightarrow> (tbl', Reply 200 updated))
      in if authority = Denied then (tbl, Refuse 403 Forbidden)
         else if is_terminal_seed_phase (lf_phase job) then (tbl, Reply 200 job)
         else case authority of
           Party r host \<Rightarrow>
             if status = Complete_Completed \<and> \<not> seed_job_role_may_complete (Some r)
               then (tbl, Refuse 403 Only_Target_Completes)
             else if status = Complete_Cancelled then (tbl, Refuse 403 Device_May_Not_Cancel)
             else finish (finish_seed_job_owned_by tbl (sj_id job)
                    (host, outcome_of status summary err now, lf_phase job))
         | _ \<Rightarrow>
             finish (finish_seed_job_as_operator tbl (sj_id job)
                (outcome_of status summary err now, lf_phase job))))"

definition post_cancel ::
    "auth_principal option \<Rightarrow> string \<Rightarrow> int \<Rightarrow> seed_jobs \<Rightarrow> seed_jobs \<times> seed_job reply" where
  "post_cancel who job_id now tbl =
     (if \<not> require_admin who then (tbl, Refuse 403 Forbidden)
      else case get_seed_job tbl job_id of
        None \<Rightarrow> (tbl, Refuse 404 Job_Not_Found)
      | Some job \<Rightarrow>
          if is_terminal_seed_phase (lf_phase job) then (tbl, Reply 200 job)
          else (case finish_seed_job_as_operator tbl (sj_id job)
                       (outcome_of Complete_Cancelled (Some ''Cancelled by an operator.'') None now,
                        lf_phase job) of
                  (tbl', None) \<Rightarrow> (tbl', Refuse 409 Moved_On)
                | (tbl', Some updated) \<Rightarrow> (tbl', Reply 200 updated)))"

text \<open>Boot-time housekeeping.\<close>

definition sweep_seed_jobs :: "int \<Rightarrow> seed_jobs \<Rightarrow> seed_jobs \<times> nat" where
  "sweep_seed_jobs now tbl = reap_stale_seed_jobs tbl now"

definition sweep_seed_plans :: "int \<Rightarrow> seed_plan list \<Rightarrow> seed_plan list \<times> nat" where
  "sweep_seed_plans now plans = prune_expired_seed_plans plans now (24 * 60 * 60000)"
end
