(* ===== verification/Seed_Machine.thy ===== *)
theory Seed_Machine
  imports Seed_Routes
begin

text \<open>
  The life of one seed job as a transition system, and the server as a system of such
  jobs. \<open>job_step\<close> says who may change a row, when, and how; \<open>server_step\<close> is
  one request handled by the routes of \<open>Seed_Routes\<close>. Every request moves each stored
  job by at most one \<open>job_step\<close> (the refinement), so the safety properties are proved
  on single jobs and hold for every reachable server.
\<close>

section \<open>The machine of one job\<close>

datatype seed_actor = By_Operator | By_Party seed_job_role string | By_Reaper

datatype step_kind = K_Advance | K_Facts | K_Renew | K_End | K_Reap

definition is_party :: "seed_job_role \<Rightarrow> string \<Rightarrow> seed_job \<Rightarrow> bool" where
  "is_party rl h r \<longleftrightarrow> seed_job_role_for (sj_host_id r) (sj_source_host_id r) (Some h) = Some rl"

text \<open>What an actor needs to report a phase: a party is held to its half.\<close>

definition may_advance :: "seed_actor \<Rightarrow> string \<Rightarrow> seed_job_phase \<Rightarrow> seed_job \<Rightarrow> bool" where
  "may_advance actor own p r \<longleftrightarrow>
     (case actor of
        By_Operator \<Rightarrow> True
      | By_Party rl h \<Rightarrow> is_party rl h r \<and> own = h \<and> party_progress_refusal rl p r = None
      | By_Reaper \<Rightarrow> False)"

definition may_renew :: "seed_actor \<Rightarrow> string \<Rightarrow> seed_job \<Rightarrow> bool" where
  "may_renew actor own r \<longleftrightarrow>
     (case actor of
        By_Operator \<Rightarrow> True
      | By_Party rl h \<Rightarrow> is_party rl h r \<and> own = h \<and>
          (\<exists>p. lf_phase r = Work p \<and> seed_job_role_may_enter_phase rl p)
      | By_Reaper \<Rightarrow> False)"

inductive job_step :: "seed_actor \<Rightarrow> step_kind \<Rightarrow> int \<Rightarrow> seed_job \<Rightarrow> seed_job \<Rightarrow> bool" where
  advance: "row_open r \<Longrightarrow> can_transition_seed_phase (lf_phase r) (Work (pr_phase p)) \<Longrightarrow>
      claimable_by own now r \<Longrightarrow> may_advance actor own (pr_phase p) r \<Longrightarrow>
      now + 30000 \<le> e \<Longrightarrow> e \<le> now + 3600000 \<Longrightarrow>
      job_step actor K_Advance now r (set_progress p own e r)"
| facts: "is_party Source_Role h r \<Longrightarrow> archive_once_guard h now (Work Uploading_Archive) r \<Longrightarrow>
      archive_facts_ok facts \<Longrightarrow>
      job_step (By_Party Source_Role h) K_Facts now r (set_archive_handover facts now r)"
| renew: "row_owned own now r \<Longrightarrow> may_renew actor own r \<Longrightarrow>
      now + 30000 \<le> e \<Longrightarrow> e \<le> now + 3600000 \<Longrightarrow>
      job_step actor K_Renew now r (r\<lparr> lf_lease_expires_at := Some e, sj_updated_at := now \<rparr>)"
| end_party: "row_owned h now r \<Longrightarrow> is_party rl h r \<Longrightarrow> c \<noteq> Complete_Cancelled \<Longrightarrow>
      (c = Complete_Completed \<longrightarrow> rl = Target_Role) \<Longrightarrow>
      job_step (By_Party rl h) K_End now r (set_outcome (outcome_of c s err now) r)"
| end_operator: "row_open r \<Longrightarrow>
      job_step By_Operator K_End now r (set_outcome (outcome_of c s err now) r)"
| reap: "stale_row now r \<Longrightarrow> job_step By_Reaper K_Reap now r (reap_row now r)"

inductive_cases job_stepE: "job_step actor k now r r'"

inductive_simps job_step_facts_iff: "job_step actor K_Facts now r r'"

text \<open>The history of a job: from its creation, with who did what.\<close>

inductive job_history :: "(seed_actor \<times> step_kind) list \<Rightarrow> seed_job \<Rightarrow> bool" where
  created: "job_history [] (new_seed_job plan jid now)"
| later: "job_history tr r \<Longrightarrow> job_step actor k now r r' \<Longrightarrow> job_history (tr @ [(actor, k)]) r'"

section \<open>The server\<close>

datatype seed_request =
    Rq_Plan build_environment "auth_principal option" string json int string
  | Rq_Create build_environment "auth_principal option" json int string string string
  | Rq_Progress "auth_principal option" string json int
  | Rq_Archive "seed_pilot_request \<Rightarrow> seed_pilot_eligibility" "auth_principal option" string
      "(string \<times> json) list" int
  | Rq_Lease "auth_principal option" string "string option" "int option" int
  | Rq_Complete "auth_principal option" string completion "string option" "string option" int
  | Rq_Cancel "auth_principal option" string int
  | Rq_Sweep_Jobs int
  | Rq_Sweep_Plans int

fun handle_request :: "seed_request \<Rightarrow> seed_server \<Rightarrow> seed_server" where
  "handle_request (Rq_Plan env who folder body now i) st = fst (post_seed_plans env who folder body now i st)"
| "handle_request (Rq_Create env who body now i a1 a2) st = fst (post_seed_jobs env who body now i a1 a2 st)"
| "handle_request (Rq_Progress who j body now) st = st\<lparr> ss_jobs := fst (post_progress who j body now (ss_jobs st)) \<rparr>"
| "handle_request (Rq_Archive pilot who j body now) st =
     st\<lparr> ss_jobs := fst (post_archive pilot who j body now (ss_jobs st)) \<rparr>"
| "handle_request (Rq_Lease who j own ms now) st = st\<lparr> ss_jobs := fst (post_lease who j own ms now (ss_jobs st)) \<rparr>"
| "handle_request (Rq_Complete who j c s err now) st =
     st\<lparr> ss_jobs := fst (post_complete who j c s err now (ss_jobs st)) \<rparr>"
| "handle_request (Rq_Cancel who j now) st = st\<lparr> ss_jobs := fst (post_cancel who j now (ss_jobs st)) \<rparr>"
| "handle_request (Rq_Sweep_Jobs now) st = st\<lparr> ss_jobs := fst (sweep_seed_jobs now (ss_jobs st)) \<rparr>"
| "handle_request (Rq_Sweep_Plans now) st = st\<lparr> ss_plans := fst (sweep_seed_plans now (ss_plans st)) \<rparr>"

text \<open>A created job gets an id no stored job has (\<open>crypto.randomUUID\<close>).\<close>

fun fresh_request :: "seed_request \<Rightarrow> seed_server \<Rightarrow> bool" where
  "fresh_request (Rq_Create env who body now i a1 a2) st = (i \<notin> sj_id ` set (ss_jobs st))"
| "fresh_request _ st = True"

inductive server_reach :: "seed_server \<Rightarrow> bool" where
  boot: "ss_jobs st = [] \<Longrightarrow> server_reach st"
| request: "server_reach st \<Longrightarrow> fresh_request rq st \<Longrightarrow> server_reach (handle_request rq st)"

section \<open>Each handler is one step of one job\<close>

text \<open>Which actor the authenticated principal is.\<close>

definition actor_matches :: "auth_principal option \<Rightarrow> seed_actor \<Rightarrow> bool" where
  "actor_matches who actor \<longleftrightarrow>
     (case actor of
        By_Operator \<Rightarrow> require_admin who
      | By_Party rl h \<Rightarrow> \<not> require_admin who \<and> device_host_id who = Some h
      | By_Reaper \<Rightarrow> False)"

text \<open>What a request can do: by whom, which kind of step, and with which result.\<close>

fun request_label :: "seed_request \<Rightarrow> seed_actor \<Rightarrow> step_kind \<Rightarrow> int \<Rightarrow> seed_job \<Rightarrow> bool" where
  "request_label (Rq_Progress who j body now) a k n r' = (k = K_Advance \<and> n = now \<and> actor_matches who a)"
| "request_label (Rq_Archive pilot who j body now) a k n r' = (k = K_Facts \<and> n = now \<and> actor_matches who a)"
| "request_label (Rq_Lease who j own ms now) a k n r' = (k = K_Renew \<and> n = now \<and> actor_matches who a)"
| "request_label (Rq_Complete who j c s err now) a k n r' =
     (k = K_End \<and> n = now \<and> actor_matches who a \<and> lf_phase r' = completion_phase c)"
| "request_label (Rq_Cancel who j now) a k n r' =
     (k = K_End \<and> n = now \<and> actor_matches who a \<and> lf_phase r' = Cancelled)"
| "request_label (Rq_Sweep_Jobs now) a k n r' = (k = K_Reap \<and> n = now)"
| "request_label _ a k n r' = False"

definition one_job_moves :: "(seed_actor \<Rightarrow> step_kind \<Rightarrow> int \<Rightarrow> seed_job \<Rightarrow> bool) \<Rightarrow> seed_jobs \<Rightarrow> seed_jobs \<Rightarrow> bool" where
  "one_job_moves P tbl tbl' \<longleftrightarrow>
     tbl' = tbl \<or>
     (\<exists>actor k now. \<exists>r \<in> set tbl. \<exists>r'. job_step actor k now r r' \<and> P actor k now r' \<and> tbl' = replace_row r' tbl)"

lemma one_job_moves_refl [simp]: "one_job_moves P tbl tbl"
  by (simp add: one_job_moves_def)

lemma clamp_lease_range: "30000 \<le> clamp_lease ms \<and> clamp_lease ms \<le> 3600000"
  by (simp add: clamp_lease_def clamp_def)

lemma authority_Party:
  "seed_job_authority_of who r = Party rl h \<Longrightarrow> is_party rl h r"
  by (auto simp: seed_job_authority_of_def is_party_def split: if_splits option.splits)

text \<open>The actor behind an authority.\<close>

definition actor_of :: "seed_job_authority \<Rightarrow> seed_actor" where
  "actor_of a = (case a of Party rl h \<Rightarrow> By_Party rl h | _ \<Rightarrow> By_Operator)"

lemma actor_of_matches:
  "seed_job_authority_of who r \<noteq> Denied \<Longrightarrow> actor_matches who (actor_of (seed_job_authority_of who r))"
  by (auto simp: seed_job_authority_of_def actor_matches_def actor_of_def split: option.splits if_splits)

lemma fst_write_reply [simp]:
  "fst (case w of (t, None) \<Rightarrow> (t, a) | (t, Some u) \<Rightarrow> (t, b u)) = fst w"
  by (auto split: prod.split option.split)

text \<open>
  The row a conditional write of a handler changes is the one the handler read; its
  change is a step when the guard, the identity and the change give one.
\<close>

context guarded_writer
begin

lemma write_moves:
  assumes "distinct (map sj_id tbl)" "get_seed_job tbl j = Some job"
    and "guard x job \<Longrightarrow> job_step actor k now job (change x job) \<and> P actor k now (change x job)"
  shows "one_job_moves P tbl (fst (do_write tbl (sj_id job) x))"
  using assms(1)
proof (cases rule: cases_of_write [of tbl "sj_id job" x])
  case (written r)
  have job: "job \<in> set tbl" using get_seed_job_SomeD [OF assms(2)] by simp
  with written have "r = job" using same_row [OF assms(1) written(1)] by blast
  with written have "fst (do_write tbl (sj_id job) x) = replace_row (change x job) tbl"
    and "job_step actor k now job (change x job)" "P actor k now (change x job)"
    using assms(3) by auto
  with job show ?thesis unfolding one_job_moves_def by blast
qed simp

end

lemma progress_moves:
  assumes "distinct (map sj_id tbl)"
  shows "one_job_moves (request_label (Rq_Progress who j body now)) tbl (fst (post_progress who j body now tbl))"
proof (cases "fst (post_progress who j body now tbl) = tbl")
  case False
  from False obtain job where job: "get_seed_job tbl j = Some job"
    by (auto simp: post_progress_def Let_def split: option.splits)
  let ?a = "seed_job_authority_of who job"
  from False job have au: "?a \<noteq> Denied" and op: "\<not> is_terminal_seed_phase (lf_phase job)"
    by (auto simp: post_progress_def Let_def split: if_splits)
  from False job au op obtain p where p: "parse_seed_progress_payload body = Inr p"
    by (auto simp: post_progress_def Let_def split: sum.splits)
  let ?ref = "case ?a of Party r _ \<Rightarrow> party_progress_refusal r (spp_phase p) job | _ \<Rightarrow> None"
  from False job au op p have ok: "?ref = None"
    by (auto simp: post_progress_def Let_def split: option.splits prod.splits)
  from False job au op p ok have tr: "can_transition_seed_phase (lf_phase job) (Work (spp_phase p))"
    by (auto simp: post_progress_def Let_def split: if_splits)
  obtain own where own: "own = (case ?a of Party _ host \<Rightarrow> host
      | _ \<Rightarrow> or_default (spp_lease_owner p) (sj_host_id job))" by blast
  obtain e where e: "e = now + clamp_lease (or_default (spp_lease_ms p) SEED_JOB_LEASE_MS)" by blast
  obtain prog where prog: "prog = (start_seed_progress (spp_phase p) now (spp_message p)
      (spp_bytes_total p) (spp_entries_total p))
        \<lparr> pr_bytes_done := spp_bytes_done p, pr_entries_done := spp_entries_done p \<rparr>" by blast
  then have ph: "pr_phase prog = spp_phase p" by (simp add: start_seed_progress_def)
  have w: "fst (post_progress who j body now tbl) =
      fst (report_seed_job_progress_guarded tbl (sj_id job)
        (prog, \<lparr> cl_owner = own, cl_expires_at = e, cl_now = now \<rparr>, lf_phase job))"
    using job au op p ok tr by (simp add: post_progress_def Let_def own e prog)
  have "job_step (actor_of ?a) K_Advance now job (set_progress prog own e job)"
    if "report_guard \<lparr> cl_owner = own, cl_expires_at = e, cl_now = now \<rparr> (lf_phase job) job"
    using that tr ok own ph authority_Party [of who job]
      clamp_lease_range [of "or_default (spp_lease_ms p) SEED_JOB_LEASE_MS"]
    by (intro job_step.advance)
      (auto simp: e may_advance_def actor_of_def report_guard_def split: seed_job_authority.splits)
  then show ?thesis
    unfolding w by (intro report.write_moves [OF assms job, of _ "actor_of ?a" K_Advance now])
      (use au actor_of_matches in simp)
qed simp

lemma archive_moves:
  assumes "distinct (map sj_id tbl)"
  shows "one_job_moves (request_label (Rq_Archive pilot who j body now)) tbl (fst (post_archive pilot who j body now tbl))"
proof (cases "fst (post_archive pilot who j body now tbl) = tbl")
  case False
  from False obtain job where job: "get_seed_job tbl j = Some job"
    by (auto simp: post_archive_def Let_def split: option.splits)
  from False job obtain r h where a: "seed_job_authority_of who job = Party r h"
    by (auto simp: post_archive_def Let_def split: seed_job_authority.splits if_splits)
  from False job a have r: "r = Source_Role" and ph: "lf_phase job = Work Uploading_Archive"
    by (auto simp: post_archive_def Let_def seed_job_role_may_report_archive_def split: if_splits)
  let ?f = "normalize_seed_job_archive_facts (af_format (sj_archive job)) (spread_facts (sj_archive job) body)"
  let ?x = "(?f, h, now, Work Uploading_Archive)"
  have t: "fst (case w of (t, None) \<Rightarrow> g t | (t, Some u) \<Rightarrow> (t, Reply 200 u)) = fst w"
    if "\<And>t. fst (g t) = t" for w :: "seed_jobs \<times> seed_job option" and g :: "seed_jobs \<Rightarrow> seed_jobs \<times> seed_job reply"
    using that by (auto split: prod.split option.split)
  have w: "fst (post_archive pilot who j body now tbl) = fst (report_seed_job_archive_once tbl (sj_id job) ?x)"
    using False job a r ph
    by (auto simp: post_archive_def Let_def seed_job_role_may_report_archive_def split: if_splits prod.splits option.splits)
  have "job_step (By_Party Source_Role h) K_Facts now job (set_archive_handover ?f now job)"
    if "archive_once_guard h now (Work Uploading_Archive) job"
    using that authority_Party [OF a] r normalized_facts_ok by (intro job_step.facts) auto
  then show ?thesis
    unfolding w
    by (intro archive_once.write_moves [OF assms job, of _ "By_Party Source_Role h" K_Facts now])
      (use actor_of_matches [of who job] a r in \<open>simp add: actor_of_def\<close>)
qed simp

lemma lease_moves:
  assumes "distinct (map sj_id tbl)"
  shows "one_job_moves (request_label (Rq_Lease who j req ms now)) tbl (fst (post_lease who j req ms now tbl))"
proof (cases "fst (post_lease who j req ms now tbl) = tbl")
  case False
  from False obtain job where job: "get_seed_job tbl j = Some job"
    by (auto simp: post_lease_def Let_def split: option.splits)
  let ?a = "seed_job_authority_of who job"
  let ?bad = "case (?a, lf_phase job) of
      (Party r _, Work p) \<Rightarrow> if seed_job_role_may_enter_phase r p then None else Some (r, p) | _ \<Rightarrow> None"
  from False job have au: "?a \<noteq> Denied" by (auto simp: post_lease_def Let_def)
  from False job au have ok: "?bad = None"
    by (auto simp: post_lease_def Let_def split: option.splits prod.splits)
  obtain own where own: "own = (case ?a of Party _ host \<Rightarrow> host
      | _ \<Rightarrow> or_default req (or_default (lf_lease_owner job) (sj_host_id job)))" by blast
  obtain e where e: "e = now + clamp_lease (or_default ms SEED_JOB_LEASE_MS)" by blast
  let ?x = "(\<lparr> cl_owner = own, cl_expires_at = e, cl_now = now \<rparr>, lf_phase job)"
  have w: "fst (post_lease who j req ms now tbl) = fst (renew_seed_job_lease_guarded tbl (sj_id job) ?x)"
    using job au ok by (simp add: post_lease_def Let_def own e)
  have "job_step (actor_of ?a) K_Renew now job (job\<lparr> lf_lease_expires_at := Some e, sj_updated_at := now \<rparr>)"
    if g: "row_owned own now job"
  proof (rule job_step.renew [OF g])
    from g obtain p where "lf_phase job = Work p" by (auto simp: row_owned_def nonterminal_iff)
    with ok own show "may_renew (actor_of ?a) own job"
      using authority_Party [of who job]
      by (auto simp: may_renew_def actor_of_def split: seed_job_authority.splits if_splits)
  qed (use clamp_lease_range [of "or_default ms SEED_JOB_LEASE_MS"] in \<open>simp_all add: e\<close>)
  then show ?thesis
    unfolding w by (intro renewal.write_moves [OF assms job, of _ "actor_of ?a" K_Renew now])
      (use au actor_of_matches in simp)
qed simp

lemma operator_end_moves:
  assumes "distinct (map sj_id tbl)" "get_seed_job tbl j = Some job"
    and "\<And>r. lf_phase r = completion_phase c \<Longrightarrow> P By_Operator K_End now r"
  shows "one_job_moves P tbl
    (fst (finish_seed_job_as_operator tbl (sj_id job) (outcome_of c s err now, lf_phase job)))"
proof (rule operator_finish.write_moves [OF assms(1,2), of _ By_Operator K_End now], unfold prod.case)
  assume "lf_phase job = lf_phase job \<and> row_open job"
  moreover have "lf_phase (set_outcome (outcome_of c s err now) job) = completion_phase c"
    by (simp add: set_outcome_def outcome_of_def)
  ultimately show "job_step By_Operator K_End now job (set_outcome (outcome_of c s err now) job) \<and>
      P By_Operator K_End now (set_outcome (outcome_of c s err now) job)"
    using assms(3) by (blast intro: job_step.end_operator)
qed

lemma complete_moves:
  assumes "distinct (map sj_id tbl)"
  shows "one_job_moves (request_label (Rq_Complete who j c s err now)) tbl (fst (post_complete who j c s err now tbl))"
proof (cases "fst (post_complete who j c s err now tbl) = tbl")
  case False
  from False obtain job where job: "get_seed_job tbl j = Some job"
    by (auto simp: post_complete_def Let_def split: option.splits)
  show ?thesis
  proof (cases "seed_job_authority_of who job")
    case Operator
    have "one_job_moves (request_label (Rq_Complete who j c s err now)) tbl
        (fst (finish_seed_job_as_operator tbl (sj_id job) (outcome_of c s err now, lf_phase job)))"
      using actor_of_matches [of who job] Operator
      by (intro operator_end_moves [OF assms job]) (simp add: actor_of_def)
    with False job Operator show ?thesis by (auto simp: post_complete_def Let_def)
  next
    case (Party r h)
    let ?x = "(h, outcome_of c s err now, lf_phase job)"
    from False job Party have w: "fst (post_complete who j c s err now tbl) =
        fst (finish_seed_job_owned_by tbl (sj_id job) ?x)"
      and g: "c = Complete_Completed \<longrightarrow> r = Target_Role" "c \<noteq> Complete_Cancelled"
      by (auto simp: post_complete_def Let_def seed_job_role_may_complete_def split: if_splits)
    have "job_step (By_Party r h) K_End now job (set_outcome (outcome_of c s err now) job)"
      if "row_owned h now job"
      using that authority_Party [OF Party] g by (intro job_step.end_party) auto
    then show ?thesis
      unfolding w
      by (intro party_finish.write_moves [OF assms job, of _ "By_Party r h" K_End now])
        (use actor_of_matches [of who job] Party in
          \<open>auto simp: outcome_of_def actor_of_def set_outcome_def\<close>)
  qed (use False job in \<open>simp add: post_complete_def Let_def\<close>)
qed simp

lemma cancel_moves:
  assumes "distinct (map sj_id tbl)"
  shows "one_job_moves (request_label (Rq_Cancel who j now)) tbl (fst (post_cancel who j now tbl))"
proof (cases "fst (post_cancel who j now tbl) = tbl")
  case False
  from False obtain job where job: "get_seed_job tbl j = Some job"
    by (auto simp: post_cancel_def Let_def split: option.splits if_splits)
  have "require_admin who" using False by (auto simp: post_cancel_def split: if_splits)
  then have "one_job_moves (request_label (Rq_Cancel who j now)) tbl (fst (finish_seed_job_as_operator tbl
      (sj_id job) (outcome_of Complete_Cancelled (Some ''Cancelled by an operator.'') None now, lf_phase job)))"
    by (intro operator_end_moves [OF assms job]) (simp add: actor_matches_def)
  with False job show ?thesis by (auto simp: post_cancel_def Let_def split: if_splits)
qed simp

section \<open>The server refines the machine\<close>

text \<open>A row and what one request may turn it into.\<close>

definition row_moves :: "(seed_actor \<Rightarrow> step_kind \<Rightarrow> int \<Rightarrow> seed_job \<Rightarrow> bool) \<Rightarrow> seed_job \<Rightarrow> seed_job \<Rightarrow> bool" where
  "row_moves P r r' \<longleftrightarrow> r' = r \<or> (\<exists>actor k now. job_step actor k now r r' \<and> P actor k now r')"

text \<open>Both tables hold the same jobs, in the same order, each moved by at most one step.\<close>

abbreviation rows_move ::
    "(seed_actor \<Rightarrow> step_kind \<Rightarrow> int \<Rightarrow> seed_job \<Rightarrow> bool) \<Rightarrow> seed_jobs \<Rightarrow> seed_jobs \<Rightarrow> bool" where
  "rows_move P tbl tbl' \<equiv> list_all2 (row_moves P) tbl tbl'"

lemma job_step_same: "job_step actor k now r r' \<Longrightarrow> same_job r r'"
  by (induction rule: job_step.induct) (simp_all add: same_job_def set_progress_def set_outcome_def reap_row_def)

lemma row_moves_same: "row_moves P r r' \<Longrightarrow> same_job r r'"
  by (auto simp: row_moves_def dest: job_step_same)

lemma row_moves_refl [simp]: "row_moves P r r"
  by (simp add: row_moves_def)

lemma rows_move_refl: "rows_move P tbl tbl"
  by (simp add: list_all2_refl)

lemma rows_move_back: "rows_move P tbl tbl' \<Longrightarrow> r' \<in> set tbl' \<Longrightarrow> \<exists>r \<in> set tbl. row_moves P r r'"
  by (induction rule: list_all2_induct) auto

lemma rows_move_forth: "rows_move P tbl tbl' \<Longrightarrow> r \<in> set tbl \<Longrightarrow> \<exists>r' \<in> set tbl'. row_moves P r r'"
  by (induction rule: list_all2_induct) auto

lemma rows_move_ids: "rows_move P tbl tbl' \<Longrightarrow> map sj_id tbl' = map sj_id tbl"
  by (induction rule: list_all2_induct) (auto dest!: row_moves_same simp: same_job_def)

lemma replace_row_moves:
  assumes "distinct (map sj_id tbl)" "r \<in> set tbl" "row_moves P r r'"
  shows "rows_move P tbl (replace_row r' tbl)"
proof -
  have "row_moves P s (if sj_id s = sj_id r' then r' else s)" if "s \<in> set tbl" for s
    using same_row [OF assms(1) that assms(2)] assms(3) row_moves_same [OF assms(3)]
    by (auto simp: same_job_def)
  then show ?thesis
    unfolding replace_row_def list_all2_map2 by (auto intro: list_all2_refl simp: list.rel_refl_strong)
qed

lemma one_job_moves_rows:
  assumes "distinct (map sj_id tbl)" "one_job_moves P tbl tbl'"
  shows "rows_move P tbl tbl'"
  using assms(2) replace_row_moves [OF assms(1)] unfolding one_job_moves_def
  by (metis row_moves_def rows_move_refl)

lemma sweep_moves: "rows_move (request_label (Rq_Sweep_Jobs now)) tbl (fst (sweep_seed_jobs now tbl))"
  unfolding sweep_seed_jobs_def reap_stale_seed_jobs_def db_update_def fst_conv list_all2_map2
  by (rule list.rel_refl_strong) (auto simp: row_moves_def intro: job_step.reap)

lemma create_cases:
  assumes "\<not> rows_move (request_label (Rq_Create env who body now i a1 a2)) (ss_jobs st)
    (ss_jobs (handle_request (Rq_Create env who body now i a1 a2) st))"
  obtains plan where "get_seed_plan (ss_plans st) (pl_id plan) = Some plan"
    "require_admin who" "vd_valid (seed_plan_validity_for env plan now)"
    "active_seed_job_for_pair (ss_jobs st) (pl_folder_id plan) (pl_source_host_id plan) (pl_host_id plan) = None"
    "ss_jobs (handle_request (Rq_Create env who body now i a1 a2) st) = ss_jobs st @ [new_seed_job plan i now]"
proof -
  have ne: "handle_request (Rq_Create env who body now i a1 a2) st \<noteq> st"
    using assms rows_move_refl by metis
  then have who: "require_admin who"
    by (cases "require_admin who") (simp_all add: post_seed_jobs_def)
  with ne obtain pid where p: "parse_seed_job_create_payload body = Inr pid"
    by (auto simp: post_seed_jobs_def split: sum.splits)
  with ne who obtain plan where plan: "get_seed_plan (ss_plans st) pid = Some plan"
    by (auto simp: post_seed_jobs_def split: option.splits)
  then have pid: "pl_id plan = pid" by (auto simp: get_seed_plan_def dest: find_SomeD)
  from ne who p plan have v: "vd_valid (seed_plan_validity_for env plan now)"
    and ex: "ex_available (seed_plan_execution_of
      \<lparr> op_transport_implemented = None, op_pilot = Some (be_pilot env (plan_request_of plan)) \<rparr>)"
    by (auto simp: post_seed_jobs_def Let_def split: if_splits option.splits)
  with ne who p plan have a: "active_seed_job_for_pair (ss_jobs st) (pl_folder_id plan)
      (pl_source_host_id plan) (pl_host_id plan) = None"
    by (auto simp: post_seed_jobs_def Let_def split: option.splits)
  have "ss_jobs (handle_request (Rq_Create env who body now i a1 a2) st) = ss_jobs st @ [new_seed_job plan i now]"
    using who p plan v ex a by (simp add: post_seed_jobs_def Let_def create_seed_job_def)
  with plan pid who v a show thesis by (intro that) auto
qed

lemma plan_request_keeps_jobs:
  "ss_jobs (fst (post_seed_plans env who folder body now i st)) = ss_jobs st"
  by (auto simp: post_seed_plans_def Let_def split: sum.splits)

lemma request_moves:
  assumes "distinct (map sj_id (ss_jobs st))"
  shows "rows_move (request_label rq) (ss_jobs st) (ss_jobs (handle_request rq st)) \<or>
    (\<exists>env who body now i a1 a2. rq = Rq_Create env who body now i a1 a2)"
proof (cases rq)
  case (Rq_Sweep_Jobs now)
  then show ?thesis by (simp add: sweep_moves)
qed (simp_all add: assms one_job_moves_rows progress_moves archive_moves lease_moves complete_moves
    cancel_moves rows_move_refl plan_request_keeps_jobs)

lemma reach_distinct: "server_reach st \<Longrightarrow> distinct (map sj_id (ss_jobs st))"
proof (induction rule: server_reach.induct)
  case (request st rq)
  show ?case
  proof (cases "rows_move (request_label rq) (ss_jobs st) (ss_jobs (handle_request rq st))")
    case True
    then show ?thesis using rows_move_ids request.IH by metis
  next
    case False
    with request_moves [OF request.IH] obtain env who body now i a1 a2
      where rq: "rq = Rq_Create env who body now i a1 a2" by blast
    from False [unfolded rq] show ?thesis
      by (rule create_cases) (use request rq in \<open>auto simp: new_seed_job_def\<close>)
  qed
qed simp

lemma reach_history: "server_reach st \<Longrightarrow> r \<in> set (ss_jobs st) \<Longrightarrow> \<exists>tr. job_history tr r"
proof (induction arbitrary: r rule: server_reach.induct)
  case (request st rq)
  show ?case
  proof (cases "rows_move (request_label rq) (ss_jobs st) (ss_jobs (handle_request rq st))")
    case True
    then obtain s where "s \<in> set (ss_jobs st)" "row_moves (request_label rq) s r"
      using request.prems rows_move_back by blast
    with request.IH show ?thesis by (auto simp: row_moves_def intro: job_history.later)
  next
    case False
    with request_moves [OF reach_distinct [OF request.hyps(1)]] obtain env who body now i a1 a2
      where rq: "rq = Rq_Create env who body now i a1 a2" by blast
    from False [unfolded rq] obtain plan where
      "ss_jobs (handle_request rq st) = ss_jobs st @ [new_seed_job plan i now]"
      unfolding rq by (rule create_cases)
    with request show ?thesis by (auto intro: job_history.created)
  qed
qed simp

section \<open>Invariants of a job\<close>

lemma job_step_open_or_reaped: "job_step actor k now r r' \<Longrightarrow> row_open r \<or> stale_row now r"
  by (induction rule: job_step.induct)
    (auto simp: row_owned_open archive_once_guard_def)

text \<open>Status and phase agree, and the phase only moves along the allowed transitions.\<close>

definition status_agrees :: "seed_job \<Rightarrow> bool" where
  "status_agrees r \<longleftrightarrow>
     (case lf_phase r of
        Work p \<Rightarrow> lf_status r = SRunning \<or> lf_status r = SPlanned \<and> p = Preflight
      | Completed \<Rightarrow> lf_status r = SCompleted
      | Failed \<Rightarrow> lf_status r = SFailed
      | Cancelled \<Rightarrow> lf_status r = SCancelled)"

lemma status_agrees_new [simp]: "status_agrees (new_seed_job plan i now)"
  by (simp add: status_agrees_def new_seed_job_def)

lemma status_agrees_step:
  "job_step actor k now r r' \<Longrightarrow> status_agrees r \<Longrightarrow> status_agrees r'"
proof (induction rule: job_step.induct)
  case (end_party h now r rl c s err)
  then show ?case by (cases c) (simp_all add: status_agrees_def set_outcome_def outcome_of_def)
next
  case (end_operator r now c s err)
  then show ?case by (cases c) (simp_all add: status_agrees_def set_outcome_def outcome_of_def)
qed (auto simp: status_agrees_def set_progress_def reap_row_def row_owned_def
    archive_once_guard_def split: seed_phase.splits)

lemma history_status: "job_history tr r \<Longrightarrow> status_agrees r"
  by (induction rule: job_history.induct) (auto intro: status_agrees_step)

lemma step_phase:
  assumes "job_step actor k now r r'" "status_agrees r"
  shows "lf_phase r' = lf_phase r \<or> can_transition_seed_phase (lf_phase r) (lf_phase r')"
  using assms
proof (induction rule: job_step.induct)
  case (end_party h now r rl c s err)
  then show ?case by (cases c) (auto simp: set_outcome_def outcome_of_def row_owned_def nonterminal_iff)
next
  case (end_operator r now c s err)
  then show ?case by (cases c) (auto simp: set_outcome_def outcome_of_def row_open_def nonterminal_iff)
next
  case (reap now r)
  then show ?case
    by (cases "lf_phase r") (auto simp: reap_row_def stale_row_def status_agrees_def)
qed (auto simp: set_progress_def)

lemma step_closed: "job_step actor k now r r' \<Longrightarrow> status_agrees r \<Longrightarrow> \<not> is_terminal_seed_phase (lf_phase r)"
  using step_phase [of actor k now r r'] job_step_open_or_reaped [of actor k now r r']
  by (auto simp: row_open_def stale_row_def status_agrees_def split: seed_phase.splits)

text \<open>Recorded archive facts are never written again.\<close>

lemma step_archive:
  "job_step actor k now r r' \<Longrightarrow>
     sj_archive r' = sj_archive r \<or> k = K_Facts \<and> af_sha256 (sj_archive r) = None"
  by (induction rule: job_step.induct)
    (auto simp: set_progress_def set_outcome_def reap_row_def archive_once_guard_def)

definition target_phase :: "seed_job \<Rightarrow> bool" where
  "target_phase r \<longleftrightarrow> (\<exists>p. lf_phase r = Work p \<and> seed_job_phase_role p = Target_Role)"

text \<open>
  What holds as long as no operator reports phases or declares a job completed: the target
  leases the job only in its own half, and in that half and after completion the facts are
  complete.
\<close>

definition handover_inv :: "seed_job \<Rightarrow> bool" where
  "handover_inv r \<longleftrightarrow>
     (lf_lease_owner r = Some (sj_host_id r) \<longrightarrow> target_phase r) \<and>
     archive_facts_ok (sj_archive r) \<and>
     (target_phase r \<or> lf_phase r = Completed \<longrightarrow> seed_archive_facts_complete (sj_archive r))"

lemma empty_facts_ok [simp]: "archive_facts_ok (empty_seed_job_archive_facts f)"
  by (simp add: archive_facts_ok_def empty_seed_job_archive_facts_def count_fact_def digest_fact_def
      cleanup_ok_def initial_seed_relay_cleanup_def js_max_safe_def)

lemma handover_new: "handover_inv (new_seed_job plan i now)"
  by (simp add: handover_inv_def new_seed_job_def target_phase_def)

lemma is_party_source: "is_party Source_Role h r \<Longrightarrow> sj_source_host_id r = Some h \<and> h \<noteq> sj_host_id r"
  by (auto simp: is_party_def seed_job_role_for_Some)

lemma is_party_target: "is_party Target_Role h r \<Longrightarrow> h = sj_host_id r"
  by (auto simp: is_party_def seed_job_role_for_Some)

lemma handover_step:
  assumes "job_step actor k now r r'" "handover_inv r"
    and "actor = By_Operator \<longrightarrow> k \<noteq> K_Advance \<and> lf_phase r' \<noteq> Completed"
  shows "handover_inv r'"
  using assms
proof (induction rule: job_step.induct)
  case (advance r p own now actor e)
  then obtain rl h where a: "actor = By_Party rl h" "is_party rl h r" "own = h"
    and ok: "party_progress_refusal rl (pr_phase p) r = None"
    by (cases actor) (auto simp: may_advance_def)
  have role: "seed_job_phase_role (pr_phase p) = rl"
    and c: "rl = Target_Role \<longrightarrow> seed_archive_facts_complete (sj_archive r)"
    using ok by (auto simp: party_progress_refusal_def seed_job_role_may_enter_phase_def split: if_splits)
  have "h = sj_host_id r \<longrightarrow> rl = Target_Role"
    using a(2) is_party_source by (cases rl) auto
  with role c advance.prems show ?case
    by (cases rl) (auto simp: handover_inv_def set_progress_def target_phase_def a)
next
  case (facts h r now facts)
  then show ?case
    using is_party_source [OF facts.hyps(1)]
    by (auto simp: handover_inv_def archive_once_guard_def target_phase_def)
next
  case (end_party h now r rl c s err)
  have "rl = Target_Role \<longrightarrow> target_phase r"
    using end_party is_party_target [of h r] by (auto simp: handover_inv_def row_owned_def)
  then show ?case
    using end_party by (cases c) (auto simp: handover_inv_def set_outcome_def outcome_of_def target_phase_def)
next
  case (end_operator r now c s err)
  then show ?case
    by (cases c) (auto simp: handover_inv_def set_outcome_def outcome_of_def target_phase_def)
qed (auto simp: handover_inv_def target_phase_def reap_row_def)


section \<open>Runs of the server\<close>

inductive server_later :: "seed_server \<Rightarrow> seed_server \<Rightarrow> bool" where
  same: "server_later st st"
| more: "server_later st st' \<Longrightarrow> fresh_request rq st' \<Longrightarrow> server_later st (handle_request rq st')"

text \<open>Requests in which no operator reports a phase or declares a job completed.\<close>

fun device_only :: "seed_request \<Rightarrow> bool" where
  "device_only (Rq_Progress who j body now) = (\<not> require_admin who)"
| "device_only (Rq_Complete who j c s err now) = (c = Complete_Completed \<longrightarrow> \<not> require_admin who)"
| "device_only _ = True"

inductive device_reach :: "seed_server \<Rightarrow> bool" where
  boot: "ss_jobs st = [] \<Longrightarrow> device_reach st"
| request: "device_reach st \<Longrightarrow> fresh_request rq st \<Longrightarrow> device_only rq \<Longrightarrow>
    device_reach (handle_request rq st)"

lemma device_reach_reach: "device_reach st \<Longrightarrow> server_reach st"
  by (induction rule: device_reach.induct) (auto intro: server_reach.intros)

lemma later_reach: "server_later st st' \<Longrightarrow> server_reach st \<Longrightarrow> server_reach st'"
  by (induction rule: server_later.induct) (auto intro: server_reach.intros)

lemma reach_status: "server_reach st \<Longrightarrow> r \<in> set (ss_jobs st) \<Longrightarrow> status_agrees r"
  using reach_history history_status by blast

text \<open>One request, seen from one of the rows after it: it moved, or it was created.\<close>

lemma request_rows:
  assumes "server_reach st" "r' \<in> set (ss_jobs (handle_request rq st))"
  shows "(\<exists>r \<in> set (ss_jobs st). row_moves (request_label rq) r r') \<or>
    (\<exists>plan i now. r' = new_seed_job plan i now \<and>
       active_seed_job_for_pair (ss_jobs st) (pl_folder_id plan) (pl_source_host_id plan) (pl_host_id plan) = None \<and>
       ss_jobs (handle_request rq st) = ss_jobs st @ [r'])"
proof (cases "rows_move (request_label rq) (ss_jobs st) (ss_jobs (handle_request rq st))")
  case True
  then show ?thesis using assms(2) rows_move_back by blast
next
  case False
  with request_moves [OF reach_distinct [OF assms(1)]] obtain env who body now i a1 a2
    where rq: "rq = Rq_Create env who body now i a1 a2" by blast
  from False [unfolded rq] obtain plan where
    p: "active_seed_job_for_pair (ss_jobs st) (pl_folder_id plan) (pl_source_host_id plan) (pl_host_id plan) = None"
       "ss_jobs (handle_request rq st) = ss_jobs st @ [new_seed_job plan i now]"
    unfolding rq by (rule create_cases)
  show ?thesis
  proof (cases "r' \<in> set (ss_jobs st)")
    case True
    then show ?thesis using row_moves_refl by blast
  next
    case False
    then show ?thesis using p assms(2) by auto
  qed
qed

text \<open>And from one of the rows before it.\<close>

lemma request_row:
  assumes "server_reach st" "r \<in> set (ss_jobs st)"
  shows "\<exists>r' \<in> set (ss_jobs (handle_request rq st)). row_moves (request_label rq) r r'"
proof (cases "rows_move (request_label rq) (ss_jobs st) (ss_jobs (handle_request rq st))")
  case True
  then show ?thesis using assms(2) rows_move_forth by blast
next
  case False
  with request_moves [OF reach_distinct [OF assms(1)]] obtain env who body now i a1 a2
    where rq: "rq = Rq_Create env who body now i a1 a2" by blast
  from False [unfolded rq] obtain plan where
    "ss_jobs (handle_request rq st) = ss_jobs st @ [new_seed_job plan i now]"
    unfolding rq by (rule create_cases)
  then show ?thesis using assms(2) row_moves_refl by fastforce
qed

lemma request_row_id:
  assumes "server_reach st" "fresh_request rq st" "r \<in> set (ss_jobs st)"
    and "r' \<in> set (ss_jobs (handle_request rq st))" "sj_id r' = sj_id r"
  shows "row_moves (request_label rq) r r'"
proof -
  obtain q where q: "q \<in> set (ss_jobs (handle_request rq st))" "row_moves (request_label rq) r q"
    using request_row [OF assms(1,3)] by blast
  have "distinct (map sj_id (ss_jobs (handle_request rq st)))"
    using reach_distinct server_reach.request [OF assms(1,2)] by blast
  from same_row [OF this q(1) assms(4)] row_moves_same [OF q(2)] assms(5)
  have "q = r'" by (simp add: same_job_def)
  with q show ?thesis by simp
qed

lemma device_handover: "device_reach st \<Longrightarrow> r \<in> set (ss_jobs st) \<Longrightarrow> handover_inv r"
proof (induction arbitrary: r rule: device_reach.induct)
  case (request st rq)
  from request_rows [OF device_reach_reach [OF request.hyps(1)] request.prems] show ?case
  proof (elim disjE exE bexE conjE)
    fix q assume q: "q \<in> set (ss_jobs st)" "row_moves (request_label rq) q r"
    show "handover_inv r"
    proof (cases "r = q")
      case False
      with q obtain actor k now where st: "job_step actor k now q r" and l: "request_label rq actor k now r"
        by (auto simp: row_moves_def)
      have "actor = By_Operator \<longrightarrow> k \<noteq> K_Advance \<and> lf_phase r \<noteq> Completed"
      proof (cases rq)
        case (Rq_Complete who j c s err t)
        with l request.hyps(3) show ?thesis by (cases c) (auto simp: actor_matches_def)
      next
        case (Rq_Archive pilot who j body t)
        with l st show ?thesis by (auto simp: job_step_facts_iff)
      next
        case (Rq_Lease who j own ms t)
        with l have "k = K_Renew" by simp
        with st show ?thesis by (cases rule: job_step.cases) (auto simp: row_owned_def)
      next
        case (Rq_Sweep_Jobs t)
        with l have "k = K_Reap" by simp
        with st show ?thesis by (cases rule: job_step.cases) simp_all
      qed (use l request.hyps(3) in \<open>auto simp: actor_matches_def\<close>)
      with handover_step [OF st request.IH [OF q(1)]] show ?thesis by blast
    qed (use q request.IH in simp)
  qed (simp add: handover_new)
qed simp
end
