(* ===== verification/Seed_Safety.thy ===== *)
theory Seed_Safety
  imports Seed_Machine
begin

text \<open>
  What holds of every reachable server, whatever requests arrive in whatever order: the
  refinement of the job machine, the handover of the archive facts, exclusive leases, who
  may complete a job, one active job for a pair, and final states that stay final.
\<close>

section \<open>Who sends a request, and when\<close>

fun request_who :: "seed_request \<Rightarrow> auth_principal option" where
  "request_who (Rq_Plan env who folder body now i) = who"
| "request_who (Rq_Create env who body now i a1 a2) = who"
| "request_who (Rq_Progress who j body now) = who"
| "request_who (Rq_Archive pilot who j body now) = who"
| "request_who (Rq_Lease who j own ms now) = who"
| "request_who (Rq_Complete who j c s err now) = who"
| "request_who (Rq_Cancel who j now) = who"
| "request_who (Rq_Sweep_Jobs now) = None"
| "request_who (Rq_Sweep_Plans now) = None"

fun request_now :: "seed_request \<Rightarrow> int" where
  "request_now (Rq_Plan env who folder body now i) = now"
| "request_now (Rq_Create env who body now i a1 a2) = now"
| "request_now (Rq_Progress who j body now) = now"
| "request_now (Rq_Archive pilot who j body now) = now"
| "request_now (Rq_Lease who j own ms now) = now"
| "request_now (Rq_Complete who j c s err now) = now"
| "request_now (Rq_Cancel who j now) = now"
| "request_now (Rq_Sweep_Jobs now) = now"
| "request_now (Rq_Sweep_Plans now) = now"

lemma device_host_id_Some: "device_host_id who = Some h \<longleftrightarrow> (\<exists>key. who = Some (Device_Key key h))"
  by (cases who rule: device_host_id.cases) auto

lemma label_now: "request_label rq actor k now r' \<Longrightarrow> now = request_now rq"
  by (cases rq) auto

lemma label_reaper:
  "job_step actor k now r r' \<Longrightarrow> request_label rq actor k now r' \<Longrightarrow>
     k = K_Reap \<longleftrightarrow> rq = Rq_Sweep_Jobs now"
  by (cases rq) auto

lemma label_actor:
  assumes "job_step actor k now r r'" "request_label rq actor k now r'"
  shows "actor = By_Reaper \<and> k = K_Reap \<and> rq = Rq_Sweep_Jobs now \<or> actor_matches (request_who rq) actor"
proof (cases "k = K_Reap")
  case True
  with assms show ?thesis by (cases rq; cases rule: job_step.cases) auto
next
  case False
  with assms(2) show ?thesis by (cases rq) auto
qed

text \<open>What a request may do to a row of a reachable server: nothing, or one labelled step.\<close>

lemma request_step:
  assumes "server_reach st" "fresh_request rq st" "r \<in> set (ss_jobs st)"
    and "r' \<in> set (ss_jobs (handle_request rq st))" "sj_id r' = sj_id r" "r' \<noteq> r"
  obtains actor k where "job_step actor k (request_now rq) r r'"
    "request_label rq actor k (request_now rq) r'" "status_agrees r"
  using request_row_id [OF assms(1-5)] assms(6) reach_status [OF assms(1,3)] label_now
  unfolding row_moves_def by metis

lemma completion_phase_Completed:
  "completion_phase c = Completed \<longleftrightarrow> c = Complete_Completed"
  "Completed = completion_phase c \<longleftrightarrow> c = Complete_Completed"
  by (cases c; simp)+

section \<open>A sample run\<close>

text \<open>
  One full handover: an operator starts a job for a prepared plan, the source reports its
  phases and uploads, the target takes over. The witnesses below are states of this run.
\<close>

definition sample_source :: "auth_principal option" where
  "sample_source = Some (Device_Key ''k'' ''a'')"

definition sample_target :: "auth_principal option" where
  "sample_target = Some (Device_Key ''k'' ''b'')"

definition sample_report :: "auth_principal option \<Rightarrow> seed_job_phase \<Rightarrow> int \<Rightarrow> seed_request" where
  "sample_report who p now = Rq_Progress who ''j1'' (JObj [(''phase'', JStr (seed_phase_name p))]) now"

definition sample_upload :: "int \<Rightarrow> seed_request" where
  "sample_upload now =
     Rq_Archive (\<lambda>_. \<lparr> el_eligible = True, el_reason = Pilot_Authorized \<rparr>) sample_source ''j1''
       (case archive_facts_json sample_facts of JObj kvs \<Rightarrow> kvs | _ \<Rightarrow> []) now"

text \<open>What the run keeps of its only job.\<close>

definition sample_row :: "seed_job_phase \<Rightarrow> string option \<Rightarrow> int \<Rightarrow> seed_job_archive_facts \<Rightarrow> seed_job \<Rightarrow> bool" where
  "sample_row p own e facts r \<longleftrightarrow>
     sj_id r = ''j1'' \<and> sj_folder_id r = ''f'' \<and> sj_host_id r = ''b'' \<and>
     sj_source_host_id r = Some ''a'' \<and> lf_phase r = Work p \<and> status_open r \<and>
     (own \<noteq> None \<longrightarrow> lf_status r = SRunning) \<and> sj_archive r = facts \<and>
     lf_lease_owner r = own \<and> lf_lease_expires_at r = map_option (\<lambda>_. e) own"

definition sample_state :: "seed_job_phase \<Rightarrow> string option \<Rightarrow> int \<Rightarrow> seed_job_archive_facts \<Rightarrow> seed_server \<Rightarrow> bool" where
  "sample_state p own e facts st \<longleftrightarrow>
     device_reach st \<and> (\<exists>r. ss_jobs st = [r] \<and> sample_row p own e facts r)"

lemma sample_body: "parse_seed_progress_payload (JObj [(''phase'', JStr (seed_phase_name p))]) =
    Inr \<lparr> spp_phase = p, spp_message = '''', spp_bytes_done = 0, spp_bytes_total = None,
      spp_entries_done = 0, spp_entries_total = None, spp_lease_owner = None, spp_lease_ms = None \<rparr>"
  by (cases p; hypsubst; code_simp)

lemma sample_created:
  "\<exists>st. sample_state Preflight None 0 (empty_seed_job_archive_facts TarZstd) st"
proof -
  obtain plan where v: "vd_valid (seed_plan_validity_for sample_environment plan 20)"
    and p: "pl_id plan = ''p1''" "pl_folder_id plan = ''f''" "pl_host_id plan = ''b''"
      "pl_source_host_id plan = ''a''" "pa_format (pl_archive plan) = TarZstd"
    by (rule sample_plan_valid)
  let ?st = "\<lparr> ss_folders = [''f''], ss_plans = [plan], ss_jobs = [], ss_actions = [] \<rparr>"
  let ?rq = "Rq_Create sample_environment (Some Master_Key)
    (JObj [(''planId'', JStr ''p1''), (''confirm'', JBool True)]) 20 ''j1'' ''x1'' ''x2''"
  have body: "parse_seed_job_create_payload (JObj [(''planId'', JStr ''p1''), (''confirm'', JBool True)]) = Inr ''p1''"
    by code_simp
  have ex: "ex_available (seed_plan_execution_of
      \<lparr> op_transport_implemented = None, op_pilot = Some (be_pilot sample_environment (plan_request_of plan)) \<rparr>)"
    by (simp add: execution_available_iff sample_environment_def Let_def)
  have a: "active_seed_job_for_pair [] ''f'' ''a'' ''b'' = None"
    by code_simp
  have "ss_jobs (handle_request ?rq ?st) = [new_seed_job plan ''j1'' 20]"
    using v p ex a by (simp add: post_seed_jobs_def body Let_def get_seed_plan_def create_seed_job_def)
  moreover have "device_reach (handle_request ?rq ?st)"
    by (intro device_reach.request device_reach.boot) simp_all
  ultimately have "sample_state Preflight None 0 (empty_seed_job_archive_facts TarZstd) (handle_request ?rq ?st)"
    using p by (simp add: sample_state_def sample_row_def new_seed_job_def status_open_def)
  then show ?thesis by blast
qed

text \<open>A report of the party whose turn it is.\<close>

definition sample_turn :: "auth_principal option \<Rightarrow> string \<Rightarrow> seed_job_phase \<Rightarrow> string option \<Rightarrow> seed_job_archive_facts \<Rightarrow> bool" where
  "sample_turn who h q own facts \<longleftrightarrow>
     (own = None \<or> own = Some h) \<and>
     (if seed_job_phase_role q = Source_Role
      then who = sample_source \<and> h = ''a'' \<and> af_sha256 facts = None
      else who = sample_target \<and> h = ''b'' \<and> seed_archive_facts_complete facts)"

lemma sample_reported:
  assumes "sample_state p own e facts st"
    and "seed_phase_index q = seed_phase_index p + 1" "sample_turn who h q own facts"
  shows "sample_state q (Some h) (now + 600000) facts (handle_request (sample_report who q now) st)"
proof -
  obtain r where r: "ss_jobs st = [r]" "sample_row p own e facts r" and d: "device_reach st"
    using assms(1) by (auto simp: sample_state_def)
  have get: "get_seed_job [r] ''j1'' = Some r" using r(2) by (simp add: get_seed_job_def sample_row_def)
  have role: "seed_job_phase_role q \<noteq> Source_Role \<Longrightarrow> seed_job_phase_role q = Target_Role"
    by (cases "seed_job_phase_role q") auto
  have au: "seed_job_authority_of who r = Party (seed_job_phase_role q) h"
    using assms(3) r(2) role by (auto simp: seed_job_authority_of_def sample_source_def sample_target_def
        sample_turn_def sample_row_def seed_job_role_for_def split: if_splits)
  have ref: "party_progress_refusal (seed_job_phase_role q) q r = None"
    using assms(3) r(2) role
    by (auto simp: party_progress_refusal_def seed_job_role_may_enter_phase_def sample_turn_def sample_row_def)
  let ?l = "\<lparr> cl_owner = h, cl_expires_at = now + 600000, cl_now = now \<rparr>"
  have tr: "\<not> is_terminal_seed_phase (lf_phase r)" "can_transition_seed_phase (lf_phase r) (Work q)"
    using r(2) assms(2) by (simp_all add: sample_row_def)
  obtain x where x: "fst (post_progress who ''j1'' (JObj [(''phase'', JStr (seed_phase_name q))]) now [r]) =
      fst (report_seed_job_progress_guarded [r] (sj_id r) (x, ?l, lf_phase r))"
    and ph: "pr_phase x = q"
    using get au ref tr
    by (simp add: post_progress_def Let_def sample_body start_seed_progress_def clamp_lease_def clamp_def
        SEED_JOB_LEASE_MS_def)
  have g: "report_guard ?l (lf_phase r) r"
    using assms(3) tr(1) r(2) by (auto simp: report_guard_def row_open_def claimable_by_def sample_turn_def sample_row_def)
  have "fst (report_seed_job_progress_guarded [r] (sj_id r) (x, ?l, lf_phase r)) =
      [set_progress x h (now + 600000) r]"
    using g by (simp add: report_seed_job_progress_guarded_def cas_write_def db_update_def Let_def)
  moreover have "device_reach (handle_request (sample_report who q now) st)"
    using d assms(3)
    by (intro device_reach.request)
      (auto simp: sample_report_def sample_source_def sample_target_def sample_turn_def split: if_splits)
  ultimately show ?thesis
    using r ph x
    by (simp add: sample_state_def sample_row_def sample_report_def set_progress_def status_open_def)
qed

lemma sample_facts_spread:
  "normalize_seed_job_archive_facts TarZstd (spread_facts (empty_seed_job_archive_facts TarZstd)
     (case archive_facts_json sample_facts of JObj kvs \<Rightarrow> kvs | _ \<Rightarrow> [])) = sample_facts"
  by code_simp

lemma sample_uploaded:
  assumes "sample_state Uploading_Archive (Some ''a'') e (empty_seed_job_archive_facts TarZstd) st" "now < e"
  shows "sample_state Uploading_Archive None 0 sample_facts (handle_request (sample_upload now) st)"
proof -
  obtain r where r: "ss_jobs st = [r]"
      "sample_row Uploading_Archive (Some ''a'') e (empty_seed_job_archive_facts TarZstd) r"
    and d: "device_reach st"
    using assms(1) by (auto simp: sample_state_def)
  have get: "get_seed_job [r] ''j1'' = Some r" using r(2) by (simp add: get_seed_job_def sample_row_def)
  have au: "seed_job_authority_of sample_source r = Party Source_Role ''a''"
    using r(2) by (simp add: seed_job_authority_of_def sample_source_def sample_row_def seed_job_role_for_def)
  have f: "normalize_seed_job_archive_facts (af_format (sj_archive r)) (spread_facts (sj_archive r)
     (case archive_facts_json sample_facts of JObj kvs \<Rightarrow> kvs | _ \<Rightarrow> [])) = sample_facts"
    using r(2) sample_facts_spread by (simp add: sample_row_def empty_seed_job_archive_facts_def)
  have g: "archive_once_guard ''a'' now (lf_phase r) r"
    using assms(2) r(2)
    by (simp add: archive_once_guard_def row_open_def sample_row_def empty_seed_job_archive_facts_def)
  have "ss_jobs (handle_request (sample_upload now) st) = [set_archive_handover sample_facts now r]"
    using r get au f g
    by (simp add: sample_upload_def post_archive_def Let_def seed_job_role_may_report_archive_def
        sample_row_def report_seed_job_archive_once_def cas_write_def db_update_def
        split: option.split)
  moreover have "device_reach (handle_request (sample_upload now) st)"
    using d by (intro device_reach.request) (auto simp: sample_upload_def)
  ultimately show ?thesis
    using r by (simp add: sample_state_def sample_row_def status_open_def)
qed

lemma sample_measuring:
  "\<exists>st. sample_state Measuring_Source (Some ''a'') 600030 (empty_seed_job_archive_facts TarZstd) st"
  using sample_created sample_reported [of Preflight None 0 "empty_seed_job_archive_facts TarZstd" _
      Measuring_Source sample_source "''a''" 30]
  by (auto simp: sample_turn_def empty_seed_job_archive_facts_def)

lemma sample_uploading:
  "\<exists>st. sample_state Uploading_Archive (Some ''a'') 600050 (empty_seed_job_archive_facts TarZstd) st"
proof -
  obtain st where "sample_state Measuring_Source (Some ''a'') 600030 (empty_seed_job_archive_facts TarZstd) st"
    using sample_measuring by blast
  from sample_reported [OF this, of Archiving_Source sample_source "''a''" 40]
  have "sample_state Archiving_Source (Some ''a'') 600040 (empty_seed_job_archive_facts TarZstd)
      (handle_request (sample_report sample_source Archiving_Source 40) st)"
    by (simp add: sample_turn_def empty_seed_job_archive_facts_def)
  from sample_reported [OF this, of Uploading_Archive sample_source "''a''" 50] show ?thesis
    by (auto simp: sample_turn_def empty_seed_job_archive_facts_def)
qed

lemma sample_downloading:
  "\<exists>st. sample_state Downloading_Archive (Some ''b'') 600070 sample_facts st"
proof -
  obtain st where "sample_state Uploading_Archive (Some ''a'') 600050 (empty_seed_job_archive_facts TarZstd) st"
    using sample_uploading by blast
  from sample_uploaded [OF this, of 60]
  have "sample_state Uploading_Archive None 0 sample_facts (handle_request (sample_upload 60) st)"
    by simp
  from sample_reported [OF this, of Downloading_Archive sample_target "''b''" 70] show ?thesis
    by (auto simp: sample_turn_def)
qed

lemma sample_state_row:
  "sample_state p own e facts st \<Longrightarrow> \<exists>r. r \<in> set (ss_jobs st) \<and> sample_row p own e facts r"
  "sample_state p own e facts st \<Longrightarrow> server_reach st"
  by (auto simp: sample_state_def dest: device_reach_reach)

section \<open>Properties\<close>

text \<open>
  C1. The server refines the machine of one job. Handling any request in any reachable
  state moves every stored job by at most one step of \<open>job_step\<close>, by the actor the
  request authenticates and of the kind the route is for, and keeps the rows in place; or
  the request is an operator's creation of a job for a stored plan that is valid at that
  moment, no job of that pair being active, and appends exactly that new job.
\<close>

theorem server_refines_job_machine:
  assumes "server_reach st"
  shows "list_all2 (\<lambda>r r'. r' = r \<or>
             (\<exists>actor k now. job_step actor k now r r' \<and> request_label rq actor k now r'))
           (ss_jobs st) (ss_jobs (handle_request rq st)) \<or>
         (\<exists>env who body now i a1 a2 plan. rq = Rq_Create env who body now i a1 a2 \<and>
             require_admin who \<and> get_seed_plan (ss_plans st) (pl_id plan) = Some plan \<and>
             vd_valid (seed_plan_validity_for env plan now) \<and>
             active_seed_job_for_pair (ss_jobs st) (pl_folder_id plan) (pl_source_host_id plan)
               (pl_host_id plan) = None \<and>
             ss_jobs (handle_request rq st) = ss_jobs st @ [new_seed_job plan i now])"
proof (cases "rows_move (request_label rq) (ss_jobs st) (ss_jobs (handle_request rq st))")
  case True
  then show ?thesis by (simp add: row_moves_def [abs_def])
next
  case False
  with request_moves [OF reach_distinct [OF assms]] obtain env who body now i a1 a2
    where rq: "rq = Rq_Create env who body now i a1 a2" by blast
  from False [unfolded rq] show ?thesis
    unfolding rq by (rule create_cases) blast
qed

theorem server_refines_job_machine_witness:
  "\<exists>st. server_reach st \<and> ss_jobs st \<noteq> [] \<and>
     (list_all2 (\<lambda>r r'. r' = r \<or>
        (\<exists>actor k now. job_step actor k now r r' \<and> request_label (Rq_Sweep_Jobs 9) actor k now r'))
       (ss_jobs st) (ss_jobs (handle_request (Rq_Sweep_Jobs 9) st)))"
proof -
  obtain st where st: "sample_state Downloading_Archive (Some ''b'') 600070 sample_facts st"
    using sample_downloading by blast
  have "ss_jobs st \<noteq> []" using sample_state_row(1) [OF st] by auto
  with server_refines_job_machine [OF sample_state_row(2) [OF st], of "Rq_Sweep_Jobs 9"]
    sample_state_row(2) [OF st]
  show ?thesis by auto
qed

text \<open>
  C2. The handover gate. As long as no operator reports phases or declares jobs completed
  in the devices' place, no job is ever in a phase of the target's half, and none is
  completed, unless the source's archive facts are complete: both objects are recorded
  with their sizes and digests.
\<close>

theorem target_works_only_with_complete_facts:
  assumes "device_reach st" and "r \<in> set (ss_jobs st)"
    and "(\<exists>p. lf_phase r = Work p \<and> seed_job_phase_role p = Target_Role) \<or> lf_phase r = Completed"
  shows "seed_archive_facts_complete (sj_archive r) \<and> archive_facts_ok (sj_archive r)"
  using device_handover [OF assms(1,2)] assms(3) by (auto simp: handover_inv_def target_phase_def)

theorem target_works_only_with_complete_facts_witness:
  "\<exists>st r. device_reach st \<and> r \<in> set (ss_jobs st) \<and> lf_phase r = Work Downloading_Archive \<and>
     seed_archive_facts_complete (sj_archive r)"
proof -
  obtain st r where st: "sample_state Downloading_Archive (Some ''b'') 600070 sample_facts st"
    and r: "r \<in> set (ss_jobs st)" "sample_row Downloading_Archive (Some ''b'') 600070 sample_facts r"
    using sample_downloading sample_state_row(1) by blast
  have d: "device_reach st" "lf_phase r = Work Downloading_Archive"
    using st r(2) by (auto simp: sample_state_def sample_row_def)
  have t: "(\<exists>p. lf_phase r = Work p \<and> seed_job_phase_role p = Target_Role) \<or> lf_phase r = Completed"
    using d(2) by simp
  show ?thesis
    using target_works_only_with_complete_facts [OF d(1) r(1) t] d r(1) by blast
qed

text \<open>
  C3. Archive facts are written once: from the moment a job has an archive digest, its
  archive facts are the same after any further requests, and the job is still stored.
\<close>

theorem archive_facts_are_written_once:
  assumes "server_reach st" and "server_later st st'" and "r \<in> set (ss_jobs st)"
    and "af_sha256 (sj_archive r) \<noteq> None"
  shows "\<exists>r' \<in> set (ss_jobs st'). same_job r r' \<and> sj_archive r' = sj_archive r"
  using assms(2,1,3)
proof (induction rule: server_later.induct)
  case (same st)
  then show ?case by (intro bexI [of _ r]) simp_all
next
  case (more st st' rq)
  then obtain q where q: "q \<in> set (ss_jobs st')" "same_job r q" "sj_archive q = sj_archive r" by blast
  from request_row [OF later_reach [OF more.hyps(1) more.prems(1)] q(1)] obtain q' where
    q': "q' \<in> set (ss_jobs (handle_request rq st'))" "row_moves (request_label rq) q q'" by blast
  have "sj_archive q' = sj_archive q"
    using q'(2) assms(4) q(3) by (auto simp: row_moves_def dest: step_archive)
  with q' q row_moves_same [OF q'(2)] same_job_trans show ?case by metis
qed

theorem archive_facts_are_written_once_witness:
  "\<exists>st r. server_reach st \<and> r \<in> set (ss_jobs st) \<and>
     (\<exists>r' \<in> set (ss_jobs (handle_request (sample_upload 80) st)). sj_archive r' = sj_archive r)"
proof -
  obtain st r where st: "sample_state Downloading_Archive (Some ''b'') 600070 sample_facts st"
    and r: "r \<in> set (ss_jobs st)" "sample_row Downloading_Archive (Some ''b'') 600070 sample_facts r"
    using sample_downloading sample_state_row(1) by blast
  have a: "af_sha256 (sj_archive r) \<noteq> None" using r(2) by (simp add: sample_row_def sample_facts_def)
  have l: "server_later st (handle_request (sample_upload 80) st)"
    by (intro server_later.intros) (simp add: sample_upload_def)
  from archive_facts_are_written_once [OF sample_state_row(2) [OF st] l r(1) a]
    sample_state_row(2) [OF st] r(1) show ?thesis by blast
qed

text \<open>
  Only the source uploads: if handling a request changes the archive facts of a job,
  the request is the archive report of the source's own device key, the job is in the
  upload phase, that device holds its live lease, and no digest was recorded before.
\<close>

theorem only_the_source_records_facts:
  assumes "server_reach st" and "fresh_request rq st" and "r \<in> set (ss_jobs st)"
    and "r' \<in> set (ss_jobs (handle_request rq st))" and "sj_id r' = sj_id r"
    and "sj_archive r' \<noteq> sj_archive r"
  shows "\<exists>pilot key h j body now. rq = Rq_Archive pilot (Some (Device_Key key h)) j body now \<and>
           sj_source_host_id r = Some h \<and> h \<noteq> sj_host_id r \<and> lf_phase r = Work Uploading_Archive \<and>
           seed_lease_is_live r h now \<and> af_sha256 (sj_archive r) = None"
proof -
  have ne: "r' \<noteq> r" using assms(6) by blast
  obtain actor k where j: "job_step actor k (request_now rq) r r'"
    and l: "request_label rq actor k (request_now rq) r'"
    by (rule request_step [OF assms(1-5) ne])
  have k: "k = K_Facts" using step_archive [OF j] assms(6) by blast
  from j [unfolded k job_step_facts_iff] obtain h where
    h: "actor = By_Party Source_Role h" "is_party Source_Role h r"
       "archive_once_guard h (request_now rq) (Work Uploading_Archive) r" by blast
  from l k obtain pilot who i body now where rq: "rq = Rq_Archive pilot who i body now"
    by (cases rq) auto
  from l h(1) rq obtain key where "who = Some (Device_Key key h)"
    by (auto simp: actor_matches_def device_host_id_Some)
  with rq h(3) is_party_source [OF h(2)] show ?thesis
    by (auto simp: archive_once_guard_def seed_lease_is_live_def)
qed

theorem only_the_source_records_facts_witness:
  "\<exists>st r. r \<in> set (ss_jobs st) \<and> lf_phase r = Work Uploading_Archive \<and>
     af_sha256 (sj_archive r) = None \<and>
     (\<exists>r' \<in> set (ss_jobs (handle_request (sample_upload 60) st)). sj_archive r' = sample_facts)"
proof -
  let ?e = "empty_seed_job_archive_facts TarZstd"
  obtain st r where st: "sample_state Uploading_Archive (Some ''a'') 600050 ?e st"
    and r: "r \<in> set (ss_jobs st)" "sample_row Uploading_Archive (Some ''a'') 600050 ?e r"
    using sample_uploading sample_state_row(1) by blast
  have f: "fresh_request (sample_upload 60) st" by (simp add: sample_upload_def)
  from sample_uploaded [OF st, of 60] obtain r' where
    r': "r' \<in> set (ss_jobs (handle_request (sample_upload 60) st))" "sample_row Uploading_Archive None 0 sample_facts r'"
    using sample_state_row(1) by fastforce
  have i: "sj_id r' = sj_id r" using r r' by (simp add: sample_row_def)
  have n: "sj_archive r' \<noteq> sj_archive r"
    using r r' by (simp add: sample_row_def sample_facts_def empty_seed_job_archive_facts_def)
  from only_the_source_records_facts [OF sample_state_row(2) [OF st] f r(1) r'(1) i n]
  have "lf_phase r = Work Uploading_Archive \<and> af_sha256 (sj_archive r) = None" by blast
  moreover have "sj_archive r' = sample_facts" using r'(2) by (simp add: sample_row_def)
  ultimately show ?thesis using r(1) r'(1) by blast
qed

text \<open>
  C4. Only the target completes: a job becomes completed only by the completion request of
  the target's own device key while it holds the job's live lease, or by an operator's
  completion request. In particular no source device, no third device and no sweep can.
\<close>

theorem only_the_target_or_operator_completes:
  assumes "server_reach st" and "fresh_request rq st" and "r \<in> set (ss_jobs st)"
    and "r' \<in> set (ss_jobs (handle_request rq st))" and "sj_id r' = sj_id r"
    and "lf_phase r' = Completed" and "lf_phase r \<noteq> Completed"
  shows "\<exists>who j s err now. rq = Rq_Complete who j Complete_Completed s err now \<and>
           (require_admin who \<or>
            (\<exists>key. who = Some (Device_Key key (sj_host_id r))) \<and> seed_lease_is_live r (sj_host_id r) now)"
proof -
  have ne: "r' \<noteq> r" using assms(6,7) by auto
  obtain actor k where j: "job_step actor k (request_now rq) r r'"
    and l: "request_label rq actor k (request_now rq) r'"
    by (rule request_step [OF assms(1-5) ne])
  from j assms(6,7) have k: "k = K_End \<and> (actor = By_Operator \<or>
      (\<exists>rl h. actor = By_Party rl h \<and> row_owned h (request_now rq) r \<and> is_party rl h r \<and> rl = Target_Role))"
  proof (cases rule: job_step.cases)
    case (end_party h rl c s err)
    with assms(6) have "c = Complete_Completed" by (cases c) (auto simp: set_outcome_def outcome_of_def)
    with end_party show ?thesis by simp
  qed (auto simp: set_progress_def set_outcome_def reap_row_def)
  from l k assms(6) obtain who i s err now where rq: "rq = Rq_Complete who i Complete_Completed s err now"
    by (cases rq) (auto simp: completion_phase_Completed)
  from k show ?thesis
  proof (elim conjE disjE exE)
    assume "actor = By_Operator"
    with l rq show ?thesis by (auto simp: actor_matches_def)
  next
    fix rl h assume h: "actor = By_Party rl h" "row_owned h (request_now rq) r" "is_party rl h r" "rl = Target_Role"
    then have "h = sj_host_id r" using is_party_target by blast
    with h l rq show ?thesis
      by (auto simp: actor_matches_def device_host_id_Some row_owned_iff)
  qed
qed

theorem only_the_target_or_operator_completes_witness:
  "\<exists>st r rq. r \<in> set (ss_jobs st) \<and> seed_lease_is_live r ''b'' 80 \<and>
     (\<exists>r' \<in> set (ss_jobs (handle_request rq st)). lf_phase r' = Completed) \<and>
     (\<exists>who j s err now. rq = Rq_Complete who j Complete_Completed s err now)"
proof -
  obtain st r where st: "sample_state Downloading_Archive (Some ''b'') 600070 sample_facts st"
    and r: "ss_jobs st = [r]" "sample_row Downloading_Archive (Some ''b'') 600070 sample_facts r"
    using sample_downloading unfolding sample_state_def by blast
  let ?rq = "Rq_Complete sample_target ''j1'' Complete_Completed None None 80"
  let ?r = "set_outcome (outcome_of Complete_Completed None None 80) r"
  have get: "get_seed_job [r] ''j1'' = Some r" using r(2) by (simp add: get_seed_job_def sample_row_def)
  have au: "seed_job_authority_of sample_target r = Party Target_Role ''b''"
    using r(2) by (simp add: seed_job_authority_of_def sample_target_def sample_row_def seed_job_role_for_def)
  have o: "row_owned ''b'' 80 r" using r(2) by (simp add: sample_row_def row_owned_def)
  have jobs: "ss_jobs (handle_request ?rq st) = [?r]"
    using r get au o
    by (simp add: post_complete_def Let_def seed_job_role_may_complete_def sample_row_def
        finish_seed_job_owned_by_def cas_write_def db_update_def outcome_of_def split: option.split)
  have f: "fresh_request ?rq st" by simp
  have c: "lf_phase ?r = Completed" "lf_phase r \<noteq> Completed" "sj_id ?r = sj_id r"
    using r(2) by (simp_all add: set_outcome_def outcome_of_def sample_row_def)
  have m: "r \<in> set (ss_jobs st)" "?r \<in> set (ss_jobs (handle_request ?rq st))" using r jobs by simp_all
  from only_the_target_or_operator_completes [OF sample_state_row(2) [OF st] f m c(3) c(1) c(2)]
  have "seed_lease_is_live r ''b'' 80"
    using r(2) by (auto simp: sample_target_def sample_row_def)
  with m c(1) show ?thesis by blast
qed

text \<open>
  C5. Leases are exclusive: while a device holds the live lease of a job, no request of
  any other device, party of the job or not, changes anything of that job.
\<close>

theorem live_lease_excludes_other_devices:
  assumes "server_reach st" and "fresh_request rq st" and "r \<in> set (ss_jobs st)"
    and "r' \<in> set (ss_jobs (handle_request rq st))" and "sj_id r' = sj_id r"
    and "seed_lease_is_live r own (request_now rq)"
    and "request_who rq = Some (Device_Key key h)" and "h \<noteq> own"
  shows "r' = r"
proof (rule ccontr)
  assume ne: "r' \<noteq> r"
  obtain actor k where j: "job_step actor k (request_now rq) r r'"
    and l: "request_label rq actor k (request_now rq) r'"
    by (rule request_step [OF assms(1-5) ne])
  from label_actor [OF j l] assms(7) obtain rl where a: "actor = By_Party rl h"
    by (cases rq; cases actor) (auto simp: actor_matches_def)
  from j a assms(6,8) show False
    by (cases rule: job_step.cases)
      (auto simp: may_advance_def may_renew_def claimable_by_def lease_lapsed_def seed_lease_is_live_def
        archive_once_guard_def row_owned_def split: option.splits)
qed

theorem live_lease_excludes_other_devices_witness:
  "\<exists>st r. server_reach st \<and> r \<in> set (ss_jobs st) \<and>
     ss_jobs (handle_request (Rq_Progress sample_source ''j1'' (JObj [(''phase'', JStr ''preflight'')]) 80) st) = [r]"
proof -
  let ?rq = "Rq_Progress sample_source ''j1'' (JObj [(''phase'', JStr ''preflight'')]) 80"
  obtain st r where st: "sample_state Downloading_Archive (Some ''b'') 600070 sample_facts st"
    and r: "ss_jobs st = [r]" "sample_row Downloading_Archive (Some ''b'') 600070 sample_facts r"
    using sample_downloading unfolding sample_state_def by blast
  have m: "r \<in> set (ss_jobs st)" using r by simp
  have f: "fresh_request ?rq st" by simp
  obtain r' where r': "ss_jobs (handle_request ?rq st) = [r']" "row_moves (request_label ?rq) r r'"
    using request_moves [OF reach_distinct [OF sample_state_row(2) [OF st]], of ?rq] r(1)
    by (auto simp: list_all2_Cons1)
  have m': "r' \<in> set (ss_jobs (handle_request ?rq st))" using r'(1) by simp
  have i: "sj_id r' = sj_id r" using row_moves_same [OF r'(2)] by (rule same_job_id)
  have l: "seed_lease_is_live r ''b'' (request_now ?rq)"
    using r(2) by (simp add: sample_row_def seed_lease_is_live_def)
  have w: "request_who ?rq = Some (Device_Key ''k'' ''a'')" by (simp add: sample_source_def)
  from live_lease_excludes_other_devices [OF sample_state_row(2) [OF st] f m m' i l w]
  have "r' = r" by simp
  with r' m sample_state_row(2) [OF st] show ?thesis by blast
qed

text \<open>
  C6. Runs are monotone: whatever requests follow, a stored job stays stored, its phase
  only moves along the allowed transitions, and once it is completed, failed or cancelled
  the row never changes again.
\<close>

theorem jobs_only_move_forward:
  assumes "server_reach st" and "server_later st st'" and "r \<in> set (ss_jobs st)"
  shows "\<exists>r' \<in> set (ss_jobs st'). same_job r r' \<and>
           can_transition_seed_phase\<^sup>*\<^sup>* (lf_phase r) (lf_phase r') \<and>
           (is_terminal_seed_phase (lf_phase r) \<longrightarrow> r' = r)"
  using assms(2,1,3)
proof (induction rule: server_later.induct)
  case (same st)
  then show ?case by (intro bexI [of _ r]) simp_all
next
  case (more st st' rq)
  then obtain q where q: "q \<in> set (ss_jobs st')" "same_job r q"
    "can_transition_seed_phase\<^sup>*\<^sup>* (lf_phase r) (lf_phase q)" "is_terminal_seed_phase (lf_phase r) \<longrightarrow> q = r"
    by blast
  have rc: "server_reach st'" using later_reach [OF more.hyps(1) more.prems(1)] .
  from request_row [OF rc q(1)] obtain q' where
    q': "q' \<in> set (ss_jobs (handle_request rq st'))" "row_moves (request_label rq) q q'" by blast
  have ph: "lf_phase q' = lf_phase q \<or> can_transition_seed_phase (lf_phase q) (lf_phase q')"
    and te: "is_terminal_seed_phase (lf_phase q) \<longrightarrow> q' = q"
    using q'(2) step_phase step_closed reach_status [OF rc q(1)] unfolding row_moves_def by blast+
  have "same_job r q'" using same_job_trans [OF q(2) row_moves_same [OF q'(2)]] .
  moreover have "can_transition_seed_phase\<^sup>*\<^sup>* (lf_phase r) (lf_phase q')"
    using q(3) ph by (metis rtranclp.rtrancl_into_rtrancl)
  ultimately show ?case using q'(1) q(4) te by blast
qed

theorem jobs_only_move_forward_witness:
  "\<exists>st r. server_reach st \<and> r \<in> set (ss_jobs st) \<and>
     (\<exists>r' \<in> set (ss_jobs (handle_request (sample_report sample_target Verifying_Archive 80) st)).
        can_transition_seed_phase\<^sup>*\<^sup>* (lf_phase r) (lf_phase r'))"
proof -
  let ?rq = "sample_report sample_target Verifying_Archive 80"
  obtain st r where st: "sample_state Downloading_Archive (Some ''b'') 600070 sample_facts st"
    and r: "r \<in> set (ss_jobs st)"
    using sample_downloading sample_state_row(1) by blast
  have l: "server_later st (handle_request ?rq st)"
    by (intro server_later.intros) (simp add: sample_report_def)
  from jobs_only_move_forward [OF sample_state_row(2) [OF st] l r] sample_state_row(2) [OF st] r
  show ?thesis by blast
qed

text \<open>
  C7. One active job for a pair: in every reachable server there is at most one unfinished
  job from a given source to a given target of a given folder.
\<close>

theorem one_active_job_per_pair:
  assumes "server_reach st" and "r \<in> set (ss_jobs st)" and "s \<in> set (ss_jobs st)"
    and "sj_folder_id r = sj_folder_id s" and "sj_source_host_id r = sj_source_host_id s"
    and "sj_host_id r = sj_host_id s"
    and "\<not> is_terminal_seed_phase (lf_phase r)" and "\<not> is_terminal_seed_phase (lf_phase s)"
  shows "r = s"
  using assms
proof (induction arbitrary: r s rule: server_reach.induct)
  case (request st rq)
  have d: "distinct (map sj_id (ss_jobs (handle_request rq st)))"
    using reach_distinct server_reach.request [OF request.hyps] by blast
  have old: "\<not> is_terminal_seed_phase (lf_phase q)" if "q \<in> set (ss_jobs st)" "row_moves (request_label rq) q q'"
    "\<not> is_terminal_seed_phase (lf_phase q')" for q q'
    using that step_closed reach_status [OF request.hyps(1) that(1)] unfolding row_moves_def by blast
  from request_rows [OF request.hyps(1) request.prems(1)] request_rows [OF request.hyps(1) request.prems(2)]
  show ?case
  proof (elim disjE exE bexE conjE)
    fix q q' assume q: "q \<in> set (ss_jobs st)" "row_moves (request_label rq) q r"
      "q' \<in> set (ss_jobs st)" "row_moves (request_label rq) q' s"
    have "q = q'"
      by (rule request.IH [OF q(1,3)])
        (use request.prems(3-) old [OF q(1,2)] old [OF q(3,4)] row_moves_same [OF q(2)] row_moves_same [OF q(4)]
          in \<open>simp_all add: same_job_def\<close>)
    then have "sj_id r = sj_id s"
      using same_job_id [OF row_moves_same [OF q(2)]] same_job_id [OF row_moves_same [OF q(4)]] by simp
    then show ?thesis using same_row [OF d request.prems(1,2)] by blast
  next
    fix q plan i now
    assume q: "q \<in> set (ss_jobs st)" "row_moves (request_label rq) q r"
      and a: "active_seed_job_for_pair (ss_jobs st) (pl_folder_id plan) (pl_source_host_id plan) (pl_host_id plan) = None"
      and s: "s = new_seed_job plan i now"
    then show ?thesis
      using old [OF q] request.prems(3-) row_moves_same [OF q(2)]
      by (auto simp: active_pair_None same_job_def new_seed_job_def)
  next
    fix q plan i now
    assume q: "q \<in> set (ss_jobs st)" "row_moves (request_label rq) q s"
      and a: "active_seed_job_for_pair (ss_jobs st) (pl_folder_id plan) (pl_source_host_id plan) (pl_host_id plan) = None"
      and s: "r = new_seed_job plan i now"
    then show ?thesis
      using old [OF q] request.prems(3-) row_moves_same [OF q(2)]
      by (auto simp: active_pair_None same_job_def new_seed_job_def)
  next
    assume "ss_jobs (handle_request rq st) = ss_jobs st @ [r]" "ss_jobs (handle_request rq st) = ss_jobs st @ [s]"
    then show ?thesis by simp
  qed
qed simp

theorem one_active_job_per_pair_witness:
  "\<exists>st r. server_reach st \<and> r \<in> set (ss_jobs st) \<and> \<not> is_terminal_seed_phase (lf_phase r) \<and>
     (\<forall>s. \<not> (s \<in> set (ss_jobs st) \<and> s \<noteq> r \<and> sj_folder_id r = sj_folder_id s \<and>
        sj_source_host_id r = sj_source_host_id s \<and> sj_host_id r = sj_host_id s \<and>
        \<not> is_terminal_seed_phase (lf_phase s)))"
proof -
  obtain st r where st: "sample_state Downloading_Archive (Some ''b'') 600070 sample_facts st"
    and r: "r \<in> set (ss_jobs st)" "sample_row Downloading_Archive (Some ''b'') 600070 sample_facts r"
    using sample_downloading sample_state_row(1) by blast
  have rc: "server_reach st" using sample_state_row(2) [OF st] .
  have n: "\<not> is_terminal_seed_phase (lf_phase r)" using r(2) by (simp add: sample_row_def)
  show ?thesis
    using one_active_job_per_pair [OF rc r(1)] rc r(1) n by metis
qed

text \<open>
  Strangers change nothing: a request of anyone who is neither an operator nor one of
  the two devices of a job leaves that job exactly as it was.
\<close>

theorem strangers_change_nothing:
  assumes "server_reach st" and "fresh_request rq st" and "r \<in> set (ss_jobs st)"
    and "r' \<in> set (ss_jobs (handle_request rq st))" and "sj_id r' = sj_id r"
    and "request_who rq = Some who" and "seed_job_authority_of (Some who) r = Denied"
  shows "r' = r"
proof (rule ccontr)
  assume ne: "r' \<noteq> r"
  obtain actor k where j: "job_step actor k (request_now rq) r r'"
    and l: "request_label rq actor k (request_now rq) r'"
    by (rule request_step [OF assms(1-5) ne])
  from label_actor [OF j l] assms(6) have a: "actor_matches (Some who) actor"
    by (cases rq) auto
  from assms(7) have d: "\<not> require_admin (Some who)"
    "\<And>h rl. device_host_id (Some who) = Some h \<Longrightarrow> \<not> is_party rl h r"
    by (auto simp: seed_job_authority_of_def is_party_def split: if_splits option.splits)
  obtain rl h where "actor = By_Party rl h" "device_host_id (Some who) = Some h"
    using a d(1) by (cases actor) (auto simp: actor_matches_def)
  with j d(2) show False
    by (cases rule: job_step.cases) (auto simp: may_advance_def may_renew_def)
qed

theorem strangers_change_nothing_witness:
  "\<exists>st r. server_reach st \<and> ss_jobs st = [r] \<and>
     ss_jobs (handle_request (Rq_Complete (Some (Mobile_Token ''m'')) ''j1'' Complete_Failed None None 80) st) = [r]"
proof -
  let ?rq = "Rq_Complete (Some (Mobile_Token ''m'')) ''j1'' Complete_Failed None None 80"
  obtain st r where st: "sample_state Downloading_Archive (Some ''b'') 600070 sample_facts st"
    and r: "ss_jobs st = [r]" "sample_row Downloading_Archive (Some ''b'') 600070 sample_facts r"
    using sample_downloading unfolding sample_state_def by blast
  have m: "r \<in> set (ss_jobs st)" using r by simp
  have f: "fresh_request ?rq st" by simp
  obtain r' where r': "ss_jobs (handle_request ?rq st) = [r']" "row_moves (request_label ?rq) r r'"
    using request_moves [OF reach_distinct [OF sample_state_row(2) [OF st]], of ?rq] r(1)
    by (auto simp: list_all2_Cons1)
  have m': "r' \<in> set (ss_jobs (handle_request ?rq st))" using r'(1) by simp
  have i: "sj_id r' = sj_id r" using row_moves_same [OF r'(2)] by (rule same_job_id)
  have w: "request_who ?rq = Some (Mobile_Token ''m'')" by simp
  have d: "seed_job_authority_of (Some (Mobile_Token ''m'')) r = Denied"
    by (simp add: seed_job_authority_of_def)
  from strangers_change_nothing [OF sample_state_row(2) [OF st] f m m' i w d] have "r' = r" .
  with r' r(1) sample_state_row(2) [OF st] show ?thesis by blast
qed

text \<open>
  The archive report does not require the facts it hands over. A report whose only
  field is a digest that is no digest (here: any string of at most 63 characters) is
  answered 200, records no digest, and still releases the source's lease: the target sees
  a free lease without the facts.
\<close>

theorem archive_report_may_hand_over_nothing:
  "let job = sample_job\<lparr> lf_phase := Work Uploading_Archive, lf_status := SRunning,
         lf_lease_owner := Some ''a'', lf_lease_expires_at := Some 100 \<rparr>;
       (tbl, reply) = post_archive (\<lambda>_. \<lparr> el_eligible = True, el_reason = Pilot_Authorized \<rparr>)
         (Some (Device_Key ''k'' ''a'')) ''j1'' [(''sha256'', JStr (take 63 digest))] 50 [job]
   in \<exists>r. tbl = [r] \<and> reply = Reply 200 r \<and> lf_phase r = Work Uploading_Archive \<and>
        lf_lease_owner r = None \<and> af_sha256 (sj_archive r) = None \<and>
        \<not> seed_archive_facts_complete (sj_archive r)"
proof -
  let ?job = "sample_job\<lparr> lf_phase := Work Uploading_Archive, lf_status := SRunning,
    lf_lease_owner := Some ''a'', lf_lease_expires_at := Some 100 \<rparr>"
  let ?f = "normalize_seed_job_archive_facts TarZstd
    (spread_facts (empty_seed_job_archive_facts TarZstd) [(''sha256'', JStr (take 63 digest))])"
  obtain job where job: "job = ?job" by blast
  have au: "seed_job_authority_of (Some (Device_Key ''k'' ''a'')) job = Party Source_Role ''a''"
    by (simp add: job seed_job_authority_of_def sample_job_def seed_job_role_for_def)
  have g: "archive_once_guard ''a'' 50 (Work Uploading_Archive) job"
    by (simp add: job archive_once_guard_def row_open_def status_open_def sample_job_def
        empty_seed_job_archive_facts_def)
  have n: "af_sha256 ?f = None"
    by (simp add: normalize_seed_job_archive_facts_def spread_facts_def archive_facts_json_def
        Let_def hex_digest_or_null_def hex64_def min_def)
  have j: "sj_id job = ''j1''" "lf_phase job = Work Uploading_Archive"
    "sj_archive job = empty_seed_job_archive_facts TarZstd" "af_format (sj_archive job) = TarZstd"
    by (simp_all add: job sample_job_def empty_seed_job_archive_facts_def)
  show ?thesis
    using au g n j
    by (simp add: job [symmetric] post_archive_def Let_def seed_job_role_may_report_archive_def
        get_seed_job_def report_seed_job_archive_once_def cas_write_def db_update_def
        seed_archive_facts_complete_def)
qed

text \<open>
  A report with a digest but without, say, the manifest is recorded too, and can neither be
  completed nor be worked with: every later report of either party is refused.
\<close>

lemma digest_alone_strands_the_job:
  assumes "af_sha256 (sj_archive r) \<noteq> None" "\<not> seed_archive_facts_complete (sj_archive r)"
  shows "party_progress_refusal rl p r \<noteq> None \<and> \<not> archive_once_guard h now ph r"
  using assms by (cases rl) (auto simp: party_progress_refusal_def archive_once_guard_def)

end
