(* ===== verification/Operation_Locks.thy ===== *)
theory Operation_Locks
  imports Principals Destinations
begin

text \<open>
  The destination locks of \<open>server/src/routes/operations.ts\<close>: a daemon takes the lock of the
  physical destination it is about to write, renews it while it works and releases it. The
  table \<open>folder_locks\<close> is the list of its rows; its primary key is the canonical
  destination key of \<open>Destinations\<close>. Handlers are one request each, as in \<open>Seed_Routes\<close>; a
  malformed stored destination makes \<open>canonicalDestinationKey\<close> throw, which is the refusal
  500 here.
\<close>

section \<open>State\<close>

record lock_row =
  lk_destination_key :: string
  lk_folder_id :: "string option"
  lk_locked_by :: "string option"
  lk_locked_at :: "int option"
  lk_lock_ttl :: "int option"
  lk_lock_id :: "string option"

type_synonym lock_table = "lock_row list"

text \<open>What the server reads to derive a key: folders, assignments, and the restic
  repository and password of a backend.\<close>

record lock_config =
  lc_folders :: "folder list"
  lc_assignments :: "folder_assignment list"
  lc_backends :: "(string \<times> string option \<times> string option) list"

record schedule_row =
  ss_assignment_id :: string
  ss_last_run :: "int option"
  ss_last_status :: "string option"

record lock_server =
  ls_config :: lock_config
  ls_locks :: lock_table
  ls_schedule :: "schedule_row list"

definition DEFAULT_LOCK_TTL :: int where
  "DEFAULT_LOCK_TTL = 1200"

definition find_lock :: "lock_table \<Rightarrow> string \<Rightarrow> lock_row option" where
  "find_lock tbl key = find (\<lambda>l. lk_destination_key l = key) tbl"

section \<open>The canonical key of a request\<close>

definition lock_folder_backend :: "folder_backend option \<Rightarrow> folder_backend" where
  "lock_folder_backend b = or_default b BSftp"

definition canonical_key_for_acquire ::
    "lock_config \<Rightarrow> string \<Rightarrow> string \<Rightarrow> string option \<Rightarrow> destination_error + string" where
  "canonical_key_for_acquire cfg folder_id host_id requested =
     (case (find (\<lambda>f. fo_id f = folder_id) (lc_folders cfg),
            find (\<lambda>a. fa_folder_id a = folder_id \<and> fa_host_id a = host_id) (lc_assignments cfg)) of
        (Some folder, Some assignment) \<Rightarrow>
          (let (repository, password) =
                 (if truthy (fa_restic_repository assignment) = None \<and> fo_backend folder = Some BRestic
                  then (case truthy (fo_backend_id folder) of
                          None \<Rightarrow> (fa_restic_repository assignment, fa_restic_password assignment)
                        | Some bid \<Rightarrow> or_default (map_of (lc_backends cfg) bid) (None, None))
                  else (fa_restic_repository assignment, fa_restic_password assignment))
           in canonical_destination_key
                (folder\<lparr> fo_backend := Some (lock_folder_backend (fo_backend folder)) \<rparr>)
                (assignment\<lparr> fa_restic_repository := repository, fa_restic_password := password \<rparr>))
      | _ \<Rightarrow>
          Inr (case truthy (map_option js_trim requested) of
                 Some key \<Rightarrow> key
               | None \<Rightarrow> ''folder:'' @ folder_id))"

section \<open>Handlers\<close>

datatype lock_refusal =
    Lock_Forbidden
  | Folder_Locked string int int string int
  | No_Active_Lock
  | Lock_Held_By_Other
  | Lock_Expired
  | Lock_Id_Mismatch
  | Lock_Bad_Destination

datatype 'a lock_reply = Lock_Ok 'a | Lock_Refused nat lock_refusal

text \<open>The row a request of another host runs into.\<close>

definition lock_blocks :: "lock_row \<Rightarrow> string \<Rightarrow> int \<Rightarrow> bool" where
  "lock_blocks l host now \<longleftrightarrow>
     (\<exists>owner. truthy (lk_locked_by l) = Some owner \<and> owner \<noteq> host) \<and>
     (case lk_locked_at l of
        None \<Rightarrow> False
      | Some since \<Rightarrow> now - since < or_default (lk_lock_ttl l) DEFAULT_LOCK_TTL * 1000)"

definition replace_lock :: "lock_row \<Rightarrow> lock_table \<Rightarrow> lock_table" where
  "replace_lock l tbl = filter (\<lambda>x. lk_destination_key x \<noteq> lk_destination_key l) tbl @ [l]"

text \<open>\<open>Math.ceil(ms / 1000)\<close>.\<close>

definition ceil_sec :: "int \<Rightarrow> int" where
  "ceil_sec ms = - ((- ms) div 1000)"

definition post_acquire ::
    "auth_principal option \<Rightarrow> string \<Rightarrow> string \<Rightarrow> string option \<Rightarrow> int \<Rightarrow> string \<Rightarrow> lock_server \<Rightarrow>
     lock_server \<times> (string \<times> string) lock_reply" where
  "post_acquire who folder_id host_id requested now new_id st =
     (if \<not> device_may_access_host who (Some host_id) then (st, Lock_Refused 403 Lock_Forbidden)
      else case canonical_key_for_acquire (ls_config st) folder_id host_id requested of
        Inl e \<Rightarrow> (st, Lock_Refused 500 Lock_Bad_Destination)
      | Inr key \<Rightarrow>
          (case Option.bind (find_lock (ls_locks st) key)
                  (\<lambda>l. if lock_blocks l host_id now then Some l else None) of
             Some l \<Rightarrow>
               (let since = or_default (lk_locked_at l) 0;
                    ttl = or_default (lk_lock_ttl l) DEFAULT_LOCK_TTL
                in (st, Lock_Refused 409 (Folder_Locked (or_default (lk_locked_by l) '''') since ttl key
                          (ceil_sec (since + ttl * 1000 - now)))))
           | None \<Rightarrow>
               (st\<lparr> ls_locks := replace_lock
                     \<lparr> lk_destination_key = key, lk_folder_id = Some folder_id, lk_locked_by = Some host_id,
                       lk_locked_at = Some now, lk_lock_ttl = Some DEFAULT_LOCK_TTL,
                       lk_lock_id = Some new_id \<rparr> (ls_locks st) \<rparr>,
                Lock_Ok (new_id, key))))"

text \<open>The key of a heartbeat or a release: the one the client names, else the derived one.\<close>

definition named_key ::
    "lock_config \<Rightarrow> string \<Rightarrow> string \<Rightarrow> string option \<Rightarrow> destination_error + string" where
  "named_key cfg folder_id host_id requested =
     (case requested of
        Some key \<Rightarrow> if js_trim key \<noteq> [] then Inr key else canonical_key_for_acquire cfg folder_id host_id None
      | None \<Rightarrow> canonical_key_for_acquire cfg folder_id host_id None)"

definition post_heartbeat ::
    "auth_principal option \<Rightarrow> string \<Rightarrow> string \<Rightarrow> string option \<Rightarrow> string option \<Rightarrow> int \<Rightarrow> lock_server \<Rightarrow>
     lock_server \<times> int lock_reply" where
  "post_heartbeat who folder_id host_id lock_id requested now st =
     (if \<not> device_may_access_host who (Some host_id) then (st, Lock_Refused 403 Lock_Forbidden)
      else case named_key (ls_config st) folder_id host_id requested of
        Inl e \<Rightarrow> (st, Lock_Refused 500 Lock_Bad_Destination)
      | Inr key \<Rightarrow>
     (case find_lock (ls_locks st) key of
        None \<Rightarrow> (st, Lock_Refused 404 No_Active_Lock)
      | Some l \<Rightarrow>
          if lk_locked_by l = None then (st, Lock_Refused 404 No_Active_Lock)
          else if lk_locked_by l \<noteq> Some host_id then (st, Lock_Refused 409 Lock_Held_By_Other)
          else if now - or_default (lk_locked_at l) 0 \<ge> or_default (lk_lock_ttl l) DEFAULT_LOCK_TTL * 1000
            then (st, Lock_Refused 404 Lock_Expired)
          else if lock_id \<noteq> None \<and> lock_id \<noteq> lk_lock_id l then (st, Lock_Refused 409 Lock_Id_Mismatch)
          else (st\<lparr> ls_locks := map (\<lambda>x. if lk_destination_key x = key
                      then x\<lparr> lk_locked_at := Some now \<rparr> else x) (ls_locks st) \<rparr>,
                Lock_Ok now)))"

definition post_release ::
    "auth_principal option \<Rightarrow> string \<Rightarrow> string \<Rightarrow> string \<Rightarrow> string option \<Rightarrow> string option \<Rightarrow> int \<Rightarrow>
     lock_server \<Rightarrow> lock_server \<times> unit lock_reply" where
  "post_release who folder_id host_id status lock_id requested now st =
     (if \<not> device_may_access_host who (Some host_id) then (st, Lock_Refused 403 Lock_Forbidden)
      else case named_key (ls_config st) folder_id host_id requested of
        Inl e \<Rightarrow> (st, Lock_Refused 500 Lock_Bad_Destination)
      | Inr key \<Rightarrow>
     (case find_lock (ls_locks st) key of
        None \<Rightarrow> (st, Lock_Refused 404 No_Active_Lock)
      | Some l \<Rightarrow>
          if lk_locked_by l \<noteq> Some host_id then (st, Lock_Refused 409 Lock_Held_By_Other)
          else if lock_id \<noteq> None \<and> lock_id \<noteq> lk_lock_id l then (st, Lock_Refused 409 Lock_Id_Mismatch)
          else
         (let assignment = find (\<lambda>a. fa_folder_id a = folder_id \<and> fa_host_id a = host_id)
                             (lc_assignments (ls_config st))
          in (st\<lparr> ls_locks := filter (\<lambda>x. lk_destination_key x \<noteq> key) (ls_locks st),
                  ls_schedule := map (\<lambda>s. if Some (ss_assignment_id s) = map_option fa_id assignment
                    then s\<lparr> ss_last_run := Some now, ss_last_status := Some status \<rparr> else s)
                    (ls_schedule st) \<rparr>,
              Lock_Ok ()))))"

text \<open>The listing shows the holder and the times of a lock, never its id.\<close>

definition lock_view :: "lock_row \<Rightarrow> string \<times> string option \<times> string option \<times> int option \<times> int option" where
  "lock_view l =
     (lk_destination_key l, lk_folder_id l, lk_locked_by l, lk_locked_at l, lk_lock_ttl l)"

definition get_locks ::
    "auth_principal option \<Rightarrow> lock_server \<Rightarrow>
     (string \<times> string option \<times> string option \<times> int option \<times> int option) list" where
  "get_locks who st =
     (case device_host_id who of
        Some h \<Rightarrow> map lock_view (filter (\<lambda>l. lk_locked_by l = Some h) (ls_locks st))
      | None \<Rightarrow> map lock_view (filter (\<lambda>l. lk_locked_by l \<noteq> None) (ls_locks st)))"

text \<open>The reaper of expired locks; rows with a missing column are kept.\<close>

definition lock_expired :: "int \<Rightarrow> lock_row \<Rightarrow> bool" where
  "lock_expired now l \<longleftrightarrow>
     (case (lk_locked_at l, lk_lock_ttl l) of
        (Some since, Some ttl) \<Rightarrow> since + ttl * 1000 \<le> now
      | _ \<Rightarrow> False)"

definition reap_expired_folder_locks :: "int \<Rightarrow> lock_server \<Rightarrow> lock_server \<times> nat \<times> string option list" where
  "reap_expired_folder_locks now st =
     (let expired = filter (lock_expired now) (ls_locks st)
      in if expired = [] then (st, 0, [])
         else (st\<lparr> ls_locks := filter (\<lambda>l. \<not> lock_expired now l) (ls_locks st) \<rparr>,
               length expired, map lk_folder_id expired))"

section \<open>Runs\<close>

datatype lock_request =
    Lk_Acquire "auth_principal option" string string "string option" int string
  | Lk_Heartbeat "auth_principal option" string string "string option" "string option" int
  | Lk_Release "auth_principal option" string string string "string option" "string option" int
  | Lk_Reap int

fun handle_lock :: "lock_request \<Rightarrow> lock_server \<Rightarrow> lock_server" where
  "handle_lock (Lk_Acquire who f h q now i) st = fst (post_acquire who f h q now i st)"
| "handle_lock (Lk_Heartbeat who f h i q now) st = fst (post_heartbeat who f h i q now st)"
| "handle_lock (Lk_Release who f h s i q now) st = fst (post_release who f h s i q now st)"
| "handle_lock (Lk_Reap now) st = fst (reap_expired_folder_locks now st)"

fun lock_request_host :: "lock_request \<Rightarrow> string option" where
  "lock_request_host (Lk_Acquire who f h q now i) = Some h"
| "lock_request_host (Lk_Heartbeat who f h i q now) = Some h"
| "lock_request_host (Lk_Release who f h s i q now) = Some h"
| "lock_request_host (Lk_Reap now) = None"

fun lock_request_now :: "lock_request \<Rightarrow> int" where
  "lock_request_now (Lk_Acquire who f h q now i) = now"
| "lock_request_now (Lk_Heartbeat who f h i q now) = now"
| "lock_request_now (Lk_Release who f h s i q now) = now"
| "lock_request_now (Lk_Reap now) = now"

text \<open>The lock has a holder whose time has not run out.\<close>

definition lock_live :: "lock_row \<Rightarrow> int \<Rightarrow> bool" where
  "lock_live l now \<longleftrightarrow>
     truthy (lk_locked_by l) \<noteq> None \<and>
     (case lk_locked_at l of
        None \<Rightarrow> False
      | Some since \<Rightarrow> now - since < or_default (lk_lock_ttl l) DEFAULT_LOCK_TTL * 1000)"

lemma lock_blocks_iff: "lock_blocks l host now \<longleftrightarrow> lock_live l now \<and> lk_locked_by l \<noteq> Some host"
  by (auto simp: lock_blocks_def lock_live_def truthy_def split: option.splits list.splits)

lemma lock_live_not_expired: "lock_live l now \<Longrightarrow> \<not> lock_expired now l"
  by (auto simp: lock_live_def lock_expired_def split: option.splits)

section \<open>The table\<close>

abbreviation lock_keys :: "lock_table \<Rightarrow> string list" where
  "lock_keys tbl \<equiv> map lk_destination_key tbl"

lemma find_lock_key: "find_lock tbl key = Some l \<Longrightarrow> lk_destination_key l = key"
  by (auto simp: find_lock_def find_Some_iff)

lemma find_lock_in: "find_lock tbl key = Some l \<Longrightarrow> l \<in> set tbl"
  by (auto simp: find_lock_def find_Some_iff)

lemma find_lock_Nil [simp]: "find_lock [] key = None"
  by (simp add: find_lock_def)

lemma find_lock_Cons [simp]:
  "find_lock (l # tbl) key = (if lk_destination_key l = key then Some l else find_lock tbl key)"
  by (simp add: find_lock_def)

lemma find_lock_append:
  "find_lock (xs @ ys) key = (case find_lock xs key of None \<Rightarrow> find_lock ys key | Some l \<Rightarrow> Some l)"
  by (induction xs) auto

lemma find_lock_filter:
  "find_lock tbl key = Some l \<Longrightarrow> P l \<Longrightarrow> find_lock (filter P tbl) key = Some l"
  by (induction tbl) (auto split: if_splits)

lemma find_lock_None: "find_lock tbl key = None \<longleftrightarrow> key \<notin> set (lock_keys tbl)"
  by (induction tbl) auto

lemma find_lock_filter_None: "find_lock tbl key = None \<Longrightarrow> find_lock (filter P tbl) key = None"
  by (auto simp: find_lock_None)

lemma find_lock_remove:
  "find_lock (filter (\<lambda>x. lk_destination_key x \<noteq> k) tbl) key =
     (if key = k then None else find_lock tbl key)"
  by (induction tbl) auto

lemma find_lock_map_key:
  "(\<And>x. lk_destination_key (g x) = lk_destination_key x) \<Longrightarrow>
     find_lock (map g tbl) key = map_option g (find_lock tbl key)"
  by (induction tbl) auto

lemma find_replace_lock:
  "find_lock (replace_lock l tbl) key = (if key = lk_destination_key l then Some l else find_lock tbl key)"
  by (auto simp: replace_lock_def find_lock_append find_lock_remove split: option.split)

lemma replace_lock_distinct:
  "distinct (lock_keys tbl) \<Longrightarrow> distinct (lock_keys (replace_lock l tbl))"
  by (auto simp: replace_lock_def distinct_map_filter)

text \<open>Every handler keeps the primary key unique and the configuration unchanged.\<close>

lemma acquire_keys:
  "ls_locks (fst (post_acquire who f h q now i st)) = ls_locks st \<or>
   (\<exists>l. ls_locks (fst (post_acquire who f h q now i st)) = replace_lock l (ls_locks st))"
  by (auto simp: post_acquire_def Let_def split: sum.split option.split)

lemma heartbeat_keys:
  "lock_keys (ls_locks (fst (post_heartbeat who f h i q now st))) = lock_keys (ls_locks st)"
  by (simp add: post_heartbeat_def Let_def split: sum.split option.split)

lemma release_keys:
  "ls_locks (fst (post_release who f h s i q now st)) = ls_locks st \<or>
   (\<exists>P. ls_locks (fst (post_release who f h s i q now st)) = filter P (ls_locks st))"
  by (auto simp: post_release_def Let_def split: sum.split option.split)

lemma reap_keys:
  "ls_locks (fst (reap_expired_folder_locks now st)) = ls_locks st \<or>
   (\<exists>P. ls_locks (fst (reap_expired_folder_locks now st)) = filter P (ls_locks st))"
  by (auto simp: reap_expired_folder_locks_def Let_def split: sum.split option.split)

lemma handle_lock_distinct:
  assumes "distinct (lock_keys (ls_locks st))"
  shows "distinct (lock_keys (ls_locks (handle_lock rq st)))"
proof (cases rq)
  case (Lk_Acquire who f h q now i)
  then show ?thesis using acquire_keys [of who f h q now i st] assms replace_lock_distinct by auto
next
  case (Lk_Heartbeat who f h i q now)
  then show ?thesis using assms by (simp add: heartbeat_keys)
next
  case (Lk_Release who f h s i q now)
  then show ?thesis using release_keys [of who f h s i q now st] assms by (auto simp: distinct_map_filter)
next
  case (Lk_Reap now)
  then show ?thesis using reap_keys [of now st] assms by (auto simp: distinct_map_filter)
qed

lemma handle_lock_config [simp]: "ls_config (handle_lock rq st) = ls_config st"
  by (cases rq)
    (auto simp: post_acquire_def post_heartbeat_def post_release_def reap_expired_folder_locks_def Let_def
      split: sum.split option.split)

lemma fold_handle_lock_config [simp]: "ls_config (fold handle_lock rqs st) = ls_config st"
  by (induction rqs arbitrary: st) auto

lemma fold_handle_lock_distinct:
  "distinct (lock_keys (ls_locks st)) \<Longrightarrow> distinct (lock_keys (ls_locks (fold handle_lock rqs st)))"
  by (induction rqs arbitrary: st) (auto simp: handle_lock_distinct)

text \<open>A live lock is untouched by the requests of other hosts and by the reaper.\<close>

lemma other_host_keeps_lock:
  assumes l: "find_lock (ls_locks st) key = Some l" and live: "lock_live l (lock_request_now rq)"
    and other: "lock_request_host rq \<noteq> lk_locked_by l"
  shows "find_lock (ls_locks (handle_lock rq st)) key = Some l"
proof (cases rq)
  case (Lk_Acquire who f h q now i)
  then have "lock_blocks l h now" using live other by (simp add: lock_blocks_iff)
  then show ?thesis
    using l find_lock_key [OF l]
    by (auto simp: Lk_Acquire post_acquire_def Let_def find_replace_lock split: sum.split option.split)
next
  case (Lk_Heartbeat who f h i q now)
  then show ?thesis
    using l other
    by (auto simp: post_heartbeat_def Let_def find_lock_map_key find_lock_key [OF l]
        split: sum.split option.split)
next
  case (Lk_Release who f h s i q now)
  then show ?thesis
    using l other
    by (auto simp: post_release_def Let_def find_lock_remove split: sum.split option.split)
next
  case (Lk_Reap now)
  then show ?thesis
    using l live lock_live_not_expired [of l now]
    by (auto simp: reap_expired_folder_locks_def Let_def intro: find_lock_filter)
qed

lemma other_hosts_keep_lock:
  assumes "find_lock (ls_locks st) key = Some l"
    and "\<forall>rq \<in> set rqs. lock_live l (lock_request_now rq) \<and> lock_request_host rq \<noteq> lk_locked_by l"
  shows "find_lock (ls_locks (fold handle_lock rqs st)) key = Some l"
  using assms by (induction rqs arbitrary: st) (auto simp: other_host_keeps_lock)

section \<open>The outcome of an acquire\<close>

lemma acquire_key:
  assumes "device_may_access_host who (Some h)" "canonical_key_for_acquire (ls_config st) f h q = Inr key"
  shows "post_acquire who f h q now i st =
    (case find_lock (ls_locks st) key of
       Some l \<Rightarrow>
         if lock_blocks l h now
         then (st, snd (post_acquire who f h q now i st))
         else (st\<lparr> ls_locks := replace_lock
                \<lparr> lk_destination_key = key, lk_folder_id = Some f, lk_locked_by = Some h,
                  lk_locked_at = Some now, lk_lock_ttl = Some DEFAULT_LOCK_TTL, lk_lock_id = Some i \<rparr>
                (ls_locks st) \<rparr>, Lock_Ok (i, key))
     | None \<Rightarrow>
         (st\<lparr> ls_locks := replace_lock
                \<lparr> lk_destination_key = key, lk_folder_id = Some f, lk_locked_by = Some h,
                  lk_locked_at = Some now, lk_lock_ttl = Some DEFAULT_LOCK_TTL, lk_lock_id = Some i \<rparr>
                (ls_locks st) \<rparr>, Lock_Ok (i, key)))"
  using assms by (simp add: post_acquire_def Let_def split: option.split)

lemma acquire_ok:
  assumes "snd (post_acquire who f h q now i st) = Lock_Ok (i', key)"
  shows "device_may_access_host who (Some h)"
    and "canonical_key_for_acquire (ls_config st) f h q = Inr key"
    and "find_lock (ls_locks (fst (post_acquire who f h q now i st))) key =
      Some \<lparr> lk_destination_key = key, lk_folder_id = Some f, lk_locked_by = Some h,
             lk_locked_at = Some now, lk_lock_ttl = Some DEFAULT_LOCK_TTL, lk_lock_id = Some i \<rparr>"
  using assms
  by (auto simp: post_acquire_def Let_def find_replace_lock split: if_splits sum.splits option.splits)

lemma acquire_blocked:
  assumes "device_may_access_host who (Some h)" "canonical_key_for_acquire (ls_config st) f h q = Inr key"
    and "find_lock (ls_locks st) key = Some l" "lock_blocks l h now"
  shows "post_acquire who f h q now i st =
    (st, Lock_Refused 409 (Folder_Locked (or_default (lk_locked_by l) '''') (or_default (lk_locked_at l) 0)
       (or_default (lk_lock_ttl l) DEFAULT_LOCK_TTL) key
       (ceil_sec (or_default (lk_locked_at l) 0 + or_default (lk_lock_ttl l) DEFAULT_LOCK_TTL * 1000 - now))))"
  using assms by (simp add: post_acquire_def Let_def)

text \<open>For a daemon with an assignment the key it sends plays no part.\<close>

lemma client_key_is_ignored:
  assumes "find (\<lambda>f. fo_id f = folder_id) (lc_folders cfg) \<noteq> None"
    and "find (\<lambda>a. fa_folder_id a = folder_id \<and> fa_host_id a = host_id) (lc_assignments cfg) \<noteq> None"
  shows "canonical_key_for_acquire cfg folder_id host_id q = canonical_key_for_acquire cfg folder_id host_id q'"
  using assms by (auto simp: canonical_key_for_acquire_def)

text \<open>Keys are never blank, so a client that sends its key back names it.\<close>

lemma truthy_Some: "truthy s = Some k \<longleftrightarrow> s = Some k \<and> k \<noteq> []"
  by (auto simp: truthy_def split: option.splits list.splits)

lemma js_trim_nonblank: "c \<in> set s \<Longrightarrow> \<not> js_space c \<Longrightarrow> js_trim s \<noteq> []"
proof -
  assume c: "c \<in> set s" "\<not> js_space c"
  then have "c \<in> set (dropWhile js_space s)"
    by (metis (mono_tags) Un_iff set_append set_takeWhileD takeWhile_dropWhile_id)
  with c(2) show "js_trim s \<noteq> []" by (auto simp: js_trim_def dropWhile_eq_Nil_conv)
qed

lemma canonical_destination_key_nonblank:
  "canonical_destination_key f a = Inr key \<Longrightarrow> js_trim key \<noteq> []"
  by (rule js_trim_nonblank [of "CHR '':''"])
    (auto simp: canonical_destination_key_def Let_def js_space_def split: option.splits sum.splits if_splits)

lemma acquire_key_nonblank:
  assumes "canonical_key_for_acquire cfg f h q = Inr key"
  shows "js_trim key \<noteq> []"
proof (cases "\<exists>k. truthy (map_option js_trim q) = Some k \<and> key = k")
  case True
  then obtain s where s: "key = js_trim s" "key \<noteq> []"
    by (auto simp: truthy_Some)
  with js_trim_ends(1) [of s] show ?thesis
    by (intro js_trim_nonblank [of "hd key"]) auto
next
  case False
  have "js_trim (''folder:'' @ f) \<noteq> []"
    by (rule js_trim_nonblank [of "CHR '':''"]) (auto simp: js_space_def)
  with False assms canonical_destination_key_nonblank show ?thesis
    by (auto simp: canonical_key_for_acquire_def Let_def split: option.splits prod.splits)
qed

section \<open>Properties\<close>

text \<open>
  C32. One writer per destination. Once a host has acquired the lock of a destination, every
  other host whose request resolves to the same key is refused with 409, naming the holder,
  until the 20 minutes have passed: whatever requests other hosts send in between, under
  whatever keys, and however often the reaper runs.
\<close>

theorem same_destination_is_serialized:
  assumes "snd (post_acquire who folder host q t i st) = Lock_Ok (i', key)" and "host \<noteq> []"
    and "\<forall>rq \<in> set rqs. lock_request_host rq \<noteq> Some host \<and> lock_request_now rq < t + 1200000"
    and "canonical_key_for_acquire (ls_config st) folder2 host2 q2 = Inr key" and "host2 \<noteq> host"
    and "device_may_access_host who2 (Some host2)" and "t2 < t + 1200000"
  shows "snd (post_acquire who2 folder2 host2 q2 t2 i2
           (fold handle_lock rqs (fst (post_acquire who folder host q t i st)))) =
         Lock_Refused 409 (Folder_Locked host t 1200 key (ceil_sec (t + 1200000 - t2)))"
proof -
  let ?st = "fst (post_acquire who folder host q t i st)"
  let ?l = "\<lparr> lk_destination_key = key, lk_folder_id = Some folder, lk_locked_by = Some host,
    lk_locked_at = Some t, lk_lock_ttl = Some DEFAULT_LOCK_TTL, lk_lock_id = Some i \<rparr>"
  have live: "lock_live ?l n" if "n < t + 1200000" for n
    using that assms(2) by (auto simp: lock_live_def DEFAULT_LOCK_TTL_def truthy_def split: list.split)
  have cfg: "ls_config ?st = ls_config st"
    using handle_lock_config [of "Lk_Acquire who folder host q t i" st] by simp
  have "find_lock (ls_locks (fold handle_lock rqs ?st)) key = Some ?l"
    using other_hosts_keep_lock [OF acquire_ok(3) [OF assms(1)], of rqs] assms(3) live by auto
  moreover have "lock_blocks ?l host2 t2"
    using live [OF assms(7)] assms(5) by (simp add: lock_blocks_iff)
  ultimately show ?thesis
    using acquire_blocked [OF assms(6), of "fold handle_lock rqs ?st" folder2 q2 key ?l t2 i2] assms(4)
    by (simp add: cfg DEFAULT_LOCK_TTL_def)
qed

text \<open>Two hosts that sync one folder over one connection.\<close>

definition sample_lock_config :: lock_config where
  "sample_lock_config =
     \<lparr> lc_folders = [sample_backup_folder\<lparr>fo_type := FSync\<rparr>],
       lc_assignments = [sample_assignment ''h1'', sample_assignment ''h2''], lc_backends = [] \<rparr>"

definition sample_lock_server :: lock_server where
  "sample_lock_server = \<lparr> ls_config = sample_lock_config, ls_locks = [], ls_schedule = [] \<rparr>"

lemma sample_lock_key:
  "canonical_key_for_acquire sample_lock_config ''f'' ''h1'' None = Inr ''sftp:r:path:Photos''"
  "canonical_key_for_acquire sample_lock_config ''f'' ''h2'' (Some ''mine'') = Inr ''sftp:r:path:Photos''"
  by code_simp+

theorem same_destination_is_serialized_witness:
  "snd (post_acquire (Some (Device_Key ''k2'' ''h2'')) ''f'' ''h2'' (Some ''mine'') 600000 ''i2''
     (fold handle_lock [Lk_Reap 300000]
       (fst (post_acquire (Some (Device_Key ''k1'' ''h1'')) ''f'' ''h1'' None 0 ''i1'' sample_lock_server)))) =
   Lock_Refused 409 (Folder_Locked ''h1'' 0 1200 ''sftp:r:path:Photos'' 600)"
proof -
  have k: "canonical_key_for_acquire (ls_config sample_lock_server) ''f'' ''h1'' None = Inr ''sftp:r:path:Photos''"
    "canonical_key_for_acquire (ls_config sample_lock_server) ''f'' ''h2'' (Some ''mine'') = Inr ''sftp:r:path:Photos''"
    using sample_lock_key by (simp_all add: sample_lock_server_def)
  have a: "snd (post_acquire (Some (Device_Key ''k1'' ''h1'')) ''f'' ''h1'' None 0 ''i1'' sample_lock_server) =
      Lock_Ok (''i1'', ''sftp:r:path:Photos'')"
    by (simp add: post_acquire_def k) (simp add: sample_lock_server_def)
  show ?thesis
    using same_destination_is_serialized [OF a, of "[Lk_Reap 300000]" "''f''" "''h2''" "Some ''mine''"
        "Some (Device_Key ''k2'' ''h2'')" 600000 "''i2''"] k(2)
    by (simp add: ceil_sec_def)
qed



text \<open>
  A lock id fences an old run out. When a host acquires a key again (a restarted daemon,
  say), a heartbeat or a release that still carries an earlier lock id is refused and
  changes nothing, whether it names the key or lets the server derive it.
\<close>

theorem stale_lock_ids_are_refused:
  assumes "snd (post_acquire who folder host q t i st) = Lock_Ok (i', key)" and "old \<noteq> i"
  shows "let st' = fst (post_acquire who folder host q t i st)
         in fst (post_heartbeat who2 folder2 host2 (Some old) (Some key) t2 st') = st' \<and>
            fst (post_release who2 folder2 host2 status (Some old) (Some key) t2 st') = st' \<and>
            (\<forall>n. snd (post_heartbeat who2 folder2 host2 (Some old) (Some key) t2 st') \<noteq> Lock_Ok n) \<and>
            snd (post_release who2 folder2 host2 status (Some old) (Some key) t2 st') \<noteq> Lock_Ok ()"
proof -
  let ?st = "fst (post_acquire who folder host q t i st)"
  have "js_trim key \<noteq> []" using acquire_key_nonblank [OF acquire_ok(2) [OF assms(1)]] .
  then have k: "named_key cfg f h (Some key) = Inr key" for cfg f h by (simp add: named_key_def)
  show ?thesis
    using acquire_ok(3) [OF assms(1)] assms(2)
    by (simp add: Let_def post_heartbeat_def post_release_def k)
qed

theorem stale_lock_ids_are_refused_witness:
  "let who = Some (Device_Key ''k1'' ''h1'');
       st = fst (post_acquire who ''f'' ''h1'' None 5 ''i2''
              (fst (post_acquire who ''f'' ''h1'' None 0 ''i1'' sample_lock_server)))
   in fst (post_release who ''f'' ''h1'' ''success'' (Some ''i1'') (Some ''sftp:r:path:Photos'') 9 st) = st"
proof -
  let ?who = "Some (Device_Key ''k1'' ''h1'')"
  let ?st = "fst (post_acquire ?who ''f'' ''h1'' None 0 ''i1'' sample_lock_server)"
  have k: "canonical_key_for_acquire (ls_config sample_lock_server) ''f'' ''h1'' None = Inr ''sftp:r:path:Photos''"
    using sample_lock_key(1) by (simp add: sample_lock_server_def)
  have st: "?st = sample_lock_server\<lparr> ls_locks := [\<lparr> lk_destination_key = ''sftp:r:path:Photos'',
      lk_folder_id = Some ''f'', lk_locked_by = Some ''h1'', lk_locked_at = Some 0,
      lk_lock_ttl = Some 1200, lk_lock_id = Some ''i1'' \<rparr>] \<rparr>"
    by (simp add: post_acquire_def k) (simp add: sample_lock_server_def replace_lock_def DEFAULT_LOCK_TTL_def)
  have "snd (post_acquire ?who ''f'' ''h1'' None 5 ''i2'' ?st) = Lock_Ok (''i2'', ''sftp:r:path:Photos'')"
    unfolding st by (simp add: post_acquire_def k lock_blocks_def truthy_def)
  from stale_lock_ids_are_refused [OF this, of "''i1''"] show ?thesis by (simp add: Let_def)
qed

end
