(* ===== verification/Action_Queue.thy ===== *)
theory Action_Queue
  imports Destinations Folder_Health Seed_Routes Versions "HOL-Library.Multiset"
begin

text \<open>
  The action queue of \<open>server/src/routes/actions.ts\<close>: the control plane queues an action for
  a host, the daemon of the host claims it under a lease, renews the lease while it works
  and acknowledges the outcome, which also goes to the operation log. The table
  \<open>queued_actions\<close> is the list of its rows in insertion order; the payload column holds the
  JSON text of a value and is that value here. Handlers are one request each; where a
  handler reads the clock twice it has two clock values.
\<close>

section \<open>State\<close>

datatype queued_action_status = Act_Pending | Act_Taken | Act_Done | Act_Failed

record action_row =
  ac_id :: string
  ac_host_id :: string
  ac_type :: string
  ac_payload :: "json option"
  ac_status :: queued_action_status
  ac_created_at :: int
  ac_taken_at :: "int option"
  ac_completed_at :: "int option"
  ac_result :: "string option"
  ac_lease :: "int option"

text \<open>The columns of \<open>operation_log\<close> a completed action fills in.\<close>

record action_log_row =
  al_timestamp :: int
  al_host_id :: string
  al_operation :: string
  al_status :: queued_action_status
  al_summary :: "string option"

record action_server =
  as_hosts :: "string list"
  as_plans :: "folder_sync_plan list"
  as_rows :: "action_row list"
  as_log :: "action_log_row list"

text \<open>What a reply shows of a row: everything but the lease, and a payload only if it is an
  object.\<close>

record queued_action =
  qd_id :: string
  qd_host_id :: string
  qd_type :: string
  qd_payload :: "(string \<times> json) list option"
  qd_status :: queued_action_status
  qd_created_at :: int
  qd_taken_at :: "int option"
  qd_completed_at :: "int option"
  qd_result :: "string option"

definition row_to_action :: "action_row \<Rightarrow> queued_action" where
  "row_to_action r =
     \<lparr> qd_id = ac_id r, qd_host_id = ac_host_id r, qd_type = ac_type r,
       qd_payload = (case ac_payload r of Some (JObj kvs) \<Rightarrow> Some kvs | _ \<Rightarrow> None),
       qd_status = ac_status r, qd_created_at = ac_created_at r, qd_taken_at = ac_taken_at r,
       qd_completed_at = ac_completed_at r, qd_result = ac_result r \<rparr>"

definition ACTION_LEASE_MS :: int where
  "ACTION_LEASE_MS = 10 * 60000"

definition ACTION_TYPES :: "string list" where
  "ACTION_TYPES =
     [''trigger_sync'', ''trigger_backup'', ''check_update'', ''refresh_config'', ''update_daemon'',
      ''diagnose_folder'', ''plan_folder'', ''folder_intervention'']"

definition is_action_type :: "string \<Rightarrow> bool" where
  "is_action_type t \<longleftrightarrow> t \<in> set ACTION_TYPES"

definition PENDING_TAKE_LIMIT :: rat where "PENDING_TAKE_LIMIT = 10"
definition ACTION_HISTORY_LIMIT :: rat where "ACTION_HISTORY_LIMIT = 50"
definition ACTION_HISTORY_MAX_LIMIT :: rat where "ACTION_HISTORY_MAX_LIMIT = 200"

text \<open>\<open>isCompletionStatus\<close> with the status it stands for.\<close>

definition act_completion :: "string \<Rightarrow> queued_action_status option" where
  "act_completion s =
     (if s = ''done'' then Some Act_Done else if s = ''failed'' then Some Act_Failed else None)"

section \<open>The limit of a listing\<close>

text \<open>\<open>Number.parseInt(s, 10)\<close>: leading white space, a sign, and the digits that follow.\<close>

definition js_parse_int :: "string \<Rightarrow> jnum" where
  "js_parse_int s =
     (let t = trim_start s;
          neg = starts_with ''-'' t;
          body = (if neg \<or> starts_with ''+'' t then tl t else t);
          digits = takeWhile is_digit body;
          n = parse_dec digits
      in if digits = [] then NaN
         else if js_infinity_bound \<le> n then (if neg then NegInf else PosInf)
         else Fin (if neg then - of_nat n else of_nat n))"

datatype query_limit = Limit_Number jnum | Limit_Text string

definition safe_limit :: "query_limit option \<Rightarrow> rat \<Rightarrow> rat" where
  "safe_limit limit fallback =
     (let requested = (case limit of
                         None \<Rightarrow> Fin fallback
                       | Some (Limit_Number n) \<Rightarrow> n
                       | Some (Limit_Text s) \<Rightarrow> if s = [] then Fin fallback else js_parse_int s)
      in case requested of
           Fin r \<Rightarrow> min (max 1 r) ACTION_HISTORY_MAX_LIMIT
         | _ \<Rightarrow> fallback)"

text \<open>SQLite takes a LIMIT only if it is an integer and fails the statement otherwise.\<close>

definition sql_limit :: "rat \<Rightarrow> nat option" where
  "sql_limit r = (if of_int \<lfloor>r\<rfloor> = r then Some (nat \<lfloor>r\<rfloor>) else None)"

section \<open>Handlers\<close>

datatype action_refusal =
    Act_Forbidden
  | Invalid_Action_Type
  | Update_Takes_No_Payload
  | Act_Payload wire_error
  | Plan_Gone
  | Plan_Mismatch plan_refusal
  | Host_Not_Found
  | Host_Id_Required
  | Action_Not_Found
  | Not_Taken queued_action_status
  | Invalid_Completion
  | Act_Storage_Error

datatype 'a action_reply = Act_Ok 'a | Act_Refused nat action_refusal

definition effective_lease :: "action_row \<Rightarrow> int" where
  "effective_lease r =
     (case ac_lease r of Some l \<Rightarrow> l | None \<Rightarrow> or_default (ac_taken_at r) 0 + ACTION_LEASE_MS)"

definition requeue_row :: "action_row \<Rightarrow> action_row" where
  "requeue_row r = r\<lparr> ac_status := Act_Pending, ac_taken_at := None, ac_lease := None \<rparr>"

definition reap_stale_taken_actions :: "int \<Rightarrow> action_server \<Rightarrow> action_server" where
  "reap_stale_taken_actions now st =
     st\<lparr> as_rows := map (\<lambda>r. if ac_status r = Act_Taken \<and> effective_lease r < now
                            then requeue_row r else r) (as_rows st) \<rparr>"

text \<open>The payload of a request; \<open>undefined\<close> and null count as no payload. The folder actions
  read no payload as the empty object.\<close>

definition sent_payload :: "json option \<Rightarrow> json option" where
  "sent_payload p = (case p of Some v \<Rightarrow> if v = JNull \<or> v = JUndef then None else Some v | None \<Rightarrow> None)"

definition given_payload :: "json option \<Rightarrow> json" where
  "given_payload p = or_default (sent_payload p) (JObj [])"

definition semantic_request :: "folder_intervention_payload \<Rightarrow> plan_semantic_request" where
  "semantic_request p =
     \<lparr> psr_intervention = ip_intervention p, psr_authority = ip_authority p,
       psr_max_delete_percent = ip_max_delete_percent p \<rparr>"

definition action_payload_refusal ::
    "folder_sync_plan list \<Rightarrow> string \<Rightarrow> json option \<Rightarrow> action_refusal option" where
  "action_payload_refusal plans type payload =
     (if type = ''update_daemon'' \<and> sent_payload payload \<noteq> None
        then Some Update_Takes_No_Payload
      else if type = ''diagnose_folder'' then
        (case parse_folder_diagnose_payload (given_payload payload) of
           Inl e \<Rightarrow> Some (Act_Payload e) | Inr _ \<Rightarrow> None)
      else if type = ''plan_folder'' then
        (case parse_folder_plan_request_payload (given_payload payload) of
           Inl e \<Rightarrow> Some (Act_Payload e) | Inr _ \<Rightarrow> None)
      else if type = ''folder_intervention'' then
        (case parse_folder_intervention_payload (given_payload payload) of
           Inl e \<Rightarrow> Some (Act_Payload e)
         | Inr p \<Rightarrow>
             (case ip_plan_id p of
                None \<Rightarrow> None
              | Some pid \<Rightarrow>
                  (case find (\<lambda>q. fp_id q = pid) plans of
                     None \<Rightarrow> Some Plan_Gone
                   | Some plan \<Rightarrow>
                       (case check_plan_semantics plan (semantic_request p) of
                          Inl x \<Rightarrow> Some (Plan_Mismatch x) | Inr _ \<Rightarrow> None))))
      else None)"

definition new_action :: "string \<Rightarrow> string \<Rightarrow> string \<Rightarrow> json option \<Rightarrow> int \<Rightarrow> action_row" where
  "new_action i host type payload now =
     \<lparr> ac_id = i, ac_host_id = host, ac_type = type,
       ac_payload = sent_payload payload, ac_status = Act_Pending,
       ac_created_at = now, ac_taken_at = None, ac_completed_at = None, ac_result = None,
       ac_lease = None \<rparr>"

text \<open>INSERT: the id is the primary key.\<close>

definition insert_action :: "action_row \<Rightarrow> action_server \<Rightarrow> action_server option" where
  "insert_action r st =
     (if ac_id r \<in> ac_id ` set (as_rows st) then None
      else Some (st\<lparr> as_rows := as_rows st @ [r] \<rparr>))"

definition post_action ::
    "auth_principal option \<Rightarrow> string \<Rightarrow> string \<Rightarrow> json option \<Rightarrow> string \<Rightarrow> int \<Rightarrow> action_server \<Rightarrow>
     action_server \<times> queued_action action_reply" where
  "post_action who host type payload new_id now st =
     (if \<not> require_admin who then (st, Act_Refused 403 Act_Forbidden)
      else if \<not> is_action_type type then (st, Act_Refused 400 Invalid_Action_Type)
      else case action_payload_refusal (as_plans st) type payload of
        Some e \<Rightarrow> (st, Act_Refused 400 e)
      | None \<Rightarrow>
          if host \<notin> set (as_hosts st) then (st, Act_Refused 404 Host_Not_Found)
          else (case insert_action (new_action new_id host type payload now) st of
                  None \<Rightarrow> (st, Act_Refused 500 Act_Storage_Error)
                | Some st' \<Rightarrow> (st', Act_Ok (row_to_action (new_action new_id host type payload now)))))"

definition take_row :: "int \<Rightarrow> action_row \<Rightarrow> action_row" where
  "take_row now r =
     r\<lparr> ac_status := Act_Taken, ac_taken_at := Some now, ac_lease := Some (now + ACTION_LEASE_MS) \<rparr>"

text \<open>The poll. The reply has the claimed rows in the order of the table.\<close>

definition oldest_pending :: "string \<Rightarrow> nat \<Rightarrow> action_row list \<Rightarrow> action_row list" where
  "oldest_pending host n rows =
     take n (sort_key ac_created_at
       (filter (\<lambda>r. ac_host_id r = host \<and> ac_status r = Act_Pending) rows))"

definition claim_ids :: "int \<Rightarrow> string set \<Rightarrow> action_server \<Rightarrow> action_server" where
  "claim_ids now ids st =
     st\<lparr> as_rows := map (\<lambda>r. if ac_id r \<in> ids \<and> ac_status r = Act_Pending then take_row now r else r)
            (as_rows st) \<rparr>"

definition get_pending ::
    "auth_principal option \<Rightarrow> string option \<Rightarrow> query_limit option \<Rightarrow> int \<Rightarrow> int \<Rightarrow> action_server \<Rightarrow>
     action_server \<times> queued_action list action_reply" where
  "get_pending who host limit reap_now now st =
     (if \<not> device_may_access_host who host then (st, Act_Refused 403 Act_Forbidden)
      else case truthy host of
        None \<Rightarrow> (st, Act_Refused 400 Host_Id_Required)
      | Some h \<Rightarrow>
          (let st1 = reap_stale_taken_actions reap_now st
           in case sql_limit (safe_limit limit PENDING_TAKE_LIMIT) of
                None \<Rightarrow> (st1, Act_Refused 500 Act_Storage_Error)
              | Some n \<Rightarrow>
                  (let ids = set (map ac_id (oldest_pending h n (as_rows st1)));
                       st2 = claim_ids now ids st1
                   in (st2, Act_Ok (map row_to_action (filter (\<lambda>r. ac_id r \<in> ids) (as_rows st2)))))))"

definition get_taken ::
    "auth_principal option \<Rightarrow> string option \<Rightarrow> action_server \<Rightarrow> queued_action list action_reply" where
  "get_taken who host st =
     (if \<not> device_may_access_host who host then Act_Refused 403 Act_Forbidden
      else case truthy host of
        None \<Rightarrow> Act_Refused 400 Host_Id_Required
      | Some h \<Rightarrow>
          Act_Ok (map row_to_action (sort_key ac_created_at
            (filter (\<lambda>r. ac_host_id r = h \<and> ac_status r = Act_Taken) (as_rows st)))))"

definition find_action :: "action_server \<Rightarrow> string \<Rightarrow> action_row option" where
  "find_action st i = find (\<lambda>r. ac_id r = i) (as_rows st)"

definition update_action :: "string \<Rightarrow> (action_row \<Rightarrow> action_row) \<Rightarrow> action_server \<Rightarrow> action_server" where
  "update_action i f st = st\<lparr> as_rows := map (\<lambda>r. if ac_id r = i then f r else r) (as_rows st) \<rparr>"

definition renew_row :: "int \<Rightarrow> action_row \<Rightarrow> action_row" where
  "renew_row now r =
     (if ac_status r = Act_Taken then r\<lparr> ac_lease := Some (now + ACTION_LEASE_MS) \<rparr> else r)"

definition post_action_lease ::
    "auth_principal option \<Rightarrow> string \<Rightarrow> int \<Rightarrow> action_server \<Rightarrow>
     action_server \<times> queued_action action_reply" where
  "post_action_lease who i now st =
     (case find_action st i of
        None \<Rightarrow> (st, Act_Refused 404 Action_Not_Found)
      | Some r \<Rightarrow>
          if \<not> device_may_access_host who (Some (ac_host_id r)) then (st, Act_Refused 403 Act_Forbidden)
          else if ac_status r \<noteq> Act_Taken then (st, Act_Refused 409 (Not_Taken (ac_status r)))
          else (update_action i (renew_row now) st, Act_Ok (row_to_action (renew_row now r))))"

definition settle_row :: "queued_action_status \<Rightarrow> string option \<Rightarrow> int \<Rightarrow> action_row \<Rightarrow> action_row" where
  "settle_row s result now r =
     r\<lparr> ac_status := s, ac_completed_at := Some now, ac_result := result, ac_lease := None \<rparr>"

definition log_entry ::
    "action_row \<Rightarrow> queued_action_status \<Rightarrow> string option \<Rightarrow> int \<Rightarrow> action_log_row" where
  "log_entry r s result now =
     \<lparr> al_timestamp = now, al_host_id = ac_host_id r, al_operation = ac_type r, al_status = s,
       al_summary = result \<rparr>"

definition post_action_complete ::
    "auth_principal option \<Rightarrow> string \<Rightarrow> string \<Rightarrow> string option \<Rightarrow> int \<Rightarrow> action_server \<Rightarrow>
     action_server \<times> queued_action action_reply" where
  "post_action_complete who i status result now st =
     (case act_completion status of
        None \<Rightarrow> (st, Act_Refused 400 Invalid_Completion)
      | Some s \<Rightarrow>
     (case find_action st i of
        None \<Rightarrow> (st, Act_Refused 404 Action_Not_Found)
      | Some r \<Rightarrow>
          if \<not> device_may_access_host who (Some (ac_host_id r)) then (st, Act_Refused 403 Act_Forbidden)
          else if ac_status r = Act_Done \<or> ac_status r = Act_Failed
            then (st, Act_Ok (row_to_action r))
          else ((update_action i (settle_row s result now) st)\<lparr> as_log :=
                   as_log st @ [log_entry r s result now] \<rparr>,
                Act_Ok (row_to_action (settle_row s result now r)))))"

text \<open>The history of a host, newest first; \<open>status\<close> is compared as text.\<close>

definition status_name :: "queued_action_status \<Rightarrow> string" where
  "status_name s = (case s of Act_Pending \<Rightarrow> ''pending'' | Act_Taken \<Rightarrow> ''taken''
     | Act_Done \<Rightarrow> ''done'' | Act_Failed \<Rightarrow> ''failed'')"

definition get_action_history ::
    "auth_principal option \<Rightarrow> string \<Rightarrow> string option \<Rightarrow> query_limit option \<Rightarrow> action_server \<Rightarrow>
     queued_action list action_reply" where
  "get_action_history who host status limit st =
     (if \<not> require_admin who then Act_Refused 403 Act_Forbidden
      else case sql_limit (safe_limit limit ACTION_HISTORY_LIMIT) of
        None \<Rightarrow> Act_Refused 500 Act_Storage_Error
      | Some n \<Rightarrow>
          Act_Ok (map row_to_action (take n (sort_key (\<lambda>r. - ac_created_at r)
            (filter (\<lambda>r. ac_host_id r = host \<and>
                          (case truthy status of None \<Rightarrow> True | Some s \<Rightarrow> status_name (ac_status r) = s))
              (as_rows st))))))"

text \<open>The actions the creation of a seed job queues (\<open>enqueueSeedJobActions\<close>), as rows.\<close>

definition seed_action_row :: "queued_seed_action \<Rightarrow> action_row" where
  "seed_action_row q =
     new_action (qa_id q) (qa_host_id q) ''seed_job''
       (Some (JObj [(''jobId'', JStr (qa_job_id q)), (''role'', JStr (role_name (qa_role q)))]))
       (qa_created_at q)"

section \<open>Runs\<close>

datatype action_request =
    Enqueue "auth_principal option" string string "json option" string int
  | Enqueue_Seed queued_seed_action
  | Poll "auth_principal option" "string option" "query_limit option" int int
  | Renew "auth_principal option" string int
  | Complete "auth_principal option" string string "string option" int

fun handle_action :: "action_request \<Rightarrow> action_server \<Rightarrow> action_server" where
  "handle_action (Enqueue who h t p i now) st = fst (post_action who h t p i now st)"
| "handle_action (Enqueue_Seed q) st = or_default (insert_action (seed_action_row q) st) st"
| "handle_action (Poll who h l rn now) st = fst (get_pending who h l rn now st)"
| "handle_action (Renew who i now) st = fst (post_action_lease who i now st)"
| "handle_action (Complete who i s res now) st = fst (post_action_complete who i s res now st)"

fun action_request_who :: "action_request \<Rightarrow> auth_principal option" where
  "action_request_who (Enqueue who h t p i now) = who"
| "action_request_who (Enqueue_Seed q) = Some Master_Key"
| "action_request_who (Poll who h l rn now) = who"
| "action_request_who (Renew who i now) = who"
| "action_request_who (Complete who i s res now) = who"

definition run_actions :: "action_request list \<Rightarrow> action_server \<Rightarrow> action_server" where
  "run_actions reqs st = fold handle_action reqs st"

section \<open>The life of one action\<close>

text \<open>
  The contract of the queue, for one row: a lapsed claim is put back, a pending action is
  claimed, a claim is renewed, an open action is settled. The last three need access to the
  host of the action.
\<close>

inductive act_step :: "auth_principal option \<Rightarrow> action_row \<Rightarrow> action_row \<Rightarrow> bool" for who where
  Requeue: "ac_status r = Act_Taken \<Longrightarrow> effective_lease r < now \<Longrightarrow> act_step who r (requeue_row r)"
| Claim: "ac_status r = Act_Pending \<Longrightarrow> device_may_access_host who (Some (ac_host_id r)) \<Longrightarrow>
    act_step who r (take_row now r)"
| Keep_Alive: "ac_status r = Act_Taken \<Longrightarrow> device_may_access_host who (Some (ac_host_id r)) \<Longrightarrow>
    act_step who r (renew_row now r)"
| Settle: "ac_status r \<in> {Act_Pending, Act_Taken} \<Longrightarrow> s \<in> {Act_Done, Act_Failed} \<Longrightarrow>
    device_may_access_host who (Some (ac_host_id r)) \<Longrightarrow> act_step who r (settle_row s result now r)"

inductive_cases act_stepE: "act_step who r r'"

definition settled :: "action_row \<Rightarrow> bool" where
  "settled r \<longleftrightarrow> ac_status r = Act_Done \<or> ac_status r = Act_Failed"

lemmas row_update_defs = requeue_row_def take_row_def renew_row_def settle_row_def

lemma act_step_identity:
  "act_step who r r' \<Longrightarrow>
     ac_id r' = ac_id r \<and> ac_host_id r' = ac_host_id r \<and> ac_type r' = ac_type r \<and>
     ac_payload r' = ac_payload r \<and> ac_created_at r' = ac_created_at r \<and> \<not> settled r"
  by (auto elim!: act_stepE simp: row_update_defs settled_def)

lemma act_steps_identity:
  "(act_step who)\<^sup>*\<^sup>* r r' \<Longrightarrow>
     ac_id r' = ac_id r \<and> ac_host_id r' = ac_host_id r \<and> ac_type r' = ac_type r \<and>
     ac_payload r' = ac_payload r \<and> ac_created_at r' = ac_created_at r \<and> (settled r \<longrightarrow> r' = r)"
proof (induction rule: rtranclp_induct)
  case (step y z)
  then show ?case by (auto dest: act_step_identity)
qed simp

text \<open>Rows of another host can only be requeued by a device.\<close>

lemma act_steps_foreign:
  assumes "(act_step who)\<^sup>*\<^sup>* r r'" and "\<not> device_may_access_host who (Some (ac_host_id r))"
  shows "r' = r \<or> ac_status r = Act_Taken \<and> r' = requeue_row r"
  using assms
proof (induction rule: rtranclp_induct)
  case (step y z)
  from step.IH [OF step.prems] have "ac_host_id y = ac_host_id r"
    by (auto simp: requeue_row_def)
  with step.hyps(2) step.prems have "ac_status y = Act_Taken \<and> z = requeue_row y"
    by (auto elim!: act_stepE)
  with step.IH [OF step.prems] show ?case by (auto simp: requeue_row_def)
qed simp

section \<open>Every request moves every row by steps of its life\<close>

text \<open>A request maps the rows it finds and appends new pending ones.\<close>

definition rows_follow ::
    "auth_principal option \<Rightarrow> action_row list \<Rightarrow> action_row list \<Rightarrow> bool" where
  "rows_follow who rows rows' \<longleftrightarrow>
     list_all2 (act_step who)\<^sup>*\<^sup>* rows (take (length rows) rows') \<and>
     length rows \<le> length rows' \<and> list_all (\<lambda>r. ac_status r = Act_Pending) (drop (length rows) rows')"

lemma rows_follow_refl [simp]: "rows_follow who rows rows"
  by (simp add: rows_follow_def list.rel_refl)

lemma rows_follow_map:
  "(\<And>r. r \<in> set rows \<Longrightarrow> (act_step who)\<^sup>*\<^sup>* r (f r)) \<Longrightarrow> rows_follow who rows (map f rows)"
  by (simp add: rows_follow_def list_all2_conv_all_nth)

lemma rows_follow_snoc:
  "ac_status r = Act_Pending \<Longrightarrow> rows_follow who rows (rows @ [r])"
  by (simp add: rows_follow_def list.rel_refl)

lemma find_action_Some:
  "find_action st i = Some r \<Longrightarrow> r \<in> set (as_rows st) \<and> ac_id r = i"
  by (auto simp: find_action_def dest: find_SomeD)

definition unique_actions :: "action_server \<Rightarrow> bool" where
  "unique_actions st \<longleftrightarrow> distinct (map ac_id (as_rows st))"

lemma unique_find_action:
  "unique_actions st \<Longrightarrow> r \<in> set (as_rows st) \<Longrightarrow> find_action st (ac_id r) = Some r"
proof -
  assume u: "unique_actions st" and r: "r \<in> set (as_rows st)"
  then obtain r' where "find_action st (ac_id r) = Some r'"
    by (cases "find_action st (ac_id r)") (auto simp: find_action_def find_None_iff)
  moreover from find_action_Some [OF this] r u have "r' = r"
    by (auto simp: unique_actions_def distinct_map dest: inj_onD)
  ultimately show ?thesis by simp
qed

lemma reap_rows_follow: "rows_follow who (as_rows st) (as_rows (reap_stale_taken_actions now st))"
  by (auto simp: reap_stale_taken_actions_def intro!: rows_follow_map Requeue)

definition poll_row :: "int \<Rightarrow> int \<Rightarrow> string set \<Rightarrow> action_row \<Rightarrow> action_row" where
  "poll_row rn now ids r =
     (let r1 = (if ac_status r = Act_Taken \<and> effective_lease r < rn then requeue_row r else r)
      in if ac_id r1 \<in> ids \<and> ac_status r1 = Act_Pending then take_row now r1 else r1)"

lemma poll_rows:
  "as_rows (claim_ids now ids (reap_stale_taken_actions rn st)) = map (poll_row rn now ids) (as_rows st)"
  by (simp add: claim_ids_def reap_stale_taken_actions_def poll_row_def Let_def comp_def)

lemma oldest_pending_sound:
  assumes "r \<in> set (oldest_pending h n rows)"
  shows "r \<in> set rows \<and> ac_host_id r = h \<and> ac_status r = Act_Pending"
proof -
  from assms have "r \<in> set (sort_key ac_created_at (filter (\<lambda>r. ac_host_id r = h \<and> ac_status r = Act_Pending) rows))"
    unfolding oldest_pending_def by (rule in_set_takeD)
  then show ?thesis by simp
qed

lemma unique_reap [simp]: "unique_actions (reap_stale_taken_actions now st) = unique_actions st"
  by (simp add: unique_actions_def reap_stale_taken_actions_def comp_def requeue_row_def if_distrib cong: if_cong)

lemma poll_ids_host:
  assumes "unique_actions st" and "r \<in> set (as_rows st)"
    and "ac_id r \<in> set (map ac_id (oldest_pending h n (as_rows st)))"
  shows "ac_host_id r = h \<and> ac_status r = Act_Pending"
proof -
  from assms(3) obtain r' where r': "r' \<in> set (oldest_pending h n (as_rows st))" "ac_id r' = ac_id r" by auto
  with oldest_pending_sound [OF r'(1)] assms(1,2) have "r' = r"
    by (auto simp: unique_actions_def distinct_map dest: inj_onD)
  with oldest_pending_sound [OF r'(1)] show ?thesis by simp
qed

lemma claim_rows_follow:
  assumes "unique_actions st" and "device_may_access_host who (Some h)"
  shows "rows_follow who (as_rows st)
           (as_rows (claim_ids now (set (map ac_id (oldest_pending h n (as_rows st)))) st))"
proof -
  have "(act_step who)\<^sup>*\<^sup>* r
      (if ac_id r \<in> set (map ac_id (oldest_pending h n (as_rows st))) \<and> ac_status r = Act_Pending
       then take_row now r else r)" if r: "r \<in> set (as_rows st)" for r
  proof (cases "ac_id r \<in> set (map ac_id (oldest_pending h n (as_rows st)))")
    case True
    with poll_ids_host [OF assms(1) r True] assms(2) show ?thesis
      by (simp add: Claim r_into_rtranclp)
  next
    case False
    then show ?thesis by (simp del: set_map)
  qed
  then show ?thesis unfolding claim_ids_def by (simp add: rows_follow_map del: set_map)
qed

lemma reap_length [simp]: "length (as_rows (reap_stale_taken_actions now st)) = length (as_rows st)"
  by (simp add: reap_stale_taken_actions_def)

lemma rows_follow_trans:
  assumes "rows_follow who a b" and "rows_follow who b c" and "length b = length a"
  shows "rows_follow who a c"
proof -
  from assms(1,3) have "list_all2 (act_step who)\<^sup>*\<^sup>* a b" by (simp add: rows_follow_def)
  moreover from assms(2) have "list_all2 (act_step who)\<^sup>*\<^sup>* b (take (length b) c)"
    by (simp add: rows_follow_def)
  ultimately have "list_all2 (act_step who)\<^sup>*\<^sup>* a (take (length b) c)"
    by (rule list_all2_trans [rotated]) (rule rtranclp_trans)
  with assms(2,3) show ?thesis by (simp add: rows_follow_def)
qed

lemma get_pending_state:
  "fst (get_pending who host limit rn now st) \<in>
     {st, reap_stale_taken_actions rn st} \<union>
     {claim_ids now (set (map ac_id (oldest_pending h n (as_rows (reap_stale_taken_actions rn st)))))
        (reap_stale_taken_actions rn st) | h n. device_may_access_host who (Some h)}"
proof (cases "device_may_access_host who host")
  case True
  show ?thesis
  proof (cases "truthy host")
    case (Some h)
    then have "host = Some h" by (auto simp: truthy_def split: option.splits list.splits if_splits)
    with True Some show ?thesis
      by (auto simp: get_pending_def Let_def split: option.split)
  qed (simp add: get_pending_def)
qed (simp add: get_pending_def)

lemma get_pending_follows:
  assumes "unique_actions st"
  shows "rows_follow who (as_rows st) (as_rows (fst (get_pending who host limit rn now st)))"
proof -
  let ?r = "reap_stale_taken_actions rn st"
  have "rows_follow who (as_rows st)
          (as_rows (claim_ids now (set (map ac_id (oldest_pending h n (as_rows ?r)))) ?r))"
    if "device_may_access_host who (Some h)" for h n
    by (rule rows_follow_trans [OF reap_rows_follow claim_rows_follow]) (use assms that in simp_all)
  then show ?thesis
    using get_pending_state [of who host limit rn now st] reap_rows_follow [of who st rn]
    by (auto simp del: set_map)
qed

lemma update_rows_follow:
  assumes "unique_actions st" and "find_action st i = Some r" and "act_step who r (f r)"
  shows "rows_follow who (as_rows st) (as_rows (update_action i f st))"
proof -
  have "(act_step who)\<^sup>*\<^sup>* x (if ac_id x = i then f x else x)" if "x \<in> set (as_rows st)" for x
  proof (cases "ac_id x = i")
    case True
    with unique_find_action [OF assms(1) that] assms(2) have "x = r" by simp
    with assms(3) True show ?thesis by auto
  qed simp
  then show ?thesis by (simp add: update_action_def rows_follow_map)
qed

lemma act_completion_Some: "act_completion s = Some x \<Longrightarrow> x \<in> {Act_Done, Act_Failed}"
  by (auto simp: act_completion_def split: if_splits)

lemma insert_action_Some:
  "insert_action r st = Some st' \<longleftrightarrow>
     ac_id r \<notin> ac_id ` set (as_rows st) \<and> st' = st\<lparr> as_rows := as_rows st @ [r] \<rparr>"
  by (auto simp: insert_action_def)

lemma new_action_simps [simp]:
  "ac_status (new_action i h t p now) = Act_Pending" "ac_id (new_action i h t p now) = i"
  "ac_status (seed_action_row q) = Act_Pending"
  by (simp_all add: new_action_def seed_action_row_def)

lemma complete_follows:
  assumes "unique_actions st"
  shows "rows_follow who (as_rows st) (as_rows (fst (post_action_complete who i status result now st)))"
proof (cases "act_completion status")
  case (Some s)
  show ?thesis
  proof (cases "find_action st i")
    case (Some r)
    have "act_step who r (settle_row s result now r)"
      if "device_may_access_host who (Some (ac_host_id r))" "\<not> (ac_status r = Act_Done \<or> ac_status r = Act_Failed)"
      using that act_completion_Some [OF \<open>act_completion status = Some s\<close>]
      by (cases "ac_status r") (auto intro: Settle)
    with update_rows_follow [OF assms Some] \<open>act_completion status = Some s\<close> Some show ?thesis
      by (simp add: post_action_complete_def)
  qed (use \<open>act_completion status = Some s\<close> in \<open>simp add: post_action_complete_def\<close>)
qed (simp add: post_action_complete_def)

lemma handle_action_follows:
  assumes "unique_actions st"
  shows "rows_follow (action_request_who req) (as_rows st) (as_rows (handle_action req st))"
proof (cases req)
  case (Enqueue who h t p i now)
  then show ?thesis
    by (auto simp: post_action_def insert_action_def rows_follow_snoc split: option.splits)
next
  case (Enqueue_Seed q)
  then show ?thesis by (auto simp: insert_action_def rows_follow_snoc)
next
  case (Poll who h l rn now)
  then show ?thesis using get_pending_follows [OF assms] by simp
next
  case (Renew who i now)
  show ?thesis
  proof (cases "find_action st i")
    case (Some r)
    with update_rows_follow [OF assms Some, of who "renew_row now"] Renew show ?thesis
      by (auto simp: post_action_lease_def intro: Keep_Alive)
  qed (use Renew in \<open>simp add: post_action_lease_def\<close>)
next
  case (Complete who i s res now)
  then show ?thesis using complete_follows [OF assms] by simp
qed

lemma rows_follow_nth:
  assumes "rows_follow who rows rows'" and "k < length rows"
  shows "(act_step who)\<^sup>*\<^sup>* (rows ! k) (rows' ! k)"
  using assms by (auto simp: rows_follow_def list_all2_conv_all_nth)

lemma rows_follow_ids:
  assumes "rows_follow who rows rows'"
  shows "map ac_id (take (length rows) rows') = map ac_id rows"
  using assms act_steps_identity
  by (auto simp: rows_follow_def list_all2_conv_all_nth intro!: nth_equalityI)

lemma rows_follow_same_length:
  assumes "rows_follow who rows rows'" and "length rows' = length rows"
  shows "map ac_id rows' = map ac_id rows"
  using rows_follow_ids [OF assms(1)] assms(2) by simp

text \<open>Only the two ways to queue an action add a row, and only with a new id.\<close>

lemma handle_action_length:
  "(length (as_rows (handle_action req st)) = length (as_rows st)) \<or>
   (\<exists>r. ac_id r \<notin> ac_id ` set (as_rows st) \<and> ac_status r = Act_Pending \<and>
        as_rows (handle_action req st) = as_rows st @ [r] \<and> as_log (handle_action req st) = as_log st \<and>
        (\<forall>key h. action_request_who req \<noteq> Some (Device_Key key h)))"
proof (cases req)
  case (Enqueue who h t p i now)
  then show ?thesis by (auto simp: post_action_def insert_action_def split: option.splits)
next
  case (Enqueue_Seed q)
  then show ?thesis by (auto simp: insert_action_def)
next
  case (Poll who h l rn now)
  then show ?thesis using get_pending_state [of who h l rn now st] by (auto simp: claim_ids_def)
next
  case (Renew who i now)
  then show ?thesis by (auto simp: post_action_lease_def update_action_def split: option.split)
next
  case (Complete who i s res now)
  then show ?thesis by (auto simp: post_action_complete_def update_action_def split: option.split)
qed

lemma handle_action_unique:
  assumes "unique_actions st"
  shows "unique_actions (handle_action req st)"
  using handle_action_length [of req st]
proof (elim disjE exE conjE)
  assume "length (as_rows (handle_action req st)) = length (as_rows st)"
  from rows_follow_same_length [OF handle_action_follows [OF assms] this] assms
  show ?thesis by (simp add: unique_actions_def)
qed (use assms in \<open>auto simp: unique_actions_def\<close>)

lemma run_actions_unique: "unique_actions st \<Longrightarrow> unique_actions (run_actions reqs st)"
  unfolding run_actions_def
  by (induction reqs arbitrary: st) (simp_all add: handle_action_unique)

lemma run_actions_Nil [simp]: "run_actions [] st = st"
  by (simp add: run_actions_def)

lemma run_actions_Cons [simp]: "run_actions (req # reqs) st = run_actions reqs (handle_action req st)"
  by (simp add: run_actions_def)

lemma handle_action_keeps_settled:
  assumes "unique_actions st" and "r \<in> set (as_rows st)" and "settled r"
  shows "r \<in> set (as_rows (handle_action req st))"
proof -
  from assms(2) obtain k where k: "k < length (as_rows st)" "as_rows st ! k = r"
    by (auto simp: in_set_conv_nth)
  note follows = handle_action_follows [OF assms(1), of req]
  from rows_follow_nth [OF follows k(1)] k(2) assms(3)
  have "as_rows (handle_action req st) ! k = r" by (auto dest: act_steps_identity)
  moreover have "k < length (as_rows (handle_action req st))"
    using follows k(1) by (auto simp: rows_follow_def)
  ultimately show ?thesis by (auto simp: in_set_conv_nth)
qed

section \<open>The operation log\<close>

text \<open>What the log says of a settled action.\<close>

definition outcome :: "action_row \<Rightarrow> action_log_row" where
  "outcome r = log_entry r (ac_status r) (ac_result r) (or_default (ac_completed_at r) 0)"

definition log_matches :: "action_server \<Rightarrow> bool" where
  "log_matches st \<longleftrightarrow> mset (as_log st) = image_mset outcome (filter_mset settled (mset (as_rows st)))"

lemma settled_update [simp]:
  "\<not> settled (requeue_row r)" "\<not> settled (take_row now r)" "settled (renew_row now r) = settled r"
  "outcome (renew_row now r) = outcome r"
  by (simp_all add: settled_def row_update_defs outcome_def log_entry_def)

lemma settle_row_simps [simp]:
  "s \<in> {Act_Done, Act_Failed} \<Longrightarrow> settled (settle_row s result now r)"
  "outcome (settle_row s result now r) = log_entry r s result now"
  by (auto simp: settled_def settle_row_def outcome_def log_entry_def)

text \<open>Mapping the rows of a table without settling one keeps the outcomes.\<close>

lemma outcomes_map:
  assumes "\<And>r. r \<in> set rows \<Longrightarrow> settled (f r) = settled r \<and> (settled r \<longrightarrow> outcome (f r) = outcome r)"
  shows "image_mset outcome (filter_mset settled (mset (map f rows))) =
         image_mset outcome (filter_mset settled (mset rows))"
  using assms by (induction rows) auto

lemma outcomes_settle_one:
  assumes "distinct (map ac_id rows)" and "r \<in> set rows" and "\<not> settled r" and "settled (f r)"
  shows "image_mset outcome (filter_mset settled
            (mset (map (\<lambda>x. if ac_id x = ac_id r then f x else x) rows))) =
         add_mset (outcome (f r)) (image_mset outcome (filter_mset settled (mset rows)))"
  using assms
proof (induction rows)
  case (Cons x rows)
  show ?case
  proof (cases "x = r")
    case True
    with Cons.prems(1) have "map (\<lambda>x. if ac_id x = ac_id r then f x else x) rows = rows"
      by (intro map_idI) (metis distinct.simps(2) image_eqI list.set_map list.simps(9))
    with True Cons.prems(3,4) show ?thesis by simp
  next
    case False
    with Cons.prems(1,2) have "ac_id x \<noteq> ac_id r" by force
    with Cons False show ?thesis by auto
  qed
qed simp

lemma log_matches_reap [simp]:
  "log_matches st \<Longrightarrow> log_matches (reap_stale_taken_actions now st)"
  unfolding log_matches_def reap_stale_taken_actions_def
  by (simp del: mset_map, subst outcomes_map) (auto simp: settled_def requeue_row_def)

lemma log_matches_claim [simp]: "log_matches st \<Longrightarrow> log_matches (claim_ids now ids st)"
  unfolding log_matches_def claim_ids_def
  by (simp del: mset_map, subst outcomes_map) (auto simp: settled_def take_row_def)

lemma log_matches_renew: "log_matches st \<Longrightarrow> log_matches (update_action i (renew_row now) st)"
  unfolding log_matches_def update_action_def
  by (simp del: mset_map, subst outcomes_map) auto

lemma complete_log:
  assumes "unique_actions st" and "log_matches st"
  shows "log_matches (fst (post_action_complete who i status result now st))"
proof (cases "act_completion status")
  case (Some s)
  show ?thesis
  proof (cases "find_action st i")
    case (Some r)
    have r: "r \<in> set (as_rows st)" "ac_id r = i" using find_action_Some [OF Some] by auto
    have s: "s \<in> {Act_Done, Act_Failed}"
      by (rule act_completion_Some [OF \<open>act_completion status = Some s\<close>])
    have "log_matches ((update_action i (settle_row s result now) st)\<lparr> as_log :=
            as_log st @ [log_entry r s result now] \<rparr>)" if "\<not> settled r"
      using outcomes_settle_one [of "as_rows st" r "settle_row s result now"] assms r s that
      by (simp add: log_matches_def update_action_def unique_actions_def del: mset_map)
    with \<open>act_completion status = Some s\<close> Some assms(2) show ?thesis
      by (simp add: post_action_complete_def settled_def)
  qed (use \<open>act_completion status = Some s\<close> assms in \<open>simp add: post_action_complete_def\<close>)
qed (use assms in \<open>simp add: post_action_complete_def\<close>)

lemma log_matches_append:
  "log_matches st \<Longrightarrow> as_rows st' = as_rows st @ [r] \<Longrightarrow> as_log st' = as_log st \<Longrightarrow>
   ac_status r = Act_Pending \<Longrightarrow> log_matches st'"
  by (simp add: log_matches_def settled_def)

lemma handle_action_log:
  assumes "unique_actions st" and "log_matches st"
  shows "log_matches (handle_action req st)"
proof (cases req)
  case (Enqueue who h t p i now)
  then show ?thesis using assms(2)
    by (auto simp: post_action_def insert_action_Some split: option.splits
        intro: log_matches_append [OF assms(2)])
next
  case (Enqueue_Seed q)
  then show ?thesis using assms(2)
    by (auto simp: insert_action_def intro: log_matches_append [OF assms(2)])
next
  case (Poll who h l rn now)
  then show ?thesis using get_pending_state [of who h l rn now st] assms(2) by auto
next
  case (Renew who i now)
  then show ?thesis using assms(2) log_matches_renew [OF assms(2)]
    by (auto simp: post_action_lease_def split: option.split)
next
  case (Complete who i s res now)
  then show ?thesis using complete_log [OF assms] by simp
qed

lemma run_actions_log:
  "unique_actions st \<Longrightarrow> log_matches st \<Longrightarrow> log_matches (run_actions reqs st)"
  by (induction reqs arbitrary: st) (simp_all add: handle_action_log handle_action_unique)

lemma run_actions_keeps_settled:
  "unique_actions st \<Longrightarrow> r \<in> set (as_rows st) \<Longrightarrow> settled r \<Longrightarrow> r \<in> set (as_rows (run_actions reqs st))"
  by (induction reqs arbitrary: st) (simp_all add: handle_action_keeps_settled handle_action_unique)

section \<open>The poll\<close>

text \<open>An action of the host the poll may hand out: waiting, or claimed under a lapsed lease.\<close>

definition available :: "string \<Rightarrow> int \<Rightarrow> action_row \<Rightarrow> bool" where
  "available h now r \<longleftrightarrow>
     ac_host_id r = h \<and>
     (ac_status r = Act_Pending \<or> ac_status r = Act_Taken \<and> effective_lease r < now)"

definition requeue_stale :: "int \<Rightarrow> action_row \<Rightarrow> action_row" where
  "requeue_stale now r = (if ac_status r = Act_Taken \<and> effective_lease r < now then requeue_row r else r)"

lemma reap_stale_map: "as_rows (reap_stale_taken_actions now st) = map (requeue_stale now) (as_rows st)"
  by (simp add: reap_stale_taken_actions_def requeue_stale_def)

lemma requeue_stale_simps [simp]:
  "ac_id (requeue_stale now r) = ac_id r" "ac_host_id (requeue_stale now r) = ac_host_id r"
  "ac_created_at (requeue_stale now r) = ac_created_at r"
  "row_to_action (take_row t (requeue_stale now r)) = row_to_action (take_row t r)"
  "(ac_host_id r = h \<and> ac_status (requeue_stale now r) = Act_Pending) = available h now r"
  by (auto simp: requeue_stale_def requeue_row_def take_row_def row_to_action_def available_def)

definition claimed_rows :: "string \<Rightarrow> nat \<Rightarrow> int \<Rightarrow> action_server \<Rightarrow> action_row list" where
  "claimed_rows h n rn st = oldest_pending h n (as_rows (reap_stale_taken_actions rn st))"

lemma length_claimed_rows: "length (claimed_rows h n rn st) = min n (length (filter (available h rn) (as_rows st)))"
  by (simp add: claimed_rows_def oldest_pending_def reap_stale_map filter_map comp_def)

lemma take_sorted_le:
  assumes "sorted (map f xs)" and "x \<in> set (take n xs)" and "y \<in> set (drop n xs)"
  shows "f x \<le> f y"
proof -
  have "sorted (map f (take n xs @ drop n xs))" using assms(1) by simp
  with assms(2,3) show ?thesis unfolding map_append sorted_append by auto
qed

lemma distinct_map_sort_key: "distinct (map g (sort_key f xs)) = distinct (map g xs)"
  by (simp add: distinct_map)

lemma distinct_claimed_rows:
  assumes "unique_actions st"
  shows "distinct (map ac_id (claimed_rows h n rn st))"
proof -
  have "distinct (map ac_id (filter P (as_rows (reap_stale_taken_actions rn st))))" for P
    using assms unique_reap [of rn st] by (auto simp: unique_actions_def intro: distinct_map_filter)
  then show ?thesis
    unfolding claimed_rows_def oldest_pending_def
    by (simp only: take_map [symmetric] distinct_map_sort_key distinct_take)
qed

lemma claimed_row_available:
  assumes "r1 \<in> set (claimed_rows h n rn st)"
  obtains r where "r \<in> set (as_rows st)" "available h rn r" "r1 = requeue_stale rn r"
proof -
  from oldest_pending_sound [OF assms [unfolded claimed_rows_def]]
  obtain r where "r \<in> set (as_rows st)" "r1 = requeue_stale rn r"
    "ac_host_id r = h \<and> ac_status (requeue_stale rn r) = Act_Pending"
    by (auto simp: reap_stale_map simp del: requeue_stale_simps(5))
  then show thesis by (intro that [of r]) (simp_all only: requeue_stale_simps(5))
qed

lemma claimed_older:
  assumes "r1 \<in> set (claimed_rows h n rn st)" and "r \<in> set (as_rows st)" and "available h rn r"
    and "ac_id r \<notin> ac_id ` set (claimed_rows h n rn st)"
  shows "ac_created_at r1 \<le> ac_created_at r"
proof -
  let ?s = "sort_key ac_created_at (filter (\<lambda>r. ac_host_id r = h \<and> ac_status r = Act_Pending)
     (as_rows (reap_stale_taken_actions rn st)))"
  have c: "claimed_rows h n rn st = take n ?s" by (simp add: claimed_rows_def oldest_pending_def)
  have "requeue_stale rn r \<in> set ?s" using assms(2,3) by (auto simp: reap_stale_map)
  moreover have "requeue_stale rn r \<notin> set (take n ?s)" using assms(4) c by (metis image_eqI requeue_stale_simps(1))
  ultimately have "requeue_stale rn r \<in> set (drop n ?s)"
    by (metis Un_iff append_take_drop_id set_append)
  from take_sorted_le [OF _ _ this, of ac_created_at r1] assms(1) c show ?thesis by simp
qed

text \<open>The rows whose ids were collected are the collected rows.\<close>

lemma claimed_reply:
  assumes "unique_actions st" and ids_def: "ids = set (map ac_id (claimed_rows h n rn st))"
  shows "mset (filter (\<lambda>r. ac_id r \<in> ids) (as_rows (claim_ids now ids (reap_stale_taken_actions rn st)))) =
         mset (map (take_row now) (claimed_rows h n rn st))"
proof -
  let ?r1 = "reap_stale_taken_actions rn st"
  have u: "unique_actions ?r1" using assms(1) by simp
  have in_ids: "ac_id r \<in> ids \<longleftrightarrow> r \<in> set (claimed_rows h n rn st)" if "r \<in> set (as_rows ?r1)" for r
  proof
    assume "ac_id r \<in> ids"
    then obtain r' where r': "r' \<in> set (claimed_rows h n rn st)" "ac_id r' = ac_id r"
      unfolding ids_def by auto
    from oldest_pending_sound [OF r'(1) [unfolded claimed_rows_def]] r'(2) that u have "r' = r"
      by (auto simp: unique_actions_def distinct_map dest: inj_onD)
    with r' show "r \<in> set (claimed_rows h n rn st)" by simp
  qed (simp add: ids_def)
  have pend: "ac_status r = Act_Pending" if "r \<in> set (claimed_rows h n rn st)" for r
    using oldest_pending_sound [OF that [unfolded claimed_rows_def]] by simp
  have "filter (\<lambda>r. ac_id r \<in> ids) (as_rows (claim_ids now ids ?r1)) =
        map (take_row now) (filter (\<lambda>r. ac_id r \<in> ids) (as_rows ?r1))"
    using in_ids pend unfolding claim_ids_def
    by (auto simp: filter_map comp_def take_row_def if_distrib cong: if_cong intro!: map_cong filter_cong)
  moreover have "mset (filter (\<lambda>r. ac_id r \<in> ids) (as_rows ?r1)) = mset (claimed_rows h n rn st)"
  proof (rule set_eq_iff_mset_eq_distinct [THEN iffD1])
    show "distinct (filter (\<lambda>r. ac_id r \<in> ids) (as_rows ?r1))"
      using u by (auto simp: unique_actions_def distinct_map)
    show "distinct (claimed_rows h n rn st)"
      using distinct_claimed_rows [OF assms(1)] by (auto simp: distinct_map)
    show "set (filter (\<lambda>r. ac_id r \<in> ids) (as_rows ?r1)) = set (claimed_rows h n rn st)"
      using in_ids oldest_pending_sound unfolding claimed_rows_def by fastforce
  qed
  ultimately show ?thesis by (simp del: mset_filter)
qed

definition poll_reply :: "string \<Rightarrow> nat \<Rightarrow> int \<Rightarrow> int \<Rightarrow> action_server \<Rightarrow> queued_action list" where
  "poll_reply h n rn now st =
     (let ids = set (map ac_id (claimed_rows h n rn st))
      in map row_to_action (filter (\<lambda>r. ac_id r \<in> ids)
           (as_rows (claim_ids now ids (reap_stale_taken_actions rn st)))))"

lemma get_pending_ok:
  assumes "device_may_access_host who (Some h)" and "h \<noteq> []"
    and "sql_limit (safe_limit limit PENDING_TAKE_LIMIT) = Some n"
  shows "get_pending who (Some h) limit rn now st =
           (claim_ids now (set (map ac_id (claimed_rows h n rn st))) (reap_stale_taken_actions rn st),
            Act_Ok (poll_reply h n rn now st))"
proof -
  from assms(2) have "truthy (Some h) = Some h" by (cases h) (simp_all add: truthy_def)
  with assms show ?thesis by (simp add: get_pending_def Let_def poll_reply_def claimed_rows_def)
qed

lemma poll_reply_mset:
  assumes "unique_actions st"
  shows "mset (poll_reply h n rn now st) =
         mset (map (row_to_action \<circ> take_row now) (claimed_rows h n rn st))"
proof -
  let ?ids = "set (map ac_id (claimed_rows h n rn st))"
  let ?f = "filter (\<lambda>r. ac_id r \<in> ?ids) (as_rows (claim_ids now ?ids (reap_stale_taken_actions rn st)))"
  have "mset (poll_reply h n rn now st) = image_mset row_to_action (mset ?f)"
    by (simp only: poll_reply_def Let_def mset_map)
  also have "mset ?f = mset (map (take_row now) (claimed_rows h n rn st))"
    by (rule claimed_reply [OF assms refl])
  finally show ?thesis by (simp only: mset_map [symmetric] map_map)
qed

lemma view_simps [simp]:
  "qd_id (row_to_action r) = ac_id r" "qd_created_at (row_to_action r) = ac_created_at r"
  "ac_id (take_row now r) = ac_id r" "ac_created_at (take_row now r) = ac_created_at r"
  by (simp_all add: row_to_action_def take_row_def)

lemma poll_reply_ids:
  assumes "unique_actions st"
  shows "mset (map qd_id (poll_reply h n rn now st)) = mset (map ac_id (claimed_rows h n rn st))"
  using arg_cong [OF poll_reply_mset [OF assms], of "image_mset qd_id" h n rn now]
  by (simp add: multiset.map_comp comp_def)

lemma set_poll_reply:
  "unique_actions st \<Longrightarrow>
   set (poll_reply h n rn now st) = (row_to_action \<circ> take_row now) ` set (claimed_rows h n rn st)"
  using poll_reply_mset [of st h n rn now] by (metis list.set_map set_mset_mset)

lemma poll_keeps_live:
  assumes "unique_actions st" and "r \<in> set (as_rows st)"
    and "ac_status r = Act_Taken" and "rn \<le> effective_lease r"
  shows "ac_id r \<notin> ac_id ` set (claimed_rows h n rn st) \<and>
         r \<in> set (as_rows (claim_ids now ids (reap_stale_taken_actions rn st)))"
proof
  have same: "requeue_stale rn r = r" using assms(3,4) by (simp add: requeue_stale_def)
  show "ac_id r \<notin> ac_id ` set (claimed_rows h n rn st)"
  proof
    assume "ac_id r \<in> ac_id ` set (claimed_rows h n rn st)"
    then obtain r1 where r1: "r1 \<in> set (claimed_rows h n rn st)" "ac_id r1 = ac_id r" by auto
    from claimed_row_available [OF r1(1)] obtain r0
      where r0: "r0 \<in> set (as_rows st)" "available h rn r0" "r1 = requeue_stale rn r0" by blast
    with r1(2) have "find_action st (ac_id r) = Some r0"
      using unique_find_action [OF assms(1) r0(1)] by simp
    then have "r0 = r" using unique_find_action [OF assms(1,2)] by simp
    with r0(2) assms(3,4) show False by (simp add: available_def)
  qed
  show "r \<in> set (as_rows (claim_ids now ids (reap_stale_taken_actions rn st)))"
    using assms(2,3) same by (force simp: claim_ids_def reap_stale_map image_iff)
qed

definition sample_queue :: action_server where
  "sample_queue =
     \<lparr> as_hosts = [''h1'', ''h2''], as_plans = [sample_plan],
       as_rows = [new_action ''a1'' ''h1'' ''trigger_sync'' None 10,
                  new_action ''a2'' ''h1'' ''check_update'' None 5,
                  new_action ''a3'' ''h2'' ''trigger_sync'' None 1],
       as_log = [] \<rparr>"

lemma sample_queue_unique: "unique_actions sample_queue"
  by (simp add: unique_actions_def sample_queue_def)



section \<open>What holds of every request and every run\<close>



text \<open>
  A settled action never changes again, whatever requests follow: no retried
  acknowledgement, poll or sweep rewrites its outcome.
\<close>

theorem settled_actions_are_final:
  assumes "unique_actions st" and "r \<in> set (as_rows st)" and "settled r"
  shows "r \<in> set (as_rows (run_actions reqs st)) \<and>
         find_action (run_actions reqs st) (ac_id r) = Some r"
  using run_actions_keeps_settled [OF assms] unique_find_action [OF run_actions_unique [OF assms(1)]]
  by blast

theorem settled_actions_are_final_witness:
  "find_action (run_actions [Complete (Some Master_Key) ''a1'' ''failed'' None 9]
      (sample_queue\<lparr> as_rows := [settle_row Act_Done None 7 (new_action ''a1'' ''h1'' ''trigger_sync'' None 1)] \<rparr>))
     ''a1'' = Some (settle_row Act_Done None 7 (new_action ''a1'' ''h1'' ''trigger_sync'' None 1))"
proof -
  let ?r = "settle_row Act_Done None 7 (new_action ''a1'' ''h1'' ''trigger_sync'' None 1)"
  have "ac_id ?r = ''a1''" by (simp add: settle_row_def)
  with settled_actions_are_final [of "sample_queue\<lparr> as_rows := [?r] \<rparr>" ?r
      "[Complete (Some Master_Key) ''a1'' ''failed'' None 9]"]
  show ?thesis by (simp add: unique_actions_def del: run_actions_Cons)
qed

text \<open>
  The operation log and the queue agree: after any requests on an empty queue the log
  holds exactly one entry for every settled action, with its host, type, outcome, result
  and time, and no other entry.
\<close>

theorem log_has_one_entry_per_settled_action:
  "let st = run_actions reqs \<lparr> as_hosts = hosts, as_plans = plans, as_rows = [], as_log = [] \<rparr>
   in mset (as_log st) = image_mset outcome (filter_mset settled (mset (as_rows st)))"
  using run_actions_log [of "\<lparr> as_hosts = hosts, as_plans = plans, as_rows = [], as_log = [] \<rparr>" reqs]
  by (simp add: unique_actions_def log_matches_def Let_def)

text \<open>
  A device key reaches only the queue of its own host: whatever it sends, it queues
  nothing, and an action of another host stays as it is, except that a poll puts a claim
  back whose lease has lapsed.
\<close>

theorem device_reaches_only_its_own_actions:
  assumes "unique_actions st" and "action_request_who req = Some (Device_Key key h)"
  shows "length (as_rows (handle_action req st)) = length (as_rows st) \<and>
         (\<forall>k < length (as_rows st). ac_host_id (as_rows st ! k) \<noteq> h \<longrightarrow>
            as_rows (handle_action req st) ! k = as_rows st ! k \<or>
            ac_status (as_rows st ! k) = Act_Taken \<and>
            as_rows (handle_action req st) ! k = requeue_row (as_rows st ! k))"
proof
  show "length (as_rows (handle_action req st)) = length (as_rows st)"
    using handle_action_length [of req st] assms(2) by auto
  show "\<forall>k < length (as_rows st). ac_host_id (as_rows st ! k) \<noteq> h \<longrightarrow>
            as_rows (handle_action req st) ! k = as_rows st ! k \<or>
            ac_status (as_rows st ! k) = Act_Taken \<and>
            as_rows (handle_action req st) ! k = requeue_row (as_rows st ! k)"
    using rows_follow_nth [OF handle_action_follows [OF assms(1)], of _ req] assms(2)
      act_steps_foreign by fastforce
qed

theorem device_reaches_only_its_own_actions_witness:
  "as_rows (handle_action (Complete (Some (Device_Key ''k'' ''h1'')) ''a3'' ''done'' None 7) sample_queue) ! 2 =
   as_rows sample_queue ! 2"
proof -
  have "2 < length (as_rows sample_queue)" "ac_host_id (as_rows sample_queue ! 2) \<noteq> ''h1''"
    "ac_status (as_rows sample_queue ! 2) \<noteq> Act_Taken"
    by (simp_all add: sample_queue_def new_action_def)
  with device_reaches_only_its_own_actions [OF sample_queue_unique,
      of "Complete (Some (Device_Key ''k'' ''h1'')) ''a3'' ''done'' None 7" "''k''" "''h1''"]
  show ?thesis by (auto simp del: handle_action.simps)
qed

text \<open>
  Only an administrator queues work, and a queued intervention is one that was
  reviewed: its payload is in the grammar, and where it names a plan (as every
  intervention that needs one must), that plan is stored and has the intervention, the
  authority and the deletion threshold of the request.
\<close>

theorem queued_interventions_were_reviewed:
  assumes "snd (post_action who host ''folder_intervention'' payload i now st) = Act_Ok a"
  shows "require_admin who \<and> host \<in> set (as_hosts st) \<and>
         (\<exists>p. parse_folder_intervention_payload (given_payload payload) = Inr p \<and>
            (intervention_requires_plan (ip_intervention p) \<longrightarrow> ip_plan_id p \<noteq> None) \<and>
            (\<forall>pid. ip_plan_id p = Some pid \<longrightarrow>
               (\<exists>plan\<in>set (as_plans st). fp_id plan = pid \<and>
                  fp_intervention plan = ip_intervention p \<and>
                  ip_authority p \<in> {None, Some (fp_authority plan)} \<and>
                  ip_max_delete_percent p \<in> {None, fp_max_delete_percent plan})))"
proof -
  from assms have none: "action_payload_refusal (as_plans st) ''folder_intervention'' payload = None"
    and rest: "require_admin who" "host \<in> set (as_hosts st)"
    by (auto simp: post_action_def split: if_splits option.splits)
  from none obtain p where p: "parse_folder_intervention_payload (given_payload payload) = Inr p"
    by (auto simp: action_payload_refusal_def split: sum.splits)
  have "\<exists>plan\<in>set (as_plans st). fp_id plan = pid \<and> fp_intervention plan = ip_intervention p \<and>
      ip_authority p \<in> {None, Some (fp_authority plan)} \<and>
      ip_max_delete_percent p \<in> {None, fp_max_delete_percent plan}" if pid: "ip_plan_id p = Some pid" for pid
  proof -
    from none p pid obtain plan e where plan: "find (\<lambda>q. fp_id q = pid) (as_plans st) = Some plan"
      and e: "check_plan_semantics plan (semantic_request p) = Inr e"
      by (auto simp: action_payload_refusal_def split: option.splits sum.splits)
    from find_SomeD [OF plan] e [unfolded check_plan_semantics_Inr] show ?thesis
      by (intro bexI [of _ plan]) (auto simp: semantic_request_def)
  qed
  moreover have "intervention_requires_plan (ip_intervention p) \<longrightarrow> ip_plan_id p \<noteq> None"
    using intervention_accepted_ok [OF p] by (auto simp: intervention_payload_ok_def)
  ultimately show ?thesis using rest p by blast
qed

theorem queued_interventions_were_reviewed_witness:
  "let p = \<lparr> ip_folder_id = ''f'', ip_intervention = Resync, ip_authority = Some Local_Authority,
             ip_plan_id = Some (fp_id sample_plan), ip_confirm = True, ip_max_delete_percent = Some 10 \<rparr>
   in (\<exists>a. snd (post_action (Some Master_Key) ''h1'' ''folder_intervention''
         (Some (intervention_payload_json p)) ''x'' 9 sample_queue) = Act_Ok a) \<and>
      (\<exists>plan\<in>set (as_plans sample_queue). fp_authority plan = Local_Authority)"
proof -
  let ?q = "\<lparr> ip_folder_id = ''f'', ip_intervention = Resync, ip_authority = Some Local_Authority,
          ip_plan_id = Some (fp_id sample_plan), ip_confirm = True, ip_max_delete_percent = Some 10 \<rparr>"
  have parsed: "parse_folder_intervention_payload (intervention_payload_json ?q) = Inr ?q"
    by (rule intervention_encoded) (simp add: intervention_payload_ok_def sample_plan_def)
  have given: "given_payload (Some (intervention_payload_json ?q)) = intervention_payload_json ?q"
    by (simp add: given_payload_def sent_payload_def intervention_payload_json_def)
  have "action_payload_refusal [sample_plan] ''folder_intervention'' (Some (intervention_payload_json ?q)) = None"
    by (simp add: action_payload_refusal_def given parsed)
      (simp add: check_plan_semantics_def semantic_request_def sample_plan_def)
  then obtain a where a: "snd (post_action (Some Master_Key) ''h1'' ''folder_intervention''
       (Some (intervention_payload_json ?q)) ''x'' 9 sample_queue) = Act_Ok a"
    by (simp add: post_action_def is_action_type_def ACTION_TYPES_def
        sample_queue_def insert_action_def new_action_def)
  from queued_interventions_were_reviewed [OF a] have
    "\<exists>plan\<in>set (as_plans sample_queue). fp_authority plan = Local_Authority"
    by (simp add: given parsed) metis
  with a show ?thesis by (simp add: Let_def)
qed

end
