(* ===== verification/Civil_Calendar.thy ===== *)
theory Civil_Calendar
  imports Prelude
begin

text \<open>
  The Gregorian calendar as \<open>Date.UTC\<close> and \<open>Intl.DateTimeFormat\<close> of the language count it: a day
  is its number since 1970-01-01. The model covers four-digit years (the \<open>Date.UTC\<close> special
  case of years below 100 is left out).
\<close>

section \<open>Days and dates\<close>

definition day_ms :: int where
  "day_ms = 86400000"

text \<open>Days before the first of March of a year, counted from 0000-03-01.\<close>

definition march_first :: "int \<Rightarrow> int" where
  "march_first y = 365 * y + y div 4 - y div 100 + y div 400"

text \<open>\<open>Date.UTC(year, month - 1, day)\<close> in days; month and day may be out of range.\<close>

definition days_from_civil :: "int \<Rightarrow> int \<Rightarrow> int \<Rightarrow> int" where
  "days_from_civil year month day =
     (let y = year + (month - 3) div 12;
          mp = (month - 3) mod 12
      in march_first y + (153 * mp + 2) div 5 + day - 1 - 719468)"

text \<open>The year that begins in March, and the days since its first.\<close>

definition march_year :: "int \<Rightarrow> int \<times> int" where
  "march_year z =
     (let era = z div 146097; doe = z mod 146097;
          c = min 3 (doe div 36524); r = doe - 36524 * c;
          q = r div 1461; s = r mod 1461;
          n = min 3 (s div 365)
      in (400 * era + 100 * c + 4 * q + n, s - 365 * n))"

definition civil_from_days :: "int \<Rightarrow> int \<times> int \<times> int" where
  "civil_from_days n =
     (let (y, doy) = march_year (n + 719468);
          mp = (5 * doy + 2) div 153;
          d = doy - (153 * mp + 2) div 5 + 1
      in if mp < 10 then (y, mp + 3, d) else (y + 1, mp - 9, d))"

definition civil_year :: "int \<Rightarrow> int" where
  "civil_year n = fst (civil_from_days n)"

text \<open>Monday is 0. The first of January 1970 was a Thursday.\<close>

definition weekday :: "int \<Rightarrow> int" where
  "weekday n = (n + 3) mod 7"

section \<open>Going back and forth\<close>

lemma march_year_spec:
  assumes "march_year z = (y, doy)"
  shows "z = march_first y + doy" and "0 \<le> doy" and "doy \<le> 365"
proof -
  define era doe where "era = z div 146097" and "doe = z mod 146097"
  define c where "c = min 3 (doe div 36524)"
  define r where "r = doe - 36524 * c"
  define q s where "q = r div 1461" and "s = r mod 1461"
  define n where "n = min 3 (s div 365)"
  have z: "z = 146097 * era + doe" "0 \<le> doe" "doe < 146097" by (simp_all add: era_def doe_def)
  have c: "0 \<le> c" "c \<le> 3" "0 \<le> r" "r \<le> 36524"
    using z(2,3) by (auto simp: c_def r_def min_def)
  have q: "r = 1461 * q + s" "0 \<le> s" "s < 1461" "0 \<le> q" "q \<le> 24"
    using c(3,4) by (simp_all add: q_def s_def)
  have n: "0 \<le> n" "n \<le> 3" "0 \<le> s - 365 * n" "s - 365 * n \<le> 365"
    using q(2,3) by (auto simp: n_def min_def)
  have y: "y = 400 * era + 100 * c + 4 * q + n" and doy: "doy = s - 365 * n"
    using assms by (simp_all add: march_year_def Let_def era_def doe_def c_def r_def q_def s_def n_def)
  have "y div 4 = 100 * era + 25 * c + q"
    by (rule int_div_pos_eq [where r = n]) (use y n in simp_all)
  moreover have "y div 100 = 4 * era + c"
    by (rule int_div_pos_eq [where r = "4 * q + n"]) (use y n q(4,5) in simp_all)
  moreover have "y div 400 = era"
    by (rule int_div_pos_eq [where r = "100 * c + 4 * q + n"]) (use y n q(4,5) c in simp_all)
  ultimately show "z = march_first y + doy"
    using z(1) q(1) y doy by (simp add: march_first_def r_def)
  show "0 \<le> doy" "doy \<le> 365" using doy n by simp_all
qed

lemma days_from_civil_of_days:
  assumes "civil_from_days n = (y, m, d)"
  shows "days_from_civil y m d = n"
proof -
  obtain my doy where my: "march_year (n + 719468) = (my, doy)" by fastforce
  note spec = march_year_spec [OF my]
  define mp where "mp = (5 * doy + 2) div 153"
  have mp: "0 \<le> mp" "mp \<le> 11" using spec(2,3) by (simp_all add: mp_def)
  show ?thesis
  proof (cases "mp < 10")
    case True
    with assms my have "y = my" "m = mp + 3" "d = doy - (153 * mp + 2) div 5 + 1"
      by (simp_all add: civil_from_days_def mp_def Let_def)
    with mp spec(1) show ?thesis by (simp add: days_from_civil_def Let_def)
  next
    case False
    with assms my have e: "y = my + 1" "m = mp - 9" "d = doy - (153 * mp + 2) div 5 + 1"
      by (simp_all add: civil_from_days_def mp_def Let_def)
    have "(m - 3) div 12 = -1" "(m - 3) mod 12 = mp" using e(2) mp False by presburger+
    with e spec(1) show ?thesis by (simp add: days_from_civil_def Let_def)
  qed
qed

lemma civil_from_days_inj: "civil_from_days a = civil_from_days b \<Longrightarrow> a = b"
  by (metis days_from_civil_of_days prod_cases3)

text \<open>Days of the month add up: the \<open>day - k\<close> of \<open>Date.UTC\<close>.\<close>

lemma days_from_civil_shift: "days_from_civil y m (d - k) = days_from_civil y m d - k"
  by (simp add: days_from_civil_def Let_def)

lemma civil_from_days_examples:
  "civil_from_days 0 = (1970, 1, 1)" "civil_from_days 19782 = (2024, 2, 29)"
  "days_from_civil 2024 13 1 = days_from_civil 2025 1 1" "weekday 20454 = 3"
  by code_simp+

section \<open>Years\<close>

definition january_first :: "int \<Rightarrow> int" where
  "january_first y = days_from_civil y 1 1"

lemma january_first_eq: "january_first y = march_first (y - 1) + 306 - 719468"
  by (simp add: january_first_def days_from_civil_def Let_def)

lemma div_step:
  assumes "0 < (k::int)"
  shows "y div k - (y - 1) div k = (if k dvd y then 1 else 0)"
proof (cases "k dvd y")
  case True
  then obtain q where "y = k * q" by auto
  moreover from this assms have "(y - 1) div k = q - 1"
    by (intro int_div_pos_eq [where r = "k - 1"]) (simp_all add: algebra_simps)
  ultimately show ?thesis using assms by simp
next
  case False
  with assms have "0 < y mod k" by (simp add: dvd_eq_mod_eq_0 order_less_le)
  with assms have "(y - 1) div k = y div k"
    by (intro int_div_pos_eq [where r = "y mod k - 1"])
      (simp_all add: algebra_simps order_less_imp_le add.commute less_trans [OF pos_mod_bound])
  with False show ?thesis by simp
qed

lemma march_first_step: "march_first y - march_first (y - 1) \<in> {365, 366}"
proof -
  have steps: "y div 4 = (y - 1) div 4 + (if 4 dvd y then 1 else 0)"
    "y div 100 = (y - 1) div 100 + (if 100 dvd y then 1 else 0)"
    "y div 400 = (y - 1) div 400 + (if 400 dvd y then 1 else 0)"
    using div_step [of 4 y] div_step [of 100 y] div_step [of 400 y] by (simp_all split: if_splits)
  have "400 dvd y \<Longrightarrow> 100 dvd y" "100 dvd y \<Longrightarrow> 4 dvd y"
    using dvd_trans [of 100 400 y] dvd_trans [of 4 100 y] by simp_all
  then show ?thesis
    unfolding march_first_def steps
    by (cases "4 dvd y"; cases "100 dvd y"; cases "400 dvd y") simp_all
qed

text \<open>A day lies within 366 days of the first of January of its year.\<close>

lemma day_of_year:
  shows "january_first (civil_year n) \<le> n" and "n \<le> january_first (civil_year n) + 365"
proof -
  obtain my doy where my: "march_year (n + 719468) = (my, doy)" by fastforce
  note spec = march_year_spec [OF my]
  define mp where "mp = (5 * doy + 2) div 153"
  have y: "civil_year n = (if mp < 10 then my else my + 1)"
    by (simp add: civil_year_def civil_from_days_def my mp_def Let_def)
  have "january_first (civil_year n) \<le> n \<and> n \<le> january_first (civil_year n) + 365"
  proof (cases "mp < 10")
    case True
    then have "doy < 306" by (simp add: mp_def)
    with True y spec march_first_step [of my] show ?thesis by (auto simp: january_first_eq)
  next
    case False
    then have "306 \<le> doy" by (simp add: mp_def)
    with False y spec show ?thesis by (simp add: january_first_eq)
  qed
  then show "january_first (civil_year n) \<le> n" "n \<le> january_first (civil_year n) + 365" by auto
qed

end
