(* ===== verification/Retention.thy ===== *)
theory Retention
  imports Civil_Calendar Folder_Health "HOL-Library.AList" "HOL-Library.Char_ord"
    "HOL-Library.List_Lexorder" "HOL-Library.Product_Lexorder"
begin

text \<open>
  Snapshot retention, \<open>core/src/retention.ts\<close>: rules, calendar buckets and the evaluator that
  decides which snapshots of a backup are deleted. A timestamp is the integer the database
  stores, so \<open>isFinite\<close> of it holds. A time zone is the offset of its local time from UTC at
  every instant, which is what \<open>Intl.DateTimeFormat\<close> takes from the zone's data. The key of a
  bucket is its date, not the text of it. A \<open>Map\<close> is an association list in insertion order.
\<close>

section \<open>Rules and policies\<close>

datatype calendar_unit = Daily | Weekly | Monthly | Yearly

datatype retention_rule =
    Keep_Last int
  | Keep_Age jnum
  | Calendar calendar_unit int

record retention_policy =
  rp_enabled :: bool
  rp_rules :: "retention_rule list"
  rp_keep_at_least_one :: "bool option"

record retention_snapshot =
  sn_id :: string
  sn_timestamp :: int
  sn_size :: "int option"
  sn_pinned :: bool
  sn_rollback :: bool
  sn_successful :: bool
  sn_host_id :: "string option"

record smart_preset =
  sp_daily :: "int option"
  sp_weekly :: "int option"
  sp_monthly :: "int option"
  sp_yearly :: "int option"

definition smart_retention_rules :: "smart_preset \<Rightarrow> retention_rule list" where
  "smart_retention_rules p =
     (let rule = (\<lambda>u n. if n > 0 then [Calendar u n] else [])
      in rule Daily (or_default (sp_daily p) 7) @ rule Weekly (or_default (sp_weekly p) 4) @
         rule Monthly (or_default (sp_monthly p) 12) @ rule Yearly (or_default (sp_yearly p) 2))"

definition smart_retention_policy :: "smart_preset \<Rightarrow> retention_policy" where
  "smart_retention_policy p =
     \<lparr> rp_enabled = True, rp_rules = smart_retention_rules p, rp_keep_at_least_one = Some True \<rparr>"

text \<open>The wording of a policy. The sentence is a value: disabled, or its parts and whether it
  ends in "always keep at least one".\<close>

definition human_duration :: "rat \<Rightarrow> string" where
  "human_duration ms =
     (let days = js_round (ms / 86400000);
          plural = (\<lambda>n word. show_int n @ '' '' @ word @ (if n = 1 then '''' else ''s''))
      in if days \<ge> 360 \<and> days mod 360 = 0 then plural (days div 360) ''year''
         else if days \<ge> 90 \<and> days mod 30 = 0 then plural (days div 30) ''month''
         else plural days ''day'')"

definition unit_name :: "calendar_unit \<Rightarrow> string" where
  "unit_name u = (case u of Daily \<Rightarrow> ''daily'' | Weekly \<Rightarrow> ''weekly'' | Monthly \<Rightarrow> ''monthly'' | Yearly \<Rightarrow> ''yearly'')"

fun describe_rule :: "retention_rule \<Rightarrow> string" where
  "describe_rule (Keep_Last n) = ''the latest '' @ show_int n @ '' snapshot'' @ (if n = 1 then '''' else ''s'')"
| "describe_rule (Keep_Age a) =
     ''snapshots younger than '' @ (case a of Fin ms \<Rightarrow> human_duration ms | PosInf \<Rightarrow> ''Infinity days''
       | NegInf \<Rightarrow> ''-Infinity days'' | NaN \<Rightarrow> ''NaN days'')"
| "describe_rule (Calendar u n) =
     ''1 per '' @ butlast (butlast (unit_name u)) @ '' for '' @ show_int n @ '' '' @ unit_name u @
     (if n = 1 then '''' else ''s'')"

datatype policy_description = Keeps_Everything | Keeps "string list" bool

definition describe_policy :: "retention_policy \<Rightarrow> policy_description" where
  "describe_policy p =
     (if \<not> rp_enabled p \<or> rp_rules p = [] then Keeps_Everything
      else Keeps (map describe_rule (rp_rules p)) (rp_keep_at_least_one p \<noteq> Some False))"

section \<open>Calendar buckets\<close>

type_synonym zone = "int \<Rightarrow> int"

definition utc :: zone where "utc = (\<lambda>_. 0)"

definition local_day :: "zone \<Rightarrow> int \<Rightarrow> int" where
  "local_day tz ts = (ts + tz ts) div day_ms"

datatype bucket_key = Day_Key int int int | Week_Key int int | Month_Key int int | Year_Key int

definition week_key :: "int \<Rightarrow> int \<Rightarrow> int \<Rightarrow> int \<Rightarrow> bucket_key" where
  "week_key year month day dow =
     (let iso_dow = dow + 1;
          ms = days_from_civil year month day;
          thursday = ms + (4 - iso_dow);
          t_year = civil_year thursday;
          jan4 = days_from_civil t_year 1 4;
          delta = jan4 - ms;
          jan4_dow = (iso_dow - 1 + delta mod 7) mod 7 + 1;
          monday_week1 = jan4 - (jan4_dow - 1);
          week = 1 + (thursday - 3 - monday_week1) div 7
      in Week_Key t_year (min 53 (max 1 week)))"

definition bucket_of_day :: "calendar_unit \<Rightarrow> int \<Rightarrow> bucket_key" where
  "bucket_of_day u n =
     (let (year, month, day) = civil_from_days n
      in case u of
           Daily \<Rightarrow> Day_Key year month day
         | Monthly \<Rightarrow> Month_Key year month
         | Yearly \<Rightarrow> Year_Key year
         | Weekly \<Rightarrow> week_key year month day (weekday n))"

definition bucket_key_of :: "calendar_unit \<Rightarrow> int \<Rightarrow> zone \<Rightarrow> bucket_key" where
  "bucket_key_of u ts tz = bucket_of_day u (local_day tz ts)"

definition recent_base_day :: "calendar_unit \<Rightarrow> int \<times> int \<times> int \<Rightarrow> int \<Rightarrow> int" where
  "recent_base_day u date k =
     (let (yy, mm, dd) = date
      in case u of
           Daily \<Rightarrow> days_from_civil yy mm (dd - k)
         | Weekly \<Rightarrow> days_from_civil yy mm (dd - 7 * k)
         | Monthly \<Rightarrow> days_from_civil yy (mm - k) 1
         | Yearly \<Rightarrow> days_from_civil (yy - k) 1 1)"

definition recent_bucket_keys :: "calendar_unit \<Rightarrow> int \<Rightarrow> int \<Rightarrow> zone \<Rightarrow> bucket_key list" where
  "recent_bucket_keys u count now tz =
     (let date = civil_from_days (local_day tz now)
      in map (\<lambda>k. bucket_key_of u (recent_base_day u date (int k) * day_ms) tz) [0..<nat count])"

section \<open>The evaluator\<close>

datatype retention_reason =
    Pinned_Hold
  | Rollback_Artifact
  | Retention_Disabled
  | Safety_Timestamp
  | Within_Age string
  | Among_Last int
  | Newest_Of calendar_unit bucket_key
  | At_Least_One
  | Kept_By_Policy
  | Not_Covered

datatype retention_action = Keep | Delete
datatype decision_kind = Guard | Policy

record retention_decision =
  rd_id :: string
  rd_action :: retention_action
  rd_reason :: retention_reason
  rd_kind :: decision_kind

record retention_evaluation =
  re_now :: int
  re_decisions :: "retention_decision list"
  re_kept_count :: int
  re_delete_count :: int
  re_reclaimable_bytes :: int
  re_unknown_size_count :: int
  re_guard_count :: int
  re_kept_by_guarantee :: int

text \<open>The local variables of the evaluator.\<close>

record retention_state =
  rs_decisions :: "(string \<times> retention_decision) list"
  rs_kept :: "string list"
  rs_reasons :: "(string \<times> retention_reason) list"
  rs_guards :: int

definition sort_snapshots :: "retention_snapshot list \<Rightarrow> retention_snapshot list" where
  "sort_snapshots snaps = sort_key (\<lambda>s. (sn_timestamp s, sn_id s)) snaps"

definition decided :: "string \<Rightarrow> retention_state \<Rightarrow> bool" where
  "decided i st \<longleftrightarrow> map_of (rs_decisions st) i \<noteq> None"

definition set_decision :: "string \<Rightarrow> retention_action \<Rightarrow> retention_reason \<Rightarrow> decision_kind \<Rightarrow>
    retention_state \<Rightarrow> retention_state" where
  "set_decision i a r k st = st\<lparr> rs_decisions :=
     AList.update i \<lparr> rd_id = i, rd_action = a, rd_reason = r, rd_kind = k \<rparr> (rs_decisions st) \<rparr>"

definition guard :: "retention_snapshot \<Rightarrow> retention_reason \<Rightarrow> retention_state \<Rightarrow> retention_state" where
  "guard s r st =
     (set_decision (sn_id s) Keep r Guard st)
       \<lparr> rs_kept := List.insert (sn_id s) (rs_kept st), rs_guards := rs_guards st + 1 \<rparr>"

definition guard_pass :: "retention_snapshot list \<Rightarrow> retention_state \<Rightarrow> retention_state" where
  "guard_pass snaps st = fold (\<lambda>s st.
     if sn_pinned s \<or> sn_rollback s
     then guard s (if sn_pinned s then Pinned_Hold else Rollback_Artifact) st else st) snaps st"

definition disabled_pass :: "retention_snapshot list \<Rightarrow> retention_state \<Rightarrow> retention_state" where
  "disabled_pass snaps st = fold (\<lambda>s st.
     if decided (sn_id s) st then st else set_decision (sn_id s) Keep Retention_Disabled Policy st) snaps st"

definition safety_pass :: "int \<Rightarrow> retention_snapshot list \<Rightarrow> retention_state \<Rightarrow> retention_state" where
  "safety_pass now snaps st = fold (\<lambda>s st.
     if \<not> decided (sn_id s) st \<and> sn_timestamp s > now then guard s Safety_Timestamp st else st) snaps st"

definition keep_for :: "retention_reason \<Rightarrow> retention_snapshot \<Rightarrow> retention_state \<Rightarrow> retention_state" where
  "keep_for r s st =
     (if sn_id s \<in> set (rs_kept st) then st
      else st\<lparr> rs_kept := List.insert (sn_id s) (rs_kept st),
               rs_reasons := AList.update (sn_id s) r (rs_reasons st) \<rparr>)"

fun age_rule_pass :: "int \<Rightarrow> retention_snapshot list \<Rightarrow> retention_rule \<Rightarrow> retention_state \<Rightarrow> retention_state" where
  "age_rule_pass now snaps (Keep_Age (Fin age)) st = fold (\<lambda>s st.
     if of_int (sn_timestamp s) \<ge> of_int now - age then keep_for (Within_Age (human_duration age)) s st
     else st) snaps st"
| "age_rule_pass now snaps _ st = st"

definition real_captures :: "int \<Rightarrow> retention_snapshot list \<Rightarrow> retention_snapshot list" where
  "real_captures now snaps = filter (\<lambda>s. sn_successful s \<and> sn_timestamp s \<le> now) snaps"

fun is_keep_last :: "retention_rule \<Rightarrow> bool" where
  "is_keep_last (Keep_Last _) = True"
| "is_keep_last _ = False"

definition take_last :: "int \<Rightarrow> 'a list \<Rightarrow> 'a list" where
  "take_last n xs = drop (length xs - nat n) xs"

definition last_pass :: "int \<Rightarrow> retention_rule list \<Rightarrow> retention_snapshot list \<Rightarrow> retention_state \<Rightarrow>
    retention_state" where
  "last_pass now rules snaps st =
     (case find is_keep_last rules of
        Some (Keep_Last n) \<Rightarrow>
          if n > 0 then fold (keep_for (Among_Last n)) (take_last n (real_captures now snaps)) st else st
      | _ \<Rightarrow> st)"

definition newest_per_bucket :: "calendar_unit \<Rightarrow> bucket_key list \<Rightarrow> int \<Rightarrow> zone \<Rightarrow>
    retention_snapshot list \<Rightarrow> (bucket_key \<times> retention_snapshot) list" where
  "newest_per_bucket u window now tz snaps = fold (\<lambda>s buckets.
     if \<not> sn_successful s then buckets
     else if sn_timestamp s > now then buckets
     else (let key = bucket_key_of u (sn_timestamp s) tz
           in if key \<notin> set window then buckets
              else case map_of buckets key of
                None \<Rightarrow> AList.update key s buckets
              | Some current \<Rightarrow>
                  if sn_timestamp s \<ge> sn_timestamp current then AList.update key s buckets else buckets))
     snaps []"

fun calendar_rule_pass :: "int \<Rightarrow> zone \<Rightarrow> retention_snapshot list \<Rightarrow> retention_rule \<Rightarrow> retention_state \<Rightarrow>
    retention_state" where
  "calendar_rule_pass now tz snaps (Calendar u n) st =
     (if n \<le> 0 then st
      else fold (\<lambda>(key, s). keep_for (Newest_Of u key) s)
             (newest_per_bucket u (recent_bucket_keys u n now tz) now tz snaps) st)"
| "calendar_rule_pass now tz snaps _ st = st"

definition guarantee_pass :: "int \<Rightarrow> retention_snapshot list \<Rightarrow> retention_state \<Rightarrow> retention_state \<times> int" where
  "guarantee_pass now snaps st =
     (let successful = real_captures now snaps
      in if successful \<noteq> [] \<and> \<not> list_ex (\<lambda>s. sn_id s \<in> set (rs_kept st)) successful
         then (st\<lparr> rs_kept := List.insert (sn_id (last successful)) (rs_kept st),
                  rs_reasons := AList.update (sn_id (last successful)) At_Least_One (rs_reasons st) \<rparr>, 1)
         else (st, 0))"

definition final_pass :: "retention_snapshot list \<Rightarrow> retention_state \<Rightarrow> retention_state" where
  "final_pass snaps st = fold (\<lambda>s st.
     if decided (sn_id s) st then st
     else if sn_id s \<in> set (rs_kept st)
       then set_decision (sn_id s) Keep (or_default (map_of (rs_reasons st) (sn_id s)) Kept_By_Policy) Policy st
     else set_decision (sn_id s) Delete Not_Covered Policy st) snaps st"

definition summarize :: "(string \<times> retention_decision) list \<Rightarrow> retention_snapshot list \<Rightarrow> int \<Rightarrow> int \<Rightarrow>
    int \<Rightarrow> retention_evaluation" where
  "summarize decisions snaps now guards by_guarantee =
     (let by_id = map_of (rev (map (\<lambda>s. (sn_id s, s)) snaps));
          deletions = filter (\<lambda>d. rd_action d = Delete) (map snd decisions);
          sizes = map (\<lambda>d. Option.bind (by_id (rd_id d)) sn_size) deletions
      in \<lparr> re_now = now,
           re_decisions = sort_key rd_id (map snd decisions),
           re_kept_count = int (length decisions) - int (length deletions),
           re_delete_count = int (length deletions),
           re_reclaimable_bytes = sum_list (map (\<lambda>z. or_default z 0) sizes),
           re_unknown_size_count = int (length (filter (\<lambda>z. z = None) sizes)),
           re_guard_count = guards,
           re_kept_by_guarantee = by_guarantee \<rparr>)"

definition fresh_state :: retention_state where
  "fresh_state = \<lparr> rs_decisions = [], rs_kept = [], rs_reasons = [], rs_guards = 0 \<rparr>"

definition policy_passes :: "int \<Rightarrow> zone \<Rightarrow> retention_rule list \<Rightarrow> retention_snapshot list \<Rightarrow> retention_state \<Rightarrow>
    retention_state" where
  "policy_passes now tz rules snaps st =
     fold (calendar_rule_pass now tz snaps) rules
       (last_pass now rules snaps (fold (age_rule_pass now snaps) rules st))"

definition evaluate_retention :: "retention_snapshot list \<Rightarrow> retention_policy \<Rightarrow> int \<Rightarrow> zone \<Rightarrow>
    retention_evaluation" where
  "evaluate_retention snapshots policy now tz =
     (let snaps = sort_snapshots snapshots;
          st1 = guard_pass snaps fresh_state
      in if \<not> rp_enabled policy
         then summarize (rs_decisions (disabled_pass snaps st1)) snaps now (rs_guards st1) 0
         else (let st2 = safety_pass now snaps st1;
                   st3 = policy_passes now tz (rp_rules policy) snaps st2;
                   (st4, n) = guarantee_pass now snaps st3;
                   st5 = final_pass snaps st4
               in summarize (rs_decisions st5) snaps now (rs_guards st5) n))"

section \<open>What the passes do to the kept ids and the decisions\<close>

lemma keep_for_simps [simp]:
  "set (rs_kept (keep_for r s st)) = insert (sn_id s) (set (rs_kept st))"
  "rs_decisions (keep_for r s st) = rs_decisions st"
  "rs_guards (keep_for r s st) = rs_guards st"
  by (auto simp: keep_for_def)

lemma fold_keep_if:
  "set (rs_kept (fold (\<lambda>s st. if P s then keep_for (R s) s st else st) xs st)) =
     set (rs_kept st) \<union> sn_id ` {s \<in> set xs. P s}"
  "rs_decisions (fold (\<lambda>s st. if P s then keep_for (R s) s st else st) xs st) = rs_decisions st"
  "rs_guards (fold (\<lambda>s st. if P s then keep_for (R s) s st else st) xs st) = rs_guards st"
  by (induction xs arbitrary: st) auto

lemma fold_keep_all:
  "set (rs_kept (fold (keep_for r) xs st)) = set (rs_kept st) \<union> sn_id ` set xs"
  "rs_decisions (fold (keep_for r) xs st) = rs_decisions st"
  "rs_guards (fold (keep_for r) xs st) = rs_guards st"
  by (induction xs arbitrary: st) auto

lemma fold_keep_pairs:
  "set (rs_kept (fold (\<lambda>(k, s). keep_for (R k) s) xs st)) = set (rs_kept st) \<union> (sn_id \<circ> snd) ` set xs"
  "rs_decisions (fold (\<lambda>(k, s). keep_for (R k) s) xs st) = rs_decisions st"
  "rs_guards (fold (\<lambda>(k, s). keep_for (R k) s) xs st) = rs_guards st"
  by (induction xs arbitrary: st) auto

lemma decided_simps [simp]:
  "decided i (set_decision j a r k st) \<longleftrightarrow> i = j \<or> decided i st"
  "decided i (guard s r st) \<longleftrightarrow> i = sn_id s \<or> decided i st"
  "decided i (keep_for r s st) \<longleftrightarrow> decided i st"
  by (auto simp: decided_def set_decision_def guard_def update_conv' keep_for_def)

lemma set_decision_simps [simp]:
  "rs_kept (set_decision i a r k st) = rs_kept st" "rs_guards (set_decision i a r k st) = rs_guards st"
  by (simp_all add: set_decision_def)

lemma guard_simps' [simp]:
  "set (rs_kept (guard s r st)) = insert (sn_id s) (set (rs_kept st))"
  by (simp add: guard_def)

text \<open>The age rules, the first keep-last rule and the calendar rules, each as a set of snapshots.\<close>

definition age_covers :: "int \<Rightarrow> retention_rule list \<Rightarrow> retention_snapshot \<Rightarrow> bool" where
  "age_covers now rules s \<longleftrightarrow>
     (\<exists>a. Keep_Age (Fin a) \<in> set rules \<and> of_int now - a \<le> of_int (sn_timestamp s))"

lemma age_rule_pass_simps:
  "set (rs_kept (age_rule_pass now snaps r st)) =
     set (rs_kept st) \<union> sn_id ` {s \<in> set snaps. age_covers now [r] s}"
  "rs_decisions (age_rule_pass now snaps r st) = rs_decisions st"
  "rs_guards (age_rule_pass now snaps r st) = rs_guards st"
  by (cases "(now, snaps, r, st)" rule: age_rule_pass.cases; force simp: fold_keep_if age_covers_def)+

lemma age_passes:
  "set (rs_kept (fold (age_rule_pass now snaps) rules st)) =
     set (rs_kept st) \<union> sn_id ` {s \<in> set snaps. age_covers now rules s}"
  "rs_decisions (fold (age_rule_pass now snaps) rules st) = rs_decisions st"
  "rs_guards (fold (age_rule_pass now snaps) rules st) = rs_guards st"
proof (induction rules arbitrary: st)
  case (Cons r rules)
  { case 1
    have "{s \<in> set snaps. age_covers now (r # rules) s} =
        {s \<in> set snaps. age_covers now [r] s} \<union> {s \<in> set snaps. age_covers now rules s}"
      by (auto simp: age_covers_def)
    then show ?case by (simp add: Cons(1) age_rule_pass_simps image_Un Un_assoc)
  }
qed (auto simp: age_covers_def age_rule_pass_simps)

definition bucket_newest ::
    "int \<Rightarrow> zone \<Rightarrow> retention_snapshot list \<Rightarrow> calendar_unit \<Rightarrow> bucket_key \<Rightarrow> retention_snapshot \<Rightarrow> bool" where
  "bucket_newest now tz snaps u key s \<longleftrightarrow>
     (let same = filter (\<lambda>t. bucket_key_of u (sn_timestamp t) tz = key) (real_captures now snaps)
      in same \<noteq> [] \<and> s = last same)"

lemma sorted_snapshots: "sorted (map (\<lambda>s. (sn_timestamp s, sn_id s)) (sort_snapshots snaps))"
  by (simp add: sort_snapshots_def)

lemma set_sort_snapshots [simp]: "set (sort_snapshots snaps) = set snaps"
  by (simp add: sort_snapshots_def)

lemma sorted_timestamps:
  "sorted (map (\<lambda>s. (sn_timestamp s, sn_id s)) snaps) \<Longrightarrow> sorted (map sn_timestamp snaps)"
  by (induction snaps) (auto simp: less_eq_prod_def)

text \<open>On snapshots in ascending order the loop keeps the last one of every bucket.\<close>

lemma newest_per_bucket_snoc:
  "newest_per_bucket u window now tz (xs @ [s]) =
     (let b = newest_per_bucket u window now tz xs; key = bucket_key_of u (sn_timestamp s) tz
      in if \<not> sn_successful s \<or> sn_timestamp s > now \<or> key \<notin> set window then b
         else case map_of b key of
           None \<Rightarrow> AList.update key s b
         | Some c \<Rightarrow> if sn_timestamp s \<ge> sn_timestamp c then AList.update key s b else b)"
  by (simp add: newest_per_bucket_def Let_def)

lemma newest_per_bucket_spec:
  assumes "sorted (map sn_timestamp snaps)"
  shows "map_of (newest_per_bucket u window now tz snaps) key =
           (let same = filter (\<lambda>t. bucket_key_of u (sn_timestamp t) tz = key) (real_captures now snaps)
            in if key \<in> set window \<and> same \<noteq> [] then Some (last same) else None)"
  using assms
proof (induction snaps arbitrary: key rule: rev_induct)
  case Nil
  show ?case by (simp add: newest_per_bucket_def real_captures_def)
next
  case (snoc s xs)
  let ?k = "bucket_key_of u (sn_timestamp s) tz"
  have le: "sn_timestamp t \<le> sn_timestamp s" if "t \<in> set xs" for t
    using snoc.prems that by (auto simp: sorted_append)
  have IH: "map_of (newest_per_bucket u window now tz xs) key =
           (let same = filter (\<lambda>t. bucket_key_of u (sn_timestamp t) tz = key) (real_captures now xs)
            in if key \<in> set window \<and> same \<noteq> [] then Some (last same) else None)" for key
    using snoc.IH snoc.prems by (simp add: sorted_append)
  have "sn_timestamp c \<le> sn_timestamp s" if "map_of (newest_per_bucket u window now tz xs) ?k = Some c" for c
  proof -
    from that have "c \<in> set (filter (\<lambda>t. bucket_key_of u (sn_timestamp t) tz = ?k) (real_captures now xs))"
      unfolding IH Let_def by (auto split: if_splits dest: last_in_set)
    then show ?thesis using le by (auto simp: real_captures_def)
  qed
  then have "newest_per_bucket u window now tz (xs @ [s]) =
      (if \<not> sn_successful s \<or> sn_timestamp s > now \<or> ?k \<notin> set window
       then newest_per_bucket u window now tz xs
       else AList.update ?k s (newest_per_bucket u window now tz xs))"
    by (auto simp: newest_per_bucket_snoc Let_def split: option.split)
  then show ?case
    by (auto simp: update_conv' IH real_captures_def Let_def)
qed

lemma distinct_newest_per_bucket: "distinct (map fst (newest_per_bucket u window now tz snaps))"
proof (induction snaps rule: rev_induct)
  case (snoc s xs)
  then show ?case
    by (auto simp: newest_per_bucket_snoc Let_def distinct_update split: option.split)
qed (simp add: newest_per_bucket_def)

definition calendar_covers ::
    "int \<Rightarrow> zone \<Rightarrow> retention_rule list \<Rightarrow> retention_snapshot list \<Rightarrow> retention_snapshot \<Rightarrow> bool" where
  "calendar_covers now tz rules snaps s \<longleftrightarrow>
     (\<exists>u n key. Calendar u n \<in> set rules \<and> n > 0 \<and> key \<in> set (recent_bucket_keys u n now tz) \<and>
        bucket_newest now tz snaps u key s)"

lemma bucket_newest_in: "bucket_newest now tz snaps u key s \<Longrightarrow> s \<in> set (real_captures now snaps)"
  unfolding bucket_newest_def Let_def by (metis filter_is_subset last_in_set subsetD)

lemma newest_per_bucket_reps:
  assumes "sorted (map sn_timestamp snaps)"
  shows "snd ` set (newest_per_bucket u window now tz snaps) =
           {s \<in> set snaps. \<exists>key \<in> set window. bucket_newest now tz snaps u key s}"
proof -
  have "(key, s) \<in> set (newest_per_bucket u window now tz snaps) \<longleftrightarrow>
      key \<in> set window \<and> bucket_newest now tz snaps u key s" for key s
    using map_of_eq_Some_iff [OF distinct_newest_per_bucket, of u window now tz snaps key s]
    unfolding newest_per_bucket_spec [OF assms] bucket_newest_def Let_def by (auto split: if_splits)
  moreover have "bucket_newest now tz snaps u key s \<Longrightarrow> s \<in> set snaps" for key s
    using bucket_newest_in by (fastforce simp: real_captures_def)
  ultimately show ?thesis by force
qed

lemma calendar_rule_pass_simps:
  assumes "sorted (map sn_timestamp snaps)"
  shows "set (rs_kept (calendar_rule_pass now tz snaps r st)) =
     set (rs_kept st) \<union> sn_id ` {s \<in> set snaps. calendar_covers now tz [r] snaps s}"
  "rs_decisions (calendar_rule_pass now tz snaps r st) = rs_decisions st"
  "rs_guards (calendar_rule_pass now tz snaps r st) = rs_guards st"
proof -
  show "rs_decisions (calendar_rule_pass now tz snaps r st) = rs_decisions st"
    "rs_guards (calendar_rule_pass now tz snaps r st) = rs_guards st"
    by (cases r; simp add: fold_keep_pairs)+
  show "set (rs_kept (calendar_rule_pass now tz snaps r st)) =
     set (rs_kept st) \<union> sn_id ` {s \<in> set snaps. calendar_covers now tz [r] snaps s}"
  proof (cases r)
    case (Calendar u n)
    have "(sn_id \<circ> snd) ` set (newest_per_bucket u w now tz snaps) =
        sn_id ` {s \<in> set snaps. \<exists>key \<in> set w. bucket_newest now tz snaps u key s}" for w
      unfolding image_comp [symmetric] newest_per_bucket_reps [OF assms] ..
    with Calendar show ?thesis
      by (auto simp: fold_keep_pairs calendar_covers_def simp del: o_apply)
  qed (auto simp: calendar_covers_def)
qed

lemma calendar_passes:
  assumes "sorted (map sn_timestamp snaps)"
  shows "set (rs_kept (fold (calendar_rule_pass now tz snaps) rules st)) =
     set (rs_kept st) \<union> sn_id ` {s \<in> set snaps. calendar_covers now tz rules snaps s}"
  "rs_decisions (fold (calendar_rule_pass now tz snaps) rules st) = rs_decisions st"
  "rs_guards (fold (calendar_rule_pass now tz snaps) rules st) = rs_guards st"
proof (induction rules arbitrary: st)
  case (Cons r rules)
  { case 1
    have "{s \<in> set snaps. calendar_covers now tz (r # rules) snaps s} =
        {s \<in> set snaps. calendar_covers now tz [r] snaps s} \<union>
        {s \<in> set snaps. calendar_covers now tz rules snaps s}"
      by (auto simp: calendar_covers_def)
    then show ?case by (simp add: Cons(1) calendar_rule_pass_simps [OF assms] image_Un Un_assoc)
  }
qed (auto simp: calendar_covers_def calendar_rule_pass_simps [OF assms])

definition last_covers :: "int \<Rightarrow> retention_rule list \<Rightarrow> retention_snapshot list \<Rightarrow> retention_snapshot \<Rightarrow> bool" where
  "last_covers now rules snaps s \<longleftrightarrow>
     (\<exists>n > 0. find is_keep_last rules = Some (Keep_Last n) \<and> s \<in> set (take_last n (real_captures now snaps)))"

lemma set_take_last: "set (take_last n xs) \<subseteq> set xs"
  by (simp add: take_last_def set_drop_subset)

lemma set_real_captures: "set (real_captures now snaps) = {s \<in> set snaps. sn_successful s \<and> sn_timestamp s \<le> now}"
  by (auto simp: real_captures_def)

lemma last_pass_simps:
  "set (rs_kept (last_pass now rules snaps st)) =
     set (rs_kept st) \<union> sn_id ` {s \<in> set snaps. last_covers now rules snaps s}"
  "rs_decisions (last_pass now rules snaps st) = rs_decisions st"
  "rs_guards (last_pass now rules snaps st) = rs_guards st"
proof -
  have sub: "s \<in> set (take_last n (real_captures now snaps)) \<Longrightarrow> s \<in> set snaps" for n s
    using set_take_last by (fastforce simp: real_captures_def)
  show "set (rs_kept (last_pass now rules snaps st)) =
     set (rs_kept st) \<union> sn_id ` {s \<in> set snaps. last_covers now rules snaps s}"
    using sub by (auto simp: last_pass_def last_covers_def fold_keep_all split: option.split retention_rule.split)
qed (auto simp: last_pass_def fold_keep_all split: option.split retention_rule.split)

definition rules_cover ::
    "int \<Rightarrow> zone \<Rightarrow> retention_rule list \<Rightarrow> retention_snapshot list \<Rightarrow> retention_snapshot \<Rightarrow> bool" where
  "rules_cover now tz rules snaps s \<longleftrightarrow>
     age_covers now rules s \<or> last_covers now rules snaps s \<or> calendar_covers now tz rules snaps s"

lemma policy_passes_simps:
  assumes "sorted (map sn_timestamp snaps)"
  shows "set (rs_kept (policy_passes now tz rules snaps st)) =
     set (rs_kept st) \<union> sn_id ` {s \<in> set snaps. rules_cover now tz rules snaps s}"
  "rs_decisions (policy_passes now tz rules snaps st) = rs_decisions st"
  "rs_guards (policy_passes now tz rules snaps st) = rs_guards st"
  by (auto simp: policy_passes_def calendar_passes [OF assms] last_pass_simps age_passes rules_cover_def)

text \<open>The passes that decide: each id is decided once, and only keeps are decided before the end.\<close>

definition decides :: "retention_state \<Rightarrow> string \<Rightarrow> retention_action \<Rightarrow> bool" where
  "decides st i a \<longleftrightarrow> (\<exists>d. map_of (rs_decisions st) i = Some d \<and> rd_action d = a)"

lemma decides_set [simp]:
  "decides (set_decision i a r k st) j b \<longleftrightarrow> (if j = i then b = a else decides st j b)"
  by (auto simp: decides_def set_decision_def update_conv')

lemma decides_guard [simp]:
  "decides (guard s r st) j b \<longleftrightarrow> (if j = sn_id s then b = Keep else decides st j b)"
  by (auto simp: decides_def set_decision_def guard_def update_conv')

lemma decided_iff: "decided i st \<longleftrightarrow> (\<exists>a. decides st i a)"
  by (auto simp: decided_def decides_def)

definition guarded :: "int \<Rightarrow> retention_snapshot \<Rightarrow> bool" where
  "guarded now s \<longleftrightarrow> sn_pinned s \<or> sn_rollback s \<or> sn_timestamp s > now"

lemma guard_pass_decides:
  "decides (guard_pass snaps st) i a \<longleftrightarrow>
     (if \<exists>s \<in> set snaps. sn_id s = i \<and> (sn_pinned s \<or> sn_rollback s) then a = Keep else decides st i a)"
  by (induction snaps arbitrary: st) (auto simp: guard_pass_def)

lemma guard_pass_kept:
  "set (rs_kept (guard_pass snaps st)) =
     set (rs_kept st) \<union> sn_id ` {s \<in> set snaps. sn_pinned s \<or> sn_rollback s}"
  by (induction snaps arbitrary: st) (auto simp: guard_pass_def)

lemma safety_pass_decides:
  "decides (safety_pass now snaps st) i a \<longleftrightarrow>
     (if \<not> decided i st \<and> (\<exists>s \<in> set snaps. sn_id s = i \<and> sn_timestamp s > now) then a = Keep
      else decides st i a)"
proof (induction snaps arbitrary: st)
  case (Cons s snaps)
  show ?case
  proof (cases "\<not> decided (sn_id s) st \<and> sn_timestamp s > now")
    case True
    then have "safety_pass now (s # snaps) st = safety_pass now snaps (guard s Safety_Timestamp st)"
      by (simp add: safety_pass_def)
    with True Cons.IH show ?thesis by auto
  next
    case False
    then have "safety_pass now (s # snaps) st = safety_pass now snaps st"
      by (auto simp: safety_pass_def)
    with False Cons.IH show ?thesis by auto
  qed
qed (simp add: safety_pass_def)

lemma safety_pass_kept:
  "set (rs_kept (safety_pass now snaps st)) =
     set (rs_kept st) \<union> sn_id ` {s \<in> set snaps. \<not> decided (sn_id s) st \<and> sn_timestamp s > now}"
proof (induction snaps arbitrary: st)
  case (Cons s snaps)
  show ?case
  proof (cases "\<not> decided (sn_id s) st \<and> sn_timestamp s > now")
    case True
    then have "safety_pass now (s # snaps) st = safety_pass now snaps (guard s Safety_Timestamp st)"
      by (simp add: safety_pass_def)
    with True Cons.IH show ?thesis by auto
  next
    case False
    then have "safety_pass now (s # snaps) st = safety_pass now snaps st"
      by (auto simp: safety_pass_def)
    with False Cons.IH show ?thesis by auto
  qed
qed (simp add: safety_pass_def)

lemma final_pass_decides:
  "decides (final_pass snaps st) i a \<longleftrightarrow>
     (if \<not> decided i st \<and> i \<in> sn_id ` set snaps then (a = Keep \<longleftrightarrow> i \<in> set (rs_kept st))
      else decides st i a)"
proof (induction snaps arbitrary: st)
  case (Cons s snaps)
  have step: "final_pass (s # snaps) st = final_pass snaps
      (if decided (sn_id s) st then st
       else if sn_id s \<in> set (rs_kept st)
         then set_decision (sn_id s) Keep (or_default (map_of (rs_reasons st) (sn_id s)) Kept_By_Policy) Policy st
       else set_decision (sn_id s) Delete Not_Covered Policy st)"
    by (simp add: final_pass_def)
  show ?case unfolding step Cons.IH by (cases a) auto
qed (simp add: final_pass_def)

lemma disabled_pass_decides:
  "decides (disabled_pass snaps st) i a \<longleftrightarrow>
     (if \<not> decided i st \<and> i \<in> sn_id ` set snaps then a = Keep else decides st i a)"
proof (induction snaps arbitrary: st)
  case (Cons s snaps)
  have step: "disabled_pass (s # snaps) st = disabled_pass snaps
      (if decided (sn_id s) st then st else set_decision (sn_id s) Keep Retention_Disabled Policy st)"
    by (simp add: disabled_pass_def)
  show ?case unfolding step Cons.IH by auto
qed (simp add: disabled_pass_def)

definition retention_run ::
    "retention_snapshot list \<Rightarrow> retention_policy \<Rightarrow> int \<Rightarrow> zone \<Rightarrow> retention_state \<times> int" where
  "retention_run snaps policy now tz =
     (if \<not> rp_enabled policy then (disabled_pass snaps (guard_pass snaps fresh_state), 0)
      else (let (st, n) = guarantee_pass now snaps (policy_passes now tz (rp_rules policy) snaps
                            (safety_pass now snaps (guard_pass snaps fresh_state)))
            in (final_pass snaps st, n)))"

lemma disabled_pass_guards: "rs_guards (disabled_pass snaps st) = rs_guards st"
  unfolding disabled_pass_def by (rule fold_invariant [where Q = "\<lambda>_. True"]) auto

lemma evaluate_retention_run:
  "evaluate_retention snapshots policy now tz =
     (let snaps = sort_snapshots snapshots; (st, n) = retention_run snaps policy now tz
      in summarize (rs_decisions st) snaps now (rs_guards st) n)"
  by (simp add: evaluate_retention_def retention_run_def Let_def disabled_pass_guards split: prod.split)

definition wf_decisions :: "retention_state \<Rightarrow> bool" where
  "wf_decisions st \<longleftrightarrow>
     distinct (map fst (rs_decisions st)) \<and> (\<forall>i d. map_of (rs_decisions st) i = Some d \<longrightarrow> rd_id d = i)"

lemma wf_set_decision: "wf_decisions st \<Longrightarrow> wf_decisions (set_decision i a r k st)"
  by (auto simp: wf_decisions_def set_decision_def distinct_update update_conv')

lemma wf_cong: "rs_decisions st' = rs_decisions st \<Longrightarrow> wf_decisions st \<Longrightarrow> wf_decisions st'"
  by (simp add: wf_decisions_def)

lemma wf_guard: "wf_decisions st \<Longrightarrow> wf_decisions (guard s r st)"
  unfolding guard_def by (rule wf_cong [OF _ wf_set_decision]) simp_all

lemma guarantee_pass_decisions: "rs_decisions (fst (guarantee_pass now snaps st)) = rs_decisions st"
  by (simp add: guarantee_pass_def Let_def)

lemma wf_passes:
  "wf_decisions st \<Longrightarrow> wf_decisions (guard_pass snaps st)"
  "wf_decisions st \<Longrightarrow> wf_decisions (safety_pass now snaps st)"
  "wf_decisions st \<Longrightarrow> wf_decisions (disabled_pass snaps st)"
  "wf_decisions st \<Longrightarrow> wf_decisions (final_pass snaps st)"
  unfolding guard_pass_def safety_pass_def disabled_pass_def final_pass_def
  by (rule fold_invariant [where Q = "\<lambda>_. True"]; simp add: wf_guard wf_set_decision)+

lemma wf_retention_run:
  assumes "sorted (map sn_timestamp snaps)"
  shows "wf_decisions (fst (retention_run snaps policy now tz))"
proof -
  have "wf_decisions fresh_state" by (simp add: wf_decisions_def fresh_state_def)
  then have w: "wf_decisions (safety_pass now snaps (guard_pass snaps fresh_state))"
    and d: "wf_decisions (disabled_pass snaps (guard_pass snaps fresh_state))"
    by (simp_all add: wf_passes)
  have "wf_decisions (fst (guarantee_pass now snaps (policy_passes now tz (rp_rules policy) snaps
                            (safety_pass now snaps (guard_pass snaps fresh_state)))))"
    by (rule wf_cong [OF _ w]) (simp add: guarantee_pass_decisions policy_passes_simps [OF assms])
  with d show ?thesis by (simp add: retention_run_def wf_passes case_prod_beta)
qed

text \<open>Which snapshots a policy keeps, said without the passes.\<close>

definition policy_keeps ::
    "int \<Rightarrow> zone \<Rightarrow> retention_rule list \<Rightarrow> retention_snapshot list \<Rightarrow> retention_snapshot \<Rightarrow> bool" where
  "policy_keeps now tz rules snaps s \<longleftrightarrow>
     guarded now s \<or> rules_cover now tz rules snaps s \<or>
     (real_captures now snaps \<noteq> [] \<and> s = last (real_captures now snaps) \<and>
      (\<forall>t \<in> set (real_captures now snaps). \<not> guarded now t \<and> \<not> rules_cover now tz rules snaps t))"

lemma not_decided_fresh [simp]: "\<not> decided i fresh_state" "\<not> decides fresh_state i a" "rs_kept fresh_state = []"
  by (simp_all add: decided_def decides_def fresh_state_def)

lemma kept_after_rules:
  assumes "sorted (map sn_timestamp snaps)" and "distinct (map sn_id snaps)" and "s \<in> set snaps"
  shows "sn_id s \<in> set (rs_kept (policy_passes now tz rules snaps
            (safety_pass now snaps (guard_pass snaps fresh_state)))) \<longleftrightarrow>
         guarded now s \<or> rules_cover now tz rules snaps s"
proof -
  have same: "t = s" if "t \<in> set snaps" "sn_id t = sn_id s" for t
    using assms(2,3) that by (auto simp: distinct_map dest: inj_onD)
  then show ?thesis
    using assms(3)
    by (auto simp: policy_passes_simps [OF assms(1)] safety_pass_kept guard_pass_kept guarded_def
        decided_iff guard_pass_decides image_iff)
qed

lemma run_decides:
  assumes "sorted (map sn_timestamp snaps)" and "distinct (map sn_id snaps)" and "s \<in> set snaps"
    and "rp_enabled policy"
  shows "decides (fst (retention_run snaps policy now tz)) (sn_id s) a \<longleftrightarrow>
           (a = Keep \<longleftrightarrow> policy_keeps now tz (rp_rules policy) snaps s)"
proof -
  let ?st2 = "safety_pass now snaps (guard_pass snaps fresh_state)"
  let ?st3 = "policy_passes now tz (rp_rules policy) snaps ?st2"
  let ?st4 = "fst (guarantee_pass now snaps ?st3)"
  note same = kept_after_rules [OF assms(1,2)]
  have real_in: "t \<in> set (real_captures now snaps) \<Longrightarrow> t \<in> set snaps" for t by (simp add: set_real_captures)
  have guarantee: "list_ex (\<lambda>t. sn_id t \<in> set (rs_kept ?st3)) (real_captures now snaps) \<longleftrightarrow>
      (\<exists>t \<in> set (real_captures now snaps). guarded now t \<or> rules_cover now tz (rp_rules policy) snaps t)"
    using same real_in by (auto simp: list_ex_iff)
  have last: "sn_id s = sn_id (last (real_captures now snaps)) \<longleftrightarrow> s = last (real_captures now snaps)"
    if "real_captures now snaps \<noteq> []"
    using assms(2,3) real_in [OF last_in_set [OF that]] by (auto simp: distinct_map dest: inj_onD)
  have kept: "sn_id s \<in> set (rs_kept ?st4) \<longleftrightarrow> policy_keeps now tz (rp_rules policy) snaps s"
    using same [OF assms(3), of now tz "rp_rules policy"] last
    by (auto simp: guarantee_pass_def Let_def guarantee policy_keeps_def)
  have d4: "decides ?st4 i b \<longleftrightarrow> decides ?st2 i b" for i b
    by (simp add: decides_def guarantee_pass_decisions policy_passes_simps [OF assms(1)])
  have d2: "decides ?st2 (sn_id s) b \<Longrightarrow> b = Keep \<and> guarded now s" for b
    using assms(2,3) by (auto simp: safety_pass_decides guard_pass_decides decided_iff guarded_def distinct_map
        dest: inj_onD split: if_splits)
  have g: "guarded now s \<Longrightarrow> decides ?st2 (sn_id s) Keep"
    using assms(3) by (auto simp: safety_pass_decides guard_pass_decides decided_iff guarded_def)
  have "fst (retention_run snaps policy now tz) = final_pass snaps ?st4"
    using assms(4) by (simp add: retention_run_def case_prod_beta)
  moreover have "decides (final_pass snaps ?st4) (sn_id s) a \<longleftrightarrow>
      (a = Keep \<longleftrightarrow> policy_keeps now tz (rp_rules policy) snaps s)"
    using kept d4 d2 g assms(3)
    by (cases a) (auto simp: final_pass_decides decided_iff policy_keeps_def)
  ultimately show ?thesis by simp
qed

section \<open>The decisions of an evaluation\<close>

lemma sorted_sort_snapshots: "sorted (map sn_timestamp (sort_snapshots snaps))"
  by (rule sorted_timestamps [OF sorted_snapshots])

lemma evaluation_decisions:
  "(\<exists>d \<in> set (re_decisions (evaluate_retention snaps policy now tz)). rd_id d = i \<and> rd_action d = a)
   \<longleftrightarrow> decides (fst (retention_run (sort_snapshots snaps) policy now tz)) i a"
  (is "?l \<longleftrightarrow> ?r")
proof -
  let ?st = "fst (retention_run (sort_snapshots snaps) policy now tz)"
  have w: "wf_decisions ?st" by (rule wf_retention_run [OF sorted_sort_snapshots])
  have s: "set (re_decisions (evaluate_retention snaps policy now tz)) = snd ` set (rs_decisions ?st)"
    by (simp add: evaluate_retention_run summarize_def Let_def case_prod_beta)
  have "?l \<longleftrightarrow> (\<exists>k d. map_of (rs_decisions ?st) k = Some d \<and> rd_id d = i \<and> rd_action d = a)"
    unfolding s using w by (force simp: wf_decisions_def dest: map_of_SomeD)
  also have "\<dots> \<longleftrightarrow> ?r" using w by (fastforce simp: wf_decisions_def decides_def)
  finally show ?thesis .
qed

text \<open>Only keeps are decided before the last pass, so a kept id is never deleted.\<close>

lemma early_keeps:
  "decides (policy_passes now tz rules (sort_snapshots snaps)
      (safety_pass now (sort_snapshots snaps) (guard_pass (sort_snapshots snaps) fresh_state))) i a \<Longrightarrow> a = Keep"
  by (simp add: decides_def [of "policy_passes _ _ _ _ _"] policy_passes_simps [OF sorted_sort_snapshots]
      flip: decides_def)
    (auto simp: safety_pass_decides guard_pass_decides split: if_splits)

lemma kept_not_deleted:
  assumes "rp_enabled policy"
    and "i \<in> set (rs_kept (fst (guarantee_pass now (sort_snapshots snaps)
           (policy_passes now tz (rp_rules policy) (sort_snapshots snaps)
             (safety_pass now (sort_snapshots snaps) (guard_pass (sort_snapshots snaps) fresh_state))))))"
  shows "\<not> decides (fst (retention_run (sort_snapshots snaps) policy now tz)) i Delete"
proof -
  let ?st3 = "policy_passes now tz (rp_rules policy) (sort_snapshots snaps)
             (safety_pass now (sort_snapshots snaps) (guard_pass (sort_snapshots snaps) fresh_state))"
  let ?st4 = "fst (guarantee_pass now (sort_snapshots snaps) ?st3)"
  have "decides ?st4 i a \<longleftrightarrow> decides ?st3 i a" for a
    by (simp add: decides_def guarantee_pass_decisions)
  with early_keeps have "\<not> decides ?st4 i Delete" by blast
  with assms show ?thesis
    by (simp add: retention_run_def case_prod_beta final_pass_decides)
qed

lemma guarded_kept:
  assumes "s \<in> set snaps" and "guarded now s"
  shows "sn_id s \<in> set (rs_kept (safety_pass now snaps (guard_pass snaps fresh_state)))"
proof (cases "\<exists>t \<in> set snaps. sn_id t = sn_id s \<and> (sn_pinned t \<or> sn_rollback t)")
  case True
  then obtain t where "t \<in> set snaps" "sn_id s = sn_id t" "sn_pinned t \<or> sn_rollback t" by auto
  then show ?thesis by (auto simp: safety_pass_kept guard_pass_kept)
next
  case False
  with assms have "sn_timestamp s > now" "\<not> decided (sn_id s) (guard_pass snaps fresh_state)"
    by (auto simp: guarded_def decided_iff guard_pass_decides)
  with assms(1) show ?thesis by (auto simp: safety_pass_kept)
qed

lemma kept_monotone:
  "set (rs_kept (safety_pass now (sort_snapshots snaps) (guard_pass (sort_snapshots snaps) fresh_state))) \<subseteq>
   set (rs_kept (fst (guarantee_pass now (sort_snapshots snaps)
           (policy_passes now tz rules (sort_snapshots snaps)
             (safety_pass now (sort_snapshots snaps) (guard_pass (sort_snapshots snaps) fresh_state))))))"
  by (auto simp: guarantee_pass_def Let_def policy_passes_simps [OF sorted_sort_snapshots])

lemma some_capture_kept:
  assumes "real_captures now snaps \<noteq> []"
  shows "\<exists>s \<in> set (real_captures now snaps). sn_id s \<in> set (rs_kept (fst (guarantee_pass now snaps st)))"
  using assms by (auto simp: guarantee_pass_def Let_def list_ex_iff intro: bexI [OF _ last_in_set])

lemma disabled_decides:
  "\<not> rp_enabled policy \<Longrightarrow> \<not> decides (fst (retention_run snaps policy now tz)) i Delete"
  by (auto simp: retention_run_def disabled_pass_decides guard_pass_decides split: if_splits)

section \<open>Weeks and windows\<close>

lemma week_parts:
  assumes "civil_from_days n = (year, month, day)"
  defines "thursday \<equiv> n + (3 - weekday n)"
  shows "week_key year month day (weekday n) =
           Week_Key (civil_year thursday) (1 + (thursday - january_first (civil_year thursday)) div 7)"
    and "thursday = 7 * ((n + 3) div 7)"
proof -
  let ?jan1 = "january_first (civil_year thursday)"
  let ?jan4 = "?jan1 + 3"
  have jan4: "days_from_civil (civil_year thursday) 1 4 = ?jan4"
    using days_from_civil_shift [of "civil_year thursday" 1 4 3] by (simp add: january_first_def)
  have n: "days_from_civil year month day = n" by (rule days_from_civil_of_days [OF assms(1)])
  show thursday: "thursday = 7 * ((n + 3) div 7)"
    by (simp add: thursday_def weekday_def minus_mod_eq_mult_div [symmetric])
  have monday: "(weekday n + (?jan4 - n) mod 7) mod 7 = (?jan4 + 3) mod 7"
    by (simp add: weekday_def mod_add_eq algebra_simps)
  have bounds: "0 \<le> thursday - ?jan1" "thursday - ?jan1 \<le> 365"
    using day_of_year [of thursday] by simp_all
  define w where "w = (?jan4 + 3) mod 7"
  have jan1: "?jan1 + 6 = 7 * ((?jan1 + 6) div 7) + w" by (simp add: w_def algebra_simps)
  have "(thursday - 3 - (?jan4 - w)) div 7 = (thursday - ?jan1) div 7"
  proof -
    have "thursday - 3 - (?jan4 - w) = 7 * ((n + 3) div 7 - (?jan1 + 6) div 7)"
      using thursday jan1 by simp
    moreover have "thursday - ?jan1 = 7 * ((n + 3) div 7 - (?jan1 + 6) div 7) + (6 - w)"
      using thursday jan1 by simp
    moreover have "0 \<le> w" "w < 7" by (simp_all add: w_def)
    ultimately show ?thesis by simp
  qed
  moreover have "0 \<le> (thursday - ?jan1) div 7" "(thursday - ?jan1) div 7 \<le> 52"
    using bounds by simp_all
  moreover have th: "n + (4 - (weekday n + 1)) = thursday" by (simp add: thursday_def)
  moreover have "(weekday n + 1 - 1 + (?jan4 - n) mod 7) mod 7 + 1 - 1 = w"
    using monday by (simp add: w_def)
  ultimately show "week_key year month day (weekday n) =
           Week_Key (civil_year thursday) (1 + (thursday - ?jan1) div 7)"
    unfolding week_key_def Let_def n th jan4 by simp
qed

lemma weekly_key:
  "bucket_of_day Weekly n =
     (let t = 7 * ((n + 3) div 7)
      in Week_Key (civil_year t) (1 + (t - january_first (civil_year t)) div 7))"
proof -
  obtain y m d where c: "civil_from_days n = (y, m, d)" by (cases "civil_from_days n") auto
  show ?thesis
    using week_parts(1) [OF c] week_parts(2) [OF c] by (simp add: bucket_of_day_def c Let_def)
qed

lemma daily_key_eq: "bucket_of_day Daily a = bucket_of_day Daily b \<longleftrightarrow> a = b"
  by (auto simp: bucket_of_day_def split: prod.splits intro: civil_from_days_inj)

lemma day_ms_pos [simp]: "0 < day_ms" "day_ms \<noteq> 0"
  by (simp_all add: day_ms_def)

lemma local_day_utc [simp]: "local_day utc (n * day_ms) = n" "local_day utc ts = ts div day_ms"
  by (simp_all add: local_day_def utc_def day_ms_def)

lemma recent_days:
  "recent_base_day Daily (civil_from_days n) k = n - k"
  "recent_base_day Weekly (civil_from_days n) k = n - 7 * k"
proof -
  obtain y m d where c: "civil_from_days n = (y, m, d)" by (cases "civil_from_days n") auto
  show "recent_base_day Daily (civil_from_days n) k = n - k"
    "recent_base_day Weekly (civil_from_days n) k = n - 7 * k"
    using days_from_civil_of_days [OF c] by (simp_all add: recent_base_day_def c days_from_civil_shift)
qed

lemma week_back_3: "(x - 7 * k + 3) div 7 = (x + 3) div 7 - (k::int)"
  by presburger

lemma steps_back: "(\<exists>k \<in> set [0..<nat n]. w = v - int k) \<longleftrightarrow> 0 \<le> v - w \<and> v - w < n"
proof
  assume "0 \<le> v - w \<and> v - w < n"
  then show "\<exists>k \<in> set [0..<nat n]. w = v - int k" by (intro bexI [of _ "nat (v - w)"]) auto
qed auto

lemma weekly_key_eq:
  "bucket_key_of Weekly s tz = bucket_key_of Weekly t tz \<longleftrightarrow>
     (local_day tz s + 3) div 7 = (local_day tz t + 3) div 7"
  (is "_ \<longleftrightarrow> ?a = ?b")
proof
  assume "bucket_key_of Weekly s tz = bucket_key_of Weekly t tz"
  then have ed: "civil_year (7 * ?a) = civil_year (7 * ?b) \<and>
      (7 * ?a - january_first (civil_year (7 * ?a))) div 7 =
      (7 * ?b - january_first (civil_year (7 * ?b))) div 7"
    by (auto simp: bucket_key_of_def weekly_key Let_def)
  have "(7 * x - j) div 7 = x + (- j) div 7" for x j :: int
    using div_mult_self1 [of 7 "- j" x] by (simp add: algebra_simps)
  with ed show "?a = ?b" by auto
qed (simp add: bucket_key_of_def weekly_key)

text \<open>
  The weekly buckets of the evaluator are exactly the weeks that begin on a Monday, also
  where a week spans two years: two days have the same weekly key if and only if they lie
  in the same Monday-based week.
\<close>

theorem weekly_buckets_are_monday_weeks:
  "bucket_key_of Weekly s tz = bucket_key_of Weekly t tz \<longleftrightarrow>
     (local_day tz s + 3) div 7 = (local_day tz t + 3) div 7"
  by (rule weekly_key_eq)

text \<open>
  In UTC the window of a daily rule is the last n days and that of a weekly rule the
  last n Monday-based weeks, today and the current week included.
\<close>

theorem utc_windows_are_the_last_days_and_weeks:
  "(bucket_key_of Daily ts utc \<in> set (recent_bucket_keys Daily n now utc) \<longleftrightarrow>
      (let d = now div day_ms - ts div day_ms in 0 \<le> d \<and> d < n)) \<and>
   (bucket_key_of Weekly ts utc \<in> set (recent_bucket_keys Weekly n now utc) \<longleftrightarrow>
      (let w = (now div day_ms + 3) div 7 - (ts div day_ms + 3) div 7 in 0 \<le> w \<and> w < n))"
proof
  show "bucket_key_of Daily ts utc \<in> set (recent_bucket_keys Daily n now utc) \<longleftrightarrow>
      (let d = now div day_ms - ts div day_ms in 0 \<le> d \<and> d < n)"
    using steps_back [of n "ts div day_ms" "now div day_ms"]
    by (simp add: recent_bucket_keys_def Let_def image_iff bucket_key_of_def daily_key_eq recent_days
        del: set_upt)
next
  have key: "bucket_key_of Weekly ts utc = bucket_key_of Weekly ((now div day_ms - 7 * k) * day_ms) utc \<longleftrightarrow>
      (ts div day_ms + 3) div 7 = (now div day_ms + 3) div 7 - k" for k
    by (simp add: weekly_key_eq week_back_3)
  show "bucket_key_of Weekly ts utc \<in> set (recent_bucket_keys Weekly n now utc) \<longleftrightarrow>
      (let w = (now div day_ms + 3) div 7 - (ts div day_ms + 3) div 7 in 0 \<le> w \<and> w < n)"
    using steps_back [of n "(ts div day_ms + 3) div 7" "(now div day_ms + 3) div 7"]
    by (simp add: recent_bucket_keys_def Let_def image_iff recent_days key del: set_upt)
qed

text \<open>
  West of UTC a daily rule never protects today. \<open>recentBucketKeys\<close> steps back from the
  local date but names each day by the instant of its UTC midnight, which is still the day
  before in a zone behind UTC: the window is the n days before today, so that no snapshot
  captured today is kept by it.
\<close>

theorem daily_window_misses_today_west_of_utc:
  assumes "- day_ms \<le> offset" and "offset < 0"
  shows "bucket_key_of Daily ts (\<lambda>_. offset) \<in> set (recent_bucket_keys Daily n now (\<lambda>_. offset)) \<longleftrightarrow>
           (let d = local_day (\<lambda>_. offset) now - local_day (\<lambda>_. offset) ts in 1 \<le> d \<and> d \<le> n)"
proof -
  let ?tz = "\<lambda>_. offset"
  have step: "local_day ?tz (m * day_ms) = m - 1" for m
    using assms unfolding local_day_def
    by (intro int_div_pos_eq [where r = "day_ms + offset"]) (simp_all add: algebra_simps)
  show ?thesis
    using steps_back [of n "local_day ?tz ts" "local_day ?tz now - 1"]
    unfolding recent_bucket_keys_def Let_def bucket_key_of_def set_map image_iff daily_key_eq recent_days step
    by (simp add: diff_right_commute del: set_upt) linarith
qed

theorem daily_window_misses_today_west_of_utc_witness:
  "bucket_key_of Daily 100000000 (\<lambda>_. - 18000000) \<notin>
     set (recent_bucket_keys Daily 7 100000001 (\<lambda>_. - 18000000))"
  using daily_window_misses_today_west_of_utc [of "- 18000000" 100000000 7 100000001]
  by (simp add: day_ms_def local_day_def)

section \<open>What the evaluator decides\<close>

lemma evaluation_ids:
  "re_decisions (evaluate_retention snaps policy now tz) =
     sort_key rd_id (map snd (rs_decisions (fst (retention_run (sort_snapshots snaps) policy now tz))))"
  by (simp add: evaluate_retention_run summarize_def Let_def case_prod_beta)

text \<open>
  Nothing protected is deleted. A pinned snapshot, a rollback artifact and a snapshot
  with a time in the future are never deleted, whatever the rules and the time zone; a
  disabled policy deletes nothing.
\<close>

theorem protected_snapshots_are_never_deleted:
  assumes "s \<in> set snaps" and "sn_pinned s \<or> sn_rollback s \<or> now < sn_timestamp s \<or> \<not> rp_enabled policy"
    and "d \<in> set (re_decisions (evaluate_retention snaps policy now tz))" and "rd_id d = sn_id s"
  shows "rd_action d = Keep"
proof (rule ccontr)
  assume "rd_action d \<noteq> Keep"
  with assms(3,4) evaluation_decisions [of snaps policy now tz "sn_id s" Delete]
  have del: "decides (fst (retention_run (sort_snapshots snaps) policy now tz)) (sn_id s) Delete"
    by (cases "rd_action d") auto
  then have enabled: "rp_enabled policy" using disabled_decides by blast
  with assms(2) have "guarded now s" by (simp add: guarded_def)
  with assms(1) have "sn_id s \<in> set (rs_kept (safety_pass now (sort_snapshots snaps)
      (guard_pass (sort_snapshots snaps) fresh_state)))"
    by (intro guarded_kept) simp_all
  then have "sn_id s \<in> set (rs_kept (fst (guarantee_pass now (sort_snapshots snaps)
      (policy_passes now tz (rp_rules policy) (sort_snapshots snaps)
        (safety_pass now (sort_snapshots snaps) (guard_pass (sort_snapshots snaps) fresh_state))))))"
    by (rule kept_monotone [THEN subsetD])
  from kept_not_deleted [OF enabled this] del show False by simp
qed

definition sample_snapshot :: "string \<Rightarrow> int \<Rightarrow> bool \<Rightarrow> retention_snapshot" where
  "sample_snapshot i ts pinned =
     \<lparr> sn_id = i, sn_timestamp = ts, sn_size = Some 10, sn_pinned = pinned, sn_rollback = False,
       sn_successful = True, sn_host_id = None \<rparr>"

definition sample_policy :: "retention_rule list \<Rightarrow> retention_policy" where
  "sample_policy rules = \<lparr> rp_enabled = True, rp_rules = rules, rp_keep_at_least_one = Some True \<rparr>"

lemma sample_run:
  "map (\<lambda>d. (rd_id d, rd_action d)) (re_decisions (evaluate_retention
     [sample_snapshot ''a'' 1 True, sample_snapshot ''b'' 2 False, sample_snapshot ''c'' 3 False]
     (sample_policy [Keep_Last 1]) 10 utc)) = [(''a'', Keep), (''b'', Delete), (''c'', Keep)]"
  by code_simp

theorem protected_snapshots_are_never_deleted_witness:
  "Delete \<notin> rd_action ` {d \<in> set (re_decisions (evaluate_retention
      [sample_snapshot ''a'' 1 True, sample_snapshot ''b'' 2 False, sample_snapshot ''c'' 3 False]
      (sample_policy [Keep_Last 1]) 10 utc)). rd_id d = ''a''}"
  using protected_snapshots_are_never_deleted [of "sample_snapshot ''a'' 1 True"
      "[sample_snapshot ''a'' 1 True, sample_snapshot ''b'' 2 False, sample_snapshot ''c'' 3 False]"]
  by (fastforce simp: sample_snapshot_def)

text \<open>
  A backup never loses its last good snapshot: where there is a successful capture that
  is not dated in the future, at least one of them is not deleted, under every policy, also
  one without rules and one whose \<open>keepAtLeastOne\<close> is false.
\<close>

theorem a_successful_capture_survives:
  assumes "\<exists>s \<in> set snaps. sn_successful s \<and> sn_timestamp s \<le> now"
  shows "\<exists>s \<in> set snaps. sn_successful s \<and> sn_timestamp s \<le> now \<and>
           (\<forall>d \<in> set (re_decisions (evaluate_retention snaps policy now tz)).
              rd_id d = sn_id s \<longrightarrow> rd_action d = Keep)"
proof -
  have keep: "\<not> decides (fst (retention_run (sort_snapshots snaps) policy now tz)) i Delete \<Longrightarrow>
      \<forall>d \<in> set (re_decisions (evaluate_retention snaps policy now tz)). rd_id d = i \<longrightarrow> rd_action d = Keep" for i
    using evaluation_decisions [of snaps policy now tz i Delete] by (metis retention_action.exhaust)
  show ?thesis
  proof (cases "rp_enabled policy")
    case True
    have "real_captures now (sort_snapshots snaps) \<noteq> []"
      using assms set_real_captures [of now "sort_snapshots snaps"] by auto
    from some_capture_kept [OF this] kept_not_deleted [OF True] keep show ?thesis
      by (fastforce simp: set_real_captures)
  next
    case False
    with assms keep disabled_decides show ?thesis by blast
  qed
qed

theorem a_successful_capture_survives_witness:
  "\<exists>s \<in> set [sample_snapshot ''a'' 1 False, sample_snapshot ''b'' 2 False].
     Delete \<notin> rd_action ` {d \<in> set (re_decisions (evaluate_retention
        [sample_snapshot ''a'' 1 False, sample_snapshot ''b'' 2 False] (sample_policy []) 10 utc)).
       rd_id d = sn_id s}"
proof -
  have "\<exists>s \<in> set [sample_snapshot ''a'' 1 False, sample_snapshot ''b'' 2 False].
      sn_successful s \<and> sn_timestamp s \<le> 10" by (simp add: sample_snapshot_def)
  from a_successful_capture_survives [OF this, of "sample_policy []" utc] obtain s
    where "s \<in> set [sample_snapshot ''a'' 1 False, sample_snapshot ''b'' 2 False]"
      and "\<forall>d \<in> set (re_decisions (evaluate_retention
        [sample_snapshot ''a'' 1 False, sample_snapshot ''b'' 2 False] (sample_policy []) 10 utc)).
          rd_id d = sn_id s \<longrightarrow> rd_action d = Keep" by blast
  then show ?thesis by (intro bexI [of _ s]) auto
qed



text \<open>
  The description of a policy and what it does can be opposites. A policy that is
  enabled and has no rules, which the routes accept (an empty rule list, or a smart preset
  without a positive count), is described as keeping every snapshot for ever; the evaluator
  deletes every unprotected snapshot but one.
\<close>

theorem described_as_keeping_but_deletes:
  assumes "rp_enabled policy" and "rp_rules policy = []" and "distinct (map sn_id snaps)"
    and "s \<in> set snaps" and "\<not> guarded now s" and "t \<in> set snaps" and "sn_successful t"
    and "sn_timestamp t \<le> now" and "(sn_timestamp s, sn_id s) < (sn_timestamp t, sn_id t)"
  shows "describe_policy policy = Keeps_Everything \<and>
         (\<exists>d \<in> set (re_decisions (evaluate_retention snaps policy now tz)).
            rd_id d = sn_id s \<and> rd_action d = Delete)"
proof
  show "describe_policy policy = Keeps_Everything" using assms(2) by (simp add: describe_policy_def)
  let ?r = "real_captures now (sort_snapshots snaps)"
  have t: "t \<in> set ?r" using assms(6-8) by (simp add: set_real_captures)
  have "sorted (map (\<lambda>s. (sn_timestamp s, sn_id s)) ?r)"
    unfolding real_captures_def using sorted_snapshots by (rule sorted_filter)
  then have "(sn_timestamp t, sn_id t) \<le> (sn_timestamp (last ?r), sn_id (last ?r))"
    using t by (cases ?r rule: rev_cases) (auto simp: sorted_append)
  with assms(9) have "s \<noteq> last ?r" by auto
  then have keeps: "\<not> policy_keeps now tz (rp_rules policy) (sort_snapshots snaps) s"
    using assms(2,5) by (simp add: policy_keeps_def rules_cover_def age_covers_def last_covers_def calendar_covers_def)
  have d: "distinct (map sn_id (sort_snapshots snaps))"
    using assms(3) by (simp add: sort_snapshots_def distinct_map)
  have "decides (fst (retention_run (sort_snapshots snaps) policy now tz)) (sn_id s) Delete"
    using run_decides [OF sorted_sort_snapshots d _ assms(1), of s now tz Delete] assms(4) keeps by simp
  with evaluation_decisions [of snaps policy now tz "sn_id s" Delete]
  show "\<exists>d \<in> set (re_decisions (evaluate_retention snaps policy now tz)). rd_id d = sn_id s \<and> rd_action d = Delete"
    by blast
qed

theorem described_as_keeping_but_deletes_witness:
  "describe_policy (sample_policy []) = Keeps_Everything \<and>
   (\<exists>d \<in> set (re_decisions (evaluate_retention [sample_snapshot ''a'' 1 False, sample_snapshot ''b'' 2 False]
      (sample_policy []) 10 utc)). rd_id d = ''a'' \<and> rd_action d = Delete)"
  using described_as_keeping_but_deletes [of "sample_policy []"
      "[sample_snapshot ''a'' 1 False, sample_snapshot ''b'' 2 False]" "sample_snapshot ''a'' 1 False" 10
      "sample_snapshot ''b'' 2 False" utc]
  by (simp add: sample_policy_def sample_snapshot_def guarded_def)

end
