(* ===== verification/Mobile_Uploads.thy ===== *)
theory Mobile_Uploads
  imports Prelude Destinations
begin

text \<open>
  Resumable uploads of a phone, \<open>server/src/mobile-uploads.ts\<close>: an inbox is granted to one
  registration, an upload reserves its final name, chunks are written at the durable offset
  of a staging file, and finalizing verifies, re-authorizes and publishes.

  State: the tables are lists of their rows, the staging directory is an association list
  from upload ids to contents, the landing tree a map from relative paths to contents, and
  \<open>ms_usage\<close>, \<open>ms_locks\<close> are the two module variables. Bytes are characters. What a request
  meets outside the program is an argument: whether a write, a read or a rename succeeds,
  whether the real path of the target leaves the root, and the SHA-256 function \<open>sha\<close>. The
  handlers run to completion, except finalizing into a managed folder, which awaits the copy
  to the bucket: it is two steps, and other requests may come in between; \<open>ms_pending\<close> holds what
  the suspended calls captured.
\<close>

section \<open>State\<close>

datatype mobile_upload_status =
    Up_Created | Up_Uploading | Up_Ready | Up_Verifying | Up_Publishing
  | Up_Finalized | Up_Failed | Up_Cancelled

datatype upload_error =
    Data_Lost | Bad_Checksum | Folder_Unavailable | Publication_Failed | Path_Escaped
  | Name_Collision | Abandoned | Registration_Gone "string option"

record mobile_registration =
  mr_host_id :: string
  mr_revoked_at :: "int option"

record mobile_upload_destination_row =
  md_id :: string
  md_registration_id :: string
  md_label :: string
  md_rel_path :: string
  md_folder_id :: "string option"
  md_created_at :: int
  md_revoked_at :: "int option"

record mobile_upload_row =
  up_id :: string
  up_registration_id :: string
  up_destination_id :: string
  up_idempotency_key :: string
  up_file_name :: string
  up_final_rel_path :: string
  up_target_folder_id :: "string option"
  up_size_bytes :: "int option"
  up_bytes_received :: int
  up_sha256 :: "string option"
  up_status :: mobile_upload_status
  up_error :: "upload_error option"
  up_created_at :: int
  up_updated_at :: int
  up_finalized_at :: "int option"

text \<open>A row of \<open>operation_log\<close> for an upload: its dedupe key is the upload id.\<close>

record upload_log_row =
  ul_upload_id :: string
  ul_host_id :: string
  ul_folder_id :: "string option"
  ul_success :: bool
  ul_sha256 :: "string option"
  ul_timestamp :: int

record mobile_state =
  ms_registrations :: "mobile_registration list"
  ms_folder_targets :: "string list"
  ms_destinations :: "mobile_upload_destination_row list"
  ms_uploads :: "mobile_upload_row list"
  ms_log :: "upload_log_row list"
  ms_staging :: "(string \<times> string) list"
  ms_landing :: "string \<rightharpoonup> string"
  ms_usage :: "int option"
  ms_locks :: "string list"
  ms_pending :: "(mobile_upload_row \<times> string) list"

record mobile_config =
  mc_chunk_bytes :: int
  mc_max_upload_bytes :: int
  mc_quota_bytes :: int
  mc_abandon_ttl :: int

definition MAX_DEST_LABEL_LENGTH :: nat where "MAX_DEST_LABEL_LENGTH = 64"
definition MAX_SEGMENT_LENGTH :: nat where "MAX_SEGMENT_LENGTH = 200"
definition MAX_IDEMPOTENCY_KEY_LENGTH :: nat where "MAX_IDEMPOTENCY_KEY_LENGTH = 128"

text \<open>A positive integer of the environment, else the default (\<open>n\<close> is what \<open>parseInt\<close> read).\<close>

definition env_int :: "jnum option \<Rightarrow> rat \<Rightarrow> rat" where
  "env_int n fallback = (case n of Some (Fin r) \<Rightarrow> if r > 0 then r else fallback | _ \<Rightarrow> fallback)"

section \<open>Names\<close>

definition del_char :: char where "del_char = char_of (127 :: nat)"

definition is_safe_segment :: "string \<Rightarrow> bool" where
  "is_safe_segment v \<longleftrightarrow>
     (let t = js_trim v
      in \<not> (t = [] \<or> length t > MAX_SEGMENT_LENGTH) \<and> t = v \<and>
         \<not> list_ex (\<lambda>c. c = backslash \<or> c = CHR ''/'' \<or> c = nul_char) t \<and>
         t \<noteq> ''.'' \<and> t \<noteq> ''..'' \<and>
         list_all (\<lambda>c. \<not> (of_char c < (32 :: nat)) \<and> c \<noteq> del_char) t)"

text \<open>The replacements of \<open>slugFromLabel\<close>: a run of white space is one dash, other characters
  outside the alphabet go, a run of dashes is one dash, dots and dashes at both ends go.\<close>

fun spaces_to_dash :: "bool \<Rightarrow> string \<Rightarrow> string" where
  "spaces_to_dash _ [] = []"
| "spaces_to_dash inside (c # s) =
     (if js_space c then (if inside then spaces_to_dash True s else CHR ''-'' # spaces_to_dash True s)
      else c # spaces_to_dash False s)"

definition slug_char :: "char \<Rightarrow> bool" where
  "slug_char c \<longleftrightarrow> is_alnum c \<or> c \<in> {CHR ''.'', CHR ''_'', CHR ''-''}"

fun squeeze_dashes :: "string \<Rightarrow> string" where
  "squeeze_dashes (c # d # s) =
     (if c = CHR ''-'' \<and> d = CHR ''-'' then squeeze_dashes (d # s) else c # squeeze_dashes (d # s))"
| "squeeze_dashes s = s"

definition dot_or_dash :: "char \<Rightarrow> bool" where
  "dot_or_dash c \<longleftrightarrow> c = CHR ''.'' \<or> c = CHR ''-''"

definition strip_dots_dashes :: "string \<Rightarrow> string" where
  "strip_dots_dashes s = rev (dropWhile dot_or_dash (rev (dropWhile dot_or_dash s)))"

definition slug_from_label :: "string \<Rightarrow> string option" where
  "slug_from_label label =
     (let t = js_trim label
      in if t = [] \<or> length t > MAX_SEGMENT_LENGTH then None
         else (let slug = strip_dots_dashes (squeeze_dashes (filter slug_char (spaces_to_dash False t)))
               in if slug = [] \<or> \<not> is_safe_segment slug then None else Some slug))"

definition is_hex_sha256 :: "string option \<Rightarrow> bool" where
  "is_hex_sha256 v = (case v of None \<Rightarrow> False | Some s \<Rightarrow> length s = 64 \<and> list_all is_hex_digit (to_lower s))"

text \<open>\<open>finalAbsolutePath\<close>: the path below the landing root, which itself ends in \<open>Mobile\<close>.\<close>

definition final_path :: "string \<Rightarrow> string" where
  "final_path rel = (if starts_with ''Mobile/'' rel then drop 7 rel else rel)"

section \<open>Registrations and destinations\<close>

definition find_registration :: "mobile_state \<Rightarrow> string \<Rightarrow> mobile_registration option" where
  "find_registration st h = find (\<lambda>r. mr_host_id r = h) (ms_registrations st)"

definition revoked :: "int option \<Rightarrow> bool" where
  "revoked r = (case r of None \<Rightarrow> False | Some t \<Rightarrow> t > 0)"

definition find_destination :: "mobile_state \<Rightarrow> string \<Rightarrow> mobile_upload_destination_row option" where
  "find_destination st i = find (\<lambda>d. md_id d = i) (ms_destinations st)"

datatype destination_outcome =
    Dest_Ok mobile_upload_destination_row
  | Invalid_Label | Invalid_Slug | Dest_Duplicate | Invalid_Folder | Unknown_Registration
  | Dest_Not_Found | Dest_Storage_Error

definition normal_folder :: "string option \<Rightarrow> string option" where
  "normal_folder f = truthy (map_option js_trim f)"

definition create_mobile_upload_destination ::
    "string \<Rightarrow> string \<Rightarrow> string option \<Rightarrow> string option \<Rightarrow> string \<Rightarrow> int \<Rightarrow> mobile_state \<Rightarrow>
     mobile_state \<times> destination_outcome" where
  "create_mobile_upload_destination registration label slug_arg folder new_id now st =
     (let t = js_trim label;
          slug = (case slug_arg of
                    Some s \<Rightarrow> if is_safe_segment s then Some s else None
                  | None \<Rightarrow> slug_from_label t);
          folder_id = normal_folder folder
      in if t = [] \<or> length t > MAX_DEST_LABEL_LENGTH then (st, Invalid_Label)
         else if list_ex (\<lambda>c. of_char c < (32 :: nat) \<or> c = del_char) t then (st, Invalid_Label)
         else case slug of
           None \<Rightarrow> (st, Invalid_Slug)
         | Some s \<Rightarrow>
             if \<not> is_safe_segment registration then (st, Unknown_Registration)
             else if find_registration st registration = None then (st, Unknown_Registration)
             else if folder_id \<noteq> None \<and> the folder_id \<notin> set (ms_folder_targets st) then (st, Invalid_Folder)
             else
               (let path = ''Mobile/'' @ registration @ ''/'' @ s
                in if list_ex (\<lambda>d. md_registration_id d = registration \<and> md_rel_path d = path)
                        (ms_destinations st)
                   then (st, Dest_Duplicate)
                   else if find_destination st new_id \<noteq> None then (st, Dest_Storage_Error)
                   else
                     (let row = \<lparr> md_id = new_id, md_registration_id = registration, md_label = t,
                            md_rel_path = path, md_folder_id = folder_id, md_created_at = now,
                            md_revoked_at = None \<rparr>
                      in (st\<lparr> ms_destinations := ms_destinations st @ [row] \<rparr>, Dest_Ok row))))"

definition update_mobile_upload_destination_folder ::
    "string \<Rightarrow> string \<Rightarrow> string option \<Rightarrow> mobile_state \<Rightarrow> mobile_state \<times> destination_outcome" where
  "update_mobile_upload_destination_folder registration i folder st =
     (case find_destination st i of
        None \<Rightarrow> (st, Dest_Not_Found)
      | Some row \<Rightarrow>
          if md_registration_id row \<noteq> registration then (st, Dest_Not_Found)
          else if normal_folder folder \<noteq> None \<and> the (normal_folder folder) \<notin> set (ms_folder_targets st)
            then (st, Invalid_Folder)
          else (st\<lparr> ms_destinations := map (\<lambda>d. if md_id d = i then d\<lparr> md_folder_id := normal_folder folder \<rparr>
                                              else d) (ms_destinations st) \<rparr>,
                Dest_Ok (row\<lparr> md_folder_id := normal_folder folder \<rparr>)))"

definition revoke_mobile_upload_destination ::
    "string \<Rightarrow> string \<Rightarrow> int \<Rightarrow> mobile_state \<Rightarrow> mobile_state \<times> int option" where
  "revoke_mobile_upload_destination registration i now st =
     (case find_destination st i of
        None \<Rightarrow> (st, None)
      | Some row \<Rightarrow>
          if md_registration_id row \<noteq> registration then (st, None)
          else if revoked (md_revoked_at row) then (st, md_revoked_at row)
          else (st\<lparr> ms_destinations := map (\<lambda>d. if md_id d = i then d\<lparr> md_revoked_at := Some now \<rparr> else d)
                      (ms_destinations st) \<rparr>, Some now))"

section \<open>Uploads: creation\<close>

definition find_upload :: "mobile_state \<Rightarrow> string \<Rightarrow> mobile_upload_row option" where
  "find_upload st i = find (\<lambda>u. up_id u = i) (ms_uploads st)"

definition find_upload_by_idempotency :: "mobile_state \<Rightarrow> string \<Rightarrow> string \<Rightarrow> mobile_upload_row option" where
  "find_upload_by_idempotency st reg key =
     find (\<lambda>u. up_registration_id u = reg \<and> up_idempotency_key u = key) (ms_uploads st)"

record mobile_upload_receipt =
  rc_upload_id :: string
  rc_file_name :: string
  rc_final_rel_path :: string
  rc_folder :: "string option"
  rc_size_bytes :: int
  rc_sha256 :: string
  rc_finalized_at :: int

definition receipt_of :: "mobile_upload_row \<Rightarrow> mobile_upload_receipt option" where
  "receipt_of r =
     (case (up_finalized_at r, up_sha256 r) of
        (Some t, Some digest) \<Rightarrow>
          Some \<lparr> rc_upload_id = up_id r, rc_file_name = up_file_name r,
                 rc_final_rel_path = up_final_rel_path r, rc_folder = up_target_folder_id r,
                 rc_size_bytes = up_bytes_received r, rc_sha256 = digest, rc_finalized_at = t \<rparr>
      | _ \<Rightarrow> None)"

text \<open>Every outcome of the four operations; \<open>Up_Busy\<close> is \<open>UploadBusyError\<close>.\<close>

datatype upload_outcome =
    Up_Ok mobile_upload_row
  | Up_Receipt mobile_upload_row mobile_upload_receipt
  | Destination_Not_Found | Destination_Revoked | Unsafe_File_Name | Collision | Size_Over_Cap
  | Upload_Not_Found | Upload_Unauthorized | Bad_Offset | Stale_State | Too_Large
  | Exceeds_Declared_Size | Staging_Full | Disk_Error
  | Not_Complete | Checksum_Mismatch | Registration_Revoked | Verification_Error
  | Already_Finalized | Up_Busy | Up_Storage_Error

definition create_mobile_upload ::
    "mobile_config \<Rightarrow> string \<Rightarrow> string \<Rightarrow> string \<Rightarrow> int option \<Rightarrow> string option \<Rightarrow> string \<Rightarrow> string \<Rightarrow> int \<Rightarrow>
     mobile_state \<Rightarrow> mobile_state \<times> upload_outcome" where
  "create_mobile_upload cfg reg dest_id file_name declared sha256 key new_id now st =
     (case find_upload_by_idempotency st reg key of
        Some prior \<Rightarrow> (st, Up_Ok prior)
      | None \<Rightarrow>
     (case find_destination st dest_id of
        None \<Rightarrow> (st, Destination_Not_Found)
      | Some d \<Rightarrow>
          if md_registration_id d \<noteq> reg then (st, Destination_Not_Found)
          else if revoked (md_revoked_at d) then (st, Destination_Revoked)
          else if \<not> is_safe_segment file_name then (st, Unsafe_File_Name)
          else if (case declared of None \<Rightarrow> False | Some n \<Rightarrow> n > mc_max_upload_bytes cfg) then (st, Size_Over_Cap)
          else
            (let path = md_rel_path d @ ''/'' @ file_name
             in if list_ex (\<lambda>u. up_registration_id u = reg \<and> up_final_rel_path u = path) (ms_uploads st)
                then (st, Collision)
                else if md_folder_id d = None \<and> ms_landing st (final_path path) \<noteq> None then (st, Collision)
                else if find_upload st new_id \<noteq> None then (st, Up_Storage_Error)
                else
                  (let row = \<lparr> up_id = new_id, up_registration_id = reg, up_destination_id = dest_id,
                         up_idempotency_key = key, up_file_name = file_name, up_final_rel_path = path,
                         up_target_folder_id = md_folder_id d, up_size_bytes = declared, up_bytes_received = 0,
                         up_sha256 = sha256, up_status = Up_Created, up_error = None, up_created_at = now,
                         up_updated_at = now, up_finalized_at = None \<rparr>
                   in (st\<lparr> ms_uploads := ms_uploads st @ [row] \<rparr>, Up_Ok row)))))"

section \<open>Uploads: staging\<close>

text \<open>The usage counter is read from disk the first time it is needed.\<close>

definition staged_total :: "mobile_state \<Rightarrow> int" where
  "staged_total st = sum_list (map (int \<circ> length \<circ> snd) (ms_staging st))"

definition current_staged_usage :: "mobile_state \<Rightarrow> int" where
  "current_staged_usage st = or_default (ms_usage st) (staged_total st)"

definition record_staged_bytes :: "int \<Rightarrow> mobile_state \<Rightarrow> mobile_state" where
  "record_staged_bytes delta st = st\<lparr> ms_usage := Some (max 0 (current_staged_usage st + delta)) \<rparr>"

definition staged :: "mobile_state \<Rightarrow> string \<Rightarrow> string option" where
  "staged st i = map_of (ms_staging st) i"

definition set_staged :: "string \<Rightarrow> string \<Rightarrow> mobile_state \<Rightarrow> mobile_state" where
  "set_staged i content st =
     st\<lparr> ms_staging := (i, content) # filter (\<lambda>(k, _). k \<noteq> i) (ms_staging st) \<rparr>"

definition drop_staged :: "string \<Rightarrow> mobile_state \<Rightarrow> mobile_state" where
  "drop_staged i st = st\<lparr> ms_staging := filter (\<lambda>(k, _). k \<noteq> i) (ms_staging st) \<rparr>"

definition remove_staging :: "string \<Rightarrow> mobile_state \<Rightarrow> mobile_state" where
  "remove_staging i st =
     (case staged st i of
        None \<Rightarrow> st
      | Some content \<Rightarrow>
          (let usage = current_staged_usage st
           in (drop_staged i st)\<lparr> ms_usage := Some (max 0 (usage - int (length content))) \<rparr>))"

definition update_upload :: "string \<Rightarrow> (mobile_upload_row \<Rightarrow> mobile_upload_row) \<Rightarrow> mobile_state \<Rightarrow> mobile_state" where
  "update_upload i f st = st\<lparr> ms_uploads := map (\<lambda>u. if up_id u = i then f u else u) (ms_uploads st) \<rparr>"

text \<open>\<open>writeSync\<close> at a position: a gap before it is filled with zero bytes.\<close>

definition write_at :: "string \<Rightarrow> nat \<Rightarrow> string \<Rightarrow> string" where
  "write_at content pos bytes =
     take pos content @ replicate (pos - length content) nul_char @ bytes @ drop (pos + length bytes) content"

datatype disk_write = Open_Failed | Wrote nat

definition append_mobile_upload_chunk ::
    "mobile_config \<Rightarrow> string \<Rightarrow> string \<Rightarrow> int \<Rightarrow> string \<Rightarrow> disk_write \<Rightarrow> int \<Rightarrow> mobile_state \<Rightarrow>
     mobile_state \<times> upload_outcome" where
  "append_mobile_upload_chunk cfg reg i offset bytes disk now st =
     (if i \<in> set (ms_locks st) then (st, Up_Busy)
      else case find_upload st i of
        None \<Rightarrow> (st, Upload_Not_Found)
      | Some row \<Rightarrow>
          if up_registration_id row \<noteq> reg then (st, Upload_Unauthorized)
          else if up_status row \<noteq> Up_Created \<and> up_status row \<noteq> Up_Uploading then (st, Stale_State)
          else if bytes = [] then (st, Bad_Offset)
          else if offset \<noteq> up_bytes_received row then (st, Bad_Offset)
          else if int (length bytes) > mc_chunk_bytes cfg then (st, Too_Large)
          else
            (let next_bytes = up_bytes_received row + int (length bytes)
             in if next_bytes > mc_max_upload_bytes cfg then (st, Too_Large)
                else if (case up_size_bytes row of None \<Rightarrow> False | Some n \<Rightarrow> next_bytes > n)
                  then (st, Exceeds_Declared_Size)
                else if max 0 (current_staged_usage st - up_bytes_received row) + next_bytes > mc_quota_bytes cfg
                  then (st, Staging_Full)
                else case disk of
                  Open_Failed \<Rightarrow> (st, Disk_Error)
                | Wrote n \<Rightarrow>
                    (let content = or_default (staged st i) [];
                         st1 = set_staged i (write_at content (nat (up_bytes_received row)) (take n bytes))
                                 (st\<lparr> ms_usage := Some (current_staged_usage st) \<rparr>)
                     in if n < length bytes then (st1, Disk_Error)
                        else
                          (let row' = row\<lparr> up_bytes_received := next_bytes, up_status := Up_Uploading,
                                           up_updated_at := now \<rparr>
                           in (update_upload i (\<lambda>u. u\<lparr> up_bytes_received := next_bytes,
                                    up_status := Up_Uploading, up_updated_at := now \<rparr>)
                                 (st1\<lparr> ms_usage := Some (max 0 (current_staged_usage st + int (length bytes))) \<rparr>),
                               Up_Ok row')))))"

section \<open>Uploads: the log and failing\<close>

definition upload_history_exists :: "mobile_state \<Rightarrow> string \<Rightarrow> bool" where
  "upload_history_exists st i \<longleftrightarrow> list_ex (\<lambda>l. ul_upload_id l = i) (ms_log st)"

definition upload_log_entry :: "mobile_upload_row \<Rightarrow> bool \<Rightarrow> int \<Rightarrow> upload_log_row" where
  "upload_log_entry r ok now =
     \<lparr> ul_upload_id = up_id r, ul_host_id = up_registration_id r, ul_folder_id = up_target_folder_id r,
       ul_success = ok, ul_sha256 = up_sha256 r, ul_timestamp = now \<rparr>"

text \<open>A transaction that writes the row and its history; the unique dedupe key aborts it when
  the upload has a history row already.\<close>

definition record_outcome ::
    "mobile_upload_row \<Rightarrow> (mobile_upload_row \<Rightarrow> mobile_upload_row) \<Rightarrow> bool \<Rightarrow> int \<Rightarrow> mobile_state \<Rightarrow>
     mobile_state option" where
  "record_outcome row f ok now st =
     (if upload_history_exists st (up_id row) then None
      else Some ((update_upload (up_id row) f st)\<lparr> ms_log := ms_log st @ [upload_log_entry (f row) ok now] \<rparr>))"

definition failed_row :: "upload_error \<Rightarrow> int \<Rightarrow> mobile_upload_row \<Rightarrow> mobile_upload_row" where
  "failed_row e now r = r\<lparr> up_status := Up_Failed, up_error := Some e, up_updated_at := now \<rparr>"

definition fail_upload :: "mobile_upload_row \<Rightarrow> upload_error \<Rightarrow> int \<Rightarrow> mobile_state \<Rightarrow> mobile_state" where
  "fail_upload row e now st =
     remove_staging (up_id row)
       (case record_outcome row (failed_row e now) False now st of Some st' \<Rightarrow> st' | None \<Rightarrow> st)"

definition finalized_row :: "string \<Rightarrow> int \<Rightarrow> int \<Rightarrow> mobile_upload_row \<Rightarrow> mobile_upload_row" where
  "finalized_row digest n now r =
     r\<lparr> up_status := Up_Finalized, up_sha256 := Some digest, up_bytes_received := n,
        up_finalized_at := Some now, up_updated_at := now \<rparr>"

definition append_upload_operation_log :: "mobile_upload_row \<Rightarrow> bool \<Rightarrow> int \<Rightarrow> mobile_state \<Rightarrow> mobile_state" where
  "append_upload_operation_log row ok now st =
     (if upload_history_exists st (up_id row) then st
      else st\<lparr> ms_log := ms_log st @ [upload_log_entry row ok now] \<rparr>)"

section \<open>Uploads: finalizing\<close>

record finalize_io =
  io_escapes :: bool
  io_readable :: bool
  io_renamed :: bool
  io_committed :: bool

datatype finalize_step = Fin_Done upload_outcome | Fin_Await

definition receipt_outcome :: "mobile_state \<Rightarrow> string \<Rightarrow> upload_outcome" where
  "receipt_outcome st i =
     (case find_upload st i of
        None \<Rightarrow> Verification_Error
      | Some fresh \<Rightarrow> (case receipt_of fresh of None \<Rightarrow> Verification_Error | Some r \<Rightarrow> Up_Receipt fresh r))"

definition complete_publication ::
    "(string \<Rightarrow> string) \<Rightarrow> finalize_io \<Rightarrow> mobile_upload_row \<Rightarrow> int \<Rightarrow> mobile_state \<Rightarrow>
     mobile_state \<times> upload_outcome" where
  "complete_publication sha io row now st =
     (case ms_landing st (final_path (up_final_rel_path row)) of
        None \<Rightarrow> (st, Verification_Error)
      | Some content \<Rightarrow>
          if \<not> io_committed io then (st, Verification_Error)
          else
          (case record_outcome row (finalized_row (sha content) (int (length content)) now) True now st of
             None \<Rightarrow> (st, Verification_Error)
           | Some st' \<Rightarrow> (st', receipt_outcome st' (up_id row))))"

definition publish_locally ::
    "(string \<Rightarrow> string) \<Rightarrow> finalize_io \<Rightarrow> mobile_upload_row \<Rightarrow> string \<Rightarrow> int \<Rightarrow> mobile_state \<Rightarrow>
     mobile_state \<times> upload_outcome" where
  "publish_locally sha io row content now st =
     (let path = final_path (up_final_rel_path row)
      in if io_escapes io
           then (fail_upload (row\<lparr> up_status := Up_Publishing, up_sha256 := Some (sha content) \<rparr>)
                   Path_Escaped now st, Verification_Error)
         else if ms_landing st path \<noteq> None
           then (fail_upload row Name_Collision now (remove_staging (up_id row) st), Collision)
         else if \<not> io_renamed io then (fail_upload row Publication_Failed now st, Verification_Error)
         else complete_publication sha io row now
                (record_staged_bytes (- up_bytes_received row)
                  ((drop_staged (up_id row) (st\<lparr> ms_usage := Some (current_staged_usage st) \<rparr>))
                     \<lparr> ms_landing := (ms_landing st)(path \<mapsto> content) \<rparr>)))"

definition verify_and_publish ::
    "(string \<Rightarrow> string) \<Rightarrow> finalize_io \<Rightarrow> mobile_upload_row \<Rightarrow> int \<Rightarrow> mobile_state \<Rightarrow>
     mobile_state \<times> finalize_step" where
  "verify_and_publish sha io row now st =
     (case staged st (up_id row) of
        None \<Rightarrow> (st, Fin_Done Verification_Error)
      | Some content \<Rightarrow>
          if \<not> io_readable io then (st, Fin_Done Verification_Error)
          else if (case up_sha256 row of None \<Rightarrow> False | Some d \<Rightarrow> to_lower d \<noteq> sha content)
            then (fail_upload row Bad_Checksum now st, Fin_Done Checksum_Mismatch)
          else
            (let st2 = update_upload (up_id row) (\<lambda>u. u\<lparr> up_status := Up_Publishing,
                         up_sha256 := Some (sha content), up_updated_at := now \<rparr>) st
             in case up_target_folder_id row of
                  Some f \<Rightarrow>
                    if f \<notin> set (ms_folder_targets st)
                    then (fail_upload row Folder_Unavailable now st2, Fin_Done Verification_Error)
                    else (st2\<lparr> ms_locks := up_id row # ms_locks st2,
                               ms_pending := (row, sha content) # ms_pending st2 \<rparr>, Fin_Await)
                | None \<Rightarrow>
                    (let (st3, out) = publish_locally sha io row content now st2 in (st3, Fin_Done out))))"

definition finalize_active ::
    "(string \<Rightarrow> string) \<Rightarrow> finalize_io \<Rightarrow> mobile_upload_row \<Rightarrow> int \<Rightarrow> mobile_state \<Rightarrow>
     mobile_state \<times> finalize_step" where
  "finalize_active sha io row now st =
     (if up_status row = Up_Publishing then
        (case ms_landing st (final_path (up_final_rel_path row)) of
           Some content \<Rightarrow>
             if (case up_sha256 row of None \<Rightarrow> False | Some d \<Rightarrow> sha content \<noteq> to_lower d)
             then (fail_upload row Name_Collision now st, Fin_Done Collision)
             else (let (st', out) = complete_publication sha io row now st in (st', Fin_Done out))
         | None \<Rightarrow>
             if staged st (up_id row) = None
             then (fail_upload row Data_Lost now st, Fin_Done Verification_Error)
             else verify_and_publish sha io row now st)
      else if up_status row = Up_Verifying then verify_and_publish sha io row now st
      else if (case up_size_bytes row of None \<Rightarrow> False | Some n \<Rightarrow> up_bytes_received row < n)
        then (st, Fin_Done Not_Complete)
      else verify_and_publish sha io row now
             (update_upload (up_id row) (\<lambda>u. u\<lparr> up_status := Up_Verifying, up_updated_at := now \<rparr>) st))"

definition finalize_mobile_upload ::
    "(string \<Rightarrow> string) \<Rightarrow> finalize_io \<Rightarrow> string \<Rightarrow> string \<Rightarrow> int \<Rightarrow> mobile_state \<Rightarrow>
     mobile_state \<times> finalize_step" where
  "finalize_mobile_upload sha io reg i now st =
     (if i \<in> set (ms_locks st) then (st, Fin_Done Up_Busy)
      else case find_upload st i of
        None \<Rightarrow> (st, Fin_Done Upload_Not_Found)
      | Some row \<Rightarrow>
          if up_registration_id row \<noteq> reg then (st, Fin_Done Upload_Unauthorized)
          else if up_status row = Up_Finalized then
            (append_upload_operation_log row True now st,
             Fin_Done (case receipt_of row of None \<Rightarrow> Verification_Error | Some r \<Rightarrow> Up_Receipt row r))
          else if up_status row = Up_Failed \<or> up_status row = Up_Cancelled then (st, Fin_Done Stale_State)
          else (case find_registration st (up_registration_id row) of
             None \<Rightarrow> (st, Fin_Done Registration_Revoked)
           | Some r \<Rightarrow>
               if revoked (mr_revoked_at r) then (st, Fin_Done Registration_Revoked)
               else (case find_destination st (up_destination_id row) of
                  None \<Rightarrow> (st, Fin_Done Upload_Unauthorized)
                | Some d \<Rightarrow>
                    if md_registration_id d \<noteq> up_registration_id row then (st, Fin_Done Upload_Unauthorized)
                    else if revoked (md_revoked_at d) then (st, Fin_Done Destination_Revoked)
                    else finalize_active sha io row now st)))"

text \<open>What follows the copy to the bucket of the folder, with what the call captured before.\<close>

definition finalize_resume :: "bool \<Rightarrow> string \<Rightarrow> int \<Rightarrow> mobile_state \<Rightarrow> mobile_state \<times> upload_outcome" where
  "finalize_resume copied i now st =
     (case find (\<lambda>(r, _). up_id r = i) (ms_pending st) of
        None \<Rightarrow> (st, Upload_Not_Found)
      | Some (row, digest) \<Rightarrow>
          (let st0 = st\<lparr> ms_locks := removeAll i (ms_locks st),
                         ms_pending := filter (\<lambda>(r, _). up_id r \<noteq> i) (ms_pending st) \<rparr>
           in if \<not> copied then (st0, Verification_Error)
              else case record_outcome row (finalized_row digest (up_bytes_received row) now) True now st0 of
                None \<Rightarrow> (st0, Verification_Error)
              | Some st1 \<Rightarrow>
                  (let st2 = remove_staging i st1 in (st2, receipt_outcome st2 i))))"

section \<open>Uploads: cancelling and sweeps\<close>

definition cancel_mobile_upload :: "string \<Rightarrow> string \<Rightarrow> int \<Rightarrow> mobile_state \<Rightarrow> mobile_state \<times> upload_outcome" where
  "cancel_mobile_upload reg i now st =
     (if i \<in> set (ms_locks st) then (st, Up_Busy)
      else case find_upload st i of
        None \<Rightarrow> (st, Upload_Not_Found)
      | Some row \<Rightarrow>
          if up_registration_id row \<noteq> reg then (st, Upload_Unauthorized)
          else if up_status row = Up_Finalized then (st, Already_Finalized)
          else if up_status row = Up_Failed then (st, Up_Ok row)
          else
            (let f = (\<lambda>u. u\<lparr> up_status := Up_Cancelled, up_error := None, up_updated_at := now \<rparr>)
             in (remove_staging i (update_upload i f st), Up_Ok (f row))))"

definition active_status :: "mobile_upload_status \<Rightarrow> bool" where
  "active_status s \<longleftrightarrow> s \<in> {Up_Created, Up_Uploading, Up_Ready, Up_Verifying, Up_Publishing}"

definition fail_uploads :: "mobile_upload_row list \<Rightarrow> upload_error \<Rightarrow> int \<Rightarrow> mobile_state \<Rightarrow> mobile_state" where
  "fail_uploads rows e now st = fold (\<lambda>r. fail_upload r e now) rows st"

definition reconcile_upload_history :: "int \<Rightarrow> mobile_state \<Rightarrow> mobile_state" where
  "reconcile_upload_history now st =
     fold (\<lambda>r. append_upload_operation_log r True now)
       (filter (\<lambda>u. up_status u = Up_Finalized) (ms_uploads st)) st"

definition seed_staging_usage :: "mobile_state \<Rightarrow> mobile_state" where
  "seed_staging_usage st = st\<lparr> ms_usage := Some (staged_total st) \<rparr>"

text \<open>\<open>old\<close> tells the staging files whose modification time is before the cutoff.\<close>

definition reconcile_abandoned_mobile_uploads ::
    "mobile_config \<Rightarrow> (string \<Rightarrow> bool) \<Rightarrow> int \<Rightarrow> mobile_state \<Rightarrow> mobile_state \<times> nat" where
  "reconcile_abandoned_mobile_uploads cfg old now st =
     (let rows = filter (\<lambda>u. active_status (up_status u) \<and> \<not> (up_updated_at u \<ge> now - mc_abandon_ttl cfg))
                   (ms_uploads st);
          st1 = fail_uploads rows Abandoned now st;
          st2 = st1\<lparr> ms_staging := filter (\<lambda>(i, _). \<not> (find_upload st1 i = None \<and> old i)) (ms_staging st1) \<rparr>
      in (reconcile_upload_history now (seed_staging_usage st2), length rows))"

definition revoke_registration_uploads ::
    "string \<Rightarrow> string option \<Rightarrow> int \<Rightarrow> mobile_state \<Rightarrow> mobile_state \<times> nat" where
  "revoke_registration_uploads host reason now st =
     (let rows = filter (\<lambda>u. up_registration_id u = host \<and>
                   up_status u \<notin> {Up_Finalized, Up_Failed, Up_Cancelled}) (ms_uploads st);
          st1 = fail_uploads rows (Registration_Gone (truthy reason)) now st
      in (st1\<lparr> ms_destinations := map (\<lambda>d. if md_registration_id d = host \<and> md_revoked_at d = None
                   then d\<lparr> md_revoked_at := Some now \<rparr> else d) (ms_destinations st1) \<rparr>,
          length rows))"

text \<open>The route \<open>POST /mobile/registrations/:hostId/revoke\<close>: \<open>revokeMobileRegistration\<close> on the
  registration (its web sessions and enrollments are not modelled), then the uploads.\<close>

definition revoke_mobile_registration ::
    "string \<Rightarrow> int \<Rightarrow> mobile_state \<Rightarrow> mobile_state \<times> int option" where
  "revoke_mobile_registration host now st =
     (case find_registration st host of
        None \<Rightarrow> (st, None)
      | Some r \<Rightarrow>
          if revoked (mr_revoked_at r) then (st, mr_revoked_at r)
          else (st\<lparr> ms_registrations := map (\<lambda>r. if mr_host_id r = host then r\<lparr> mr_revoked_at := Some now \<rparr> else r)
                      (ms_registrations st) \<rparr>, Some now))"

definition revoke_registration :: "string \<Rightarrow> string option \<Rightarrow> int \<Rightarrow> mobile_state \<Rightarrow> mobile_state \<times> bool" where
  "revoke_registration host reason now st =
     (case revoke_mobile_registration host now st of
        (_, None) \<Rightarrow> (st, False)
      | (st', Some _) \<Rightarrow> (fst (revoke_registration_uploads host reason now st'), True))"

section \<open>Runs\<close>

text \<open>A request, with what it meets outside the program. \<open>Mq_Tables\<close> is any change the rest
  of the server makes to the registrations and the folders, \<open>Mq_Restart\<close> a restart of the
  server: the module variables start afresh and the suspended calls are gone.\<close>

datatype mobile_request =
    Mq_Create_Destination string string "string option" "string option" string
  | Mq_Update_Folder string string "string option"
  | Mq_Revoke_Destination string string
  | Mq_Create string string string "int option" "string option" string string
  | Mq_Chunk string string int string disk_write
  | Mq_Finalize string string finalize_io
  | Mq_Resume string bool
  | Mq_Cancel string string
  | Mq_Sweep "string \<Rightarrow> bool"
  | Mq_Revoke_Registration string "string option"
  | Mq_Tables "mobile_registration list" "string list"
  | Mq_Restart

datatype mobile_reply = Re_Upload upload_outcome | Re_Destination destination_outcome | Re_Other

definition restart :: "mobile_state \<Rightarrow> mobile_state" where
  "restart st = st\<lparr> ms_usage := None, ms_locks := [], ms_pending := [] \<rparr>"

definition step_reply :: "mobile_state \<times> finalize_step \<Rightarrow> mobile_state \<times> mobile_reply" where
  "step_reply p = (fst p, case snd p of Fin_Done out \<Rightarrow> Re_Upload out | Fin_Await \<Rightarrow> Re_Other)"

fun handle_mobile ::
    "mobile_config \<Rightarrow> (string \<Rightarrow> string) \<Rightarrow> mobile_request \<Rightarrow> int \<Rightarrow> mobile_state \<Rightarrow>
     mobile_state \<times> mobile_reply" where
  "handle_mobile cfg sha (Mq_Create_Destination reg label slug folder new_id) now st =
     map_prod id Re_Destination (create_mobile_upload_destination reg label slug folder new_id now st)"
| "handle_mobile cfg sha (Mq_Update_Folder reg i folder) now st =
     map_prod id Re_Destination (update_mobile_upload_destination_folder reg i folder st)"
| "handle_mobile cfg sha (Mq_Revoke_Destination reg i) now st =
     map_prod id (\<lambda>_. Re_Other) (revoke_mobile_upload_destination reg i now st)"
| "handle_mobile cfg sha (Mq_Create reg dest name declared digest key new_id) now st =
     map_prod id Re_Upload (create_mobile_upload cfg reg dest name declared digest key new_id now st)"
| "handle_mobile cfg sha (Mq_Chunk reg i offset bytes disk) now st =
     map_prod id Re_Upload (append_mobile_upload_chunk cfg reg i offset bytes disk now st)"
| "handle_mobile cfg sha (Mq_Finalize reg i io) now st =
     step_reply (finalize_mobile_upload sha io reg i now st)"
| "handle_mobile cfg sha (Mq_Resume i copied) now st =
     map_prod id Re_Upload (finalize_resume copied i now st)"
| "handle_mobile cfg sha (Mq_Cancel reg i) now st =
     map_prod id Re_Upload (cancel_mobile_upload reg i now st)"
| "handle_mobile cfg sha (Mq_Sweep old) now st =
     map_prod id (\<lambda>_. Re_Other) (reconcile_abandoned_mobile_uploads cfg old now st)"
| "handle_mobile cfg sha (Mq_Revoke_Registration host reason) now st =
     map_prod id (\<lambda>_. Re_Other) (revoke_registration host reason now st)"
| "handle_mobile cfg sha (Mq_Tables regs folders) now st =
     (st\<lparr> ms_registrations := regs, ms_folder_targets := folders \<rparr>, Re_Other)"
| "handle_mobile cfg sha Mq_Restart now st = (restart st, Re_Other)"

definition mobile_step ::
    "mobile_config \<Rightarrow> (string \<Rightarrow> string) \<Rightarrow> mobile_request \<times> int \<Rightarrow> mobile_state \<Rightarrow> mobile_state" where
  "mobile_step cfg sha rq st = fst (handle_mobile cfg sha (fst rq) (snd rq) st)"

definition mobile_run ::
    "mobile_config \<Rightarrow> (string \<Rightarrow> string) \<Rightarrow> (mobile_request \<times> int) list \<Rightarrow> mobile_state \<Rightarrow> mobile_state" where
  "mobile_run cfg sha rqs st = fold (mobile_step cfg sha) rqs st"

text \<open>No upload yet; the landing tree, the registrations and the destinations are arbitrary.\<close>

definition mobile_start :: "mobile_state \<Rightarrow> bool" where
  "mobile_start st \<longleftrightarrow> ms_uploads st = [] \<and> ms_log st = [] \<and> ms_staging st = [] \<and> ms_pending st = []"

end
