(* ===== verification/Runs.thy ===== *)
theory Runs
  imports Prelude
begin

text \<open>
  What a sequence of requests keeps, for any component given as a step function: an
  invariant (\<open>preserved\<close>), and an order between the states it passes through
  (\<open>growing\<close>), which a component's model interprets once and its properties read off.
\<close>

locale preserved =
  fixes step :: "'r \<Rightarrow> 's \<Rightarrow> 's" and inv :: "'s \<Rightarrow> bool"
  assumes keep: "inv s \<Longrightarrow> inv (step r s)"
begin

lemma runs: "inv s \<Longrightarrow> inv (fold step rs s)"
  by (induction rs arbitrary: s) (auto simp: keep)

end

locale growing = preserved +
  fixes le :: "'b \<Rightarrow> 'b \<Rightarrow> bool"
  assumes le_refl: "inv s \<Longrightarrow> le s s"
    and le_trans: "le s t \<Longrightarrow> le t u \<Longrightarrow> le s u"
    and grow: "inv s \<Longrightarrow> le s (step r s)"
begin

lemma grows: "inv s \<Longrightarrow> le s (fold step rs s)"
proof (induction rs arbitrary: s)
  case Nil
  then show ?case by (simp add: le_refl)
next
  case (Cons r rs)
  then show ?case using le_trans [OF grow [OF Cons.prems] Cons.IH [OF keep [OF Cons.prems]]] by simp
qed

end

end
