(* ===== verification/Mobile_Ledger.thy ===== *)
theory Mobile_Ledger
  imports Mobile_Uploads Runs
begin

text \<open>
  The upload ledger: what the requests of \<^theory_text>\<open>Mobile_Uploads\<close> may do to the upload rows, their
  history and the landing tree, as an abstract machine of five moves, its invariant, and
  the proof that every request is a sequence of moves.
\<close>

section \<open>The abstract machine\<close>

type_synonym upload_ledger = "mobile_upload_row list \<times> upload_log_row list \<times> (string \<rightharpoonup> string)"

definition ledger :: "mobile_state \<Rightarrow> upload_ledger" where
  "ledger st = (ms_uploads st, ms_log st, ms_landing st)"

definition upload_settled :: "mobile_upload_status \<Rightarrow> bool" where
  "upload_settled s \<longleftrightarrow> s = Up_Finalized \<or> s = Up_Failed"

definition ident where
  "ident u = (up_id u, up_registration_id u, up_destination_id u, up_final_rel_path u,
              up_target_folder_id u, up_size_bytes u)"

lemma ident_eqD:
  "ident u = ident v \<Longrightarrow> up_id u = up_id v \<and> up_registration_id u = up_registration_id v \<and>
     up_destination_id u = up_destination_id v \<and> up_final_rel_path u = up_final_rel_path v \<and>
     up_target_folder_id u = up_target_folder_id v \<and> up_size_bytes u = up_size_bytes v"
  by (simp add: ident_def)

definition log_ids :: "upload_log_row list \<Rightarrow> string set" where
  "log_ids lg = ul_upload_id ` set lg"

definition row_ids :: "mobile_upload_row list \<Rightarrow> string set" where
  "row_ids us = up_id ` set us"

definition update_row where
  "update_row i f us = map (\<lambda>u. if up_id u = i then f u else u) us"

text \<open>A finalized row of the landing tree describes the file that is there.\<close>

definition published :: "(string \<Rightarrow> string) \<Rightarrow> (string \<rightharpoonup> string) \<Rightarrow> mobile_upload_row \<Rightarrow> bool" where
  "published sha ld u \<longleftrightarrow>
     (up_status u = Up_Finalized \<and> up_target_folder_id u = None \<longrightarrow>
        (\<exists>c. ld (final_path (up_final_rel_path u)) = Some c \<and> up_sha256 u = Some (sha c) \<and>
             up_bytes_received u = int (length c)))"

definition not_cancelled :: "string \<Rightarrow> mobile_upload_row list \<Rightarrow> bool" where
  "not_cancelled i us \<longleftrightarrow> (\<forall>u\<in>set us. up_id u = i \<longrightarrow> up_status u \<noteq> Up_Cancelled)"

inductive ledger_move :: "(string \<Rightarrow> string) \<Rightarrow> upload_ledger \<Rightarrow> upload_ledger \<Rightarrow> bool" for sha where
  New: "up_id r \<notin> row_ids us \<Longrightarrow> up_status r = Up_Created \<Longrightarrow>
        ledger_move sha (us, lg, ld) (us @ [r], lg, ld)"
| Work: "i \<notin> log_ids lg \<Longrightarrow> not_cancelled i us \<Longrightarrow> \<forall>u. ident (f u) = ident u \<Longrightarrow>
         \<forall>u. \<not> upload_settled (up_status (f u)) \<Longrightarrow>
         ledger_move sha (us, lg, ld) (update_row i f us, lg, ld)"
| Recancel: "i \<notin> log_ids lg \<Longrightarrow> \<forall>u. ident (f u) = ident u \<Longrightarrow> \<forall>u. up_status (f u) = Up_Cancelled \<Longrightarrow>
         ledger_move sha (us, lg, ld) (update_row i f us, lg, ld)"
| Settle: "up_id r \<in> row_ids us \<Longrightarrow> up_id r \<notin> log_ids lg \<Longrightarrow> not_cancelled (up_id r) us \<Longrightarrow>
         \<forall>u. ident (f u) = ident u \<Longrightarrow> \<forall>u. up_status (f u) = (if ok then Up_Finalized else Up_Failed) \<Longrightarrow>
         \<forall>u\<in>set us. up_id u = up_id r \<longrightarrow> published sha ld (f u) \<Longrightarrow>
         ledger_move sha (us, lg, ld) (update_row (up_id r) f us, lg @ [upload_log_entry r ok now], ld)"
| Publish: "ld p = None \<Longrightarrow> ledger_move sha (us, lg, ld) (us, lg, ld(p \<mapsto> c))"

inductive_cases ledger_moveE: "ledger_move sha (us, lg, ld) L"

definition ledger_ok :: "(string \<Rightarrow> string) \<Rightarrow> upload_ledger \<Rightarrow> bool" where
  "ledger_ok sha L = (case L of (us, lg, ld) \<Rightarrow>
     distinct (map up_id us) \<and> distinct (map ul_upload_id lg) \<and> log_ids lg \<subseteq> row_ids us \<and>
     (\<forall>u\<in>set us. upload_settled (up_status u) = (up_id u \<in> log_ids lg)) \<and>
     (\<forall>u\<in>set us. \<forall>l\<in>set lg. ul_upload_id l = up_id u \<longrightarrow> ul_success l = (up_status u = Up_Finalized)) \<and>
     (\<forall>u\<in>set us. published sha ld u))"

lemma update_row_ids [simp]: "\<forall>u. ident (f u) = ident u \<Longrightarrow> map up_id (update_row i f us) = map up_id us"
  by (auto simp: update_row_def ident_def)

lemma update_row_row_ids [simp]: "\<forall>u. ident (f u) = ident u \<Longrightarrow> row_ids (update_row i f us) = row_ids us"
  unfolding row_ids_def by (metis list.set_map update_row_ids)

lemma set_update_row:
  "set (update_row i f us) = (\<lambda>u. if up_id u = i then f u else u) ` set us"
  by (simp add: update_row_def)

lemma log_ids_simps [simp]:
  "log_ids [] = {}" "log_ids (lg @ [l]) = insert (ul_upload_id l) (log_ids lg)"
  by (auto simp: log_ids_def)

lemma in_log_ids: "l \<in> set lg \<Longrightarrow> ul_upload_id l \<in> log_ids lg"
  by (simp add: log_ids_def)

lemma upload_log_entry_simps [simp]:
  "ul_upload_id (upload_log_entry r ok now) = up_id r" "ul_success (upload_log_entry r ok now) = ok"
  by (simp_all add: upload_log_entry_def)

lemma published_ident:
  "\<not> (up_status u = Up_Finalized) \<Longrightarrow> published sha ld u"
  by (simp add: published_def)

lemma published_mono: "published sha ld u \<Longrightarrow> ld p = None \<Longrightarrow> published sha (ld(p \<mapsto> c)) u"
  by (auto simp: published_def)

lemma ident_id: "ident (f u) = ident u \<Longrightarrow> up_id (f u) = up_id u"
  by (simp add: ident_def)

text \<open>A move touches the rows of one upload that has no history yet.\<close>

lemma update_ok:
  assumes "ledger_ok sha (us, lg, ld)" "i \<notin> log_ids lg" "\<forall>u. ident (f u) = ident u"
    and "\<forall>u. \<not> upload_settled (up_status (f u))"
  shows "ledger_ok sha (update_row i f us, lg, ld)"
  using assms unfolding ledger_ok_def
  by (auto simp: set_update_row ident_id published_ident upload_settled_def log_ids_def)

lemma settle_ok:
  assumes ok: "ledger_ok sha (us, lg, ld)" and r: "up_id r \<in> row_ids us" "up_id r \<notin> log_ids lg"
    and f: "\<forall>u. ident (f u) = ident u" "\<forall>u. up_status (f u) = (if ok then Up_Finalized else Up_Failed)"
    and p: "\<forall>u\<in>set us. up_id u = up_id r \<longrightarrow> published sha ld (f u)"
  shows "ledger_ok sha (update_row (up_id r) f us, lg @ [upload_log_entry r ok now], ld)"
proof -
  have new: "\<forall>l\<in>set lg. ul_upload_id l \<noteq> up_id r" using r(2) in_log_ids by metis
  have id: "\<And>u. up_id (f u) = up_id u" using f(1) ident_id by blast
  have st: "\<And>u. upload_settled (up_status (f u))" "\<And>u. (up_status (f u) = Up_Finalized) = ok"
    using f(2) by (simp_all add: upload_settled_def)
  have each: "upload_settled (up_status v) = (up_id v \<in> insert (up_id r) (log_ids lg))"
    "\<And>l. l \<in> set (lg @ [upload_log_entry r ok now]) \<Longrightarrow> ul_upload_id l = up_id v \<Longrightarrow>
       ul_success l = (up_status v = Up_Finalized)"
    "published sha ld v" if v: "v \<in> set (update_row (up_id r) f us)" for v
  proof -
    from v obtain u where u: "u \<in> set us" and vu: "v = (if up_id u = up_id r then f u else u)"
      by (auto simp: set_update_row)
    have old: "upload_settled (up_status u) = (up_id u \<in> log_ids lg)" "published sha ld u"
      "\<forall>l\<in>set lg. ul_upload_id l = up_id u \<longrightarrow> ul_success l = (up_status u = Up_Finalized)"
      using ok u by (simp_all add: ledger_ok_def)
    show "upload_settled (up_status v) = (up_id v \<in> insert (up_id r) (log_ids lg))"
      using old(1) vu st id by simp
    show "published sha ld v" using old(2) vu p u by simp
    show "ul_success l = (up_status v = Up_Finalized)"
      if "l \<in> set (lg @ [upload_log_entry r ok now])" "ul_upload_id l = up_id v" for l
      using that old(3) new vu st id by (auto split: if_splits)
  qed
  have "distinct (map ul_upload_id (lg @ [upload_log_entry r ok now]))"
    using ok r(2) by (auto simp: ledger_ok_def log_ids_def)
  moreover have "log_ids (lg @ [upload_log_entry r ok now]) \<subseteq> row_ids us"
    using ok r(1) by (auto simp: ledger_ok_def)
  ultimately show ?thesis using ok f(1) each unfolding ledger_ok_def by simp
qed

lemma ledger_move_ok: "ledger_move sha L L' \<Longrightarrow> ledger_ok sha L \<Longrightarrow> ledger_ok sha L'"
proof (induction rule: ledger_move.induct)
  case (New r us lg ld)
  then show ?case
    by (auto simp: ledger_ok_def row_ids_def published_def upload_settled_def image_iff dest!: in_log_ids)
next
  case (Work i lg us f ld)
  then show ?case by (intro update_ok)
next
  case (Recancel i lg f us ld)
  then show ?case by (intro update_ok) (simp_all add: upload_settled_def)
next
  case (Settle r us lg f ok ld now)
  then show ?case by (intro settle_ok) simp_all
next
  case (Publish ld p us lg c)
  then show ?case by (auto simp: ledger_ok_def published_mono)
qed

lemma ledger_moves_ok: "(ledger_move sha)\<^sup>*\<^sup>* L L' \<Longrightarrow> ledger_ok sha L \<Longrightarrow> ledger_ok sha L'"
  by (induction rule: rtranclp_induct) (auto dest: ledger_move_ok)


text \<open>What no sequence of moves undoes.\<close>

definition ledger_le :: "upload_ledger \<Rightarrow> upload_ledger \<Rightarrow> bool" where
  "ledger_le L L' = (case (L, L') of ((us, lg, ld), (us', lg', ld')) \<Rightarrow>
     (\<forall>p c. ld p = Some c \<longrightarrow> ld' p = Some c) \<and> (\<exists>k. lg' = lg @ k) \<and>
     (\<forall>u\<in>set us. \<exists>u'\<in>set us'. ident u' = ident u \<and> (upload_settled (up_status u) \<longrightarrow> u' = u) \<and>
        (up_status u = Up_Cancelled \<longrightarrow> up_status u' = Up_Cancelled)))"

lemma ledger_le_refl [simp]: "ledger_le L L"
  by (cases L) (auto simp: ledger_le_def)

lemma ledger_le_trans: "ledger_le L L' \<Longrightarrow> ledger_le L' L'' \<Longrightarrow> ledger_le L L''"
  by (cases L; cases L'; cases L'') (fastforce simp: ledger_le_def upload_settled_def)

lemma update_row_le:
  assumes "ledger_ok sha (us, lg, ld)" "i \<notin> log_ids lg" "\<forall>u. ident (f u) = ident u"
    and "\<forall>u\<in>set us. up_id u = i \<longrightarrow> up_status u = Up_Cancelled \<longrightarrow> up_status (f u) = Up_Cancelled"
  shows "ledger_le (us, lg, ld) (update_row i f us, lg @ k, ld)"
proof -
  have "\<exists>u'\<in>set (update_row i f us). ident u' = ident u \<and> (upload_settled (up_status u) \<longrightarrow> u' = u) \<and>
          (up_status u = Up_Cancelled \<longrightarrow> up_status u' = Up_Cancelled)" if "u \<in> set us" for u
    using assms that
    by (intro bexI [of _ "if up_id u = i then f u else u"]) (auto simp: set_update_row ledger_ok_def)
  then show ?thesis by (simp add: ledger_le_def)
qed

lemma ledger_move_le: "ledger_move sha L L' \<Longrightarrow> ledger_ok sha L \<Longrightarrow> ledger_le L L'"
proof (induction rule: ledger_move.induct)
  case (New r us lg ld)
  then show ?case by (auto simp: ledger_le_def)
next
  case (Work i lg us f ld)
  then show ?case using update_row_le [of sha us lg ld i f "[]"] by (auto simp: not_cancelled_def)
next
  case (Recancel i lg f us ld)
  then show ?case using update_row_le [of sha us lg ld i f "[]"] by auto
next
  case (Settle r us lg f ok ld now)
  then show ?case by (intro update_row_le) (auto simp: not_cancelled_def)
next
  case (Publish ld p us lg c)
  then show ?case by (auto simp: ledger_le_def)
qed

lemma ledger_moves_le: "(ledger_move sha)\<^sup>*\<^sup>* L L' \<Longrightarrow> ledger_ok sha L \<Longrightarrow> ledger_le L L'"
  by (induction rule: rtranclp_induct)
    (auto intro: ledger_le_trans dest: ledger_moves_ok ledger_move_le)

section \<open>The requests are moves\<close>

abbreviation moves :: "(string \<Rightarrow> string) \<Rightarrow> mobile_state \<Rightarrow> mobile_state \<Rightarrow> bool" where
  "moves sha st st' \<equiv> (ledger_move sha)\<^sup>*\<^sup>* (ledger st) (ledger st')"

abbreviation state_ok :: "(string \<Rightarrow> string) \<Rightarrow> mobile_state \<Rightarrow> bool" where
  "state_ok sha st \<equiv> ledger_ok sha (ledger st)"

lemma moves_same: "ledger st' = ledger st \<Longrightarrow> moves sha st st'"
  by simp

lemma staging_projections [simp]:
  "ms_uploads (set_staged i c st) = ms_uploads st" "ms_log (set_staged i c st) = ms_log st"
  "ms_landing (set_staged i c st) = ms_landing st" "ms_locks (set_staged i c st) = ms_locks st"
  "ms_pending (set_staged i c st) = ms_pending st" "ms_folder_targets (set_staged i c st) = ms_folder_targets st"
  "ms_uploads (drop_staged i st) = ms_uploads st" "ms_log (drop_staged i st) = ms_log st"
  "ms_landing (drop_staged i st) = ms_landing st" "ms_locks (drop_staged i st) = ms_locks st"
  "ms_pending (drop_staged i st) = ms_pending st"
  "ms_uploads (record_staged_bytes n st) = ms_uploads st" "ms_log (record_staged_bytes n st) = ms_log st"
  "ms_landing (record_staged_bytes n st) = ms_landing st" "ms_locks (record_staged_bytes n st) = ms_locks st"
  "ms_pending (record_staged_bytes n st) = ms_pending st"
  "ms_staging (record_staged_bytes n st) = ms_staging st"
  by (simp_all add: set_staged_def drop_staged_def record_staged_bytes_def)

lemma remove_staging_projections [simp]:
  "ms_uploads (remove_staging i st) = ms_uploads st" "ms_log (remove_staging i st) = ms_log st"
  "ms_landing (remove_staging i st) = ms_landing st" "ms_locks (remove_staging i st) = ms_locks st"
  "ms_pending (remove_staging i st) = ms_pending st"
  "ms_registrations (remove_staging i st) = ms_registrations st"
  "ms_destinations (remove_staging i st) = ms_destinations st"
  by (simp_all add: remove_staging_def drop_staged_def Let_def split: option.split)

lemma update_upload_projections [simp]:
  "ms_uploads (update_upload i f st) = update_row i f (ms_uploads st)" "ms_log (update_upload i f st) = ms_log st"
  "ms_landing (update_upload i f st) = ms_landing st" "ms_locks (update_upload i f st) = ms_locks st"
  "ms_pending (update_upload i f st) = ms_pending st" "ms_staging (update_upload i f st) = ms_staging st"
  "ms_folder_targets (update_upload i f st) = ms_folder_targets st"
  by (simp_all add: update_upload_def update_row_def)

lemma ledger_simps [simp]:
  "ledger (remove_staging i st) = ledger st" "ledger (set_staged i c st) = ledger st"
  "ledger (drop_staged i st) = ledger st" "ledger (record_staged_bytes n st) = ledger st"
  "ledger (st\<lparr> ms_usage := u \<rparr>) = ledger st" "ledger (st\<lparr> ms_locks := ls \<rparr>) = ledger st"
  "ledger (st\<lparr> ms_locks := ls, ms_pending := ps \<rparr>) = ledger st"
  "ledger (st\<lparr> ms_destinations := ds \<rparr>) = ledger st" "ledger (st\<lparr> ms_staging := sg \<rparr>) = ledger st"
  "ledger (seed_staging_usage st) = ledger st"
  by (simp_all add: ledger_def seed_staging_usage_def)

lemma ledger_update_upload:
  "ledger (update_upload i f st) = (update_row i f (ms_uploads st), ms_log st, ms_landing st)"
  by (simp add: ledger_def)

text \<open>A row a handler read is still known, by its identity, after other moves.\<close>

definition known :: "mobile_state \<Rightarrow> mobile_upload_row \<Rightarrow> bool" where
  "known st row \<longleftrightarrow> (\<exists>u\<in>set (ms_uploads st). ident u = ident row)"

definition alive :: "mobile_state \<Rightarrow> string \<Rightarrow> bool" where
  "alive st i \<longleftrightarrow> not_cancelled i (ms_uploads st)"

lemma find_upload_SomeD:
  "find_upload st i = Some row \<Longrightarrow> row \<in> set (ms_uploads st) \<and> up_id row = i"
  by (auto simp: find_upload_def find_Some_iff)

lemma find_upload_known: "find_upload st i = Some row \<Longrightarrow> known st row"
  by (auto simp: known_def dest!: find_upload_SomeD)

lemma unique_row:
  "state_ok sha st \<Longrightarrow> u \<in> set (ms_uploads st) \<Longrightarrow> v \<in> set (ms_uploads st) \<Longrightarrow> up_id u = up_id v \<Longrightarrow> u = v"
  by (auto simp: ledger_ok_def ledger_def distinct_map dest: inj_onD)

lemma find_upload_alive:
  "state_ok sha st \<Longrightarrow> find_upload st i = Some row \<Longrightarrow> up_status row \<noteq> Up_Cancelled \<Longrightarrow> alive st i"
  unfolding alive_def not_cancelled_def using unique_row find_upload_SomeD by metis

lemma find_upload_open:
  "state_ok sha st \<Longrightarrow> find_upload st i = Some row \<Longrightarrow> \<not> upload_settled (up_status row) \<Longrightarrow> i \<notin> log_ids (ms_log st)"
  by (auto simp: ledger_ok_def ledger_def dest!: find_upload_SomeD)

lemma known_alive_simps [simp]:
  "known (remove_staging i st) r = known st r" "alive (remove_staging i st) j = alive st j"
  "known (record_staged_bytes n st) r = known st r" "alive (record_staged_bytes n st) j = alive st j"
  "known (drop_staged i st) r = known st r" "alive (drop_staged i st) j = alive st j"
  by (simp_all add: known_def alive_def)

lemma known_moves: "moves sha st st' \<Longrightarrow> state_ok sha st \<Longrightarrow> known st row \<Longrightarrow> known st' row"
  by (frule (1) ledger_moves_le) (fastforce simp: known_def ledger_le_def ledger_def)

lemma known_iff: "known st row \<longleftrightarrow> ident row \<in> ident ` set (ms_uploads st)"
  unfolding known_def image_iff by (rule bex_cong) auto

lemma known_update_upload:
  "\<forall>u. ident (f u) = ident u \<Longrightarrow> known (update_upload i f st) row = known st row"
proof -
  assume "\<forall>u. ident (f u) = ident u"
  then have "map ident (ms_uploads (update_upload i f st)) = map ident (ms_uploads st)"
    by (simp add: update_row_def)
  then have "ident ` set (ms_uploads (update_upload i f st)) = ident ` set (ms_uploads st)"
    by (metis list.set_map)
  then show ?thesis by (simp add: known_iff)
qed

lemma alive_update_upload:
  "\<forall>u. up_status (f u) \<noteq> Up_Cancelled \<Longrightarrow> alive st j \<Longrightarrow> alive (update_upload i f st) j"
  by (auto simp: alive_def not_cancelled_def set_update_row)

lemma known_in_row_ids: "known st row \<Longrightarrow> up_id row \<in> row_ids (ms_uploads st)"
  unfolding known_def row_ids_def using ident_eqD by (metis imageI)

lemma history_iff: "upload_history_exists st i \<longleftrightarrow> i \<in> log_ids (ms_log st)"
  by (auto simp: upload_history_exists_def log_ids_def list_ex_iff)

lemma record_outcome_ledger:
  assumes "record_outcome row f ok now st = Some st'"
  shows "ledger st' = (update_row (up_id row) f (ms_uploads st),
                       ms_log st @ [upload_log_entry (f row) ok now], ms_landing st)"
    and "up_id row \<notin> log_ids (ms_log st)"
  using assms by (auto simp: record_outcome_def history_iff ledger_def split: if_splits)

lemma record_outcome_moves:
  assumes "record_outcome row f ok now st = Some st'" "known st row" "alive st (up_id row)"
    and f: "\<forall>u. ident (f u) = ident u" "\<forall>u. up_status (f u) = (if ok then Up_Finalized else Up_Failed)"
    and p: "\<forall>u\<in>set (ms_uploads st). up_id u = up_id row \<longrightarrow> published sha (ms_landing st) (f u)"
  shows "ledger_move sha (ledger st) (ledger st')"
proof -
  have id: "up_id (f row) = up_id row" using f(1) ident_id by blast
  show ?thesis
    using record_outcome_ledger [OF assms(1)] known_in_row_ids [OF assms(2)] assms(3)
      ledger_move.Settle [of "f row" "ms_uploads st" "ms_log st" f ok sha "ms_landing st" now] f p
    unfolding id alive_def by (simp add: ledger_def)
qed

lemma failed_row_simps [simp]:
  "ident (failed_row e now u) = ident u" "up_status (failed_row e now u) = Up_Failed"
  "up_id (failed_row e now u) = up_id u"
  by (simp_all add: failed_row_def ident_def)

lemma finalized_row_simps [simp]:
  "ident (finalized_row d n now u) = ident u" "up_status (finalized_row d n now u) = Up_Finalized"
  "up_id (finalized_row d n now u) = up_id u" "up_bytes_received (finalized_row d n now u) = n"
  "up_sha256 (finalized_row d n now u) = Some d"
  by (simp_all add: finalized_row_def ident_def)

lemma fail_upload_moves:
  assumes "known st row" "alive st (up_id row)"
  shows "moves sha st (fail_upload row e now st)"
  using assms
  by (auto simp: fail_upload_def published_ident split: option.split intro!: record_outcome_moves)

lemma fail_upload_alive: "alive st i \<Longrightarrow> alive (fail_upload row e now st) i"
  by (auto simp: fail_upload_def record_outcome_def alive_def not_cancelled_def set_update_row
           split: option.splits if_splits)

lemma fail_uploads_moves:
  "state_ok sha st \<Longrightarrow> \<forall>r\<in>set rows. known st r \<and> alive st (up_id r) \<Longrightarrow> moves sha st (fail_uploads rows e now st)"
proof (induction rows arbitrary: st)
  case Nil
  then show ?case by (simp add: fail_uploads_def)
next
  case (Cons r rows)
  let ?st = "fail_upload r e now st"
  have m: "moves sha st ?st" using Cons.prems by (simp add: fail_upload_moves)
  have "moves sha ?st (fail_uploads rows e now ?st)"
    using Cons.prems m by (intro Cons.IH) (auto intro: ledger_moves_ok known_moves fail_upload_alive)
  then show ?case using m by (simp add: fail_uploads_def)
qed

lemma known_ledger_cong: "ms_uploads st = ms_uploads st' \<Longrightarrow> known st r = known st' r"
  by (simp add: known_def)

lemma fail_upload_known: "known (fail_upload row e now st) r = known st r"
proof -
  have "known s r = known st r" if "ms_uploads s = ms_uploads (update_upload (up_id row) (failed_row e now) st)" for s
    using known_ledger_cong [OF that] by (simp add: known_update_upload)
  then show ?thesis by (auto simp: fail_upload_def record_outcome_def split: option.split)
qed

lemma create_moves:
  "moves sha st (fst (create_mobile_upload cfg reg dest name declared digest key new_id now st))"
proof -
  have new: "find_upload st i = None \<Longrightarrow> up_id r = i \<Longrightarrow> up_status r = Up_Created \<Longrightarrow>
      moves sha st (st\<lparr> ms_uploads := ms_uploads st @ [r] \<rparr>)" for i r
    by (rule r_into_rtranclp)
      (force simp: ledger_def find_upload_def find_None_iff row_ids_def intro!: ledger_move.New)
  show ?thesis
    by (auto simp: create_mobile_upload_def Let_def split: option.splits intro!: new)
qed

lemma work_moves:
  assumes "state_ok sha st" "find_upload st i = Some row" "\<not> upload_settled (up_status row)"
    "up_status row \<noteq> Up_Cancelled" "\<forall>u. ident (f u) = ident u" "\<forall>u. \<not> upload_settled (up_status (f u))"
    "ledger st' = ledger (update_upload i f st)"
  shows "moves sha st st'"
proof (rule r_into_rtranclp)
  show "ledger_move sha (ledger st) (ledger st')"
    unfolding assms(7) ledger_update_upload unfolding ledger_def
    using find_upload_open [OF assms(1-3)] find_upload_alive [OF assms(1,2,4)] assms(5,6)
    by (intro ledger_move.Work) (auto simp: alive_def)
qed

lemma ident_update [simp]:
  "ident (up_status_update g u) = ident u" "ident (up_bytes_received_update h u) = ident u"
  "ident (up_updated_at_update h u) = ident u" "ident (up_sha256_update k u) = ident u"
  "ident (up_error_update e u) = ident u"
  by (simp_all add: ident_def)

lemma chunk_moves:
  assumes "state_ok sha st"
  shows "moves sha st (fst (append_mobile_upload_chunk cfg reg i offset bytes disk now st))"
proof -
  have "ledger (fst (append_mobile_upload_chunk cfg reg i offset bytes disk now st)) = ledger st \<or>
    (\<exists>row n. find_upload st i = Some row \<and> up_status row \<in> {Up_Created, Up_Uploading} \<and>
       ledger (fst (append_mobile_upload_chunk cfg reg i offset bytes disk now st)) =
       ledger (update_upload i (\<lambda>u. u\<lparr> up_bytes_received := n, up_status := Up_Uploading,
                                    up_updated_at := now \<rparr>) st))"
    by (auto simp: append_mobile_upload_chunk_def Let_def ledger_update_upload split: option.splits disk_write.splits)
  then show ?thesis
  proof
    assume "ledger (fst (append_mobile_upload_chunk cfg reg i offset bytes disk now st)) = ledger st"
    then show ?thesis by simp
  next
    assume "\<exists>row n. find_upload st i = Some row \<and> up_status row \<in> {Up_Created, Up_Uploading} \<and>
       ledger (fst (append_mobile_upload_chunk cfg reg i offset bytes disk now st)) =
       ledger (update_upload i (\<lambda>u. u\<lparr> up_bytes_received := n, up_status := Up_Uploading,
                                    up_updated_at := now \<rparr>) st)"
    then obtain row n where "find_upload st i = Some row" "up_status row \<in> {Up_Created, Up_Uploading}"
      and "ledger (fst (append_mobile_upload_chunk cfg reg i offset bytes disk now st)) =
       ledger (update_upload i (\<lambda>u. u\<lparr> up_bytes_received := n, up_status := Up_Uploading,
                                    up_updated_at := now \<rparr>) st)"
      by blast
    then show ?thesis by (intro work_moves [OF assms, of i row]) (auto simp: upload_settled_def)
  qed
qed

lemma upload_cancel_moves:
  assumes "state_ok sha st"
  shows "moves sha st (fst (cancel_mobile_upload reg i now st))"
proof -
  let ?f = "\<lambda>u. u\<lparr> up_status := Up_Cancelled, up_error := None, up_updated_at := now \<rparr>"
  have "ledger (fst (cancel_mobile_upload reg i now st)) = ledger st \<or>
    (\<exists>row. find_upload st i = Some row \<and> \<not> upload_settled (up_status row) \<and>
       ledger (fst (cancel_mobile_upload reg i now st)) = ledger (update_upload i ?f st))"
    by (auto simp: cancel_mobile_upload_def Let_def ledger_update_upload upload_settled_def split: option.splits)
  moreover have "moves sha st st'" if "find_upload st i = Some row" "\<not> upload_settled (up_status row)"
    "ledger st' = ledger (update_upload i ?f st)" for row st'
  proof (rule r_into_rtranclp)
    show "ledger_move sha (ledger st) (ledger st')"
      unfolding that(3) ledger_update_upload unfolding ledger_def
      using find_upload_open [OF assms that(1,2)] by (intro ledger_move.Recancel) auto
  qed
  ultimately show ?thesis by auto
qed

lemma known_ident:
  "state_ok sha st \<Longrightarrow> known st row \<Longrightarrow> u \<in> set (ms_uploads st) \<Longrightarrow> up_id u = up_id row \<Longrightarrow> ident u = ident row"
  unfolding known_def using unique_row ident_eqD by metis

lemma complete_publication_moves:
  assumes ok: "state_ok sha st" and k: "known st row" "alive st (up_id row)"
  shows "moves sha st (fst (complete_publication sha io row now st))"
proof -
  have "moves sha st st'"
    if c: "ms_landing st (final_path (up_final_rel_path row)) = Some c"
      and r: "record_outcome row (finalized_row (sha c) (int (length c)) now) True now st = Some st'" for c st'
  proof (intro r_into_rtranclp record_outcome_moves [OF r k] ballI impI)
    fix u
    assume u: "u \<in> set (ms_uploads st)" "up_id u = up_id row"
    have "up_final_rel_path u = up_final_rel_path row"
      using ident_eqD [OF known_ident [OF ok k(1) u]] by simp
    then show "published sha (ms_landing st) (finalized_row (sha c) (int (length c)) now u)"
      using c by (simp add: published_def finalized_row_def)
  qed simp_all
  then show ?thesis
    by (auto simp: complete_publication_def split: option.split)
qed

lemma fail_known_row_moves:
  "known st row \<Longrightarrow> alive st (up_id row) \<Longrightarrow> ident r = ident row \<Longrightarrow> moves sha st (fail_upload r e now st)"
  by (auto simp: known_def dest: ident_eqD intro!: fail_upload_moves)

lemma publish_move:
  "ms_landing st p = None \<Longrightarrow> ledger st' = (ms_uploads st, ms_log st, (ms_landing st)(p \<mapsto> c)) \<Longrightarrow> moves sha st st'"
  by (rule r_into_rtranclp) (auto simp: ledger_def intro: ledger_move.Publish)

lemma publish_locally_moves:
  assumes ok: "state_ok sha st" and k: "known st row" "alive st (up_id row)"
  shows "moves sha st (fst (publish_locally sha io row content now st))"
proof -
  define path where "path = final_path (up_final_rel_path row)"
  define st1 where "st1 = record_staged_bytes (- up_bytes_received row)
      ((drop_staged (up_id row) (st\<lparr> ms_usage := Some (current_staged_usage st) \<rparr>))
         \<lparr> ms_landing := (ms_landing st)(path \<mapsto> content) \<rparr>)"
  have l1: "ledger st1 = (ms_uploads st, ms_log st, (ms_landing st)(path \<mapsto> content))"
    by (simp add: st1_def ledger_def record_staged_bytes_def drop_staged_def)
  have complete: "moves sha st (fst (complete_publication sha io row now st1))"
    if "ms_landing st path = None"
  proof -
    have m: "moves sha st st1" using that l1 by (rule publish_move)
    have "ms_uploads st1 = ms_uploads st" using l1 by (simp add: ledger_def)
    then have "moves sha st1 (fst (complete_publication sha io row now st1))"
      using k ledger_moves_ok [OF m ok] by (intro complete_publication_moves) (simp_all add: known_def alive_def)
    with m show ?thesis by simp
  qed
  have fail: "moves sha st (fail_upload row e now st)"
    "moves sha st (fail_upload (row\<lparr> up_status := s, up_sha256 := d \<rparr>) e now st)" 
    "moves sha st (fail_upload row e now (remove_staging i st))" for e s d and i :: string
    using k fail_upload_moves [of "remove_staging i st" row sha e now]
    by (auto intro!: fail_known_row_moves)
  show ?thesis
    unfolding publish_locally_def Let_def path_def [symmetric] st1_def [symmetric]
    using fail complete by auto
qed

lemma update_upload_moves:
  assumes "state_ok sha st" "known st row" "alive st (up_id row)" "up_id row \<notin> log_ids (ms_log st)"
    "\<forall>u. ident (f u) = ident u" "\<forall>u. \<not> upload_settled (up_status (f u))"
  shows "moves sha st (update_upload (up_id row) f st)"
proof (rule r_into_rtranclp)
  show "ledger_move sha (ledger st) (ledger (update_upload (up_id row) f st))"
    unfolding ledger_update_upload unfolding ledger_def
    using assms by (intro ledger_move.Work) (auto simp: alive_def)
qed

lemma verify_and_publish_moves:
  assumes ok: "state_ok sha st" and k: "known st row" "alive st (up_id row)" "up_id row \<notin> log_ids (ms_log st)"
  shows "moves sha st (fst (verify_and_publish sha io row now st))"
proof -
  define st2 where "st2 = (\<lambda>c. update_upload (up_id row) (\<lambda>u. u\<lparr> up_status := Up_Publishing,
                         up_sha256 := Some (sha c), up_updated_at := now \<rparr>) st)"
  have m: "moves sha st (st2 c)" for c
    unfolding st2_def using k by (intro update_upload_moves [OF ok]) (auto simp: upload_settled_def)
  have k2: "known (st2 c) row" "alive (st2 c) (up_id row)" for c
    using k by (simp_all add: st2_def known_update_upload alive_update_upload)
  have fail: "moves sha st (fail_upload row e now (st2 c))" for c e
    using m [of c] fail_upload_moves [OF k2 [of c], of sha e now] by (rule rtranclp_trans)
  have pub: "moves sha st (fst (publish_locally sha io row c now (st2 c)))" for c
    using m publish_locally_moves [OF ledger_moves_ok [OF m ok] k2] by (rule rtranclp_trans)
  show ?thesis
    using m fail pub k unfolding st2_def verify_and_publish_def Let_def
    by (auto simp: case_prod_beta intro!: fail_upload_moves split: option.split)
qed

lemma finalize_active_moves:
  assumes ok: "state_ok sha st" and f: "find_upload st i = Some row"
    and s: "\<not> upload_settled (up_status row)" "up_status row \<noteq> Up_Cancelled"
  shows "moves sha st (fst (finalize_active sha io row now st))"
proof -
  have k: "known st row" "alive st (up_id row)" "up_id row \<notin> log_ids (ms_log st)" and i: "up_id row = i"
    using find_upload_known [OF f] find_upload_alive [OF ok f s(2)] find_upload_open [OF ok f s(1)]
      find_upload_SomeD [OF f] by auto
  define st1 where "st1 = update_upload (up_id row) (\<lambda>u. u\<lparr> up_status := Up_Verifying, up_updated_at := now \<rparr>) st"
  have m: "moves sha st st1"
    unfolding st1_def using k by (intro update_upload_moves [OF ok]) (auto simp: upload_settled_def)
  have k1: "known st1 row" "alive st1 (up_id row)" "up_id row \<notin> log_ids (ms_log st1)"
    using k by (simp_all add: st1_def known_update_upload alive_update_upload)
  have "moves sha st (fst (verify_and_publish sha io row now st1))"
    using m verify_and_publish_moves [OF ledger_moves_ok [OF m ok] k1] by (rule rtranclp_trans)
  then show ?thesis
    using verify_and_publish_moves [OF ok k] complete_publication_moves [OF ok k(1,2)] fail_upload_moves [OF k(1,2)]
    unfolding finalize_active_def st1_def [symmetric]
    by (auto simp: case_prod_beta split: option.split)
qed

lemma finalized_in_log:
  "state_ok sha st \<Longrightarrow> u \<in> set (ms_uploads st) \<Longrightarrow> up_status u = Up_Finalized \<Longrightarrow> upload_history_exists st (up_id u)"
  by (auto simp: ledger_ok_def ledger_def history_iff upload_settled_def)

lemma finalize_moves:
  assumes ok: "state_ok sha st"
  shows "moves sha st (fst (finalize_mobile_upload sha io reg i now st))"
proof -
  have "append_upload_operation_log row True now st = st"
    if "find_upload st i = Some row" "up_status row = Up_Finalized" for row
    unfolding append_upload_operation_log_def
    using finalized_in_log [OF ok] find_upload_SomeD [OF that(1)] that(2) by auto
  then show ?thesis
    unfolding finalize_mobile_upload_def
    using finalize_active_moves [OF ok] by (auto simp: upload_settled_def split: option.split)
qed

section \<open>The suspended calls\<close>

definition pending_ok :: "mobile_state \<Rightarrow> bool" where
  "pending_ok st \<longleftrightarrow> (\<forall>(r, d)\<in>set (ms_pending st).
     known st r \<and> alive st (up_id r) \<and> up_id r \<in> set (ms_locks st) \<and> up_target_folder_id r \<noteq> None)"

lemma resume_moves:
  assumes ok: "state_ok sha st" and p: "pending_ok st"
  shows "moves sha st (fst (finalize_resume copied i now st))"
proof (cases "find (\<lambda>(r, _). up_id r = i) (ms_pending st)")
  case None
  then show ?thesis by (simp add: finalize_resume_def)
next
  case (Some rd)
  obtain row digest where rd: "rd = (row, digest)" by (cases rd)
  have mem: "(row, digest) \<in> set (ms_pending st)" and i: "up_id row = i"
    using find_SomeD [OF Some] rd by auto
  have k: "known st row" "alive st (up_id row)" "up_target_folder_id row \<noteq> None"
    using p mem by (auto simp: pending_ok_def)
  define st0 where "st0 = st\<lparr> ms_locks := removeAll i (ms_locks st),
                         ms_pending := filter (\<lambda>(r, _). up_id r \<noteq> i) (ms_pending st) \<rparr>"
  have l0: "ledger st0 = ledger st" by (simp add: st0_def)
  have k0: "known st0 row" "alive st0 (up_id row)"
    using k by (simp_all add: known_def alive_def st0_def)
  have "moves sha st st1"
    if r: "record_outcome row (finalized_row digest (up_bytes_received row) now) True now st0 = Some st1" for st1
    unfolding l0 [symmetric]
  proof (intro r_into_rtranclp record_outcome_moves [OF r k0] ballI impI)
    fix u
    assume u: "u \<in> set (ms_uploads st0)" "up_id u = up_id row"
    have "up_target_folder_id u = up_target_folder_id row"
      using ident_eqD [OF known_ident [OF _ k0(1) u, of sha]] ok l0 by simp
    then show "published sha (ms_landing st0) (finalized_row digest (up_bytes_received row) now u)"
      using k(3) by (auto simp: published_def finalized_row_def)
  qed simp_all
  then show ?thesis
    unfolding finalize_resume_def Some rd Let_def
    by (auto simp: st0_def [symmetric] l0 Let_def split: option.split)
qed

section \<open>Sweeps\<close>

lemma sweep_rows:
  assumes ok: "state_ok sha st" and r: "\<forall>u\<in>set rows. u \<in> set (ms_uploads st) \<and> up_status u \<noteq> Up_Cancelled"
  shows "\<forall>u\<in>set rows. known st u \<and> alive st (up_id u)"
  using r unique_row [OF ok] unfolding known_def alive_def not_cancelled_def by metis

lemma reconcile_history_ledger:
  assumes ok: "state_ok sha st"
  shows "reconcile_upload_history now st = st"
proof -
  have "fold (\<lambda>r. append_upload_operation_log r True now) rows st = st"
    if "\<forall>r\<in>set rows. upload_history_exists st (up_id r)" for rows
    using that by (induction rows) (auto simp: append_upload_operation_log_def)
  then show ?thesis
    using finalized_in_log [OF ok] by (simp add: reconcile_upload_history_def)
qed

lemma upload_sweep_moves:
  assumes ok: "state_ok sha st"
  shows "moves sha st (fst (reconcile_abandoned_mobile_uploads cfg old now st))"
proof -
  define rows where "rows = filter (\<lambda>u. active_status (up_status u) \<and> \<not> (up_updated_at u \<ge> now - mc_abandon_ttl cfg))
                   (ms_uploads st)"
  define st1 where "st1 = fail_uploads rows Abandoned now st"
  define st2 where "st2 = st1\<lparr> ms_staging := filter (\<lambda>(i, _). \<not> (find_upload st1 i = None \<and> old i)) (ms_staging st1) \<rparr>"
  have m: "moves sha st st1"
    unfolding st1_def
    by (intro fail_uploads_moves [OF ok] sweep_rows [OF ok]) (auto simp: rows_def active_status_def)
  have l: "ledger st2 = ledger st1" by (simp add: st2_def)
  have "state_ok sha (seed_staging_usage st2)" using ledger_moves_ok [OF m ok] by (simp add: l)
  from reconcile_history_ledger [OF this]
  show ?thesis
    unfolding reconcile_abandoned_mobile_uploads_def Let_def rows_def [symmetric] st1_def [symmetric]
      st2_def [symmetric]
    using m l by simp
qed

lemma revoke_registration_moves:
  assumes ok: "state_ok sha st"
  shows "moves sha st (fst (revoke_registration host reason now st))"
proof -
  have "moves sha st (fst (revoke_registration_uploads host reason now st'))" if "ledger st' = ledger st" for st'
    unfolding that [symmetric] revoke_registration_uploads_def Let_def fst_conv ledger_simps
    using ok that by (intro fail_uploads_moves sweep_rows) auto
  moreover have "ledger (fst (revoke_mobile_registration host now st)) = ledger st"
    by (auto simp: revoke_mobile_registration_def ledger_def split: option.split)
  ultimately show ?thesis
    by (auto simp: revoke_registration_def split: prod.split option.split)
qed

lemma destination_ledger [simp]:
  "ledger (fst (create_mobile_upload_destination reg label slug folder new_id now st)) = ledger st"
  "ledger (fst (update_mobile_upload_destination_folder reg i folder st)) = ledger st"
  "ledger (fst (revoke_mobile_upload_destination reg i now st)) = ledger st"
  by (auto simp: create_mobile_upload_destination_def update_mobile_upload_destination_folder_def
      revoke_mobile_upload_destination_def Let_def split: option.split)

lemma mobile_request_moves:
  assumes "state_ok sha st" "pending_ok st"
  shows "moves sha st (fst (handle_mobile cfg sha req now st))"
  using assms
  by (cases req)
    (simp_all add: create_moves chunk_moves finalize_moves resume_moves upload_cancel_moves upload_sweep_moves
      revoke_registration_moves step_reply_def restart_def, simp_all add: ledger_def)

text \<open>Only cancelling makes a row cancelled, and it leaves the locked uploads alone; only
  finalizing and resuming touch the locks.\<close>

abbreviation "same_calls st st' \<equiv> ms_locks st' = ms_locks st \<and> ms_pending st' = ms_pending st"

definition alive_le :: "mobile_state \<Rightarrow> mobile_state \<Rightarrow> bool" where
  "alive_le st st' \<longleftrightarrow> (\<forall>i. alive st i \<longrightarrow> alive st' i)"

lemma record_outcome_calls:
  "record_outcome row f ok now st = Some st' \<Longrightarrow> \<forall>u. up_status (f u) \<noteq> Up_Cancelled \<Longrightarrow>
     same_calls st st' \<and> alive_le st st'"
  by (auto simp: record_outcome_def alive_le_def alive_def not_cancelled_def set_update_row split: if_splits)

lemma fail_upload_calls: "same_calls st (fail_upload row e now st) \<and> alive_le st (fail_upload row e now st)"
  using record_outcome_calls [of row "failed_row e now" False now st]
  by (auto simp: fail_upload_def alive_le_def split: option.split)

lemma fail_uploads_calls: "same_calls st (fail_uploads rows e now st) \<and> alive_le st (fail_uploads rows e now st)"
proof (induction rows arbitrary: st)
  case Nil
  then show ?case by (simp add: fail_uploads_def alive_le_def)
next
  case (Cons r rows)
  then show ?case
    using Cons.IH [of "fail_upload r e now st"] fail_upload_calls [where st = st and row = r and e = e and now = now]
    by (simp add: fail_uploads_def alive_le_def)
qed

lemma alive_le_update_upload:
  "\<forall>u. up_status (f u) \<noteq> Up_Cancelled \<Longrightarrow> alive_le st (update_upload i f st)"
  by (simp add: alive_le_def alive_update_upload)

lemma alive_le_trans: "alive_le st st' \<Longrightarrow> alive_le st' st'' \<Longrightarrow> alive_le st st''"
  by (simp add: alive_le_def)

lemma alive_le_uploads: "ms_uploads st' = ms_uploads st \<Longrightarrow> alive_le st st'"
  by (simp add: alive_le_def alive_def)

lemma complete_publication_calls:
  "same_calls st (fst (complete_publication sha io row now st)) \<and>
   alive_le st (fst (complete_publication sha io row now st))"
proof -
  have "same_calls st st' \<and> alive_le st st'" 
    if "record_outcome row (finalized_row d n now) True now st = Some st'" for d n st'
    using record_outcome_calls [OF that] by simp
  moreover have "alive_le st st" by (simp add: alive_le_def)
  ultimately show ?thesis by (auto simp: complete_publication_def split: option.split)
qed

lemma publish_locally_calls:
  "same_calls st (fst (publish_locally sha io row c now st)) \<and>
   alive_le st (fst (publish_locally sha io row c now st))"
proof -
  define st1 where "st1 = record_staged_bytes (- up_bytes_received row)
      ((drop_staged (up_id row) (st\<lparr> ms_usage := Some (current_staged_usage st) \<rparr>))
         \<lparr> ms_landing := (ms_landing st)(final_path (up_final_rel_path row) \<mapsto> c) \<rparr>)"
  have s: "same_calls st st1" "alive_le st st1"
    by (simp_all add: st1_def alive_le_uploads record_staged_bytes_def drop_staged_def)
  show ?thesis
    unfolding publish_locally_def Let_def st1_def [symmetric]
    using s complete_publication_calls [where st = st1] fail_upload_calls [where st = st]
      fail_upload_calls [where st = "remove_staging (up_id row) st"]
    by (auto simp: alive_le_def)
qed

lemma verify_and_publish_calls:
  "alive_le st (fst (verify_and_publish sha io row now st)) \<and>
   (same_calls st (fst (verify_and_publish sha io row now st)) \<or>
    up_target_folder_id row \<noteq> None \<and>
    ms_locks (fst (verify_and_publish sha io row now st)) = up_id row # ms_locks st \<and>
    (\<exists>d. ms_pending (fst (verify_and_publish sha io row now st)) = (row, d) # ms_pending st))"
proof -
  define U where "U d = update_upload (up_id row) (\<lambda>u. u\<lparr> up_status := Up_Publishing,
                         up_sha256 := d, up_updated_at := now \<rparr>) st" for d
  have s: "same_calls st (U d)" "alive_le st (U d)" for d
    by (simp_all add: U_def alive_le_update_upload)
  have a: "alive_le st st'" if "alive_le (U d) st'" for d st'
    using s(2) that by (rule alive_le_trans)
  have f: "alive_le st (fail_upload row e now (U d))" "same_calls st (fail_upload row e now (U d))" for d e
    using s [of d] a [of d] fail_upload_calls [where st = "U d" and row = row and e = e and now = now]
    by simp_all
  have p: "alive_le st (fst (publish_locally sha io row c now (U d)))"
    "same_calls st (fst (publish_locally sha io row c now (U d)))" for c d
    using s [of d] a [of d] publish_locally_calls [where st = "U d" and sha = sha and io = io and row = row and c = c
        and now = now] by simp_all
  have w: "alive_le st (U d\<lparr> ms_locks := l, ms_pending := q \<rparr>)" for d l q
    using s(2) [of d] by (simp add: alive_le_def alive_def)
  have "alive_le st st" by (simp add: alive_le_def)
  then show ?thesis
    unfolding verify_and_publish_def Let_def U_def [symmetric]
    using s f p w fail_upload_calls [where st = st]
    by (simp add: case_prod_beta split: option.split)
qed

lemma finalize_calls:
  "alive_le st (fst (finalize_mobile_upload sha io reg i now st)) \<and>
   (same_calls st (fst (finalize_mobile_upload sha io reg i now st)) \<or>
    (\<exists>row d. find_upload st i = Some row \<and> up_status row \<noteq> Up_Cancelled \<and> up_target_folder_id row \<noteq> None \<and>
      ms_locks (fst (finalize_mobile_upload sha io reg i now st)) = up_id row # ms_locks st \<and>
      ms_pending (fst (finalize_mobile_upload sha io reg i now st)) = (row, d) # ms_pending st))"
proof -
  have active: "alive_le st (fst (finalize_active sha io row now st)) \<and>
     (same_calls st (fst (finalize_active sha io row now st)) \<or>
      up_target_folder_id row \<noteq> None \<and>
      ms_locks (fst (finalize_active sha io row now st)) = up_id row # ms_locks st \<and>
      (\<exists>d. ms_pending (fst (finalize_active sha io row now st)) = (row, d) # ms_pending st))" for row
  proof -
    define st1 where "st1 = update_upload (up_id row) (\<lambda>u. u\<lparr> up_status := Up_Verifying, up_updated_at := now \<rparr>) st"
    have s: "same_calls st st1" "alive_le st st1"
      by (simp_all add: st1_def alive_le_update_upload)
    have v: "alive_le st (fst (verify_and_publish sha io row now st1))"
      using s(2) verify_and_publish_calls [where st = st1] alive_le_trans by blast
    have r: "alive_le st st" by (simp add: alive_le_def)
    show ?thesis
      unfolding finalize_active_def st1_def [symmetric]
      using s v r verify_and_publish_calls [where st = st1 and row = row and sha = sha and io = io and now = now]
        verify_and_publish_calls [where st = st and row = row and sha = sha and io = io and now = now]
        complete_publication_calls [where st = st] fail_upload_calls [where st = st]
      by (simp add: case_prod_beta split: option.split)
  qed
  have "alive_le st st" "alive_le st (append_upload_operation_log row True now st)"
    "same_calls st (append_upload_operation_log row True now st)" for row
    by (simp_all add: append_upload_operation_log_def alive_le_def alive_def)
  then show ?thesis
    unfolding finalize_mobile_upload_def
    using active by (auto split: option.split)
qed

lemma pending_kept:
  assumes ok: "state_ok sha st" "moves sha st st'" and p: "pending_ok st"
    and sub: "set (ms_pending st') \<subseteq> set (ms_pending st)"
    and locks: "\<And>r d. (r, d) \<in> set (ms_pending st') \<Longrightarrow> up_id r \<in> set (ms_locks st')"
    and alive: "\<And>i. i \<in> set (ms_locks st) \<Longrightarrow> alive st i \<Longrightarrow> alive st' i"
  shows "pending_ok st'"
proof -
  have "known st' r \<and> alive st' (up_id r) \<and> up_id r \<in> set (ms_locks st') \<and> up_target_folder_id r \<noteq> None"
    if "(r, d) \<in> set (ms_pending st')" for r d
  proof -
    have "(r, d) \<in> set (ms_pending st)" using that sub by blast
    then show ?thesis
      using p locks [OF that] alive known_moves [OF ok(2,1)] by (auto simp: pending_ok_def)
  qed
  then show ?thesis by (auto simp: pending_ok_def)
qed

lemma pending_calls:
  assumes "state_ok sha st" "moves sha st st'" "pending_ok st" "same_calls st st'"
    and "\<And>i. i \<in> set (ms_locks st) \<Longrightarrow> alive st i \<Longrightarrow> alive st' i"
  shows "pending_ok st'"
  by (rule pending_kept [OF assms(1-3) _ _ assms(5)]) (use assms(3,4) in \<open>auto simp: pending_ok_def\<close>)

lemma alive_leD: "alive_le st st' \<Longrightarrow> alive st i \<Longrightarrow> alive st' i"
  by (simp add: alive_le_def)

lemma pending_finalize:
  assumes ok: "state_ok sha st" and p: "pending_ok st"
  shows "pending_ok (fst (finalize_mobile_upload sha io reg i now st))" (is "pending_ok ?st")
proof -
  note calls = finalize_calls [where sha = sha and io = io and reg = reg and i = i and now = now and st = st]
  have m: "moves sha st ?st" by (rule finalize_moves [OF ok])
  from calls consider "same_calls st ?st"
    | row d where "find_upload st i = Some row" "up_status row \<noteq> Up_Cancelled" "up_target_folder_id row \<noteq> None"
      "ms_locks ?st = up_id row # ms_locks st" "ms_pending ?st = (row, d) # ms_pending st"
    by blast
  then show ?thesis
  proof cases
    case 1
    then show ?thesis using calls alive_leD by (intro pending_calls [OF ok m p]) auto
  next
    case 2
    have "known ?st r \<and> alive ?st (up_id r) \<and> up_id r \<in> set (ms_locks ?st) \<and> up_target_folder_id r \<noteq> None"
      if "(r, e) \<in> set (ms_pending ?st)" for r e
    proof (cases "(r, e) = (row, d)")
      case True
      then show ?thesis
        using 2 known_moves [OF m ok find_upload_known [OF 2(1)]] alive_leD [OF conjunct1 [OF calls]]
          find_upload_alive [OF ok 2(1,2)] find_upload_SomeD [OF 2(1)] by simp
    next
      case False
      then have "(r, e) \<in> set (ms_pending st)" using that 2(5) by auto
      then show ?thesis
        using p 2(4) known_moves [OF m ok] alive_leD [OF conjunct1 [OF calls]] by (auto simp: pending_ok_def)
    qed
    then show ?thesis by (auto simp: pending_ok_def)
  qed
qed

lemma pending_resume:
  assumes ok: "state_ok sha st" and p: "pending_ok st"
  shows "pending_ok (fst (finalize_resume copied i now st))" (is "pending_ok ?st")
proof (rule pending_kept [OF ok resume_moves [OF ok p] p])
  have c: "(ms_pending ?st = ms_pending st \<and> ms_locks ?st = ms_locks st \<or>
         ms_pending ?st = filter (\<lambda>(r, _). up_id r \<noteq> i) (ms_pending st) \<and> ms_locks ?st = removeAll i (ms_locks st)) \<and>
        alive_le st ?st"
    by (auto simp: finalize_resume_def Let_def alive_le_def alive_def not_cancelled_def set_update_row record_outcome_def
        split: option.splits if_splits)
  then show "set (ms_pending ?st) \<subseteq> set (ms_pending st)" by auto
  show "up_id r \<in> set (ms_locks ?st)" if rd: "(r, d) \<in> set (ms_pending ?st)" for r d
  proof -
    have "(r, d) \<in> set (ms_pending st)" using rd c by auto
    then have "up_id r \<in> set (ms_locks st)" using p by (auto simp: pending_ok_def)
    then show ?thesis using c rd by (elim conjE disjE) simp_all
  qed
  show "alive ?st j" if "alive st j" for j using c that by (simp add: alive_le_def)
qed

lemma pending_cancel:
  assumes ok: "state_ok sha st" and p: "pending_ok st"
  shows "pending_ok (fst (cancel_mobile_upload reg i now st))"
proof (rule pending_calls [OF ok upload_cancel_moves [OF ok] p])
  show "same_calls st (fst (cancel_mobile_upload reg i now st))"
    by (simp add: cancel_mobile_upload_def Let_def split: option.split)
  show "alive (fst (cancel_mobile_upload reg i now st)) j" if "j \<in> set (ms_locks st)" "alive st j" for j
    using that by (auto simp: cancel_mobile_upload_def Let_def alive_def not_cancelled_def set_update_row
        split: option.splits)
qed

lemma pending_chunk:
  assumes ok: "state_ok sha st" and p: "pending_ok st"
  shows "pending_ok (fst (append_mobile_upload_chunk cfg reg i offset bytes disk now st))"
proof (rule pending_calls [OF ok chunk_moves [OF ok] p])
  show "same_calls st (fst (append_mobile_upload_chunk cfg reg i offset bytes disk now st))"
    by (simp add: append_mobile_upload_chunk_def Let_def split: option.split disk_write.split)
  show "alive (fst (append_mobile_upload_chunk cfg reg i offset bytes disk now st)) j" if "alive st j" for j
    using that by (auto simp: append_mobile_upload_chunk_def Let_def alive_def not_cancelled_def set_update_row
        split: option.splits disk_write.splits if_splits)
qed

lemma pending_create:
  assumes ok: "state_ok sha st" and p: "pending_ok st"
  shows "pending_ok (fst (create_mobile_upload cfg reg dest name declared digest key new_id now st))"
proof (rule pending_calls [OF ok create_moves p])
  show "same_calls st (fst (create_mobile_upload cfg reg dest name declared digest key new_id now st))"
    by (simp add: create_mobile_upload_def Let_def split: option.split)
  show "alive (fst (create_mobile_upload cfg reg dest name declared digest key new_id now st)) j" if "alive st j" for j
    using that by (auto simp: create_mobile_upload_def Let_def alive_def not_cancelled_def split: option.splits)
qed

lemma sweep_calls:
  assumes ok: "state_ok sha st"
  shows "same_calls st (fst (reconcile_abandoned_mobile_uploads cfg old now st)) \<and>
         alive_le st (fst (reconcile_abandoned_mobile_uploads cfg old now st))"
proof -
  have r: "same_calls s (reconcile_upload_history now s) \<and> ms_uploads (reconcile_upload_history now s) = ms_uploads s" for s
  proof -
    have "same_calls s (fold (\<lambda>r. append_upload_operation_log r True now) rows s) \<and>
        ms_uploads (fold (\<lambda>r. append_upload_operation_log r True now) rows s) = ms_uploads s" for rows
      by (induction rows arbitrary: s) (auto simp: append_upload_operation_log_def)
    then show ?thesis by (simp add: reconcile_upload_history_def)
  qed
  show ?thesis
    using fail_uploads_calls [where st = st] r
    by (simp add: reconcile_abandoned_mobile_uploads_def Let_def seed_staging_usage_def alive_le_def alive_def)
qed

lemma pending_sweep:
  assumes ok: "state_ok sha st" and p: "pending_ok st"
  shows "pending_ok (fst (reconcile_abandoned_mobile_uploads cfg old now st))"
  using sweep_calls [OF ok, of cfg old now]
  by (intro pending_calls [OF ok upload_sweep_moves [OF ok] p]) (simp_all add: alive_le_def)

lemma pending_revoke:
  assumes ok: "state_ok sha st" and p: "pending_ok st"
  shows "pending_ok (fst (revoke_registration host reason now st))"
proof -
  have u: "same_calls s (fst (revoke_registration_uploads host reason now s)) \<and>
      alive_le s (fst (revoke_registration_uploads host reason now s))" for s
    using fail_uploads_calls [where st = s]
    by (simp add: revoke_registration_uploads_def Let_def alive_le_def alive_def)
  have "same_calls st (fst (revoke_mobile_registration host now st)) \<and>
      ms_uploads (fst (revoke_mobile_registration host now st)) = ms_uploads st"
    by (simp add: revoke_mobile_registration_def split: option.split)
  then have "same_calls st (fst (revoke_registration host reason now st)) \<and>
      alive_le st (fst (revoke_registration host reason now st))"
    using u [of "fst (revoke_mobile_registration host now st)"]
    by (auto simp: revoke_registration_def alive_le_def alive_def split: prod.split option.split)
  then show ?thesis
    by (intro pending_calls [OF ok revoke_registration_moves [OF ok] p]) (simp_all add: alive_le_def)
qed

lemma pending_tables:
  "pending_ok st \<Longrightarrow> ms_uploads st' = ms_uploads st \<Longrightarrow> same_calls st st' \<Longrightarrow> pending_ok st'"
  by (simp add: pending_ok_def known_def alive_def)

lemma pending_restart: "pending_ok (restart st)"
  by (simp add: pending_ok_def restart_def)

lemma request_pending:
  assumes ok: "state_ok sha st" and p: "pending_ok st"
  shows "pending_ok (fst (handle_mobile cfg sha req now st))"
proof (cases req)
  case (Mq_Create_Destination reg label slug folder new_id)
  show ?thesis unfolding Mq_Create_Destination
    by (rule pending_tables [OF p]) (auto simp: create_mobile_upload_destination_def Let_def split: option.split)
next
  case (Mq_Update_Folder reg i folder)
  show ?thesis unfolding Mq_Update_Folder
    by (rule pending_tables [OF p]) (auto simp: update_mobile_upload_destination_folder_def split: option.split)
next
  case (Mq_Revoke_Destination reg i)
  show ?thesis unfolding Mq_Revoke_Destination
    by (rule pending_tables [OF p]) (auto simp: revoke_mobile_upload_destination_def split: option.split)
next
  case (Mq_Tables regs folders)
  show ?thesis unfolding Mq_Tables by (rule pending_tables [OF p]) simp_all
qed (simp_all add: pending_create [OF assms] pending_chunk [OF assms] pending_finalize [OF assms]
      pending_resume [OF assms] pending_cancel [OF assms] pending_sweep [OF assms] pending_revoke [OF assms]
      step_reply_def pending_restart)

section \<open>Runs\<close>

definition mobile_ok :: "(string \<Rightarrow> string) \<Rightarrow> mobile_state \<Rightarrow> bool" where
  "mobile_ok sha st \<longleftrightarrow> state_ok sha st \<and> pending_ok st"

interpretation uploads: growing "mobile_step cfg sha" "mobile_ok sha" "\<lambda>st st'. ledger_le (ledger st) (ledger st')"
  for cfg sha
  by unfold_locales
    (auto simp: mobile_ok_def mobile_step_def request_pending ledger_le_trans
      dest: ledger_le_trans intro: ledger_moves_ok ledger_moves_le mobile_request_moves)

lemma mobile_start_ok: "mobile_start st \<Longrightarrow> mobile_ok sha st"
  by (simp add: mobile_start_def mobile_ok_def ledger_def ledger_ok_def log_ids_def row_ids_def pending_ok_def)

lemma run_ok: "mobile_start st \<Longrightarrow> mobile_ok sha (mobile_run cfg sha rqs st)"
  unfolding mobile_run_def by (intro uploads.runs mobile_start_ok)

lemma run_le: "mobile_ok sha st \<Longrightarrow> ledger_le (ledger st) (ledger (mobile_run cfg sha rqs st))"
  unfolding mobile_run_def by (rule uploads.grows)

end
