(* ===== verification/Mobile_Safety.thy ===== *)
theory Mobile_Safety
  imports Mobile_Ledger
begin

text \<open>
  What holds of the uploads of a phone in every run: the staging files stay within the
  declared sizes, nothing is published without the grants, the checksum and the size, and
  what was published stays. The facts about rows, history and landing tree come from
  \<^theory_text>\<open>Mobile_Ledger\<close>; this theory adds the staging directory and the requests' guards.
\<close>

section \<open>Staging\<close>

definition row_staged_ok :: "mobile_upload_row \<Rightarrow> string option \<Rightarrow> bool" where
  "row_staged_ok u so \<longleftrightarrow>
     0 \<le> up_bytes_received u \<and>
     (\<forall>c. so = Some c \<longrightarrow>
        (\<not> upload_settled (up_status u) \<longrightarrow> up_bytes_received u \<le> int (length c)) \<and>
        (\<forall>n. up_size_bytes u = Some n \<longrightarrow> 0 < n \<and> int (length c) \<le> n)) \<and>
     (\<forall>n. up_size_bytes u = Some n \<longrightarrow>
        (up_status u \<in> {Up_Verifying, Up_Publishing} \<longrightarrow> n \<le> up_bytes_received u) \<and>
        (up_status u \<in> {Up_Publishing, Up_Finalized} \<longrightarrow> 0 < n))"

definition pending_sizes :: "mobile_state \<Rightarrow> bool" where
  "pending_sizes st \<longleftrightarrow>
     (\<forall>(r, d)\<in>set (ms_pending st). 0 \<le> up_bytes_received r \<and> (\<forall>n. up_size_bytes r = Some n \<longrightarrow> 0 < n))"

definition staging_ok :: "mobile_state \<Rightarrow> bool" where
  "staging_ok st \<longleftrightarrow>
     (\<forall>u\<in>set (ms_uploads st). row_staged_ok u (staged st (up_id u))) \<and>
     (\<forall>i. staged st i \<noteq> None \<longrightarrow> i \<in> row_ids (ms_uploads st)) \<and> pending_sizes st"

lemma map_of_filter_key: "map_of (filter (\<lambda>(k, _). P k) xs) j = (if P j then map_of xs j else None)"
  by (induction xs) auto

lemma staged_simps [simp]:
  "staged (set_staged i c st) j = (if j = i then Some c else staged st j)"
  "staged (drop_staged i st) j = (if j = i then None else staged st j)"
  "staged (record_staged_bytes n st) j = staged st j"
  "staged (update_upload i f st) j = staged st j"
  "staged (st\<lparr> ms_usage := u \<rparr>) j = staged st j" "staged (st\<lparr> ms_landing := l \<rparr>) j = staged st j"
  "staged (st\<lparr> ms_log := lg \<rparr>) j = staged st j" "staged (st\<lparr> ms_destinations := ds \<rparr>) j = staged st j"
  "staged (st\<lparr> ms_uploads := us \<rparr>) j = staged st j" "staged (st\<lparr> ms_registrations := rs \<rparr>) j = staged st j"
  "staged (st\<lparr> ms_locks := ls, ms_pending := ps \<rparr>) j = staged st j"
  using map_of_filter_key [of "\<lambda>k. k \<noteq> i" "ms_staging st" j]
  by (simp_all add: staged_def set_staged_def drop_staged_def record_staged_bytes_def update_upload_def)

lemma staged_remove [simp]: "staged (remove_staging i st) j = (if j = i then None else staged st j)"
proof (cases "staged st i")
  case None
  then show ?thesis by (simp add: remove_staging_def)
next
  case (Some c)
  have "staged ((drop_staged i st)\<lparr> ms_usage := u \<rparr>) j = (if j = i then None else staged st j)" for u
    by simp
  then show ?thesis using Some by (simp add: remove_staging_def Let_def)
qed

lemma row_staged_drop: "row_staged_ok u so \<Longrightarrow> row_staged_ok u None"
  by (simp add: row_staged_ok_def)

text \<open>The state a handler leaves behind, as far as staging is concerned.\<close>

lemma staging_okI:
  assumes "staging_ok st" "row_ids (ms_uploads st) \<subseteq> row_ids (ms_uploads st')" "ms_pending st' = ms_pending st"
    and "\<And>i. staged st' i \<in> {None, staged st i}"
    and "\<And>u. u \<in> set (ms_uploads st') \<Longrightarrow> row_staged_ok u (staged st' (up_id u))"
  shows "staging_ok st'"
  unfolding staging_ok_def
proof (intro conjI ballI allI impI)
  fix u assume "u \<in> set (ms_uploads st')"
  then show "row_staged_ok u (staged st' (up_id u))" by (rule assms(5))
next
  fix i assume "staged st' i \<noteq> None"
  then have "staged st i \<noteq> None" using assms(4) [of i] by auto
  then show "i \<in> row_ids (ms_uploads st')" using assms(1,2) by (auto simp: staging_ok_def)
next
  show "pending_sizes st'" using assms(1,3) by (simp add: staging_ok_def pending_sizes_def)
qed

lemma staging_cong:
  "ms_uploads st = ms_uploads st' \<Longrightarrow> ms_pending st = ms_pending st' \<Longrightarrow> (\<And>i. staged st i = staged st' i) \<Longrightarrow>
   staging_ok st = staging_ok st'"
  by (simp add: staging_ok_def pending_sizes_def)

lemma staging_log: "staging_ok (st\<lparr> ms_log := l \<rparr>) = staging_ok st"
  by (rule staging_cong) simp_all

lemma staging_rowD: "staging_ok st \<Longrightarrow> u \<in> set (ms_uploads st) \<Longrightarrow> row_staged_ok u (staged st (up_id u))"
  by (simp add: staging_ok_def)

lemma staging_remove: "staging_ok st \<Longrightarrow> staging_ok (remove_staging i st)"
  by (rule staging_okI) (auto dest: staging_rowD row_staged_drop)

lemma staging_record_bytes: "staging_ok (record_staged_bytes n st) = staging_ok st"
  by (simp add: staging_ok_def pending_sizes_def)

lemma staging_update:
  assumes "staging_ok st" "\<forall>u. ident (f u) = ident u"
    and "\<And>u. u \<in> set (ms_uploads st) \<Longrightarrow> up_id u = i \<Longrightarrow> row_staged_ok (f u) (staged st i)"
  shows "staging_ok (update_upload i f st)"
proof (rule staging_okI [OF assms(1)])
  fix v assume "v \<in> set (ms_uploads (update_upload i f st))"
  then obtain u where u: "u \<in> set (ms_uploads st)" "v = (if up_id u = i then f u else u)"
    by (auto simp: set_update_row)
  then show "row_staged_ok v (staged (update_upload i f st) (up_id v))"
    using assms(2,3) staging_rowD [OF assms(1) u(1)] ident_id [of f u] by (auto split: if_splits)
qed (use assms(2) in auto)

lemma staging_outcome:
  assumes "record_outcome row f ok now st = Some st'" "staging_ok st" "\<forall>u. ident (f u) = ident u"
    and "\<And>u. u \<in> set (ms_uploads st) \<Longrightarrow> up_id u = up_id row \<Longrightarrow> row_staged_ok (f u) (staged st (up_id row))"
  shows "staging_ok st'"
proof -
  have "staging_ok (update_upload (up_id row) f st)" using assms(2-4) by (intro staging_update) auto
  then show ?thesis using assms(1)
    by (auto simp: record_outcome_def staging_log split: if_splits)
qed

lemma row_staged_failed: "row_staged_ok u so \<Longrightarrow> row_staged_ok (failed_row e now u) so"
  by (simp add: row_staged_ok_def failed_row_def upload_settled_def)

lemma staging_fail:
  assumes "staging_ok st"
  shows "staging_ok (fail_upload row e now st)"
proof -
  have "staging_ok st'" if "record_outcome row (failed_row e now) False now st = Some st'" for st'
    using staging_outcome [OF that assms] staging_rowD [OF assms] row_staged_failed by fastforce
  then show ?thesis
    using assms by (auto simp: fail_upload_def intro: staging_remove split: option.split)
qed

lemma staging_fail_uploads: "staging_ok st \<Longrightarrow> staging_ok (fail_uploads rows e now st)"
  by (induction rows arbitrary: st) (auto simp: fail_uploads_def staging_fail)

abbreviation rows_with :: "mobile_state \<Rightarrow> string \<Rightarrow> mobile_upload_row set" where
  "rows_with st i \<equiv> {u \<in> set (ms_uploads st). up_id u = i}"

lemma row_staged_finalized:
  "row_staged_ok u so \<Longrightarrow> 0 \<le> n \<Longrightarrow> \<forall>m. up_size_bytes u = Some m \<longrightarrow> 0 < m \<Longrightarrow>
   row_staged_ok (finalized_row d n now u) so"
  by (simp add: row_staged_ok_def finalized_row_def upload_settled_def)

lemma staging_finalized:
  assumes "record_outcome row (finalized_row d n now) True now st = Some st'" "staging_ok st" "0 \<le> n"
    and "\<forall>u\<in>rows_with st (up_id row). \<forall>m. up_size_bytes u = Some m \<longrightarrow> 0 < m"
  shows "staging_ok st'"
  using assms(2,4) staging_rowD [OF assms(2)] assms(3)
  by (intro staging_outcome [OF assms(1)] row_staged_finalized) fastforce+

lemma staging_complete:
  assumes "staging_ok st" "\<forall>u\<in>rows_with st (up_id row). up_status u = Up_Publishing"
  shows "staging_ok (fst (complete_publication sha io row now st))"
proof -
  have "\<forall>u\<in>rows_with st (up_id row). \<forall>m. up_size_bytes u = Some m \<longrightarrow> 0 < m"
    using assms staging_rowD [OF assms(1)] by (fastforce simp: row_staged_ok_def)
  then show ?thesis
    using assms(1) staging_finalized
    by (auto simp: complete_publication_def split: option.split)
qed

lemma staging_landing: "staging_ok (st\<lparr> ms_landing := l \<rparr>) = staging_ok st"
  by (simp add: staging_ok_def pending_sizes_def)

lemma staging_publish_locally:
  assumes "staging_ok st" "\<forall>u\<in>rows_with st (up_id row). up_status u = Up_Publishing"
  shows "staging_ok (fst (publish_locally sha io row content now st))"
proof -
  define st1 where "st1 = record_staged_bytes (- up_bytes_received row)
      ((drop_staged (up_id row) (st\<lparr> ms_usage := Some (current_staged_usage st) \<rparr>))
         \<lparr> ms_landing := (ms_landing st)(final_path (up_final_rel_path row) \<mapsto> content) \<rparr>)"
  have u1: "ms_uploads st1 = ms_uploads st" and p1: "ms_pending st1 = ms_pending st"
    and s1: "staged st1 j = (if j = up_id row then None else staged st j)" for j
    by (simp_all add: st1_def)
  have "staging_ok st1"
    by (rule staging_okI [OF assms(1)]) (auto simp: u1 p1 s1 dest: staging_rowD [OF assms(1)] row_staged_drop)
  then have "staging_ok (fst (complete_publication sha io row now st1))"
    using assms(2) by (intro staging_complete) (simp_all add: u1)
  then show ?thesis
    unfolding publish_locally_def Let_def st1_def [symmetric]
    using staging_fail [OF assms(1)] staging_fail [OF staging_remove [OF assms(1)]] by auto
qed

lemma staging_verify:
  assumes s: "staging_ok st" and st: "\<forall>u\<in>rows_with st (up_id row). up_status u \<in> {Up_Verifying, Up_Publishing}"
    and r: "0 \<le> up_bytes_received row" "up_id row \<in> row_ids (ms_uploads st)"
    and k: "\<forall>u\<in>rows_with st (up_id row). up_size_bytes u = up_size_bytes row"
  shows "staging_ok (fst (verify_and_publish sha io row now st))"
proof (cases "staged st (up_id row)")
  case None
  then show ?thesis using s by (simp add: verify_and_publish_def)
next
  case (Some c)
  define U where "U d = update_upload (up_id row) (\<lambda>u. u\<lparr> up_status := Up_Publishing,
                         up_sha256 := d, up_updated_at := now \<rparr>) st" for d
  have ru: "row_staged_ok u (Some c) \<and> up_status u \<in> {Up_Verifying, Up_Publishing}" if "u \<in> rows_with st (up_id row)" for u
    using that staging_rowD [OF s, of u] st Some by auto
  have "row_staged_ok (u\<lparr> up_status := Up_Publishing, up_sha256 := d, up_updated_at := now \<rparr>) (Some c)"
    if "u \<in> rows_with st (up_id row)" for u d
    using ru [OF that] by (auto simp: row_staged_ok_def upload_settled_def)
  then have U: "staging_ok (U d)" for d
    unfolding U_def using s Some by (intro staging_update) auto
  have p: "\<forall>u\<in>rows_with (U d) (up_id row). up_status u = Up_Publishing" for d
    by (auto simp: U_def set_update_row)
  obtain u where "u \<in> rows_with st (up_id row)" using r(2) by (auto simp: row_ids_def)
  then have "\<forall>n. up_size_bytes row = Some n \<longrightarrow> 0 < n" using ru [of u] k by (auto simp: row_staged_ok_def)
  then have a: "staging_ok (U d\<lparr> ms_locks := l, ms_pending := (row, e) # ms_pending (U d) \<rparr>)" for d l e
    using U [of d] r(1) by (simp add: staging_ok_def pending_sizes_def)
  note publish = staging_publish_locally [OF U p]
  show ?thesis
    unfolding verify_and_publish_def Let_def U_def [symmetric] Some option.case
    using s staging_fail [OF s] staging_fail [OF U] a publish
    by (auto simp: case_prod_beta split: option.split)
qed

lemma rows_with_find:
  "state_ok sha st \<Longrightarrow> find_upload st i = Some row \<Longrightarrow> rows_with st i = {row}"
  using find_upload_SomeD [of st i row] unique_row [of sha st] by auto

lemma find_upload_row_ids: "find_upload st i = Some row \<Longrightarrow> i \<in> row_ids (ms_uploads st)"
  by (auto simp: row_ids_def dest!: find_upload_SomeD)

lemma staging_finalize_active:
  assumes s: "staging_ok st" and ok: "state_ok sha st" and f: "find_upload st i = Some row"
    and ns: "\<not> upload_settled (up_status row)"
  shows "staging_ok (fst (finalize_active sha io row now st))"
proof -
  have i: "up_id row = i" and rows: "rows_with st (up_id row) = {row}"
    using find_upload_SomeD [OF f] rows_with_find [OF ok f] by auto
  have r: "row_staged_ok row (staged st (up_id row))"
    using staging_rowD [OF s, of row] find_upload_SomeD [OF f] by simp
  have r0: "0 \<le> up_bytes_received row" using r by (simp add: row_staged_ok_def)
  have ids: "up_id row \<in> row_ids (ms_uploads st)" using find_upload_row_ids [OF f] i by simp
  define st1 where "st1 = update_upload (up_id row) (\<lambda>u. u\<lparr> up_status := Up_Verifying, up_updated_at := now \<rparr>) st"
  have go: "staging_ok (fst (verify_and_publish sha io row now st))"
    if "up_status row \<in> {Up_Verifying, Up_Publishing}"
    using that rows by (intro staging_verify [OF s _ r0 ids]) auto
  have complete: "staging_ok (fst (complete_publication sha io row now st))" if "up_status row = Up_Publishing"
    using that rows by (intro staging_complete [OF s]) auto
  have go1: "staging_ok (fst (verify_and_publish sha io row now st1))"
    if "\<not> (case up_size_bytes row of None \<Rightarrow> False | Some n \<Rightarrow> up_bytes_received row < n)"
  proof (rule staging_verify)
    show "staging_ok st1"
      unfolding st1_def
    proof (rule staging_update [OF s])
      fix u assume "u \<in> set (ms_uploads st)" "up_id u = up_id row"
      then have "u = row" using rows by blast
      then show "row_staged_ok (u\<lparr> up_status := Up_Verifying, up_updated_at := now \<rparr>) (staged st (up_id row))"
        using r that ns by (auto simp: row_staged_ok_def upload_settled_def split: option.splits)
    qed simp
    show "\<forall>u\<in>rows_with st1 (up_id row). up_size_bytes u = up_size_bytes row"
      using rows by (auto simp: st1_def set_update_row)
  qed (use ids r0 in \<open>auto simp: st1_def set_update_row\<close>)
  show ?thesis
    unfolding finalize_active_def st1_def [symmetric]
    using s staging_fail [OF s] complete go go1
    by (auto simp: case_prod_beta split: option.splits)
qed

lemma staging_append_log: "staging_ok (append_upload_operation_log row ok now st) = staging_ok st"
  by (simp add: append_upload_operation_log_def staging_log)

lemma staging_finalize:
  assumes "staging_ok st" "state_ok sha st"
  shows "staging_ok (fst (finalize_mobile_upload sha io reg i now st))"
  unfolding finalize_mobile_upload_def
  using assms staging_finalize_active [OF assms]
  by (auto simp: staging_append_log upload_settled_def split: option.split)

lemma staging_resume:
  assumes s: "staging_ok st" and ok: "state_ok sha st" and p: "pending_ok st"
  shows "staging_ok (fst (finalize_resume copied i now st))"
proof (cases "find (\<lambda>(r, _). up_id r = i) (ms_pending st)")
  case None
  then show ?thesis using s by (simp add: finalize_resume_def)
next
  case (Some rd)
  obtain row digest where rd: "rd = (row, digest)" by (cases rd)
  have mem: "(row, digest) \<in> set (ms_pending st)" and i: "up_id row = i"
    using find_SomeD [OF Some] rd by auto
  have k: "known st row" and sz: "0 \<le> up_bytes_received row" "\<forall>m. up_size_bytes row = Some m \<longrightarrow> 0 < m"
    using p s mem by (auto simp: pending_ok_def staging_ok_def pending_sizes_def)
  define st0 where "st0 = st\<lparr> ms_locks := removeAll i (ms_locks st),
                         ms_pending := filter (\<lambda>(r, _). up_id r \<noteq> i) (ms_pending st) \<rparr>"
  have s0: "staging_ok st0" using s by (auto simp: staging_ok_def pending_sizes_def st0_def)
  have "\<forall>u\<in>rows_with st0 (up_id row). \<forall>m. up_size_bytes u = Some m \<longrightarrow> 0 < m"
    using sz(2) ident_eqD [OF known_ident [OF ok k]] by (auto simp: st0_def)
  note fin = staging_finalized [OF _ s0 sz(1) this]
  show ?thesis
    unfolding finalize_resume_def Some rd option.case prod.case st0_def [symmetric] Let_def
    using s0 fin by (auto intro!: staging_remove split: option.split)
qed

lemma length_write_at: "length (write_at c p b) = max (length c) (p + length b)"
  by (simp add: write_at_def min_def max_def)

lemma staging_set:
  assumes s: "staging_ok st" and i: "i \<in> row_ids (ms_uploads st)"
    and r: "\<forall>u\<in>rows_with st i. row_staged_ok u (Some c)"
  shows "staging_ok (set_staged i c st)"
proof -
  have "row_staged_ok u (staged (set_staged i c st) (up_id u))" if "u \<in> set (ms_uploads st)" for u
    using that r staging_rowD [OF s] by simp
  then show ?thesis using s i by (simp add: staging_ok_def pending_sizes_def)
qed

lemma staging_chunk:
  assumes s: "staging_ok st" and ok: "state_ok sha st"
  shows "staging_ok (fst (append_mobile_upload_chunk cfg reg i offset bytes disk now st))"
proof (cases "find_upload st i")
  case None
  then show ?thesis using s by (simp add: append_mobile_upload_chunk_def)
next
  case (Some row)
  define next_bytes where "next_bytes = up_bytes_received row + int (length bytes)"
  define c where "c = (\<lambda>n. write_at (or_default (staged st i) []) (nat (up_bytes_received row)) (take n bytes))"
  define st1 where "st1 = (\<lambda>n. set_staged i (c n) (st\<lparr> ms_usage := Some (current_staged_usage st) \<rparr>))"
  have rows: "rows_with st i = {row}" by (rule rows_with_find [OF ok Some])
  then have "row \<in> rows_with st i" by blast
  then have mem: "row \<in> set (ms_uploads st)" "up_id row = i" by simp_all
  have r: "row_staged_ok row (staged st i)" using staging_rowD [OF s mem(1)] mem(2) by simp
  have len: "length (c n) = max (length (or_default (staged st i) [])) (nat (up_bytes_received row) + min (length bytes) n)" for n
    by (simp add: c_def length_write_at)
  have room: "\<forall>n. up_size_bytes row = Some n \<longrightarrow> 0 < n \<and> up_bytes_received row + int (length bytes) \<le> n"
    if g: "bytes \<noteq> []" "\<not> (case up_size_bytes row of None \<Rightarrow> False | Some n \<Rightarrow> next_bytes > n)"
  proof (intro allI impI)
    fix n assume n: "up_size_bytes row = Some n"
    have "1 \<le> length bytes" using g(1) by (cases bytes) simp_all
    then have "1 \<le> int (length bytes)" by linarith
    moreover have "0 \<le> up_bytes_received row" "up_bytes_received row + int (length bytes) \<le> n"
      using r g(2) n by (simp_all add: row_staged_ok_def next_bytes_def)
    ultimately show "0 < n \<and> up_bytes_received row + int (length bytes) \<le> n"
      by linarith
  qed
  have written: "staging_ok (st1 n)"
    if g: "bytes \<noteq> []" "\<not> (case up_size_bytes row of None \<Rightarrow> False | Some n \<Rightarrow> next_bytes > n)" for n
  proof -
    have "row_staged_ok row (Some (c n))"
      using r room [OF g] by (cases "staged st i") (auto simp: row_staged_ok_def len next_bytes_def split: option.splits)
    then have "staging_ok (set_staged i (c n) (st\<lparr> ms_usage := Some (current_staged_usage st) \<rparr>))"
      using s rows find_upload_row_ids [OF Some]
      by (intro staging_set) (auto intro: iffD1 [OF staging_cong, rotated -1])
    then show ?thesis by (simp add: st1_def)
  qed
  have accepted: "staging_ok (update_upload i (\<lambda>u. u\<lparr> up_bytes_received := next_bytes,
        up_status := Up_Uploading, up_updated_at := now \<rparr>) ((st1 n)\<lparr> ms_usage := x \<rparr>))"
    if g: "bytes \<noteq> []" "\<not> (case up_size_bytes row of None \<Rightarrow> False | Some n \<Rightarrow> next_bytes > n)" "\<not> n < length bytes" for n x
  proof (rule staging_update)
    show "staging_ok ((st1 n)\<lparr> ms_usage := x \<rparr>)"
      using written [OF g(1,2)] by (rule iffD1 [OF staging_cong, rotated -1]) simp_all
    fix u assume "u \<in> set (ms_uploads ((st1 n)\<lparr> ms_usage := x \<rparr>))" "up_id u = i"
    then have u: "u = row" using rows by (auto simp: st1_def)
    then show "row_staged_ok (u\<lparr> up_bytes_received := next_bytes, up_status := Up_Uploading,
        up_updated_at := now \<rparr>) (staged ((st1 n)\<lparr> ms_usage := x \<rparr>) i)"
      unfolding u using r g(3) room [OF g(1,2)] by (cases "staged st i")
        (auto simp: row_staged_ok_def len next_bytes_def st1_def upload_settled_def split: option.splits)
  qed simp
  show ?thesis
    unfolding append_mobile_upload_chunk_def Some option.case Let_def next_bytes_def [symmetric]
      c_def [THEN fun_cong, symmetric] st1_def [THEN fun_cong, symmetric]
    using s written accepted by (auto split: disk_write.split)
qed

lemma staging_create:
  assumes s: "staging_ok st"
  shows "staging_ok (fst (create_mobile_upload cfg reg dest name declared digest key new_id now st))"
proof -
  have new: "staging_ok (st\<lparr> ms_uploads := ms_uploads st @ [r] \<rparr>)"
    if "find_upload st i = None" "up_id r = i" "up_status r = Up_Created" "up_bytes_received r = 0" for i r
  proof -
    have "i \<notin> row_ids (ms_uploads st)"
      using that(1) by (force simp: find_upload_def find_None_iff row_ids_def)
    then have "staged st i = None" using s by (auto simp: staging_ok_def)
    then have "row_staged_ok r (staged st (up_id r))" using that by (simp add: row_staged_ok_def)
    then show ?thesis using s by (auto simp: staging_ok_def pending_sizes_def row_ids_def)
  qed
  show ?thesis
    using s by (auto simp: create_mobile_upload_def Let_def split: option.splits intro!: new)
qed

lemma staging_cancel:
  assumes s: "staging_ok st"
  shows "staging_ok (fst (cancel_mobile_upload reg i now st))"
proof -
  have "staging_ok (remove_staging i (update_upload i (\<lambda>u. u\<lparr> up_status := Up_Cancelled, up_error := None,
      up_updated_at := now \<rparr>) st))"
  proof (rule staging_okI [OF s])
    fix v assume "v \<in> set (ms_uploads (remove_staging i (update_upload i (\<lambda>u. u\<lparr> up_status := Up_Cancelled,
      up_error := None, up_updated_at := now \<rparr>) st)))"
    then show "row_staged_ok v (staged (remove_staging i (update_upload i (\<lambda>u. u\<lparr> up_status := Up_Cancelled,
      up_error := None, up_updated_at := now \<rparr>) st)) (up_id v))"
      using staging_rowD [OF s] by (auto simp: set_update_row row_staged_ok_def)
  qed simp_all
  then show ?thesis using s by (auto simp: cancel_mobile_upload_def Let_def split: option.split)
qed

lemma staging_sweep:
  assumes s: "staging_ok st" and ok: "state_ok sha st"
  shows "staging_ok (fst (reconcile_abandoned_mobile_uploads cfg old now st))"
proof -
  have h: "staging_ok (reconcile_upload_history now t) = staging_ok t" for t
  proof -
    have "staging_ok (fold (\<lambda>r. append_upload_operation_log r True now) rows t) = staging_ok t" for rows
      by (induction rows arbitrary: t) (auto simp: staging_append_log)
    then show ?thesis by (simp add: reconcile_upload_history_def)
  qed
  have f: "staging_ok (t\<lparr> ms_staging := filter (\<lambda>(i, _). P i) (ms_staging t) \<rparr>)" if "staging_ok t" for t P
  proof (rule staging_okI [OF that])
    have st: "staged (t\<lparr> ms_staging := filter (\<lambda>(i, _). P i) (ms_staging t) \<rparr>) j = (if P j then staged t j else None)" for j
      by (simp add: staged_def map_of_filter_key)
    show "staged (t\<lparr> ms_staging := filter (\<lambda>(i, _). P i) (ms_staging t) \<rparr>) j \<in> {None, staged t j}" for j
      by (simp add: st)
    show "row_staged_ok u (staged (t\<lparr> ms_staging := filter (\<lambda>(i, _). P i) (ms_staging t) \<rparr>) (up_id u))"
      if "u \<in> set (ms_uploads (t\<lparr> ms_staging := filter (\<lambda>(i, _). P i) (ms_staging t) \<rparr>))" for u
      using that staging_rowD [OF \<open>staging_ok t\<close>, of u] row_staged_drop by (auto simp: st)
  qed simp_all
  have u: "staging_ok (seed_staging_usage t) = staging_ok t" for t
    by (rule staging_cong) (simp_all add: seed_staging_usage_def)
  show ?thesis
    using f [OF staging_fail_uploads [OF s]] by (simp add: reconcile_abandoned_mobile_uploads_def Let_def h u)
qed

lemma staging_revoke:
  assumes s: "staging_ok st"
  shows "staging_ok (fst (revoke_registration host reason now st))"
proof -
  have d: "staging_ok (t\<lparr> ms_destinations := ds \<rparr>) = staging_ok t" for t ds by (rule staging_cong) simp_all
  have r: "staging_ok (t\<lparr> ms_registrations := rs \<rparr>) = staging_ok t" for t rs by (rule staging_cong) simp_all
  have "staging_ok (fst (revoke_mobile_registration host now st))"
    using s by (auto simp: revoke_mobile_registration_def r split: option.split)
  then show ?thesis
    using s staging_fail_uploads
    by (auto simp: revoke_registration_def revoke_registration_uploads_def Let_def d split: prod.split option.split)
qed

lemma request_staging:
  assumes s: "staging_ok st" and ok: "state_ok sha st" and p: "pending_ok st"
  shows "staging_ok (fst (handle_mobile cfg sha req now st))"
proof -
  have t: "staging_ok t" if "ms_uploads t = ms_uploads st" "ms_pending t \<in> {[], ms_pending st}" "ms_staging t = ms_staging st" for t
    using s that by (simp add: staging_ok_def pending_sizes_def staged_def) (elim conjE disjE, simp_all)
  show ?thesis
  proof (cases req)
    case (Mq_Create_Destination reg label slug folder new_id)
    show ?thesis unfolding Mq_Create_Destination
      by (rule t) (auto simp: create_mobile_upload_destination_def Let_def split: option.split)
  next
    case (Mq_Update_Folder reg i folder)
    show ?thesis unfolding Mq_Update_Folder
      by (rule t) (auto simp: update_mobile_upload_destination_folder_def split: option.split)
  next
    case (Mq_Revoke_Destination reg i)
    show ?thesis unfolding Mq_Revoke_Destination
      by (rule t) (auto simp: revoke_mobile_upload_destination_def split: option.split)
  qed (simp_all add: s staging_create staging_chunk [OF s ok] staging_finalize [OF s ok] staging_resume [OF s ok p]
      staging_cancel staging_sweep [OF s ok] staging_revoke step_reply_def t restart_def)
qed

definition mobile_safe :: "(string \<Rightarrow> string) \<Rightarrow> mobile_state \<Rightarrow> bool" where
  "mobile_safe sha st \<longleftrightarrow> mobile_ok sha st \<and> staging_ok st"

interpretation safe: preserved "mobile_step cfg sha" "mobile_safe sha" for cfg sha
  by unfold_locales
    (auto simp: mobile_safe_def mobile_ok_def mobile_step_def request_staging request_pending
      intro: ledger_moves_ok mobile_request_moves)

lemma mobile_start_safe: "mobile_start st \<Longrightarrow> mobile_safe sha st"
  using mobile_start_ok [of st sha]
  by (simp add: mobile_safe_def mobile_start_def staging_ok_def pending_sizes_def staged_def)

lemma run_safe: "mobile_start st \<Longrightarrow> mobile_safe sha (mobile_run cfg sha rqs st)"
  unfolding mobile_run_def by (intro safe.runs mobile_start_safe)

section \<open>Publication\<close>

text \<open>Only finalizing changes the landing tree, and what it meets when it does.\<close>

definition grants_publication :: "mobile_state \<Rightarrow> mobile_upload_row \<Rightarrow> bool" where
  "grants_publication st row \<longleftrightarrow>
     (\<exists>r d. find_registration st (up_registration_id row) = Some r \<and> \<not> revoked (mr_revoked_at r) \<and>
        find_destination st (up_destination_id row) = Some d \<and>
        md_registration_id d = up_registration_id row \<and> \<not> revoked (md_revoked_at d))"

lemma landing_fail [simp]: "ms_landing (fail_upload row e now st) = ms_landing st"
  by (auto simp: fail_upload_def record_outcome_def split: option.split)

lemma landing_fail_uploads [simp]: "ms_landing (fail_uploads rows e now st) = ms_landing st"
proof (induction rows arbitrary: st)
  case (Cons r rows)
  then show ?case using Cons.IH [of "fail_upload r e now st"] by (simp add: fail_uploads_def)
qed (simp add: fail_uploads_def)

lemma landing_complete [simp]: "ms_landing (fst (complete_publication sha io row now st)) = ms_landing st"
  by (auto simp: complete_publication_def record_outcome_def split: option.split)

lemma landing_append_log [simp]: "ms_landing (append_upload_operation_log row ok now st) = ms_landing st"
  by (simp add: append_upload_operation_log_def)

lemma landing_reconcile_history [simp]: "ms_landing (reconcile_upload_history now st) = ms_landing st"
proof -
  have "ms_landing (fold (\<lambda>r. append_upload_operation_log r True now) rows st) = ms_landing st" for rows
    by (induction rows arbitrary: st) simp_all
  then show ?thesis by (simp add: reconcile_upload_history_def)
qed

lemma landing_publish_locally:
  "ms_landing (fst (publish_locally sha io row c now st)) \<in>
     {ms_landing st, (ms_landing st)(final_path (up_final_rel_path row) \<mapsto> c)}"
  by (auto simp: publish_locally_def Let_def)

lemma landing_verify:
  assumes "ms_landing (fst (verify_and_publish sha io row now st)) \<noteq> ms_landing st"
  shows "\<exists>c. staged st (up_id row) = Some c \<and> up_target_folder_id row = None \<and>
    (\<forall>d. up_sha256 row = Some d \<longrightarrow> to_lower d = sha c) \<and>
    ms_landing (fst (verify_and_publish sha io row now st)) =
      (ms_landing st)(final_path (up_final_rel_path row) \<mapsto> c)"
proof (cases "staged st (up_id row)")
  case None
  then show ?thesis using assms by (simp add: verify_and_publish_def)
next
  case (Some c)
  define st2 where "st2 = update_upload (up_id row) (\<lambda>u. u\<lparr> up_status := Up_Publishing,
                         up_sha256 := Some (sha c), up_updated_at := now \<rparr>) st"
  have l: "ms_landing st2 = ms_landing st" by (simp add: st2_def)
  show ?thesis
    using assms landing_publish_locally [of sha io row c now st2]
    unfolding verify_and_publish_def Some option.case Let_def st2_def [symmetric]
    by (auto simp: case_prod_beta l split: option.splits if_splits)
qed

lemma landing_finalize_active:
  assumes "ms_landing (fst (finalize_active sha io row now st)) \<noteq> ms_landing st"
  shows "\<exists>c. staged st (up_id row) = Some c \<and> up_target_folder_id row = None \<and>
    (\<forall>d. up_sha256 row = Some d \<longrightarrow> to_lower d = sha c) \<and>
    (up_status row \<in> {Up_Verifying, Up_Publishing} \<or>
     (\<forall>n. up_size_bytes row = Some n \<longrightarrow> n \<le> up_bytes_received row)) \<and>
    ms_landing (fst (finalize_active sha io row now st)) =
      (ms_landing st)(final_path (up_final_rel_path row) \<mapsto> c)"
proof -
  define st1 where "st1 = update_upload (up_id row) (\<lambda>u. u\<lparr> up_status := Up_Verifying, up_updated_at := now \<rparr>) st"
  have l: "ms_landing st1 = ms_landing st" "staged st1 (up_id row) = staged st (up_id row)"
    by (simp_all add: st1_def)
  have eq: "fst (finalize_active sha io row now st) =
      (if up_status row \<in> {Up_Verifying, Up_Publishing} then fst (verify_and_publish sha io row now st)
       else fst (verify_and_publish sha io row now st1)) \<and>
      (up_status row \<in> {Up_Verifying, Up_Publishing} \<or>
       (\<forall>n. up_size_bytes row = Some n \<longrightarrow> n \<le> up_bytes_received row))"
    using assms unfolding finalize_active_def st1_def [symmetric]
    by (auto simp: case_prod_beta split: option.splits if_splits)
  show ?thesis
  proof (cases "up_status row \<in> {Up_Verifying, Up_Publishing}")
    case True
    then have "fst (finalize_active sha io row now st) = fst (verify_and_publish sha io row now st)" using eq by simp
    then show ?thesis using landing_verify [of sha io row now st] assms True by auto
  next
    case False
    then have "fst (finalize_active sha io row now st) = fst (verify_and_publish sha io row now st1)" using eq by simp
    then show ?thesis using landing_verify [of sha io row now st1] assms False eq l by auto
  qed
qed

lemma landing_finalize:
  assumes "ms_landing (fst (finalize_mobile_upload sha io reg i now st)) \<noteq> ms_landing st"
  shows "\<exists>row c. find_upload st i = Some row \<and> up_registration_id row = reg \<and> \<not> upload_settled (up_status row) \<and>
    up_status row \<noteq> Up_Cancelled \<and> grants_publication st row \<and> staged st i = Some c \<and> up_target_folder_id row = None \<and>
    (\<forall>d. up_sha256 row = Some d \<longrightarrow> to_lower d = sha c) \<and>
    (up_status row \<in> {Up_Verifying, Up_Publishing} \<or>
     (\<forall>n. up_size_bytes row = Some n \<longrightarrow> n \<le> up_bytes_received row)) \<and>
    ms_landing (fst (finalize_mobile_upload sha io reg i now st)) =
      (ms_landing st)(final_path (up_final_rel_path row) \<mapsto> c)"
proof (cases "find_upload st i")
  case None
  then show ?thesis using assms by (simp add: finalize_mobile_upload_def split: if_splits)
next
  case (Some row)
  have i: "up_id row = i" using find_upload_SomeD [OF Some] by simp
  have a: "up_registration_id row = reg \<and> \<not> upload_settled (up_status row) \<and> up_status row \<noteq> Up_Cancelled \<and> grants_publication st row \<and>
      fst (finalize_mobile_upload sha io reg i now st) = fst (finalize_active sha io row now st)"
    using assms Some unfolding finalize_mobile_upload_def
    by (cases "find_registration st (up_registration_id row)"; cases "find_destination st (up_destination_id row)")
      (auto simp: grants_publication_def upload_settled_def split: if_splits)
  then show ?thesis
    using assms landing_finalize_active [of sha io row now st] Some i by auto
qed

lemma landing_only_by_finalize:
  assumes "ms_landing (fst (handle_mobile cfg sha req now st)) \<noteq> ms_landing st"
  shows "\<exists>reg i io. req = Mq_Finalize reg i io"
proof (rule ccontr)
  assume n: "\<not> ?thesis"
  have revoke: "ms_landing (fst (revoke_registration host reason now st)) = ms_landing st" for host reason
    by (auto simp: revoke_registration_def revoke_mobile_registration_def revoke_registration_uploads_def Let_def
        split: option.split)
  have "ms_landing (fst (handle_mobile cfg sha req now st)) = ms_landing st"
    using n by (cases req)
      (auto simp: revoke create_mobile_upload_destination_def update_mobile_upload_destination_folder_def
        revoke_mobile_upload_destination_def create_mobile_upload_def append_mobile_upload_chunk_def
        finalize_resume_def record_outcome_def cancel_mobile_upload_def reconcile_abandoned_mobile_uploads_def
        seed_staging_usage_def restart_def Let_def split: option.split disk_write.split)
  then show False using assms by simp
qed

lemma ok_rows:
  assumes "mobile_safe sha st" "u \<in> set (ms_uploads st)"
  shows "upload_settled (up_status u) = (up_id u \<in> log_ids (ms_log st))" "published sha (ms_landing st) u"
    "\<And>l. l \<in> set (ms_log st) \<Longrightarrow> ul_upload_id l = up_id u \<Longrightarrow> ul_success l = (up_status u = Up_Finalized)"
  using assms by (auto simp: mobile_safe_def mobile_ok_def ledger_ok_def ledger_def)

lemma mobile_run_append: "mobile_run cfg sha (rqs @ later) st = mobile_run cfg sha later (mobile_run cfg sha rqs st)"
  by (simp add: mobile_run_def)

lemma later_le:
  "mobile_start st \<Longrightarrow> ledger_le (ledger (mobile_run cfg sha rqs st)) (ledger (mobile_run cfg sha (rqs @ later) st))"
  unfolding mobile_run_append by (intro run_le run_ok)

lemma published_size:
  assumes s: "mobile_safe sha st" and f: "find_upload st i = Some row" "\<not> upload_settled (up_status row)" "staged st i = Some c"
    and g: "up_status row \<in> {Up_Verifying, Up_Publishing} \<or> (\<forall>n. up_size_bytes row = Some n \<longrightarrow> n \<le> up_bytes_received row)"
    and n: "up_size_bytes row = Some n"
  shows "int (length c) = n"
proof -
  have "row_staged_ok row (Some c)"
    using s f(3) staging_rowD [of st row] find_upload_SomeD [OF f(1)] by (simp add: mobile_safe_def)
  then show ?thesis using f(2) g n by (auto simp: row_staged_ok_def)
qed

section \<open>A whole upload\<close>

text \<open>What a phone sends: the chunks of a file, each at the offset the last one left.\<close>

fun chunk_requests :: "string \<Rightarrow> string \<Rightarrow> int \<Rightarrow> string list \<Rightarrow> mobile_request list" where
  "chunk_requests reg i offset [] = []"
| "chunk_requests reg i offset (b # bs) =
     Mq_Chunk reg i offset b (Wrote (length b)) # chunk_requests reg i (offset + int (length b)) bs"

definition receiving :: "mobile_config \<Rightarrow> mobile_state \<Rightarrow> mobile_upload_row \<Rightarrow> string \<Rightarrow> nat \<Rightarrow> bool" where
  "receiving cfg st row content rest \<longleftrightarrow>
     find_upload st (up_id row) = Some row \<and> up_status row \<in> {Up_Created, Up_Uploading} \<and>
     up_bytes_received row = int (length content) \<and> or_default (staged st (up_id row)) [] = content \<and>
     up_id row \<notin> set (ms_locks st) \<and>
     (\<forall>n. up_size_bytes row = Some n \<longrightarrow> int (length content + rest) \<le> n) \<and>
     int (length content + rest) \<le> mc_max_upload_bytes cfg \<and>
     int (length content) \<le> current_staged_usage st \<and> current_staged_usage st + int rest \<le> mc_quota_bytes cfg"

lemma find_upload_update:
  "find_upload st i = Some row \<Longrightarrow> \<forall>u. ident (f u) = ident u \<Longrightarrow>
   find_upload (update_upload i f st) i = Some (f row)"
proof -
  assume a: "find_upload st i = Some row" and f: "\<forall>u. ident (f u) = ident u"
  have "find (\<lambda>u. up_id u = i) (update_row i f us) = map_option f (find (\<lambda>u. up_id u = i) us)" for us
    using f ident_id [of f] by (induction us) (auto simp: update_row_def)
  then show ?thesis using a by (simp add: find_upload_def)
qed

lemma find_upload_cong: "ms_uploads st = ms_uploads st' \<Longrightarrow> find_upload st = find_upload st'"
  by (simp add: find_upload_def fun_eq_iff)

lemma write_at_end: "write_at c (length c) b = c @ b"
  by (simp add: write_at_def)

text \<open>One chunk at the durable offset is accepted and appended.\<close>

lemma chunk_accepted:
  assumes r: "receiving cfg st row content (length b + rest)" and b: "b \<noteq> []" "int (length b) \<le> mc_chunk_bytes cfg"
  shows "\<exists>st' row'. append_mobile_upload_chunk cfg (up_registration_id row) (up_id row) (int (length content)) b
           (Wrote (length b)) now st = (st', Up_Ok row') \<and>
         receiving cfg st' row' (content @ b) rest \<and> ident row' = ident row \<and> up_sha256 row' = up_sha256 row \<and>
         staged st' (up_id row) = Some (content @ b) \<and>
         ms_landing st' = ms_landing st \<and> ms_log st' = ms_log st \<and>
         ms_registrations st' = ms_registrations st \<and> ms_destinations st' = ms_destinations st"
proof -
  let ?i = "up_id row"
  let ?f = "\<lambda>u. u\<lparr> up_bytes_received := int (length content) + int (length b), up_status := Up_Uploading,
                up_updated_at := now \<rparr>"
  define st1 where "st1 = set_staged ?i (content @ b) (st\<lparr> ms_usage := Some (current_staged_usage st) \<rparr>)"
  define st2 where "st2 = st1\<lparr> ms_usage := Some (max 0 (current_staged_usage st + int (length b))) \<rparr>"
  define st' where "st' = update_upload ?i ?f st2"
  have f: "find_upload st ?i = Some row" and o: "or_default (staged st ?i) [] = content"
    and rec: "up_bytes_received row = int (length content)" and l: "?i \<notin> set (ms_locks st)"
    using r by (simp_all add: receiving_def)
  have run: "append_mobile_upload_chunk cfg (up_registration_id row) ?i (int (length content)) b
           (Wrote (length b)) now st = (st', Up_Ok (?f row))"
    using r b unfolding append_mobile_upload_chunk_def f option.case Let_def o rec st'_def st2_def st1_def
    by (auto simp: receiving_def write_at_end split: option.split)
  have "find_upload st2 ?i = Some row"
    using f find_upload_cong [of st2 st] by (simp add: st2_def st1_def)
  then have f': "find_upload st' ?i = Some (?f row)" unfolding st'_def by (intro find_upload_update) auto
  have u: "current_staged_usage st' = current_staged_usage st + int (length b)"
    using r by (simp add: st'_def st2_def current_staged_usage_def update_upload_def receiving_def)
  have sl: "staged st' ?i = Some (content @ b)" "ms_locks st' = ms_locks st"
    by (simp_all add: st'_def st2_def st1_def)
  have "receiving cfg st' (?f row) (content @ b) rest"
    using r f' u sl by (auto simp: receiving_def add.assoc)
  moreover have "ident (?f row) = ident row" by simp
  ultimately show ?thesis
    using run sl by (intro exI [of _ st'] exI [of _ "?f row"])
      (simp add: st'_def st2_def st1_def, simp add: update_upload_def set_staged_def)
qed

lemma chunks_accepted:
  assumes "receiving cfg st row content (length (concat bs))" "\<forall>b\<in>set bs. b \<noteq> [] \<and> int (length b) \<le> mc_chunk_bytes cfg"
    and "bs \<noteq> [] \<or> staged st (up_id row) = Some content"
  shows "\<exists>row'. receiving cfg (mobile_run cfg sha (map (\<lambda>q. (q, now)) (chunk_requests (up_registration_id row) (up_id row)
             (int (length content)) bs)) st) row' (content @ concat bs) 0 \<and>
           ident row' = ident row \<and> up_sha256 row' = up_sha256 row \<and>
           (let st' = mobile_run cfg sha (map (\<lambda>q. (q, now)) (chunk_requests (up_registration_id row) (up_id row)
             (int (length content)) bs)) st
            in staged st' (up_id row) = Some (content @ concat bs) \<and>
               ms_landing st' = ms_landing st \<and> ms_log st' = ms_log st \<and>
               ms_registrations st' = ms_registrations st \<and> ms_destinations st' = ms_destinations st)"
  using assms
proof (induction bs arbitrary: st row content)
  case Nil
  then show ?case by (intro exI [of _ row]) (simp add: mobile_run_def)
next
  case (Cons b bs)
  have r: "receiving cfg st row content (length b + length (concat bs))" using Cons.prems(1) by simp
  from chunk_accepted [OF r, of now] Cons.prems(2) obtain st1 row1 where
    run: "append_mobile_upload_chunk cfg (up_registration_id row) (up_id row) (int (length content)) b
           (Wrote (length b)) now st = (st1, Up_Ok row1)"
    and r1: "receiving cfg st1 row1 (content @ b) (length (concat bs))"
    and same: "ident row1 = ident row" "up_sha256 row1 = up_sha256 row" "staged st1 (up_id row) = Some (content @ b)"
      "ms_landing st1 = ms_landing st" "ms_log st1 = ms_log st"
      "ms_registrations st1 = ms_registrations st" "ms_destinations st1 = ms_destinations st"
    by auto
  have id: "up_id row1 = up_id row" "up_registration_id row1 = up_registration_id row"
    using ident_eqD [OF same(1)] by simp_all
  have step: "mobile_run cfg sha (map (\<lambda>q. (q, now)) (chunk_requests (up_registration_id row) (up_id row)
                (int (length content)) (b # bs))) st =
              mobile_run cfg sha (map (\<lambda>q. (q, now)) (chunk_requests (up_registration_id row1) (up_id row1)
                (int (length (content @ b))) bs)) st1"
    using run by (simp add: mobile_run_def mobile_step_def id)
  have p: "\<forall>b\<in>set bs. b \<noteq> [] \<and> int (length b) \<le> mc_chunk_bytes cfg" using Cons.prems(2) by simp
  show ?case unfolding step using Cons.IH [OF r1 p] same id by (simp add: Let_def)
qed

text \<open>Finalizing what was received.\<close>

lemma finalize_received:
  assumes r: "receiving cfg st row content 0" and s: "staged st (up_id row) = Some content"
    and g: "grants_publication st row" and t: "up_target_folder_id row = None"
    and h: "\<forall>d. up_sha256 row = Some d \<longrightarrow> to_lower d = sha content"
    and n: "\<forall>n. up_size_bytes row = Some n \<longrightarrow> n = int (length content)"
    and l: "ms_landing st (final_path (up_final_rel_path row)) = None" "up_id row \<notin> log_ids (ms_log st)"
    and io: "\<not> io_escapes io" "io_readable io" "io_renamed io" "io_committed io"
  shows "\<exists>st' u rc. finalize_mobile_upload sha io (up_registration_id row) (up_id row) now st = (st', Fin_Done (Up_Receipt u rc)) \<and>
     ms_landing st' = (ms_landing st)(final_path (up_final_rel_path row) \<mapsto> content) \<and>
     ident u = ident row \<and> up_status u = Up_Finalized \<and> find_upload st' (up_id row) = Some u \<and>
     rc_upload_id rc = up_id row \<and> rc_final_rel_path rc = up_final_rel_path row \<and>
     rc_sha256 rc = sha content \<and> rc_size_bytes rc = int (length content)"
proof -
  let ?i = "up_id row"
  let ?p = "final_path (up_final_rel_path row)"
  let ?v = "\<lambda>u. u\<lparr> up_status := Up_Verifying, up_updated_at := now \<rparr>"
  let ?w = "\<lambda>u. u\<lparr> up_status := Up_Publishing, up_sha256 := Some (sha content), up_updated_at := now \<rparr>"
  let ?z = "finalized_row (sha content) (int (length content)) now"
  define st1 where "st1 = update_upload ?i ?v st"
  define st2 where "st2 = update_upload ?i ?w st1"
  define st3 where "st3 = record_staged_bytes (- up_bytes_received row)
      ((drop_staged ?i (st2\<lparr> ms_usage := Some (current_staged_usage st2) \<rparr>))
         \<lparr> ms_landing := (ms_landing st2)(?p \<mapsto> content) \<rparr>)"
  define st4 where "st4 = (update_upload ?i ?z st3)\<lparr> ms_log := ms_log st3 @ [upload_log_entry (?z row) True now] \<rparr>"
  have f: "find_upload st ?i = Some row" and i: "?i \<notin> set (ms_locks st)" and b: "up_bytes_received row = int (length content)"
    and c: "up_status row \<in> {Up_Created, Up_Uploading}" using r by (simp_all add: receiving_def)
  have "find_upload st2 ?i = Some (?w (?v row))"
    unfolding st2_def st1_def by (intro find_upload_update f) auto
  then have f3: "find_upload st3 ?i = Some (?w (?v row))"
    using find_upload_cong [of st3 st2] by (simp add: st3_def record_staged_bytes_def)
  have f4: "find_upload st4 ?i = Some (?z (?w (?v row)))"
    using find_upload_update [OF f3, of ?z] find_upload_cong [of st4 "update_upload ?i ?z st3"] by (simp add: st4_def)
  have l3: "ms_landing st3 = (ms_landing st)(?p \<mapsto> content)" "ms_log st3 = ms_log st"
    by (simp_all add: st3_def st2_def st1_def record_staged_bytes_def)
  have o: "record_outcome row ?z True now st3 = Some st4"
    using l(2) by (simp add: record_outcome_def history_iff l3 st4_def)
  have complete: "complete_publication sha io row now st3 = (st4, receipt_outcome st4 ?i)"
    using io o by (simp add: complete_publication_def l3)
  have "publish_locally sha io row content now st2 = complete_publication sha io row now st3"
    using io l(1) by (simp add: publish_locally_def Let_def st3_def) (simp add: st2_def st1_def)
  then have v: "verify_and_publish sha io row now st1 = (st4, Fin_Done (receipt_outcome st4 ?i))"
    using s io h t complete unfolding verify_and_publish_def Let_def st2_def [symmetric]
    by (simp add: st1_def split: option.split) (simp add: st2_def [symmetric] st1_def [symmetric])
  obtain rg d where gr: "find_registration st (up_registration_id row) = Some rg" "\<not> revoked (mr_revoked_at rg)"
    "find_destination st (up_destination_id row) = Some d" "md_registration_id d = up_registration_id row"
    "\<not> revoked (md_revoked_at d)" using g by (auto simp: grants_publication_def)
  have "finalize_active sha io row now st = verify_and_publish sha io row now st1"
    using c n b unfolding finalize_active_def st1_def by (auto split: option.split)
  then have run: "finalize_mobile_upload sha io (up_registration_id row) ?i now st = (st4, Fin_Done (receipt_outcome st4 ?i))"
    using f i c gr v unfolding finalize_mobile_upload_def by auto
  define u where "u = ?z (?w (?v row))"
  have u: "up_finalized_at u = Some now" "up_sha256 u = Some (sha content)" "ident u = ident row"
    "up_id u = ?i" "up_final_rel_path u = up_final_rel_path row" "up_bytes_received u = int (length content)"
    "up_status u = Up_Finalized"
    by (simp_all add: u_def finalized_row_def ident_def)
  have "ms_landing st4 = (ms_landing st)(?p \<mapsto> content)" by (simp add: st4_def l3)
  with run f4 u show ?thesis
    unfolding u_def [symmetric] by (simp add: receipt_outcome_def receipt_of_def)
qed

lemma created_upload:
  assumes "create_mobile_upload cfg reg dest name declared digest key i t st = (st1, Up_Ok row)"
    and "find_upload_by_idempotency st reg key = None" "find_destination st dest = Some d" "md_folder_id d = None"
  shows "find_upload st i = None \<and> md_registration_id d = reg \<and> \<not> revoked (md_revoked_at d) \<and>
    ms_landing st (final_path (md_rel_path d @ ''/'' @ name)) = None \<and>
    st1 = st\<lparr> ms_uploads := ms_uploads st @ [row] \<rparr> \<and> up_id row = i \<and> up_registration_id row = reg \<and>
    up_destination_id row = dest \<and> up_final_rel_path row = md_rel_path d @ ''/'' @ name \<and>
    up_target_folder_id row = None \<and> up_size_bytes row = declared \<and> up_bytes_received row = 0 \<and>
    up_sha256 row = digest \<and> up_status row = Up_Created"
  using assms by (auto simp: create_mobile_upload_def Let_def split: if_splits option.splits)

text \<open>A phone with one inbox, for the examples.\<close>

definition sample_mobile :: mobile_state where
  "sample_mobile =
     \<lparr> ms_registrations = [\<lparr> mr_host_id = ''h1'', mr_revoked_at = None \<rparr>], ms_folder_targets = [],
       ms_destinations = [\<lparr> md_id = ''d1'', md_registration_id = ''h1'', md_label = ''Inbox'',
          md_rel_path = ''Mobile/h1/inbox'', md_folder_id = None, md_created_at = 0, md_revoked_at = None \<rparr>],
       ms_uploads = [], ms_log = [], ms_staging = [], ms_landing = (\<lambda>_. None), ms_usage = None,
       ms_locks = [], ms_pending = [] \<rparr>"

definition sample_limits :: mobile_config where
  "sample_limits = \<lparr> mc_chunk_bytes = 4, mc_max_upload_bytes = 100, mc_quota_bytes = 100, mc_abandon_ttl = 1000 \<rparr>"

definition good_io :: finalize_io where
  "good_io = \<lparr> io_escapes = False, io_readable = True, io_renamed = True, io_committed = True \<rparr>"

definition sample_mobile_upload :: "(mobile_request \<times> int) list" where
  "sample_mobile_upload =
     [(Mq_Create ''h1'' ''d1'' ''a.txt'' (Some 3) (Some ''CBA'') ''key-0001'' ''u1'', 1),
      (Mq_Chunk ''h1'' ''u1'' 0 ''ab'' (Wrote 2), 2), (Mq_Chunk ''h1'' ''u1'' 2 ''c'' (Wrote 1), 3)]"

text \<open>The digest of the examples: the content upside down.\<close>

abbreviation "toy_sha \<equiv> (rev :: string \<Rightarrow> string)"

lemma sample_mobile_start: "mobile_start sample_mobile"
  by (simp add: mobile_start_def sample_mobile_def)

text \<open>
  C18. A published file is never overwritten or removed: what is at a path of the landing tree
  after some requests is there after any further requests.
\<close>

theorem published_files_are_never_overwritten:
  assumes "mobile_start st" and "ms_landing (mobile_run cfg sha rqs st) p = Some c"
  shows "ms_landing (mobile_run cfg sha (rqs @ later) st) p = Some c"
  using later_le [OF assms(1), of cfg sha rqs later] assms(2) by (simp add: ledger_le_def ledger_def)

theorem published_files_are_never_overwritten_witness:
  "ms_landing (mobile_run sample_limits toy_sha
      ([(Mq_Create ''h1'' ''d1'' ''b'' None None ''key-0002'' ''u2'', 1), (Mq_Chunk ''h1'' ''u2'' 0 ''x'' (Wrote 1), 2),
        (Mq_Finalize ''h1'' ''u2'' good_io, 3)] @ [(Mq_Cancel ''h1'' ''u2'', 4), (Mq_Sweep (\<lambda>_. True), 9999)])
      sample_mobile) ''h1/inbox/b'' = Some ''x''"
  by (rule published_files_are_never_overwritten [OF sample_mobile_start]) code_simp

text \<open>
  C19. Nothing is published without the grants. When a request makes a file appear in the
  landing tree, the request is the owner's finalize of that upload, its registration is live,
  its destination is its own and not revoked, the upload is not bound to a folder, the file
  is the staged content, it has the declared checksum and exactly the declared size.
\<close>

theorem publication_needs_grants_checksum_and_size:
  assumes "mobile_start st0" and "st = mobile_run cfg sha rqs st0"
    and "ms_landing st p = None" and "ms_landing (mobile_step cfg sha (req, now) st) p = Some c"
  shows "\<exists>reg i io row. req = Mq_Finalize reg i io \<and> find_upload st i = Some row \<and>
    up_registration_id row = reg \<and> up_status row \<notin> {Up_Finalized, Up_Failed, Up_Cancelled} \<and>
    grants_publication st row \<and> up_target_folder_id row = None \<and> staged st i = Some c \<and>
    p = final_path (up_final_rel_path row) \<and>
    (up_sha256 row = None \<or> map_option to_lower (up_sha256 row) = Some (sha c)) \<and>
    (up_size_bytes row = None \<or> up_size_bytes row = Some (int (length c)))"
proof -
  have s: "mobile_safe sha st" unfolding assms(2) by (rule run_safe [OF assms(1)])
  have "ms_landing (fst (handle_mobile cfg sha req now st)) \<noteq> ms_landing st"
    using assms(3,4) by (auto simp: mobile_step_def)
  from landing_only_by_finalize [OF this] obtain reg i io where req: "req = Mq_Finalize reg i io" by blast
  have step: "mobile_step cfg sha (req, now) st = fst (finalize_mobile_upload sha io reg i now st)"
    by (simp add: mobile_step_def req step_reply_def)
  then have "ms_landing (fst (finalize_mobile_upload sha io reg i now st)) \<noteq> ms_landing st"
    using assms(3,4) by auto
  from landing_finalize [OF this] obtain row c' where
    f: "find_upload st i = Some row" "up_registration_id row = reg" "\<not> upload_settled (up_status row)"
      "up_status row \<noteq> Up_Cancelled" "grants_publication st row" "staged st i = Some c'" "up_target_folder_id row = None"
      "\<forall>d. up_sha256 row = Some d \<longrightarrow> to_lower d = sha c'"
    and g: "up_status row \<in> {Up_Verifying, Up_Publishing} \<or> (\<forall>n. up_size_bytes row = Some n \<longrightarrow> n \<le> up_bytes_received row)"
    and l: "ms_landing (fst (finalize_mobile_upload sha io reg i now st)) =
      (ms_landing st)(final_path (up_final_rel_path row) \<mapsto> c')" by blast
  have c: "c' = c" "p = final_path (up_final_rel_path row)"
    using assms(3,4) unfolding step l by (auto split: if_splits)
  have "up_size_bytes row = None \<or> up_size_bytes row = Some (int (length c'))"
    using published_size [OF s f(1,3,6) g] by (cases "up_size_bytes row") auto
  then show ?thesis using f c req by (auto simp: upload_settled_def)
qed

theorem publication_needs_grants_checksum_and_size_witness:
  "\<exists>reg i io row. Mq_Finalize ''h1'' ''u1'' good_io = Mq_Finalize reg i io \<and>
    grants_publication (mobile_run sample_limits toy_sha sample_mobile_upload sample_mobile) row \<and>
    staged (mobile_run sample_limits toy_sha sample_mobile_upload sample_mobile) i = Some ''abc'' \<and>
    ''h1/inbox/a.txt'' = final_path (up_final_rel_path row)"
proof -
  let ?st = "mobile_run sample_limits toy_sha sample_mobile_upload sample_mobile"
  have a: "ms_landing ?st ''h1/inbox/a.txt'' = None" by code_simp
  have b: "ms_landing (mobile_step sample_limits toy_sha (Mq_Finalize ''h1'' ''u1'' good_io, 4) ?st)
      ''h1/inbox/a.txt'' = Some ''abc''" by code_simp
  from publication_needs_grants_checksum_and_size [OF sample_mobile_start refl a b] show ?thesis
    by (elim exE conjE) (intro exI conjI)
qed



text \<open>
  C21. An upload in chunks publishes the file. From any reachable state, an upload created for
  an inbox of a live registration, then sent as any division of the file into chunks within
  the limits, is finalized with a receipt: the landing tree holds exactly the file, and the
  receipt has its digest and its length.
\<close>

theorem chunked_upload_publishes_the_file:
  assumes "mobile_start st0" and "st = mobile_run cfg sha rqs st0"
    and created: "create_mobile_upload cfg reg dest name declared digest key i t st = (st1, Up_Ok row)"
      "find_upload_by_idempotency st reg key = None"
    and grants: "find_registration st reg = Some r" "\<not> revoked (mr_revoked_at r)"
      "find_destination st dest = Some d" "md_folder_id d = None"
    and declared: "declared \<in> {None, Some (int (length file))}" "map_option to_lower digest \<in> {None, Some (sha file)}"
    and chunks: "concat chunks = file" "chunks \<noteq> []" "\<forall>b\<in>set chunks. b \<noteq> [] \<and> int (length b) \<le> mc_chunk_bytes cfg"
    and limits: "int (length file) \<le> mc_max_upload_bytes cfg" "0 \<le> current_staged_usage st"
      "current_staged_usage st + int (length file) \<le> mc_quota_bytes cfg" "i \<notin> set (ms_locks st)"
    and io: "\<not> io_escapes io" "io_readable io" "io_renamed io" "io_committed io"
  shows "\<exists>st' u rc. finalize_mobile_upload sha io reg i t
       (mobile_run cfg sha (map (\<lambda>q. (q, t)) (chunk_requests reg i 0 chunks)) st1) = (st', Fin_Done (Up_Receipt u rc)) \<and>
     ms_landing st' (final_path (md_rel_path d @ ''/'' @ name)) = Some file \<and>
     rc_upload_id rc = i \<and> rc_sha256 rc = sha file \<and> rc_size_bytes rc = int (length file)"
proof -
  have s: "mobile_safe sha st" unfolding assms(2) by (rule run_safe [OF assms(1)])
  note c = created_upload [OF created grants(3,4)]
  have nid: "i \<notin> row_ids (ms_uploads st)"
    using c by (force simp: find_upload_def find_None_iff row_ids_def)
  have stg: "staged st i = None" and lg: "i \<notin> log_ids (ms_log st)"
    using s nid by (auto simp: mobile_safe_def staging_ok_def mobile_ok_def ledger_ok_def ledger_def)
  have f1: "find_upload st1 i = Some row" using c by (simp add: find_upload_def find_append)
  have rec: "receiving cfg st1 row [] (length (concat chunks))"
    using c f1 stg limits declared(1) chunks(1)
    by (auto simp: receiving_def current_staged_usage_def staged_total_def)
  from chunks_accepted [OF rec chunks(3), of sha t] chunks(2) obtain row' where
    r': "receiving cfg (mobile_run cfg sha (map (\<lambda>q. (q, t)) (chunk_requests reg i 0 chunks)) st1) row' file 0"
      "ident row' = ident row" "up_sha256 row' = up_sha256 row"
    and m: "staged (mobile_run cfg sha (map (\<lambda>q. (q, t)) (chunk_requests reg i 0 chunks)) st1) i = Some file"
      "ms_landing (mobile_run cfg sha (map (\<lambda>q. (q, t)) (chunk_requests reg i 0 chunks)) st1) = ms_landing st1"
      "ms_log (mobile_run cfg sha (map (\<lambda>q. (q, t)) (chunk_requests reg i 0 chunks)) st1) = ms_log st1"
      "ms_registrations (mobile_run cfg sha (map (\<lambda>q. (q, t)) (chunk_requests reg i 0 chunks)) st1) = ms_registrations st1"
      "ms_destinations (mobile_run cfg sha (map (\<lambda>q. (q, t)) (chunk_requests reg i 0 chunks)) st1) = ms_destinations st1"
    using c chunks(1) by (auto simp: Let_def)
  define st2 where "st2 = mobile_run cfg sha (map (\<lambda>q. (q, t)) (chunk_requests reg i 0 chunks)) st1"
  have id: "up_id row' = i" "up_registration_id row' = reg" "up_destination_id row' = dest"
    "up_final_rel_path row' = md_rel_path d @ ''/'' @ name" "up_target_folder_id row' = None" "up_size_bytes row' = declared"
    using ident_eqD [OF r'(2)] c by simp_all
  have "grants_publication st2 row'"
    using grants c id m(4,5) by (simp add: grants_publication_def find_registration_def find_destination_def st2_def)
  from finalize_received [OF r'(1) [folded st2_def] _ this _ _ _ _ _ io, of sha t]
  obtain st' u rc where
    "finalize_mobile_upload sha io reg i t st2 = (st', Fin_Done (Up_Receipt u rc))"
    "ms_landing st' = (ms_landing st2)(final_path (md_rel_path d @ ''/'' @ name) \<mapsto> file)"
    "rc_upload_id rc = i" "rc_sha256 rc = sha file" "rc_size_bytes rc = int (length file)"
    using id m [folded st2_def] c declared lg r'(3) by auto
  then show ?thesis by (auto simp: st2_def)
qed

theorem chunked_upload_publishes_the_file_witness:
  "\<exists>st' u rc. finalize_mobile_upload toy_sha good_io ''h1'' ''u1'' 1
       (mobile_run sample_limits toy_sha (map (\<lambda>q. (q, 1)) (chunk_requests ''h1'' ''u1'' 0 [''ab'', ''c'']))
          (fst (create_mobile_upload sample_limits ''h1'' ''d1'' ''a.txt'' (Some 3) None ''key-0001'' ''u1'' 1 sample_mobile)))
     = (st', Fin_Done (Up_Receipt u rc)) \<and>
     ms_landing st' (final_path (''Mobile/h1/inbox'' @ ''/'' @ ''a.txt'')) = Some ''abc'' \<and>
     rc_upload_id rc = ''u1'' \<and> rc_sha256 rc = rev ''abc'' \<and> rc_size_bytes rc = int (length ''abc'')"
proof -
  obtain d r where d: "find_destination sample_mobile ''d1'' = Some d" "md_folder_id d = None" "md_rel_path d = ''Mobile/h1/inbox''"
    and r: "find_registration sample_mobile ''h1'' = Some r" "\<not> revoked (mr_revoked_at r)"
    by (simp add: find_destination_def find_registration_def sample_mobile_def revoked_def)
  obtain row where row: "create_mobile_upload sample_limits ''h1'' ''d1'' ''a.txt'' (Some 3) None ''key-0001'' ''u1'' 1 sample_mobile
      = (fst (create_mobile_upload sample_limits ''h1'' ''d1'' ''a.txt'' (Some 3) None ''key-0001'' ''u1'' 1 sample_mobile), Up_Ok row)"
  proof -
    have "case snd (create_mobile_upload sample_limits ''h1'' ''d1'' ''a.txt'' (Some 3) None ''key-0001'' ''u1'' 1 sample_mobile)
      of Up_Ok r \<Rightarrow> True | _ \<Rightarrow> False" by code_simp
    then show thesis using that
      by (cases "create_mobile_upload sample_limits ''h1'' ''d1'' ''a.txt'' (Some 3) None ''key-0001'' ''u1'' 1 sample_mobile")
        (auto split: upload_outcome.splits)
  qed
  have k: "find_upload_by_idempotency sample_mobile ''h1'' ''key-0001'' = None"
    by (simp add: find_upload_by_idempotency_def sample_mobile_def)
  have run: "sample_mobile = mobile_run sample_limits toy_sha [] sample_mobile" by (simp add: mobile_run_def)
  show ?thesis
    unfolding d(3) [symmetric]
    by (rule chunked_upload_publishes_the_file [OF sample_mobile_start run row k r d(1,2)])
      (simp_all add: sample_limits_def current_staged_usage_def staged_total_def good_io_def, simp_all add: sample_mobile_def)
qed

text \<open>
  C22. The end of an upload is final. Whatever is requested later, a finalized or failed row
  stays as it is, with all its fields, and a cancelled upload stays cancelled.
\<close>

theorem ended_uploads_are_final:
  assumes "mobile_start st" and "u \<in> set (ms_uploads (mobile_run cfg sha rqs st))"
    and "up_status u \<in> {Up_Finalized, Up_Failed, Up_Cancelled}"
  shows "\<exists>v\<in>set (ms_uploads (mobile_run cfg sha (rqs @ later) st)).
     up_id v = up_id u \<and> up_status v = up_status u \<and> (up_status u = Up_Cancelled \<or> v = u)"
proof -
  from later_le [OF assms(1), of cfg sha rqs later] assms(2) obtain v where
    v: "v \<in> set (ms_uploads (mobile_run cfg sha (rqs @ later) st))" "ident v = ident u"
      "upload_settled (up_status u) \<Longrightarrow> v = u" "up_status u = Up_Cancelled \<Longrightarrow> up_status v = Up_Cancelled"
    by (fastforce simp: ledger_le_def ledger_def)
  have "up_id v = up_id u" using ident_eqD [OF v(2)] by simp
  moreover have "upload_settled (up_status u) \<or> up_status u = Up_Cancelled" using assms(3) by (auto simp: upload_settled_def)
  ultimately show ?thesis using v by (intro bexI [of _ v]) auto
qed

theorem ended_uploads_are_final_witness:
  "Up_Cancelled \<in> up_status ` set (ms_uploads (mobile_run sample_limits toy_sha
     ((sample_mobile_upload @ [(Mq_Cancel ''h1'' ''u1'', 4)]) @
        [(Mq_Finalize ''h1'' ''u1'' good_io, 5), (Mq_Sweep (\<lambda>_. True), 9999)]) sample_mobile))"
proof -
  have "map up_status (ms_uploads (mobile_run sample_limits toy_sha (sample_mobile_upload @ [(Mq_Cancel ''h1'' ''u1'', 4)])
      sample_mobile)) = [Up_Cancelled]" by code_simp
  then obtain u where u: "ms_uploads (mobile_run sample_limits toy_sha (sample_mobile_upload @ [(Mq_Cancel ''h1'' ''u1'', 4)])
      sample_mobile) = [u]" "up_status u = Up_Cancelled" by auto
  have "u \<in> set (ms_uploads (mobile_run sample_limits toy_sha (sample_mobile_upload @ [(Mq_Cancel ''h1'' ''u1'', 4)])
      sample_mobile))" unfolding u(1) by simp
  from ended_uploads_are_final [OF sample_mobile_start this,
      of "[(Mq_Finalize ''h1'' ''u1'' good_io, 5), (Mq_Sweep (\<lambda>_. True), 9999)]"] u(2)
  show ?thesis by (metis image_eqI insertCI)
qed

text \<open>
  An empty file cannot be uploaded. An upload declared with zero bytes is accepted when it is
  created, but no request ever finalizes it: it has no staging file, since a chunk must not be
  empty and one byte is too many, and finalizing without a staging file is refused.
\<close>

theorem empty_files_are_never_finalized:
  assumes "mobile_start st0" and "u \<in> set (ms_uploads (mobile_run cfg sha rqs st0))" and "up_size_bytes u = Some 0"
  shows "up_status u \<noteq> Up_Finalized \<and> up_status u \<noteq> Up_Publishing \<and>
    staged (mobile_run cfg sha rqs st0) (up_id u) = None"
proof -
  have "row_staged_ok u (staged (mobile_run cfg sha rqs st0) (up_id u))"
    using run_safe [OF assms(1)] assms(2) staging_rowD by (simp add: mobile_safe_def)
  then show ?thesis using assms(3) by (cases "staged (mobile_run cfg sha rqs st0) (up_id u)") (auto simp: row_staged_ok_def)
qed

theorem empty_files_are_never_finalized_witness:
  "let rqs = [(Mq_Create ''h1'' ''d1'' ''empty'' (Some 0) None ''key-0003'' ''u3'', 1), (Mq_Finalize ''h1'' ''u3'' good_io, 2)];
       st = mobile_run sample_limits toy_sha rqs sample_mobile
   in \<exists>u. ms_uploads st = [u] \<and> up_status u = Up_Verifying \<and> staged st (up_id u) = None"
proof -
  let ?st = "mobile_run sample_limits toy_sha [(Mq_Create ''h1'' ''d1'' ''empty'' (Some 0) None ''key-0003'' ''u3'', 1),
      (Mq_Finalize ''h1'' ''u3'' good_io, 2)] sample_mobile"
  have "map (\<lambda>u. (up_status u, up_size_bytes u)) (ms_uploads ?st) = [(Up_Verifying, Some 0)]" by code_simp
  then obtain u where u: "ms_uploads ?st = [u]" "up_status u = Up_Verifying" "up_size_bytes u = Some 0" by auto
  have m: "u \<in> set (ms_uploads ?st)" unfolding u(1) by simp
  show ?thesis
    unfolding Let_def using empty_files_are_never_finalized [OF sample_mobile_start m u(3)] u(1,2) by blast
qed

end
