(* ===== verification/Mobile_Routes.thy ===== *)
theory Mobile_Routes
  imports Mobile_Safety Principals Versions
begin

text \<open>
  The upload routes, \<open>server/src/routes/mobile-uploads.ts\<close>: who may call, how the payload is
  bounded, and which status answers which outcome. A request that finds the upload busy makes
  the handler throw; nothing maps that error, so the framework answers 500.
\<close>

section \<open>Payload bounds\<close>

definition MAX_FILENAME_LENGTH :: nat where "MAX_FILENAME_LENGTH = 200"

definition bounded_string :: "json \<Rightarrow> nat \<Rightarrow> string option" where
  "bounded_string v limit =
     (case v of
        JStr s \<Rightarrow> (let t = js_trim s in if length t = 0 \<or> length t > limit then None else Some t)
      | _ \<Rightarrow> None)"

fun is_mobile_native :: "auth_principal option \<Rightarrow> string option" where
  "is_mobile_native (Some (Mobile_Token host)) = Some host"
| "is_mobile_native _ = None"

definition registration_is_live :: "mobile_state \<Rightarrow> string \<Rightarrow> bool" where
  "registration_is_live st host =
     (case find_registration st host of
        None \<Rightarrow> False
      | Some r \<Rightarrow> mr_revoked_at r = None \<or> mr_revoked_at r = Some 0)"

text \<open>The bytes of a body as they come in pieces; \<open>None\<close> as soon as they exceed the limit.\<close>

fun read_pieces :: "int \<Rightarrow> string \<Rightarrow> string list \<Rightarrow> string option" where
  "read_pieces limit acc [] = Some acc"
| "read_pieces limit acc (p # ps) =
     (if int (length acc + length p) > limit then None else read_pieces limit (acc @ p) ps)"

definition read_raw_body_bounded :: "string list option \<Rightarrow> int \<Rightarrow> string option" where
  "read_raw_body_bounded body limit = (case body of None \<Rightarrow> Some [] | Some ps \<Rightarrow> read_pieces limit [] ps)"

definition parse_offset :: "string option \<Rightarrow> int option" where
  "parse_offset header =
     (case header of
        None \<Rightarrow> None
      | Some h \<Rightarrow>
          if h \<noteq> [] \<and> length h \<le> 15 \<and> list_all is_digit h then Some (int (parse_dec h)) else None)"

definition own_upload :: "mobile_state \<Rightarrow> string \<Rightarrow> string \<Rightarrow> mobile_upload_row option" where
  "own_upload st host i =
     (if \<not> registration_is_live st host then None
      else case find_upload st i of
        None \<Rightarrow> None
      | Some row \<Rightarrow> if up_registration_id row \<noteq> host then None else Some row)"

section \<open>Replies\<close>

datatype mobile_body =
    Mb_Error | Mb_Upload mobile_upload_row | Mb_Uploads "mobile_upload_row list"
  | Mb_Receipt mobile_upload_receipt | Mb_Destination mobile_upload_destination_row
  | Mb_Destinations "mobile_upload_destination_row list" | Mb_Revoked string "int option"

type_synonym mobile_answer = "nat \<times> mobile_body"

definition list_destinations_for_registration ::
    "mobile_state \<Rightarrow> string \<Rightarrow> bool \<Rightarrow> mobile_upload_destination_row list" where
  "list_destinations_for_registration st reg include_revoked =
     rev (sort_key md_created_at (rev (filter (\<lambda>d. md_registration_id d = reg \<and>
        (include_revoked \<or> md_revoked_at d = None)) (ms_destinations st))))"

definition list_uploads_for_registration :: "mobile_state \<Rightarrow> string \<Rightarrow> mobile_upload_row list" where
  "list_uploads_for_registration st reg =
     rev (sort_key up_created_at (rev (filter (\<lambda>u. up_registration_id u = reg) (ms_uploads st))))"

fun chunk_response :: "upload_outcome \<Rightarrow> mobile_answer" where
  "chunk_response (Up_Ok row) = (200, Mb_Upload row)"
| "chunk_response Upload_Not_Found = (404, Mb_Error)"
| "chunk_response Upload_Unauthorized = (403, Mb_Error)"
| "chunk_response Bad_Offset = (409, Mb_Error)"
| "chunk_response Stale_State = (409, Mb_Error)"
| "chunk_response Too_Large = (413, Mb_Error)"
| "chunk_response Exceeds_Declared_Size = (400, Mb_Error)"
| "chunk_response Staging_Full = (507, Mb_Error)"
| "chunk_response _ = (500, Mb_Error)"

fun create_response :: "upload_outcome \<Rightarrow> mobile_answer" where
  "create_response (Up_Ok row) = (201, Mb_Upload row)"
| "create_response Destination_Not_Found = (404, Mb_Error)"
| "create_response Destination_Revoked = (410, Mb_Error)"
| "create_response Unsafe_File_Name = (400, Mb_Error)"
| "create_response Collision = (409, Mb_Error)"
| "create_response Size_Over_Cap = (413, Mb_Error)"
| "create_response _ = (500, Mb_Error)"

fun finalize_response :: "upload_outcome \<Rightarrow> mobile_answer" where
  "finalize_response (Up_Receipt _ r) = (200, Mb_Receipt r)"
| "finalize_response Upload_Not_Found = (404, Mb_Error)"
| "finalize_response Upload_Unauthorized = (403, Mb_Error)"
| "finalize_response Not_Complete = (409, Mb_Error)"
| "finalize_response Checksum_Mismatch = (422, Mb_Error)"
| "finalize_response Collision = (409, Mb_Error)"
| "finalize_response Destination_Revoked = (410, Mb_Error)"
| "finalize_response Registration_Revoked = (401, Mb_Error)"
| "finalize_response Stale_State = (409, Mb_Error)"
| "finalize_response _ = (500, Mb_Error)"

definition cancel_response :: "mobile_state \<Rightarrow> string \<Rightarrow> upload_outcome \<Rightarrow> mobile_answer" where
  "cancel_response st i out =
     (case out of
        Up_Ok row \<Rightarrow> (200, Mb_Upload row)
      | Upload_Not_Found \<Rightarrow> (404, Mb_Error)
      | Upload_Unauthorized \<Rightarrow> (403, Mb_Error)
      | Already_Finalized \<Rightarrow> (case find_upload st i of Some row \<Rightarrow> (200, Mb_Upload row) | None \<Rightarrow> (500, Mb_Error))
      | _ \<Rightarrow> (500, Mb_Error))"

fun destination_response :: "destination_outcome \<Rightarrow> mobile_answer" where
  "destination_response (Dest_Ok d) = (201, Mb_Destination d)"
| "destination_response Invalid_Label = (400, Mb_Error)"
| "destination_response Invalid_Slug = (400, Mb_Error)"
| "destination_response Invalid_Folder = (400, Mb_Error)"
| "destination_response Dest_Duplicate = (409, Mb_Error)"
| "destination_response Unknown_Registration = (404, Mb_Error)"
| "destination_response _ = (500, Mb_Error)"

section \<open>Native routes\<close>

text \<open>The two checks every native route starts with.\<close>

definition as_native ::
    "auth_principal option \<Rightarrow> mobile_state \<Rightarrow> (string \<Rightarrow> mobile_state \<times> mobile_answer) \<Rightarrow>
     mobile_state \<times> mobile_answer" where
  "as_native who st handler =
     (case is_mobile_native who of
        None \<Rightarrow> (st, 403, Mb_Error)
      | Some host \<Rightarrow> if \<not> registration_is_live st host then (st, 401, Mb_Error) else handler host)"

definition get_destinations :: "auth_principal option \<Rightarrow> mobile_state \<Rightarrow> mobile_state \<times> mobile_answer" where
  "get_destinations who st =
     as_native who st (\<lambda>host. (st, 200, Mb_Destinations (list_destinations_for_registration st host False)))"

definition idempotency_key_ok :: "string \<Rightarrow> bool" where
  "idempotency_key_ok k \<longleftrightarrow>
     \<not> (length k < 8 \<or> length k > MAX_IDEMPOTENCY_KEY_LENGTH \<or> \<not> (k \<noteq> [] \<and> list_all slug_char k))"

text \<open>\<open>None\<close> refuses the value; an absent size or checksum is \<open>Some None\<close>.\<close>

definition declared_size :: "json option \<Rightarrow> int option option" where
  "declared_size v =
     (case v of
        None \<Rightarrow> Some None
      | Some JNull \<Rightarrow> Some None
      | Some (JNum n) \<Rightarrow>
          (case n of
             Fin r \<Rightarrow> if js_is_safe_integer n \<and> \<not> r < 0 then Some (Some \<lfloor>r\<rfloor>) else None
           | _ \<Rightarrow> None)
      | Some _ \<Rightarrow> None)"

definition declared_sha256 :: "json option \<Rightarrow> string option option" where
  "declared_sha256 v =
     (case v of
        None \<Rightarrow> Some None
      | Some JNull \<Rightarrow> Some None
      | Some (JStr s) \<Rightarrow> if is_hex_sha256 (Some s) then Some (Some (to_lower s)) else None
      | Some _ \<Rightarrow> None)"

record create_body =
  cb_destination_id :: json
  cb_file_name :: json
  cb_size_bytes :: "json option"
  cb_sha256 :: "json option"

definition post_upload ::
    "mobile_config \<Rightarrow> auth_principal option \<Rightarrow> string option \<Rightarrow> create_body \<Rightarrow> string \<Rightarrow> int \<Rightarrow>
     mobile_state \<Rightarrow> mobile_state \<times> mobile_answer" where
  "post_upload cfg who key_header body new_id now st =
     as_native who st (\<lambda>host.
       let key = or_default key_header []
       in if \<not> idempotency_key_ok key then (st, 400, Mb_Error)
          else case (bounded_string (cb_destination_id body) 128, bounded_string (cb_file_name body) MAX_FILENAME_LENGTH) of
            (Some dest, Some name) \<Rightarrow>
              if \<not> is_safe_segment name then (st, 400, Mb_Error)
              else (case (declared_size (cb_size_bytes body), declared_sha256 (cb_sha256 body)) of
                 (Some size_bytes, Some digest) \<Rightarrow>
                   map_prod id create_response
                     (create_mobile_upload cfg host dest name size_bytes digest key new_id now st)
               | _ \<Rightarrow> (st, 400, Mb_Error))
          | _ \<Rightarrow> (st, 400, Mb_Error))"

definition put_chunk ::
    "mobile_config \<Rightarrow> auth_principal option \<Rightarrow> string \<Rightarrow> string option \<Rightarrow> string list option \<Rightarrow> disk_write \<Rightarrow>
     int \<Rightarrow> mobile_state \<Rightarrow> mobile_state \<times> mobile_answer" where
  "put_chunk cfg who i offset_header body disk now st =
     as_native who st (\<lambda>host.
       case parse_offset offset_header of
         None \<Rightarrow> (st, 400, Mb_Error)
       | Some offset \<Rightarrow>
           (case read_raw_body_bounded body (mc_chunk_bytes cfg) of
              None \<Rightarrow> (st, 413, Mb_Error)
            | Some bytes \<Rightarrow>
                map_prod id chunk_response (append_mobile_upload_chunk cfg host i offset bytes disk now st)))"

definition get_uploads :: "auth_principal option \<Rightarrow> mobile_state \<Rightarrow> mobile_state \<times> mobile_answer" where
  "get_uploads who st =
     as_native who st (\<lambda>host. (st, 200, Mb_Uploads (list_uploads_for_registration st host)))"

definition get_upload :: "auth_principal option \<Rightarrow> string \<Rightarrow> mobile_state \<Rightarrow> mobile_state \<times> mobile_answer" where
  "get_upload who i st =
     (case is_mobile_native who of
        None \<Rightarrow> (st, 403, Mb_Error)
      | Some host \<Rightarrow>
          (case own_upload st host i of
             None \<Rightarrow> (st, if find_upload st i = None then 404 else 403, Mb_Error)
           | Some row \<Rightarrow> (st, 200, Mb_Upload row)))"

text \<open>\<open>None\<close>: the answer comes when the copy to the folder is done.\<close>

definition post_finalize ::
    "(string \<Rightarrow> string) \<Rightarrow> finalize_io \<Rightarrow> auth_principal option \<Rightarrow> string \<Rightarrow> int \<Rightarrow> mobile_state \<Rightarrow>
     mobile_state \<times> mobile_answer option" where
  "post_finalize sha io who i now st =
     (case is_mobile_native who of
        None \<Rightarrow> (st, Some (403, Mb_Error))
      | Some host \<Rightarrow>
          if \<not> registration_is_live st host then (st, Some (401, Mb_Error))
          else (case finalize_mobile_upload sha io host i now st of
             (st', Fin_Await) \<Rightarrow> (st', None)
           | (st', Fin_Done out) \<Rightarrow> (st', Some (finalize_response out))))"

definition post_upload_cancel ::
    "auth_principal option \<Rightarrow> string \<Rightarrow> int \<Rightarrow> mobile_state \<Rightarrow> mobile_state \<times> mobile_answer" where
  "post_upload_cancel who i now st =
     as_native who st (\<lambda>host.
       let (st', out) = cancel_mobile_upload host i now st in (st', cancel_response st' i out))"

section \<open>Administrator routes\<close>

definition slug_body_ok :: "string \<Rightarrow> bool" where
  "slug_body_ok s \<longleftrightarrow> s \<noteq> [] \<and> length s \<le> 200 \<and> list_all slug_char s"

definition admin_get_destinations ::
    "auth_principal option \<Rightarrow> string \<Rightarrow> mobile_state \<Rightarrow> mobile_answer" where
  "admin_get_destinations who host st =
     (if \<not> require_admin who then (403, Mb_Error)
      else if find_registration st host = None then (404, Mb_Error)
      else (200, Mb_Destinations (list_destinations_for_registration st host True)))"

definition admin_post_destination ::
    "auth_principal option \<Rightarrow> string \<Rightarrow> string \<Rightarrow> string option \<Rightarrow> string option \<Rightarrow> string \<Rightarrow> int \<Rightarrow>
     mobile_state \<Rightarrow> mobile_state \<times> mobile_answer" where
  "admin_post_destination who host label slug folder new_id now st =
     (if \<not> require_admin who then (st, 403, Mb_Error)
      else if find_registration st host = None then (st, 404, Mb_Error)
      else case bounded_string (JStr label) 64 of
        None \<Rightarrow> (st, 400, Mb_Error)
      | Some t \<Rightarrow>
          if (case slug of None \<Rightarrow> False | Some s \<Rightarrow> \<not> slug_body_ok s) then (st, 400, Mb_Error)
          else map_prod id destination_response
                 (create_mobile_upload_destination host t slug folder new_id now st))"

definition admin_revoke_destination ::
    "auth_principal option \<Rightarrow> string \<Rightarrow> string \<Rightarrow> int \<Rightarrow> mobile_state \<Rightarrow> mobile_state \<times> mobile_answer" where
  "admin_revoke_destination who host i now st =
     (if \<not> require_admin who then (st, 403, Mb_Error)
      else case revoke_mobile_upload_destination host i now st of
        (st', None) \<Rightarrow> (st', 404, Mb_Error)
      | (st', Some t) \<Rightarrow> (st', 200, Mb_Revoked i (Some t)))"

definition admin_patch_destination ::
    "auth_principal option \<Rightarrow> string \<Rightarrow> string \<Rightarrow> string option \<Rightarrow> mobile_state \<Rightarrow> mobile_state \<times> mobile_answer" where
  "admin_patch_destination who host i folder st =
     (if \<not> require_admin who then (st, 403, Mb_Error)
      else case update_mobile_upload_destination_folder host i folder st of
        (st', Dest_Ok d) \<Rightarrow> (st', 200, Mb_Destination d)
      | (st', Dest_Not_Found) \<Rightarrow> (st', 404, Mb_Error)
      | (st', _) \<Rightarrow> (st', 400, Mb_Error))"

section \<open>A phone and the uploads of the others\<close>

text \<open>The rows of all uploads but one are kept.\<close>

definition rows_kept :: "string \<Rightarrow> mobile_state \<Rightarrow> mobile_state \<Rightarrow> bool" where
  "rows_kept i st st' \<longleftrightarrow> {u \<in> set (ms_uploads st). up_id u \<noteq> i} \<subseteq> set (ms_uploads st')"

lemma rows_kept_trans:
  "rows_kept i st st' \<Longrightarrow> rows_kept i st' st'' \<Longrightarrow> rows_kept i st st''"
  by (auto simp: rows_kept_def)

lemma rows_kept_same: "ms_uploads st' = ms_uploads st \<Longrightarrow> rows_kept i st st'"
  by (auto simp: rows_kept_def)

lemma rows_kept_update: "rows_kept i st (update_upload i f st)"
  by (auto simp: rows_kept_def set_update_row)

lemma rows_kept_outcome: "record_outcome row f ok now st = Some st' \<Longrightarrow> rows_kept (up_id row) st st'"
  by (auto simp: record_outcome_def rows_kept_def set_update_row split: if_splits)

lemma rows_kept_fail: "up_id row = i \<Longrightarrow> rows_kept i st (fail_upload row e now st)"
  by (auto simp: fail_upload_def rows_kept_def record_outcome_def set_update_row split: option.splits if_splits)

lemma rows_kept_complete: "up_id row = i \<Longrightarrow> rows_kept i st (fst (complete_publication sha io row now st))"
  using rows_kept_outcome by (auto simp: complete_publication_def rows_kept_same split: option.split)

lemma rows_kept_publish:
  assumes "up_id row = i"
  shows "rows_kept i st (fst (publish_locally sha io row c now st))"
proof -
  define st1 where "st1 = record_staged_bytes (- up_bytes_received row)
      ((drop_staged (up_id row) (st\<lparr> ms_usage := Some (current_staged_usage st) \<rparr>))
         \<lparr> ms_landing := (ms_landing st)(final_path (up_final_rel_path row) \<mapsto> c) \<rparr>)"
  have "rows_kept i st st1" by (rule rows_kept_same) (simp add: st1_def)
  then have "rows_kept i st (fst (complete_publication sha io row now st1))"
    using rows_kept_complete [OF assms, of st1 sha io now] by (rule rows_kept_trans)
  moreover have "rows_kept i st (fail_upload row e now (remove_staging j st))" for e j
    by (rule rows_kept_trans [OF rows_kept_same rows_kept_fail [OF assms]]) simp
  ultimately show ?thesis
    unfolding publish_locally_def Let_def st1_def [symmetric]
    using assms by (auto intro: rows_kept_fail)
qed

lemma rows_kept_verify:
  assumes "up_id row = i"
  shows "rows_kept i st (fst (verify_and_publish sha io row now st))"
proof -
  define U where "U d = update_upload (up_id row) (\<lambda>u. u\<lparr> up_status := Up_Publishing,
                         up_sha256 := d, up_updated_at := now \<rparr>) st" for d
  have U: "rows_kept i st (U d)" for d using rows_kept_update [of i st] assms by (simp add: U_def)
  have f: "rows_kept i st (fail_upload row e now (U d))" for d e
    by (rule rows_kept_trans [OF U rows_kept_fail [OF assms]])
  have p: "rows_kept i st (fst (publish_locally sha io row c now (U d)))" for c d
    by (rule rows_kept_trans [OF U rows_kept_publish [OF assms]])
  have l: "rows_kept i st (U d\<lparr> ms_locks := l, ms_pending := q \<rparr>)" for d l q
    using U [of d] by (simp add: rows_kept_def)
  show ?thesis
    unfolding verify_and_publish_def Let_def U_def [symmetric]
    using f p l rows_kept_fail [OF assms] by (simp add: case_prod_beta rows_kept_same split: option.split)
qed

lemma rows_kept_finalize: "rows_kept i st (fst (finalize_mobile_upload sha io reg i now st))"
proof -
  have active: "rows_kept i st (fst (finalize_active sha io row now st))" if "up_id row = i" for row
  proof -
    define st1 where "st1 = update_upload (up_id row) (\<lambda>u. u\<lparr> up_status := Up_Verifying, up_updated_at := now \<rparr>) st"
    have s: "rows_kept i st st1" using rows_kept_update [of i st] that by (simp add: st1_def)
    have v: "rows_kept i st (fst (verify_and_publish sha io row now st1))"
      by (rule rows_kept_trans [OF s rows_kept_verify [OF that]])
    show ?thesis
      unfolding finalize_active_def st1_def [symmetric]
      using v rows_kept_verify [OF that, of st] rows_kept_complete [OF that, of st] rows_kept_fail [OF that]
      by (simp add: case_prod_beta rows_kept_same split: option.split)
  qed
  show ?thesis
    unfolding finalize_mobile_upload_def
    using active by (auto simp: rows_kept_same append_upload_operation_log_def dest!: find_upload_SomeD split: option.split)
qed

text \<open>An operation on an upload that is not the caller's refuses and changes nothing.\<close>

lemma foreign_upload_refused:
  assumes "find_upload st i = None \<or> (\<exists>row. find_upload st i = Some row \<and> up_registration_id row \<noteq> reg)"
  shows "fst (finalize_mobile_upload sha io reg i now st) = st"
    "fst (cancel_mobile_upload reg i now st) = st"
    "fst (append_mobile_upload_chunk cfg reg i offset bytes disk now st) = st"
  using assms
  by (auto simp: finalize_mobile_upload_def cancel_mobile_upload_def append_mobile_upload_chunk_def)

lemma rows_kept_cancel: "rows_kept i st (fst (cancel_mobile_upload reg i now st))"
  using rows_kept_update [of i st] by (auto simp: cancel_mobile_upload_def Let_def rows_kept_def split: option.split)

lemma rows_kept_chunk: "rows_kept i st (fst (append_mobile_upload_chunk cfg reg i offset bytes disk now st))"
  by (auto simp: append_mobile_upload_chunk_def Let_def rows_kept_def set_update_row split: option.split disk_write.split)

text \<open>What a native route may do: keep every row of the other registrations.\<close>

definition others_kept :: "string \<Rightarrow> mobile_state \<Rightarrow> mobile_state \<Rightarrow> bool" where
  "others_kept host st st' \<longleftrightarrow> {u \<in> set (ms_uploads st). up_registration_id u \<noteq> host} \<subseteq> set (ms_uploads st')"

lemma others_keptI:
  assumes "mobile_safe sha st" "rows_kept i st st'"
    and "find_upload st i = None \<or> (\<exists>row. find_upload st i = Some row \<and> up_registration_id row \<noteq> host) \<Longrightarrow> st' = st"
  shows "others_kept host st st'"
proof (cases "find_upload st i = None \<or> (\<exists>row. find_upload st i = Some row \<and> up_registration_id row \<noteq> host)")
  case True
  then show ?thesis using assms(3) by (simp add: others_kept_def)
next
  case False
  then obtain row where row: "find_upload st i = Some row" "up_registration_id row = host" by auto
  have "up_id u \<noteq> i" if "u \<in> set (ms_uploads st)" "up_registration_id u \<noteq> host" for u
    using rows_with_find [of sha st i row] row that assms(1) by (auto simp: mobile_safe_def mobile_ok_def)
  then show ?thesis using assms(2) by (auto simp: others_kept_def rows_kept_def)
qed

lemma create_keeps: "others_kept host st (fst (create_mobile_upload cfg reg dest name sz digest key i now st))"
  by (auto simp: others_kept_def create_mobile_upload_def Let_def split: option.splits)

lemma others_kept_same: "others_kept host st st"
  by (simp add: others_kept_def)

text \<open>The four native routes that change state.\<close>

datatype native_call =
    Nc_Create "string option" create_body string | Nc_Chunk string "string option" "string list option" disk_write
  | Nc_Finalize string finalize_io | Nc_Cancel string

fun native_state ::
    "mobile_config \<Rightarrow> (string \<Rightarrow> string) \<Rightarrow> auth_principal option \<Rightarrow> native_call \<Rightarrow> int \<Rightarrow> mobile_state \<Rightarrow> mobile_state" where
  "native_state cfg sha who (Nc_Create key body i) now st = fst (post_upload cfg who key body i now st)"
| "native_state cfg sha who (Nc_Chunk i offset body disk) now st = fst (put_chunk cfg who i offset body disk now st)"
| "native_state cfg sha who (Nc_Finalize i io) now st = fst (post_finalize sha io who i now st)"
| "native_state cfg sha who (Nc_Cancel i) now st = fst (post_upload_cancel who i now st)"

lemma post_finalize_state:
  "fst (post_finalize sha io (Some (Mobile_Token host)) i now st) =
     (if registration_is_live st host then fst (finalize_mobile_upload sha io host i now st) else st)"
  by (auto simp: post_finalize_def split: prod.split finalize_step.split)

lemma post_cancel_state:
  "fst (post_upload_cancel (Some (Mobile_Token host)) i now st) =
     (if registration_is_live st host then fst (cancel_mobile_upload host i now st) else st)"
  by (simp add: post_upload_cancel_def as_native_def case_prod_beta Let_def)

lemma native_keeps_others:
  assumes s: "mobile_safe sha st"
  shows "others_kept host st (native_state cfg sha (Some (Mobile_Token host)) c now st)"
proof -
  have f: "others_kept host st (fst (finalize_mobile_upload sha io host i now st))" for io i
    by (rule others_keptI [OF s rows_kept_finalize]) (rule foreign_upload_refused)
  have k: "others_kept host st (fst (cancel_mobile_upload host i now st))" for i
    by (rule others_keptI [OF s rows_kept_cancel]) (rule foreign_upload_refused)
  have a: "others_kept host st (fst (append_mobile_upload_chunk cfg host i offset bytes disk now st))" for i offset bytes disk
    by (rule others_keptI [OF s rows_kept_chunk]) (rule foreign_upload_refused)
  show ?thesis
    using f k a create_keeps others_kept_same
    by (cases c)
      (auto simp: post_upload_def put_chunk_def post_finalize_state post_cancel_state as_native_def Let_def
        split: option.split)
qed

lemma native_refused:
  "is_mobile_native who = None \<or> (\<exists>h. is_mobile_native who = Some h \<and> \<not> registration_is_live st h) \<Longrightarrow>
   native_state cfg sha who c now st = st"
  by (cases c) (auto simp: post_upload_def put_chunk_def post_finalize_def post_upload_cancel_def as_native_def)



text \<open>
  A busy upload answers 500. While an upload is being copied to its folder, a chunk, a
  finalize or a cancel of its owner is answered with the internal error 500, although the
  routes document 409 for a busy upload, and nothing changes.
\<close>

theorem busy_uploads_answer_500:
  assumes "i \<in> set (ms_locks st)" and "registration_is_live st host"
    and "parse_offset header = Some n" and "read_raw_body_bounded body (mc_chunk_bytes cfg) = Some bytes"
  shows "put_chunk cfg (Some (Mobile_Token host)) i header body disk now st = (st, 500, Mb_Error) \<and>
    post_finalize sha io (Some (Mobile_Token host)) i now st = (st, Some (500, Mb_Error)) \<and>
    post_upload_cancel (Some (Mobile_Token host)) i now st = (st, 500, Mb_Error)"
  using assms
  by (simp add: put_chunk_def post_finalize_def post_upload_cancel_def as_native_def append_mobile_upload_chunk_def
      finalize_mobile_upload_def cancel_mobile_upload_def cancel_response_def)

theorem busy_uploads_answer_500_witness:
  "post_upload_cancel (Some (Mobile_Token ''h1'')) ''u9'' 5 (sample_mobile\<lparr> ms_locks := [''u9''] \<rparr>) =
     (sample_mobile\<lparr> ms_locks := [''u9''] \<rparr>, 500, Mb_Error)"
  using busy_uploads_answer_500 [of "''u9''" "sample_mobile\<lparr> ms_locks := [''u9''] \<rparr>" "''h1''" "Some ''0''" 0
      "Some [''ab'']" sample_limits "''ab''" "Wrote 2" 5 toy_sha good_io]
  by (simp add: sample_mobile_def registration_is_live_def find_registration_def parse_offset_def parse_dec_def
      is_digit_def read_raw_body_bounded_def sample_limits_def)

text \<open>Reading another phone's upload tells that it exists: 403, where an unknown one gives 404.\<close>

theorem foreign_uploads_can_be_probed:
  "registration_is_live st host \<Longrightarrow> find_upload st i = Some row \<Longrightarrow> up_registration_id row \<noteq> host \<Longrightarrow>
     get_upload (Some (Mobile_Token host)) i st = (st, 403, Mb_Error) \<and>
   (find_upload st j = None \<longrightarrow> get_upload (Some (Mobile_Token host)) j st = (st, 404, Mb_Error))"
  by (simp add: get_upload_def own_upload_def)

end
