(* ===== verification/Mobile_Enrollment.thy ===== *)
theory Mobile_Enrollment
  imports Prelude
begin

text \<open>
  Pairing a phone, \<open>server/src/mobile-store.ts\<close>: an administrator shows a QR code (an
  enrollment), the phone exchanges it once for a native token and a web grant, the grant buys
  web sessions of twelve hours, a reconnect code rotates the credentials of a device that
  exists, and revoking ends all of them.

  State: the tables are lists of their rows. Random ids and secrets, the clock, the hash \<open>sha\<close>
  and the configured origin are arguments. A transaction that throws leaves the state as it
  was. Strings that name a state of a row are datatypes.
\<close>

section \<open>Rows\<close>

datatype enrollment_kind = En_New | En_Reconnect

datatype enrollment_status = Es_Pending | Es_Used | Es_Expired | Es_Revoked

record mobile_enrollment_row =
  en_id :: string
  en_secret_hash :: string
  en_host_id :: string
  en_kind :: enrollment_kind
  en_client_type :: string
  en_web_admin :: bool
  en_status :: enrollment_status
  en_expires_at :: int
  en_created_at :: int
  en_consumed_at :: "int option"
  en_revoked_at :: "int option"

record mobile_registration_row =
  rg_host_id :: string
  rg_client_type :: string
  rg_display_name :: string
  rg_app_version :: string
  rg_native_token_hash :: string
  rg_created_at :: int
  rg_last_seen_at :: "int option"
  rg_revoked_at :: "int option"
  rg_revoked_reason :: "string option"

record web_grant_row =
  wg_id :: string
  wg_grant_hash :: string
  wg_registration_id :: string
  wg_admin :: bool
  wg_created_at :: int
  wg_revoked_at :: "int option"
  wg_revoked_reason :: "string option"

record web_session_row =
  ws_id :: string
  ws_session_hash :: string
  ws_registration_id :: string
  ws_grant_id :: string
  ws_admin :: bool
  ws_issued_at :: int
  ws_expires_at :: int
  ws_revoked_at :: "int option"

record mobile_host_row =
  mh_id :: string
  mh_hostname :: string
  mh_last_seen :: int

record mobile_store =
  st_enrollments :: "mobile_enrollment_row list"
  st_registrations :: "mobile_registration_row list"
  st_grants :: "web_grant_row list"
  st_sessions :: "web_session_row list"
  st_hosts :: "mobile_host_row list"

definition is_row_revoked :: "int option \<Rightarrow> bool" where
  "is_row_revoked r = (case r of None \<Rightarrow> False | Some t \<Rightarrow> t > 0)"

definition ENROLLMENT_TTL_MS :: int where "ENROLLMENT_TTL_MS = 10 * 60 * 1000"
definition SESSION_TTL_MS :: int where "SESSION_TTL_MS = 12 * 60 * 60 * 1000"

section \<open>Digests\<close>

text \<open>\<open>Buffer.from(s, "hex")\<close> reads pairs of hexadecimal digits up to the first that is none.\<close>

definition hex_value :: "char \<Rightarrow> nat option" where
  "hex_value c =
     (let n = of_char c
      in if 48 \<le> n \<and> n \<le> 57 then Some (n - 48)
         else if 97 \<le> n \<and> n \<le> 102 then Some (n - 87)
         else if 65 \<le> n \<and> n \<le> 70 then Some (n - 55) else None)"

fun hex_bytes :: "string \<Rightarrow> nat list" where
  "hex_bytes (a # b # s) =
     (case (hex_value a, hex_value b) of (Some x, Some y) \<Rightarrow> (16 * x + y) # hex_bytes s | _ \<Rightarrow> [])"
| "hex_bytes _ = []"

definition hashes_equal :: "string \<Rightarrow> string \<Rightarrow> bool" where
  "hashes_equal a b \<longleftrightarrow>
     \<not> (length (hex_bytes a) \<noteq> length (hex_bytes b) \<or> length (hex_bytes a) = 0) \<and> hex_bytes a = hex_bytes b"

section \<open>Reads\<close>

definition find_registration_by_host_id :: "mobile_store \<Rightarrow> string \<Rightarrow> mobile_registration_row option" where
  "find_registration_by_host_id st h = find (\<lambda>r. rg_host_id r = h) (st_registrations st)"

definition find_enrollment :: "mobile_store \<Rightarrow> string \<Rightarrow> mobile_enrollment_row option" where
  "find_enrollment st i = find (\<lambda>e. en_id e = i) (st_enrollments st)"

definition enrollment_status_of :: "mobile_enrollment_row \<Rightarrow> int \<Rightarrow> enrollment_status" where
  "enrollment_status_of e now =
     (if en_status e = Es_Pending \<and> en_expires_at e \<le> now then Es_Expired else en_status e)"

text \<open>What the administrator polls: the status, and the paired device once there is one.\<close>

definition mobile_enrollment_status ::
    "mobile_store \<Rightarrow> string \<Rightarrow> int \<Rightarrow> (enrollment_status \<times> int \<times> mobile_registration_row option) option" where
  "mobile_enrollment_status st i now =
     (case find_enrollment st i of
        None \<Rightarrow> None
      | Some e \<Rightarrow>
          (let status = enrollment_status_of e now
           in Some (status, en_expires_at e,
                if status \<noteq> Es_Pending \<and> status \<noteq> Es_Expired then find_registration_by_host_id st (en_host_id e)
                else None)))"

definition list_mobile_registrations :: "mobile_store \<Rightarrow> mobile_registration_row list" where
  "list_mobile_registrations st = rev (sort_key rg_created_at (rev (st_registrations st)))"

definition resolve_native_host :: "(string \<Rightarrow> string) \<Rightarrow> mobile_store \<Rightarrow> string \<Rightarrow> string option" where
  "resolve_native_host sha st token =
     (case find (\<lambda>r. rg_native_token_hash r = sha token) (st_registrations st) of
        None \<Rightarrow> None
      | Some r \<Rightarrow> if is_row_revoked (rg_revoked_at r) then None else Some (rg_host_id r))"

definition resolve_live_session ::
    "(string \<Rightarrow> string) \<Rightarrow> mobile_store \<Rightarrow> string \<Rightarrow> int \<Rightarrow>
     (web_session_row \<times> mobile_registration_row \<times> web_grant_row) option" where
  "resolve_live_session sha st secret now =
     (case find (\<lambda>s. ws_session_hash s = sha secret) (st_sessions st) of
        None \<Rightarrow> None
      | Some s \<Rightarrow>
          if is_row_revoked (ws_revoked_at s) \<or> ws_expires_at s \<le> now then None
          else (case find_registration_by_host_id st (ws_registration_id s) of
             None \<Rightarrow> None
           | Some r \<Rightarrow>
               if is_row_revoked (rg_revoked_at r) then None
               else (case find (\<lambda>g. wg_id g = ws_grant_id s) (st_grants st) of
                  None \<Rightarrow> None
                | Some g \<Rightarrow> if is_row_revoked (wg_revoked_at g) then None else Some (s, r, g))))"

text \<open>The grants a reconnect may restore the authority of.\<close>

definition live_grants :: "mobile_store \<Rightarrow> string \<Rightarrow> web_grant_row list" where
  "live_grants st h =
     filter (\<lambda>g. wg_registration_id g = h \<and> (wg_revoked_at g = None \<or> wg_revoked_at g = Some 0)) (st_grants st)"

definition resolve_reconnect_authority :: "mobile_store \<Rightarrow> string \<Rightarrow> nat + bool" where
  "resolve_reconnect_authority st h =
     (case live_grants st h of [g] \<Rightarrow> Inr (wg_admin g) | gs \<Rightarrow> Inl (length gs))"

section \<open>Enrollments\<close>

text \<open>The insert fails on the unique id and the unique secret hash.\<close>

definition insert_enrollment_row :: "mobile_enrollment_row \<Rightarrow> mobile_store \<Rightarrow> mobile_store option" where
  "insert_enrollment_row e st =
     (if list_ex (\<lambda>x. en_id x = en_id e \<or> en_secret_hash x = en_secret_hash e) (st_enrollments st) then None
      else Some (st\<lparr> st_enrollments := st_enrollments st @ [e] \<rparr>))"

definition new_enrollment_row ::
    "string \<Rightarrow> string \<Rightarrow> string \<Rightarrow> enrollment_kind \<Rightarrow> string \<Rightarrow> bool \<Rightarrow> int \<Rightarrow> mobile_enrollment_row" where
  "new_enrollment_row i hash host kind client admin now =
     \<lparr> en_id = i, en_secret_hash = hash, en_host_id = host, en_kind = kind, en_client_type = client,
       en_web_admin = admin, en_status = Es_Pending, en_expires_at = now + ENROLLMENT_TTL_MS,
       en_created_at = now, en_consumed_at = None, en_revoked_at = None \<rparr>"

definition revoke_enrollments_where ::
    "(mobile_enrollment_row \<Rightarrow> bool) \<Rightarrow> int \<Rightarrow> mobile_store \<Rightarrow> mobile_store" where
  "revoke_enrollments_where P now st =
     st\<lparr> st_enrollments := map (\<lambda>e. if P e then e\<lparr> en_status := Es_Revoked, en_revoked_at := Some now \<rparr> else e)
           (st_enrollments st) \<rparr>"

definition revoke_other_pending_new_enrollments :: "string \<Rightarrow> int \<Rightarrow> mobile_store \<Rightarrow> mobile_store" where
  "revoke_other_pending_new_enrollments keep =
     revoke_enrollments_where (\<lambda>e. en_id e \<noteq> keep \<and> en_status e = Es_Pending \<and> en_kind e = En_New)"

definition revoke_other_pending_reconnects_for_host :: "string \<Rightarrow> string \<Rightarrow> int \<Rightarrow> mobile_store \<Rightarrow> mobile_store" where
  "revoke_other_pending_reconnects_for_host host keep =
     revoke_enrollments_where (\<lambda>e. en_id e \<noteq> keep \<and> en_host_id e = host \<and> en_status e = Es_Pending \<and>
                                     en_kind e = En_Reconnect)"

datatype enroll_outcome =
    Enrolled mobile_enrollment_row | Enroll_Not_Found | Enroll_Revoked | Authority_Unresolved nat | Enroll_Threw

definition create_mobile_enrollment ::
    "(string \<Rightarrow> string) \<Rightarrow> string option \<Rightarrow> bool \<Rightarrow> string \<Rightarrow> string \<Rightarrow> string \<Rightarrow> string \<Rightarrow> int \<Rightarrow> mobile_store \<Rightarrow>
     mobile_store \<times> enroll_outcome" where
  "create_mobile_enrollment sha origin web_admin client i host secret now st =
     (if origin = None then (st, Enroll_Threw)
      else (let e = new_enrollment_row i (sha secret) host En_New client web_admin now
            in case insert_enrollment_row e st of
                 None \<Rightarrow> (st, Enroll_Threw)
               | Some st' \<Rightarrow> (revoke_other_pending_new_enrollments i now st', Enrolled e)))"

definition create_reconnect_enrollment ::
    "(string \<Rightarrow> string) \<Rightarrow> string option \<Rightarrow> string \<Rightarrow> string \<Rightarrow> string \<Rightarrow> int \<Rightarrow> mobile_store \<Rightarrow>
     mobile_store \<times> enroll_outcome" where
  "create_reconnect_enrollment sha origin host i secret now st =
     (if origin = None then (st, Enroll_Threw)
      else case find_registration_by_host_id st host of
        None \<Rightarrow> (st, Enroll_Not_Found)
      | Some r \<Rightarrow>
          if is_row_revoked (rg_revoked_at r) then (st, Enroll_Revoked)
          else (case resolve_reconnect_authority st host of
             Inl n \<Rightarrow> (st, Authority_Unresolved n)
           | Inr admin \<Rightarrow>
               (let e = new_enrollment_row i (sha secret) host En_Reconnect (rg_client_type r) admin now
                in case insert_enrollment_row e st of
                     None \<Rightarrow> (st, Enroll_Threw)
                   | Some st' \<Rightarrow> (revoke_other_pending_reconnects_for_host host i now st', Enrolled e))))"

section \<open>The exchange\<close>

record exchange_secrets =
  xs_native_token :: string
  xs_web_grant :: string
  xs_grant_id :: string

datatype exchange_outcome =
    Ex_Ok string bool "string list"
  | Ex_Not_Found | Ex_Used | Ex_Expired | Ex_Revoked | Ex_Invalid_Secret | Ex_Target_Unavailable | Ex_Threw

text \<open>The gate of the transaction: pending and unexpired, flipped to used.\<close>

definition claim_pending_enrollment :: "string \<Rightarrow> int \<Rightarrow> mobile_store \<Rightarrow> mobile_store option" where
  "claim_pending_enrollment i now st =
     (let hit = (\<lambda>e. en_id e = i \<and> en_status e = Es_Pending \<and> en_expires_at e > now)
      in if length (filter hit (st_enrollments st)) \<noteq> 1 then None
         else Some (st\<lparr> st_enrollments := map (\<lambda>e. if hit e then e\<lparr> en_status := Es_Used, en_consumed_at := Some now \<rparr>
                                                    else e) (st_enrollments st) \<rparr>))"

text \<open>The outcome a lost claim reports.\<close>

definition claim_lost :: "mobile_store \<Rightarrow> string \<Rightarrow> int \<Rightarrow> exchange_outcome" where
  "claim_lost st i now =
     (case find_enrollment st i of
        None \<Rightarrow> Ex_Not_Found
      | Some e \<Rightarrow>
          (case enrollment_status_of e now of
             Es_Used \<Rightarrow> Ex_Used | Es_Expired \<Rightarrow> Ex_Expired | Es_Revoked \<Rightarrow> Ex_Revoked | Es_Pending \<Rightarrow> Ex_Not_Found))"

definition new_grant_row ::
    "(string \<Rightarrow> string) \<Rightarrow> exchange_secrets \<Rightarrow> string \<Rightarrow> bool \<Rightarrow> int \<Rightarrow> web_grant_row" where
  "new_grant_row sha xs host admin now =
     \<lparr> wg_id = xs_grant_id xs, wg_grant_hash = sha (xs_web_grant xs), wg_registration_id = host,
       wg_admin = admin, wg_created_at = now, wg_revoked_at = None, wg_revoked_reason = None \<rparr>"

text \<open>The insert of a grant fails on its id, its hash, and a second live grant of the device.\<close>

definition insert_grant :: "web_grant_row \<Rightarrow> mobile_store \<Rightarrow> mobile_store option" where
  "insert_grant g st =
     (if list_ex (\<lambda>x. wg_id x = wg_id g \<or> wg_grant_hash x = wg_grant_hash g \<or>
                       wg_registration_id x = wg_registration_id g \<and> wg_revoked_at x = None) (st_grants st) then None
      else Some (st\<lparr> st_grants := st_grants st @ [g] \<rparr>))"

definition insert_registration :: "mobile_registration_row \<Rightarrow> mobile_store \<Rightarrow> mobile_store option" where
  "insert_registration r st =
     (if list_ex (\<lambda>x. rg_host_id x = rg_host_id r \<or> rg_native_token_hash x = rg_native_token_hash r)
           (st_registrations st) then None
      else Some (st\<lparr> st_registrations := st_registrations st @ [r] \<rparr>))"

definition exchange_new_enrollment ::
    "(string \<Rightarrow> string) \<Rightarrow> string option \<Rightarrow> exchange_secrets \<Rightarrow> mobile_enrollment_row \<Rightarrow> string \<Rightarrow> string \<Rightarrow> int \<Rightarrow>
     mobile_store \<Rightarrow> mobile_store \<times> exchange_outcome" where
  "exchange_new_enrollment sha origin xs row display_name app_version now st =
     (let host = en_host_id row;
          reg = \<lparr> rg_host_id = host, rg_client_type = ''android'', rg_display_name = display_name,
                  rg_app_version = app_version, rg_native_token_hash = sha (xs_native_token xs),
                  rg_created_at = now, rg_last_seen_at = None, rg_revoked_at = None, rg_revoked_reason = None \<rparr>
      in if origin = None then (st, Ex_Threw)
         else case claim_pending_enrollment (en_id row) now st of
           None \<Rightarrow> (st, claim_lost st (en_id row) now)
         | Some st1 \<Rightarrow>
             if list_ex (\<lambda>h. mh_id h = host) (st_hosts st1) then (st, Ex_Threw)
             else (case insert_registration reg
                       (st1\<lparr> st_hosts := st_hosts st1 @ [\<lparr> mh_id = host, mh_hostname = display_name, mh_last_seen = now \<rparr>] \<rparr>) of
                None \<Rightarrow> (st, Ex_Threw)
              | Some st2 \<Rightarrow>
                  (case insert_grant (new_grant_row sha xs host (en_web_admin row) now) st2 of
                     None \<Rightarrow> (st, Ex_Threw)
                   | Some st3 \<Rightarrow> (st3, Ex_Ok host False []))))"

definition RECONNECT_ROTATED_REASON :: string where
  "RECONNECT_ROTATED_REASON = ''credentials rotated by reconnect''"

definition live_row :: "int option \<Rightarrow> bool" where
  "live_row r \<longleftrightarrow> r = None \<or> r = Some 0"

text \<open>The updates of the rotation, after the claim.\<close>

definition rotate_registration ::
    "string \<Rightarrow> string \<Rightarrow> string \<Rightarrow> string \<Rightarrow> int \<Rightarrow> mobile_store \<Rightarrow> mobile_store option" where
  "rotate_registration host hash display_name app_version now st =
     (let hit = (\<lambda>r. rg_host_id r = host \<and> live_row (rg_revoked_at r))
      in if length (filter hit (st_registrations st)) \<noteq> 1 then None
         else Some (st\<lparr> st_registrations :=
                map (\<lambda>r. if hit r then r\<lparr> rg_native_token_hash := hash, rg_display_name := display_name,
                                            rg_app_version := app_version, rg_last_seen_at := Some now \<rparr> else r)
                  (st_registrations st) \<rparr>))"

definition revoke_grants :: "string \<Rightarrow> string option \<Rightarrow> int \<Rightarrow> (web_grant_row \<Rightarrow> bool) \<Rightarrow> mobile_store \<Rightarrow> mobile_store" where
  "revoke_grants host reason now P st =
     st\<lparr> st_grants := map (\<lambda>g. if wg_registration_id g = host \<and> P g
            then g\<lparr> wg_revoked_at := Some now, wg_revoked_reason := reason \<rparr> else g) (st_grants st) \<rparr>"

definition open_sessions :: "string \<Rightarrow> mobile_store \<Rightarrow> web_session_row list" where
  "open_sessions host st = filter (\<lambda>s. ws_registration_id s = host \<and> ws_revoked_at s = None) (st_sessions st)"

definition revoke_sessions :: "string \<Rightarrow> int \<Rightarrow> mobile_store \<Rightarrow> mobile_store" where
  "revoke_sessions host now st =
     st\<lparr> st_sessions := map (\<lambda>s. if ws_registration_id s = host \<and> ws_revoked_at s = None
            then s\<lparr> ws_revoked_at := Some now \<rparr> else s) (st_sessions st) \<rparr>"

text \<open>The host row: a heartbeat, and the new name while it still carries the old one.\<close>

definition rename_host :: "string \<Rightarrow> string \<Rightarrow> string \<Rightarrow> int \<Rightarrow> mobile_store \<Rightarrow> mobile_store" where
  "rename_host host old_name display_name now st =
     st\<lparr> st_hosts := map (\<lambda>h. if mh_id h = host
            then h\<lparr> mh_last_seen := now, mh_hostname := (if mh_hostname h = old_name then display_name else mh_hostname h) \<rparr>
            else h) (st_hosts st) \<rparr>"

definition exchange_reconnect_enrollment ::
    "(string \<Rightarrow> string) \<Rightarrow> string option \<Rightarrow> exchange_secrets \<Rightarrow> mobile_enrollment_row \<Rightarrow> string \<Rightarrow> string \<Rightarrow> int \<Rightarrow>
     mobile_store \<Rightarrow> mobile_store \<times> exchange_outcome" where
  "exchange_reconnect_enrollment sha origin xs row display_name app_version now st =
     (let host = en_host_id row
      in case find_registration_by_host_id st host of
           None \<Rightarrow> (st, Ex_Target_Unavailable)
         | Some old \<Rightarrow>
             if is_row_revoked (rg_revoked_at old) then (st, Ex_Target_Unavailable)
             else if origin = None then (st, Ex_Threw)
             else (case claim_pending_enrollment (en_id row) now st of
                None \<Rightarrow> (st, claim_lost st (en_id row) now)
              | Some st1 \<Rightarrow>
                  (case rotate_registration host (sha (xs_native_token xs)) display_name app_version now st1 of
                     None \<Rightarrow> (st, Ex_Target_Unavailable)
                   | Some st2 \<Rightarrow>
                       if length (filter (\<lambda>r. rg_native_token_hash r = sha (xs_native_token xs)) (st_registrations st2)) \<noteq> 1
                       then (st, Ex_Threw)
                       else
                         (let ids = map ws_id (open_sessions host st2);
                              st3 = revoke_sessions host now
                                      (revoke_grants host (Some RECONNECT_ROTATED_REASON) now (\<lambda>g. wg_revoked_at g = None) st2)
                          in case insert_grant (new_grant_row sha xs host (en_web_admin row) now) st3 of
                               None \<Rightarrow> (st, Ex_Threw)
                             | Some st4 \<Rightarrow>
                                 (rename_host host (rg_display_name old) display_name now st4, Ex_Ok host True ids)))))"

definition exchange_mobile_enrollment ::
    "(string \<Rightarrow> string) \<Rightarrow> string option \<Rightarrow> exchange_secrets \<Rightarrow> string \<Rightarrow> string \<Rightarrow> string \<Rightarrow> string \<Rightarrow> int \<Rightarrow>
     mobile_store \<Rightarrow> mobile_store \<times> exchange_outcome" where
  "exchange_mobile_enrollment sha origin xs i secret display_name app_version now st =
     (case find_enrollment st i of
        None \<Rightarrow> (st, Ex_Not_Found)
      | Some row \<Rightarrow>
          (let status = enrollment_status_of row now
           in if status = Es_Used then (st, Ex_Used)
              else if status = Es_Expired then (st, Ex_Expired)
              else if status = Es_Revoked then (st, Ex_Revoked)
              else if \<not> hashes_equal (sha secret) (en_secret_hash row) then (st, Ex_Invalid_Secret)
              else if en_kind row = En_Reconnect
                then exchange_reconnect_enrollment sha origin xs row display_name app_version now st
              else exchange_new_enrollment sha origin xs row display_name app_version now st))"

section \<open>Sessions and revocation\<close>

definition mobile_check_in :: "string \<Rightarrow> string \<Rightarrow> int \<Rightarrow> mobile_store \<Rightarrow> mobile_store" where
  "mobile_check_in host app_version now st =
     st\<lparr> st_registrations := map (\<lambda>r. if rg_host_id r = host
            then r\<lparr> rg_last_seen_at := Some now, rg_app_version := app_version \<rparr> else r) (st_registrations st),
         st_hosts := map (\<lambda>h. if mh_id h = host then h\<lparr> mh_last_seen := now \<rparr> else h) (st_hosts st) \<rparr>"

datatype bootstrap_outcome = Boot_Ok web_session_row | Boot_Invalid_Grant | Boot_Non_Admin_Grant | Boot_Threw

definition bootstrap_mobile_web_session ::
    "(string \<Rightarrow> string) \<Rightarrow> string \<Rightarrow> string \<Rightarrow> string \<Rightarrow> int \<Rightarrow> mobile_store \<Rightarrow> mobile_store \<times> bootstrap_outcome" where
  "bootstrap_mobile_web_session sha grant session_secret session_id now st =
     (case find (\<lambda>g. wg_grant_hash g = sha grant) (st_grants st) of
        None \<Rightarrow> (st, Boot_Invalid_Grant)
      | Some g \<Rightarrow>
          if is_row_revoked (wg_revoked_at g) then (st, Boot_Invalid_Grant)
          else (case find_registration_by_host_id st (wg_registration_id g) of
             None \<Rightarrow> (st, Boot_Invalid_Grant)
           | Some r \<Rightarrow>
               if is_row_revoked (rg_revoked_at r) then (st, Boot_Invalid_Grant)
               else if \<not> wg_admin g then (st, Boot_Non_Admin_Grant)
               else
                 (let s = \<lparr> ws_id = session_id, ws_session_hash = sha session_secret,
                            ws_registration_id = rg_host_id r, ws_grant_id = wg_id g, ws_admin = wg_admin g,
                            ws_issued_at = now, ws_expires_at = now + SESSION_TTL_MS, ws_revoked_at = None \<rparr>
                  in if list_ex (\<lambda>x. ws_id x = session_id \<or> ws_session_hash x = sha session_secret) (st_sessions st)
                     then (st, Boot_Threw)
                     else (st\<lparr> st_sessions := st_sessions st @ [s] \<rparr>, Boot_Ok s))))"

definition revoke_registration_row :: "string \<Rightarrow> string option \<Rightarrow> int \<Rightarrow> mobile_store \<Rightarrow> mobile_store" where
  "revoke_registration_row host reason now st =
     st\<lparr> st_registrations := map (\<lambda>r. if rg_host_id r = host
            then r\<lparr> rg_revoked_at := Some now, rg_revoked_reason := reason \<rparr> else r) (st_registrations st) \<rparr>"

text \<open>\<open>revokeMobileRegistration\<close>: \<open>None\<close> is an unknown device, else the time of the revocation.\<close>

definition revoke_registration_everywhere ::
    "string \<Rightarrow> string option \<Rightarrow> int \<Rightarrow> mobile_store \<Rightarrow> mobile_store \<times> int option" where
  "revoke_registration_everywhere host reason now st =
     (case find_registration_by_host_id st host of
        None \<Rightarrow> (st, None)
      | Some r \<Rightarrow>
          if is_row_revoked (rg_revoked_at r) then (st, rg_revoked_at r)
          else (revoke_enrollments_where (\<lambda>e. en_host_id e = host \<and> en_status e \<noteq> Es_Revoked) now
                  (revoke_sessions host now
                     (revoke_grants host reason now (\<lambda>_. True) (revoke_registration_row host reason now st))),
                Some now))"

definition revoke_mobile_web_session :: "(string \<Rightarrow> string) \<Rightarrow> string \<Rightarrow> int \<Rightarrow> mobile_store \<Rightarrow> mobile_store \<times> bool" where
  "revoke_mobile_web_session sha secret now st =
     (let hit = (\<lambda>s. ws_session_hash s = sha secret \<and> ws_revoked_at s = None)
      in (st\<lparr> st_sessions := map (\<lambda>s. if hit s then s\<lparr> ws_revoked_at := Some now \<rparr> else s) (st_sessions st) \<rparr>,
          length (filter hit (st_sessions st)) = 1))"

section \<open>Rate limits of the exchange\<close>

record rate_bucket =
  rb_window_start :: int
  rb_count :: int

type_synonym buckets = "(string \<times> rate_bucket) list"

record rate_limits =
  rl_address :: buckets
  rl_enrollment :: buckets
  rl_counter :: nat

definition EXCHANGE_ADDRESS_LIMIT :: int where "EXCHANGE_ADDRESS_LIMIT = 10"
definition EXCHANGE_ENROLLMENT_LIMIT :: int where "EXCHANGE_ENROLLMENT_LIMIT = 5"
definition EXCHANGE_WINDOW_MS :: int where "EXCHANGE_WINDOW_MS = 60000"
definition RATE_LIMIT_PRUNE_EVERY :: nat where "RATE_LIMIT_PRUNE_EVERY = 64"
definition RATE_LIMIT_MAX_ENTRIES :: nat where "RATE_LIMIT_MAX_ENTRIES = 512"

definition drop_expired :: "int \<Rightarrow> buckets \<Rightarrow> buckets" where
  "drop_expired now bs = filter (\<lambda>(_, b). \<not> (now - rb_window_start b \<ge> EXCHANGE_WINDOW_MS)) bs"

definition enforce_bucket_cap :: "buckets \<Rightarrow> buckets" where
  "enforce_bucket_cap bs =
     (if length bs \<le> RATE_LIMIT_MAX_ENTRIES then bs
      else (let victims = map fst (take (length bs - RATE_LIMIT_MAX_ENTRIES) (sort_key (rb_window_start \<circ> snd) bs))
            in filter (\<lambda>(k, _). k \<notin> set victims) bs))"

definition set_bucket :: "string \<Rightarrow> rate_bucket \<Rightarrow> buckets \<Rightarrow> buckets" where
  "set_bucket k b bs =
     (if list_ex (\<lambda>(k', _). k' = k) bs then map (\<lambda>(k', b'). (k', if k' = k then b else b')) bs
      else bs @ [(k, b)])"

definition bump :: "string \<Rightarrow> int \<Rightarrow> int \<Rightarrow> buckets \<Rightarrow> buckets \<times> bool" where
  "bump k limit now bs =
     (case map_of bs k of
        None \<Rightarrow> (set_bucket k \<lparr> rb_window_start = now, rb_count = 1 \<rparr> bs, True)
      | Some b \<Rightarrow>
          if now - rb_window_start b \<ge> EXCHANGE_WINDOW_MS
          then (set_bucket k \<lparr> rb_window_start = now, rb_count = 1 \<rparr> bs, True)
          else if rb_count b \<ge> limit then (bs, False)
          else (set_bucket k (b\<lparr> rb_count := rb_count b + 1 \<rparr>) bs, True))"

definition refund :: "string \<Rightarrow> buckets \<Rightarrow> buckets" where
  "refund k bs =
     (case map_of bs k of
        None \<Rightarrow> bs
      | Some b \<Rightarrow> set_bucket k (b\<lparr> rb_count := max 0 (rb_count b - 1) \<rparr>) bs)"

definition mobile_exchange_allowed :: "string \<Rightarrow> string \<Rightarrow> int \<Rightarrow> rate_limits \<Rightarrow> rate_limits \<times> bool" where
  "mobile_exchange_allowed address enrollment now rl =
     (let c = (rl_counter rl + 1) mod RATE_LIMIT_PRUNE_EVERY;
          as = (if c = 0 then drop_expired now (rl_address rl) else rl_address rl);
          es = (if c = 0 then drop_expired now (rl_enrollment rl) else rl_enrollment rl);
          (as1, allowed) = bump (''addr:'' @ address) EXCHANGE_ADDRESS_LIMIT now as
      in if allowed then
           (let (es1, ok) = bump (''enr:'' @ enrollment) EXCHANGE_ENROLLMENT_LIMIT now es;
                as2 = (if ok then as1 else refund (''addr:'' @ address) as1)
            in (\<lparr> rl_address = enforce_bucket_cap as2, rl_enrollment = enforce_bucket_cap es1, rl_counter = c \<rparr>, ok))
         else (\<lparr> rl_address = enforce_bucket_cap as1, rl_enrollment = es, rl_counter = c \<rparr>, False))"

end
