(* ===== verification/Enrollment_Safety.thy ===== *)
theory Enrollment_Safety
  imports Mobile_Enrollment
begin

text \<open>
  What every run of the requests of \<^theory_text>\<open>Mobile_Enrollment\<close> keeps, the clock being positive: a
  code buys credentials once, revocation is final, a reconnect ends the old credentials and
  gives no more authority than the pairing did.
\<close>

section \<open>Requests and runs\<close>

datatype enroll_request =
    Eq_Create "string option" bool string string string string
  | Eq_Reconnect "string option" string string string
  | Eq_Exchange "string option" exchange_secrets string string string string
  | Eq_Check_In string string
  | Eq_Bootstrap string string string
  | Eq_Revoke string "string option"
  | Eq_Logout string

fun handle_enroll :: "(string \<Rightarrow> string) \<Rightarrow> enroll_request \<Rightarrow> int \<Rightarrow> mobile_store \<Rightarrow> mobile_store" where
  "handle_enroll sha (Eq_Create origin admin client i host secret) now st =
     fst (create_mobile_enrollment sha origin admin client i host secret now st)"
| "handle_enroll sha (Eq_Reconnect origin host i secret) now st =
     fst (create_reconnect_enrollment sha origin host i secret now st)"
| "handle_enroll sha (Eq_Exchange origin xs i secret name ver) now st =
     fst (exchange_mobile_enrollment sha origin xs i secret name ver now st)"
| "handle_enroll sha (Eq_Check_In host ver) now st = mobile_check_in host ver now st"
| "handle_enroll sha (Eq_Bootstrap grant secret sid) now st =
     fst (bootstrap_mobile_web_session sha grant secret sid now st)"
| "handle_enroll sha (Eq_Revoke host reason) now st = fst (revoke_registration_everywhere host reason now st)"
| "handle_enroll sha (Eq_Logout secret) now st = fst (revoke_mobile_web_session sha secret now st)"

text \<open>An empty store, among any other hosts, and what requests make of it.\<close>

definition store_start :: "mobile_store \<Rightarrow> bool" where
  "store_start st \<longleftrightarrow>
     st_enrollments st = [] \<and> st_registrations st = [] \<and> st_grants st = [] \<and> st_sessions st = []"

inductive store_later :: "(string \<Rightarrow> string) \<Rightarrow> mobile_store \<Rightarrow> mobile_store \<Rightarrow> bool" for sha where
  now: "store_later sha st st"
| step: "store_later sha st st' \<Longrightarrow> 0 < t \<Longrightarrow> store_later sha st (handle_enroll sha req t st')"

definition store_reach :: "(string \<Rightarrow> string) \<Rightarrow> mobile_store \<Rightarrow> bool" where
  "store_reach sha st \<longleftrightarrow> (\<exists>st0. store_start st0 \<and> store_later sha st0 st)"

section \<open>A successful exchange\<close>

lemma claim_Some:
  "claim_pending_enrollment i now st = Some st1 \<Longrightarrow>
   st_registrations st1 = st_registrations st \<and> st_grants st1 = st_grants st \<and> st_sessions st1 = st_sessions st \<and>
   st_hosts st1 = st_hosts st \<and>
   st_enrollments st1 = map (\<lambda>e. if en_id e = i \<and> en_status e = Es_Pending \<and> en_expires_at e > now
      then e\<lparr> en_status := Es_Used, en_consumed_at := Some now \<rparr> else e) (st_enrollments st)"
  by (auto simp: claim_pending_enrollment_def Let_def split: if_splits)

lemma insert_registration_Some:
  "insert_registration r st = Some st' \<longleftrightarrow>
     (\<forall>x\<in>set (st_registrations st). rg_host_id x \<noteq> rg_host_id r \<and> rg_native_token_hash x \<noteq> rg_native_token_hash r) \<and>
     st' = st\<lparr> st_registrations := st_registrations st @ [r] \<rparr>"
  by (auto simp: insert_registration_def list_ex_iff)

lemma insert_grant_Some:
  "insert_grant g st = Some st' \<longleftrightarrow>
     (\<forall>x\<in>set (st_grants st). wg_id x \<noteq> wg_id g \<and> wg_grant_hash x \<noteq> wg_grant_hash g \<and>
        \<not> (wg_registration_id x = wg_registration_id g \<and> wg_revoked_at x = None)) \<and>
     st' = st\<lparr> st_grants := st_grants st @ [g] \<rparr>"
  by (auto simp: insert_grant_def list_ex_iff)

lemma insert_enrollment_Some:
  "insert_enrollment_row e st = Some st' \<longleftrightarrow>
     (\<forall>x\<in>set (st_enrollments st). en_id x \<noteq> en_id e \<and> en_secret_hash x \<noteq> en_secret_hash e) \<and>
     st' = st\<lparr> st_enrollments := st_enrollments st @ [e] \<rparr>"
  by (auto simp: insert_enrollment_row_def list_ex_iff)

lemma exchange_new_cases:
  assumes "exchange_new_enrollment sha origin xs row name ver now st = (st', out)"
  obtains "st' = st" "\<forall>h b ids. out \<noteq> Ex_Ok h b ids"
  | st1 r where "claim_pending_enrollment (en_id row) now st = Some st1"
      "out = Ex_Ok (en_host_id row) False []" "en_host_id row \<notin> mh_id ` set (st_hosts st)"
      "en_host_id row \<notin> rg_host_id ` set (st_registrations st)" "rg_host_id r = en_host_id row" "rg_revoked_at r = None"
      "st' = st1\<lparr> st_hosts := st_hosts st1 @ [\<lparr> mh_id = en_host_id row, mh_hostname = name, mh_last_seen = now \<rparr>],
                  st_registrations := st_registrations st1 @ [r],
                  st_grants := st_grants st1 @ [new_grant_row sha xs (en_host_id row) (en_web_admin row) now] \<rparr>"
      "xs_grant_id xs \<notin> wg_id ` set (st_grants st)"
proof (cases "claim_pending_enrollment (en_id row) now st")
  case None
  then show ?thesis
    using assms that(1)
    by (auto simp: exchange_new_enrollment_def Let_def claim_lost_def split: if_splits option.splits enrollment_status.splits)
next
  case (Some st1)
  let ?reg = "\<lparr> rg_host_id = en_host_id row, rg_client_type = ''android'', rg_display_name = name,
                  rg_app_version = ver, rg_native_token_hash = sha (xs_native_token xs),
                  rg_created_at = now, rg_last_seen_at = None, rg_revoked_at = None, rg_revoked_reason = None \<rparr>"
  let ?g = "new_grant_row sha xs (en_host_id row) (en_web_admin row) now"
  let ?st2 = "st1\<lparr> st_hosts := st_hosts st1 @ [\<lparr> mh_id = en_host_id row, mh_hostname = name, mh_last_seen = now \<rparr>] \<rparr>"
  show ?thesis
  proof (cases "origin = None \<or> list_ex (\<lambda>h. mh_id h = en_host_id row) (st_hosts st1)")
    case True
    then show ?thesis
      using assms that(1) Some by (auto simp: exchange_new_enrollment_def Let_def split: if_splits)
  next
    case fresh: False
    show ?thesis
    proof (cases "insert_registration ?reg ?st2")
      case None
      then show ?thesis
        using assms that(1) Some fresh by (auto simp: exchange_new_enrollment_def Let_def)
    next
      case reg: (Some st3)
      show ?thesis
      proof (cases "insert_grant ?g st3")
        case None
        then show ?thesis
          using assms that(1) Some fresh reg by (auto simp: exchange_new_enrollment_def Let_def)
      next
        case grant: (Some st4)
        have "st' = st4" "out = Ex_Ok (en_host_id row) False []"
          using assms Some fresh reg grant by (auto simp: exchange_new_enrollment_def Let_def)
        moreover note c = claim_Some [OF Some]
        moreover have "en_host_id row \<notin> mh_id ` set (st_hosts st)" using fresh c by (auto simp: list_ex_iff)
        moreover have "en_host_id row \<notin> rg_host_id ` set (st_registrations st)"
          using reg c by (auto simp: insert_registration_Some)
        moreover have "xs_grant_id xs \<notin> wg_id ` set (st_grants st)"
          using reg grant c by (auto simp: insert_registration_Some insert_grant_Some new_grant_row_def)
        ultimately show ?thesis
          using reg grant by (intro that(2) [OF Some, of ?reg]) (auto simp: insert_registration_Some insert_grant_Some)
      qed
    qed
  qed
qed

lemma exchange_reconnect_cases:
  assumes "exchange_reconnect_enrollment sha origin xs row name ver now st = (st', out)"
  obtains "st' = st" "\<forall>h b ids. out \<noteq> Ex_Ok h b ids"
  | st1 st2 old where "find_registration_by_host_id st (en_host_id row) = Some old"
      "\<not> is_row_revoked (rg_revoked_at old)" "claim_pending_enrollment (en_id row) now st = Some st1"
      "rotate_registration (en_host_id row) (sha (xs_native_token xs)) name ver now st1 = Some st2"
      "length (filter (\<lambda>r. rg_native_token_hash r = sha (xs_native_token xs)) (st_registrations st2)) = 1"
      "out = Ex_Ok (en_host_id row) True (map ws_id (open_sessions (en_host_id row) st2))"
      "insert_grant (new_grant_row sha xs (en_host_id row) (en_web_admin row) now)
         (revoke_sessions (en_host_id row) now (revoke_grants (en_host_id row) (Some RECONNECT_ROTATED_REASON) now
            (\<lambda>g. wg_revoked_at g = None) st2)) \<noteq> None"
      "st' = rename_host (en_host_id row) (rg_display_name old) name now
         ((revoke_sessions (en_host_id row) now (revoke_grants (en_host_id row) (Some RECONNECT_ROTATED_REASON) now
            (\<lambda>g. wg_revoked_at g = None) st2))\<lparr> st_grants :=
               st_grants (revoke_grants (en_host_id row) (Some RECONNECT_ROTATED_REASON) now (\<lambda>g. wg_revoked_at g = None) st2)
               @ [new_grant_row sha xs (en_host_id row) (en_web_admin row) now] \<rparr>)"
proof (cases "find_registration_by_host_id st (en_host_id row)")
  case None
  then show ?thesis using assms that(1) by (auto simp: exchange_reconnect_enrollment_def Let_def)
next
  case (Some old)
  show ?thesis
  proof (cases "is_row_revoked (rg_revoked_at old) \<or> origin = None")
    case True
    then show ?thesis
      using assms that(1) Some by (auto simp: exchange_reconnect_enrollment_def Let_def split: if_splits)
  next
    case live: False
    show ?thesis
    proof (cases "claim_pending_enrollment (en_id row) now st")
      case None
      then show ?thesis
        using assms that(1) Some live
        by (auto simp: exchange_reconnect_enrollment_def Let_def claim_lost_def
            split: if_splits option.splits enrollment_status.splits)
    next
      case claim: (Some st1)
      show ?thesis
      proof (cases "rotate_registration (en_host_id row) (sha (xs_native_token xs)) name ver now st1")
        case None
        then show ?thesis
          using assms that(1) Some live claim by (auto simp: exchange_reconnect_enrollment_def Let_def)
      next
        case rot: (Some st2)
        let ?st3 = "revoke_sessions (en_host_id row) now (revoke_grants (en_host_id row) (Some RECONNECT_ROTATED_REASON)
            now (\<lambda>g. wg_revoked_at g = None) st2)"
        show ?thesis
        proof (cases "length (filter (\<lambda>r. rg_native_token_hash r = sha (xs_native_token xs)) (st_registrations st2)) = 1")
          case False
          then show ?thesis
            using assms that(1) Some live claim rot by (auto simp: exchange_reconnect_enrollment_def Let_def)
        next
          case one: True
          show ?thesis
          proof (cases "insert_grant (new_grant_row sha xs (en_host_id row) (en_web_admin row) now) ?st3")
            case None
            then show ?thesis
              using assms that(1) Some live claim rot one by (auto simp: exchange_reconnect_enrollment_def Let_def)
          next
            case grant: (Some st4)
            have "st' = rename_host (en_host_id row) (rg_display_name old) name now st4"
              "out = Ex_Ok (en_host_id row) True (map ws_id (open_sessions (en_host_id row) st2))"
              using assms Some live claim rot one grant by (auto simp: exchange_reconnect_enrollment_def Let_def)
            moreover have "st4 = ?st3\<lparr> st_grants := st_grants (revoke_grants (en_host_id row)
                (Some RECONNECT_ROTATED_REASON) now (\<lambda>g. wg_revoked_at g = None) st2)
                @ [new_grant_row sha xs (en_host_id row) (en_web_admin row) now] \<rparr>"
              using grant by (simp add: insert_grant_Some revoke_sessions_def)
            ultimately show ?thesis using live grant by (intro that(2) [OF Some _ claim rot one]) simp_all
          qed
        qed
      qed
    qed
  qed
qed

section \<open>What no request undoes\<close>

definition covered :: "('a \<Rightarrow> 'a \<Rightarrow> bool) \<Rightarrow> 'a list \<Rightarrow> 'a list \<Rightarrow> bool" where
  "covered R xs ys \<longleftrightarrow> (\<forall>x\<in>set xs. \<exists>y\<in>set ys. R x y)"

lemma covered_map: "(\<And>x. R x (f x)) \<Longrightarrow> covered R xs (map f xs)"
  by (auto simp: covered_def)

lemma covered_append: "covered R xs ys \<Longrightarrow> covered R xs (ys @ zs)"
  by (auto simp: covered_def)

lemma covered_same: "(\<And>x. R x x) \<Longrightarrow> covered R xs xs"
  by (auto simp: covered_def)

lemma covered_trans:
  "covered R xs ys \<Longrightarrow> covered R ys zs \<Longrightarrow> (\<And>x y z. R x y \<Longrightarrow> R y z \<Longrightarrow> R x z) \<Longrightarrow> covered R xs zs"
  by (simp add: covered_def) metis

fun en_rank :: "enrollment_status \<Rightarrow> nat" where
  "en_rank Es_Pending = 0"
| "en_rank Es_Expired = 0"
| "en_rank Es_Used = 1"
| "en_rank Es_Revoked = 2"

definition en_ident where
  "en_ident e = (en_id e, en_secret_hash e, en_host_id e, en_kind e, en_web_admin e)"

definition en_le :: "mobile_enrollment_row \<Rightarrow> mobile_enrollment_row \<Rightarrow> bool" where
  "en_le e e' \<longleftrightarrow> en_ident e' = en_ident e \<and> en_rank (en_status e) \<le> en_rank (en_status e') \<and>
     (en_consumed_at e \<noteq> None \<longrightarrow> en_consumed_at e' \<noteq> None)"

definition rg_le :: "mobile_registration_row \<Rightarrow> mobile_registration_row \<Rightarrow> bool" where
  "rg_le r r' \<longleftrightarrow> rg_host_id r' = rg_host_id r \<and> (is_row_revoked (rg_revoked_at r) \<longrightarrow> is_row_revoked (rg_revoked_at r'))"

definition wg_le :: "web_grant_row \<Rightarrow> web_grant_row \<Rightarrow> bool" where
  "wg_le g g' \<longleftrightarrow> wg_id g' = wg_id g \<and> wg_registration_id g' = wg_registration_id g \<and> wg_admin g' = wg_admin g \<and>
     (is_row_revoked (wg_revoked_at g) \<longrightarrow> is_row_revoked (wg_revoked_at g'))"

definition ws_le :: "web_session_row \<Rightarrow> web_session_row \<Rightarrow> bool" where
  "ws_le s s' \<longleftrightarrow> s' = s \<or>
     ws_revoked_at s = None \<and> (\<exists>t > 0. s' = s\<lparr> ws_revoked_at := Some t \<rparr>)"

lemmas row_le_defs = en_le_def rg_le_def wg_le_def

definition store_le :: "mobile_store \<Rightarrow> mobile_store \<Rightarrow> bool" where
  "store_le st st' \<longleftrightarrow>
     covered en_le (st_enrollments st) (st_enrollments st') \<and> covered rg_le (st_registrations st) (st_registrations st') \<and>
     covered wg_le (st_grants st) (st_grants st') \<and> covered ws_le (st_sessions st) (st_sessions st')"

lemma row_le_refl [simp]: "en_le e e" "rg_le r r" "wg_le g g" "ws_le s s"
  by (simp_all add: row_le_defs ws_le_def)

lemma ws_le_revoked: "0 < t \<Longrightarrow> ws_revoked_at s = None \<Longrightarrow> ws_le s (s\<lparr> ws_revoked_at := Some t \<rparr>)"
  unfolding ws_le_def by blast

lemma ws_le_trans: "ws_le s s' \<Longrightarrow> ws_le s' s'' \<Longrightarrow> ws_le s s''"
  by (auto simp: ws_le_def)

lemma store_le_refl [simp]: "store_le st st"
  by (simp add: store_le_def covered_same)

lemma store_le_trans: "store_le st st' \<Longrightarrow> store_le st' st'' \<Longrightarrow> store_le st st''"
  unfolding store_le_def
  by (intro conjI; elim conjE; erule (1) covered_trans) (auto simp: row_le_defs elim: ws_le_trans)

lemma store_leI:
  assumes "covered en_le (st_enrollments st) (st_enrollments st')" "covered rg_le (st_registrations st) (st_registrations st')"
    "covered wg_le (st_grants st) (st_grants st')" "covered ws_le (st_sessions st) (st_sessions st')"
  shows "store_le st st'"
  using assms by (simp add: store_le_def)

lemma en_rank_le: "en_rank x \<le> 2"
  by (cases x) simp_all

lemma revoke_enrollments_le: "store_le st (revoke_enrollments_where P now st)"
  by (rule store_leI)
    (auto simp: revoke_enrollments_where_def row_le_defs en_ident_def en_rank_le intro!: covered_map covered_same)

lemma revoke_sessions_le: "0 < now \<Longrightarrow> store_le st (revoke_sessions host now st)"
  by (rule store_leI) (auto simp: revoke_sessions_def ws_le_def intro!: covered_map covered_same)

lemma revoke_grants_le: "0 < now \<Longrightarrow> store_le st (revoke_grants host reason now P st)"
  by (rule store_leI) (auto simp: revoke_grants_def row_le_defs is_row_revoked_def intro!: covered_map covered_same)

lemma claim_le: "claim_pending_enrollment i now st = Some st1 \<Longrightarrow> store_le st st1"
  by (frule claim_Some, rule store_leI) (auto simp: row_le_defs en_ident_def intro!: covered_map covered_same)

lemma rotate_Some:
  "rotate_registration host hash name ver now st = Some st2 \<Longrightarrow>
   st2 = st\<lparr> st_registrations := map (\<lambda>r. if rg_host_id r = host \<and> live_row (rg_revoked_at r)
      then r\<lparr> rg_native_token_hash := hash, rg_display_name := name, rg_app_version := ver, rg_last_seen_at := Some now \<rparr>
      else r) (st_registrations st) \<rparr>"
  by (auto simp: rotate_registration_def Let_def split: if_splits)

lemma rotate_le: "rotate_registration host hash name ver now st = Some st2 \<Longrightarrow> store_le st st2"
  by (drule rotate_Some, rule store_leI) (auto simp: row_le_defs intro!: covered_map covered_same)

lemma rename_host_le: "store_le st (rename_host host old name now st)"
  by (rule store_leI) (auto simp: rename_host_def intro!: covered_same)

lemma exchange_le:
  assumes "0 < now"
  shows "store_le st (fst (exchange_mobile_enrollment sha origin xs i secret name ver now st))"
proof -
  have "store_le st st'" if "exchange_new_enrollment sha origin xs row name ver now st = (st', out)" for row st' out
    using that
  proof (cases rule: exchange_new_cases)
    case (2 st1 r)
    note c = claim_Some [OF 2(1)] and le = claim_le [OF 2(1)]
    show ?thesis
      unfolding 2(7) by (rule store_le_trans [OF le], rule store_leI) (auto intro!: covered_append covered_same)
  qed simp
  moreover have "store_le st st'" if "exchange_reconnect_enrollment sha origin xs row name ver now st = (st', out)" for row st' out
    using that
  proof (cases rule: exchange_reconnect_cases)
    case (2 st1 st2 old)
    let ?st3 = "revoke_grants (en_host_id row) (Some RECONNECT_ROTATED_REASON) now (\<lambda>g. wg_revoked_at g = None) st2"
    have "store_le st ?st3"
      using claim_le [OF 2(3)] rotate_le [OF 2(4)] revoke_grants_le [OF assms] by (blast intro: store_le_trans)
    then have a: "store_le st (revoke_sessions (en_host_id row) now ?st3)"
      using revoke_sessions_le [OF assms] by (rule store_le_trans)
    have g: "st_grants (revoke_sessions (en_host_id row) now ?st3) = st_grants ?st3" by (simp add: revoke_sessions_def)
    show ?thesis
      unfolding 2(8)
      by (rule store_le_trans [OF a], rule store_le_trans [OF _ rename_host_le], rule store_leI)
        (auto simp: g intro!: covered_append covered_same)
  qed simp
  ultimately show ?thesis
    by (cases "exchange_new_enrollment sha origin xs (the (find_enrollment st i)) name ver now st";
        cases "exchange_reconnect_enrollment sha origin xs (the (find_enrollment st i)) name ver now st")
      (auto simp: exchange_mobile_enrollment_def Let_def split: option.split)
qed

lemma revoke_everywhere_le:
  assumes "0 < now"
  shows "store_le st (fst (revoke_registration_everywhere host reason now st))"
proof -
  have r: "store_le st (revoke_registration_row host reason now st)"
    using assms by (intro store_leI)
      (auto simp: revoke_registration_row_def row_le_defs is_row_revoked_def intro!: covered_map covered_same)
  show ?thesis
    by (auto simp: revoke_registration_everywhere_def split: option.split
        intro!: store_le_trans [OF _ revoke_enrollments_le] store_le_trans [OF _ revoke_sessions_le [OF assms]]
          store_le_trans [OF _ revoke_grants_le [OF assms]] r)
qed

lemma handle_enroll_le:
  assumes "0 < now"
  shows "store_le st (handle_enroll sha req now st)"
proof -
  have add: "store_le st st'" if "insert_enrollment_row e st = Some st'" for e st'
    using that by (intro store_leI) (auto simp: insert_enrollment_Some intro!: covered_append covered_same)
  have add2: "store_le st (revoke_enrollments_where P t st')" if "insert_enrollment_row e st = Some st'" for e st' P t
    by (rule store_le_trans [OF add [OF that] revoke_enrollments_le])
  show ?thesis
  proof (cases req)
    case (Eq_Create origin admin client i host secret)
    then show ?thesis
      by (auto simp: create_mobile_enrollment_def revoke_other_pending_new_enrollments_def Let_def
          intro: add2 split: option.split)
  next
    case (Eq_Reconnect origin host i secret)
    then show ?thesis
      by (auto simp: create_reconnect_enrollment_def revoke_other_pending_reconnects_for_host_def Let_def
          intro: add2 split: option.split sum.split)
  next
    case (Eq_Check_In host ver)
    then show ?thesis
      by (auto intro!: store_leI covered_map covered_same simp: mobile_check_in_def row_le_defs)
  next
    case (Eq_Bootstrap grant secret sid)
    then show ?thesis
      by (auto intro!: store_leI covered_append covered_same simp: bootstrap_mobile_web_session_def Let_def
          split: option.split)
  next
    case (Eq_Logout secret)
    then show ?thesis
      using assms
      by (auto intro!: store_leI covered_map covered_same ws_le_revoked simp: revoke_mobile_web_session_def Let_def)
  qed (simp_all add: exchange_le revoke_everywhere_le assms)
qed

lemma store_later_le: "store_later sha st st' \<Longrightarrow> store_le st st'"
  by (induction rule: store_later.induct) (auto intro: store_le_trans handle_enroll_le)

lemma store_later_trans: "store_later sha st' st'' \<Longrightarrow> store_later sha st st' \<Longrightarrow> store_later sha st st''"
  by (induction rule: store_later.induct) (auto intro: store_later.step)

lemma store_reach_later: "store_reach sha st \<Longrightarrow> store_later sha st st' \<Longrightarrow> store_reach sha st'"
  by (auto simp: store_reach_def intro: store_later_trans)

section \<open>The invariant\<close>

text \<open>The pairing of a device: the consumed code of a new installation that named it.\<close>

definition pairs :: "mobile_enrollment_row \<Rightarrow> bool" where
  "pairs e \<longleftrightarrow> en_kind e = En_New \<and> en_consumed_at e \<noteq> None"

definition paired :: "mobile_store \<Rightarrow> string \<Rightarrow> bool \<Rightarrow> bool" where
  "paired st h admin \<longleftrightarrow> (\<exists>e\<in>set (st_enrollments st). pairs e \<and> en_host_id e = h \<and> en_web_admin e = admin)"

definition enrollments_inv :: "mobile_store \<Rightarrow> bool" where
  "enrollments_inv st \<longleftrightarrow>
     distinct (map en_id (st_enrollments st)) \<and>
     (\<forall>e\<in>set (st_enrollments st). (en_status e = Es_Pending \<longrightarrow> en_consumed_at e = None) \<and>
        (pairs e \<longrightarrow> en_host_id e \<in> mh_id ` set (st_hosts st)) \<and>
        (en_kind e = En_Reconnect \<longrightarrow> paired st (en_host_id e) (en_web_admin e))) \<and>
     (\<forall>e\<in>set (st_enrollments st). \<forall>e'\<in>set (st_enrollments st).
        pairs e \<longrightarrow> pairs e' \<longrightarrow> en_host_id e = en_host_id e' \<longrightarrow> e = e')"

definition credentials_inv :: "mobile_store \<Rightarrow> bool" where
  "credentials_inv st \<longleftrightarrow>
     distinct (map rg_host_id (st_registrations st)) \<and> distinct (map wg_id (st_grants st)) \<and>
     distinct (map ws_id (st_sessions st)) \<and>
     (\<forall>g\<in>set (st_grants st). paired st (wg_registration_id g) (wg_admin g)) \<and>
     (\<forall>s\<in>set (st_sessions st). paired st (ws_registration_id s) (ws_admin s) \<and>
        ws_expires_at s = ws_issued_at s + SESSION_TTL_MS)"

lemma paired_unique: "enrollments_inv st \<Longrightarrow> paired st h a \<Longrightarrow> paired st h b \<Longrightarrow> a = b"
  unfolding enrollments_inv_def paired_def by metis

lemma paired_mono:
  assumes "store_le st st'" "paired st h a"
  shows "paired st' h a"
proof -
  from assms(2) obtain e where e: "e \<in> set (st_enrollments st)" "pairs e" "en_host_id e = h" "en_web_admin e = a"
    by (auto simp: paired_def)
  from assms(1) e(1) obtain e' where "e' \<in> set (st_enrollments st')" "en_le e e'"
    unfolding store_le_def covered_def by blast
  then show ?thesis
    unfolding paired_def using e(2-4) by (intro bexI [of _ e']) (auto simp: en_le_def en_ident_def pairs_def)
qed

lemma find_enrollment_SomeD: "find_enrollment st i = Some e \<Longrightarrow> e \<in> set (st_enrollments st) \<and> en_id e = i"
  by (auto simp: find_enrollment_def dest: find_SomeD)

lemma find_registration_SomeD:
  "find_registration_by_host_id st h = Some r \<Longrightarrow> r \<in> set (st_registrations st) \<and> rg_host_id r = h"
  by (auto simp: find_registration_by_host_id_def dest: find_SomeD)

lemma enrollment_unique:
  "enrollments_inv st \<Longrightarrow> e \<in> set (st_enrollments st) \<Longrightarrow> e' \<in> set (st_enrollments st) \<Longrightarrow> en_id e = en_id e' \<Longrightarrow> e = e'"
  by (auto simp: enrollments_inv_def distinct_map dest: inj_onD)

lemma enrollments_invD:
  assumes "enrollments_inv st" "e \<in> set (st_enrollments st)"
  shows "en_status e = Es_Pending \<Longrightarrow> en_consumed_at e = None"
    "pairs e \<Longrightarrow> en_host_id e \<in> mh_id ` set (st_hosts st)"
    "en_kind e = En_Reconnect \<Longrightarrow> paired st (en_host_id e) (en_web_admin e)"
    "pairs e \<Longrightarrow> e' \<in> set (st_enrollments st) \<Longrightarrow> pairs e' \<Longrightarrow> en_host_id e = en_host_id e' \<Longrightarrow> e = e'"
  using assms unfolding enrollments_inv_def by blast+

text \<open>Updates that keep the identity of every row.\<close>

lemma enrollments_inv_map:
  assumes inv: "enrollments_inv st" and st': "st_enrollments st' = map f (st_enrollments st)"
    and f: "\<And>e. en_ident (f e) = en_ident e" "\<And>e. pairs e \<Longrightarrow> pairs (f e)"
    and each: "\<And>e. e \<in> set (st_enrollments st) \<Longrightarrow> en_status (f e) = Es_Pending \<Longrightarrow> en_consumed_at (f e) = None"
      "\<And>e. e \<in> set (st_enrollments st) \<Longrightarrow> pairs (f e) \<Longrightarrow> en_host_id e \<in> mh_id ` set (st_hosts st')"
    and two: "\<And>e e'. e \<in> set (st_enrollments st) \<Longrightarrow> e' \<in> set (st_enrollments st) \<Longrightarrow> pairs (f e) \<Longrightarrow> pairs (f e') \<Longrightarrow>
       en_host_id e = en_host_id e' \<Longrightarrow> e = e'"
  shows "enrollments_inv st'"
proof -
  have k: "en_id (f e) = en_id e" "en_host_id (f e) = en_host_id e" "en_kind (f e) = en_kind e"
    "en_web_admin (f e) = en_web_admin e" for e
    using f(1) [of e] by (simp_all add: en_ident_def)
  have p: "paired st' h a" if "paired st h a" for h a
    using that f(2) k by (auto simp: paired_def st')
  show ?thesis
    unfolding enrollments_inv_def
  proof (intro conjI ballI impI)
    have "map en_id (st_enrollments st') = map en_id (st_enrollments st)" by (simp add: st' k)
    then show "distinct (map en_id (st_enrollments st'))" using inv unfolding enrollments_inv_def by simp
  next
    fix e assume "e \<in> set (st_enrollments st')"
    then obtain e0 where e: "e = f e0" "e0 \<in> set (st_enrollments st)" by (auto simp: st')
    show "en_status e = Es_Pending \<Longrightarrow> en_consumed_at e = None" using each(1) e by simp
    show "pairs e \<Longrightarrow> en_host_id e \<in> mh_id ` set (st_hosts st')" using each(2) e k by simp
    show "en_kind e = En_Reconnect \<Longrightarrow> paired st' (en_host_id e) (en_web_admin e)"
      using enrollments_invD(3) [OF inv e(2)] p e(1) k by simp
    fix e' assume "e' \<in> set (st_enrollments st')" and h: "pairs e" "pairs e'" "en_host_id e = en_host_id e'"
    then obtain e1 where e1: "e' = f e1" "e1 \<in> set (st_enrollments st)" by (auto simp: st')
    show "e = e'" using two [OF e(2) e1(2)] h e(1) e1(1) k by simp
  qed
qed

lemma enrollments_inv_update:
  assumes inv: "enrollments_inv st" and st': "st_enrollments st' = map f (st_enrollments st)"
    and f: "\<And>e. en_ident (f e) = en_ident e" "\<And>e. en_consumed_at (f e) = en_consumed_at e"
      "\<And>e. en_status (f e) = Es_Pending \<Longrightarrow> en_status e = Es_Pending"
    and hosts: "mh_id ` set (st_hosts st) \<subseteq> mh_id ` set (st_hosts st')"
  shows "enrollments_inv st'"
proof (rule enrollments_inv_map [OF inv st' f(1)])
  have pe: "pairs (f e) = pairs e" for e using f(1,2) [of e] by (auto simp: pairs_def en_ident_def)
  show "pairs e \<Longrightarrow> pairs (f e)" for e by (simp add: pe)
  show "en_consumed_at (f e) = None" if "e \<in> set (st_enrollments st)" "en_status (f e) = Es_Pending" for e
    using enrollments_invD(1) [OF inv that(1)] f(2,3) that(2) by simp
  show "en_host_id e \<in> mh_id ` set (st_hosts st')" if "e \<in> set (st_enrollments st)" "pairs (f e)" for e
    using enrollments_invD(2) [OF inv that(1)] that(2) pe hosts by auto
  show "e = e'" if "e \<in> set (st_enrollments st)" "e' \<in> set (st_enrollments st)" "pairs (f e)" "pairs (f e')"
    "en_host_id e = en_host_id e'" for e e'
    using enrollments_invD(4) [OF inv that(1) _ that(2)] that pe by simp
qed

lemma enrollments_inv_same:
  "enrollments_inv st \<Longrightarrow> st_enrollments st' = st_enrollments st \<Longrightarrow>
   mh_id ` set (st_hosts st) \<subseteq> mh_id ` set (st_hosts st') \<Longrightarrow> enrollments_inv st'"
  by (rule enrollments_inv_update [of st st' "\<lambda>e. e"]) simp_all

lemma enrollments_inv_revoke: "enrollments_inv st \<Longrightarrow> enrollments_inv (revoke_enrollments_where P now st)"
  by (rule enrollments_inv_update [where f = "\<lambda>e. if P e then e\<lparr> en_status := Es_Revoked, en_revoked_at := Some now \<rparr> else e"])
    (auto simp: revoke_enrollments_where_def en_ident_def split: if_splits)

lemma enrollments_inv_insert:
  assumes "enrollments_inv st" "insert_enrollment_row e st = Some st'"
    and "en_status e = Es_Pending" "en_consumed_at e = None"
    and "en_kind e = En_Reconnect \<Longrightarrow> paired st (en_host_id e) (en_web_admin e)"
  shows "enrollments_inv st'"
proof -
  have p: "paired st' h a = paired st h a" for h a
    using assms(2,4) by (auto simp: insert_enrollment_Some paired_def pairs_def)
  have np: "\<not> pairs e" using assms(4) by (simp add: pairs_def)
  show ?thesis
    using assms np unfolding enrollments_inv_def p by (auto simp: insert_enrollment_Some)
qed

lemma enrollments_inv_claim:
  assumes inv: "enrollments_inv st" and row: "find_enrollment st i = Some row"
    and c: "claim_pending_enrollment i now st = Some st1"
    and new: "en_kind row = En_New \<Longrightarrow> en_host_id row \<notin> mh_id ` set (st_hosts st)"
    and hosts: "mh_id ` set (st_hosts st') = mh_id ` set (st_hosts st) \<union> (if en_kind row = En_New then {en_host_id row} else {})"
      "st_enrollments st' = st_enrollments st1"
  shows "enrollments_inv st'"
proof -
  let ?f = "\<lambda>e. if en_id e = i \<and> en_status e = Es_Pending \<and> en_expires_at e > now
      then e\<lparr> en_status := Es_Used, en_consumed_at := Some now \<rparr> else e"
  have en: "st_enrollments st' = map ?f (st_enrollments st)" using claim_Some [OF c] hosts(2) by simp
  have hit: "e = row" if "e \<in> set (st_enrollments st)" "en_id e = i" for e
    using enrollment_unique [OF inv that(1)] find_enrollment_SomeD [OF row] that(2) by auto
  have new_host: "en_kind row = En_New \<Longrightarrow> \<not> pairs e" if "e \<in> set (st_enrollments st)" "en_host_id e = en_host_id row" for e
    using enrollments_invD(2) [OF inv that(1)] that(2) new by auto
  show ?thesis
  proof (rule enrollments_inv_map [OF inv en])
    show "en_ident (?f e) = en_ident e" for e by (simp add: en_ident_def)
    show "pairs e \<Longrightarrow> pairs (?f e)" for e by (simp add: pairs_def)
    show "en_consumed_at (?f e) = None" if "e \<in> set (st_enrollments st)" "en_status (?f e) = Es_Pending" for e
      using enrollments_invD(1) [OF inv that(1)] that(2) by (auto split: if_splits)
    show "en_host_id e \<in> mh_id ` set (st_hosts st')" if "e \<in> set (st_enrollments st)" "pairs (?f e)" for e
      using enrollments_invD(2) [OF inv that(1)] that(2) hit [OF that(1)] hosts(1) by (auto simp: pairs_def split: if_splits)
    show "e = e'" if e: "e \<in> set (st_enrollments st)" "e' \<in> set (st_enrollments st)" "pairs (?f e)" "pairs (?f e')"
      "en_host_id e = en_host_id e'" for e e'
    proof (cases "pairs e \<and> pairs e'")
      case True
      then show ?thesis using enrollments_invD(4) [OF inv e(1) _ e(2)] e(5) by simp
    next
      case False
      have r: "pairs x \<or> x = row \<and> en_kind row = En_New" if "x \<in> set (st_enrollments st)" "pairs (?f x)" for x
        using that hit by (auto simp: pairs_def split: if_splits)
      show ?thesis using r [OF e(1,3)] r [OF e(2,4)] False new_host [OF e(1)] new_host [OF e(2)] e(5) by auto
    qed
  qed
qed

definition grant_key where "grant_key g = (wg_id g, wg_registration_id g, wg_admin g)"
definition session_key where
  "session_key s = (ws_id s, ws_registration_id s, ws_admin s, ws_issued_at s, ws_expires_at s)"

definition credentials_ok :: "mobile_store \<Rightarrow> string list \<Rightarrow> (string \<times> string \<times> bool) list \<Rightarrow>
    (string \<times> string \<times> bool \<times> int \<times> int) list \<Rightarrow> bool" where
  "credentials_ok st hs gs ss \<longleftrightarrow>
     distinct hs \<and> distinct (map fst gs) \<and> distinct (map fst ss) \<and> (\<forall>(i, h, a)\<in>set gs. paired st h a) \<and>
     (\<forall>(i, h, a, issued, expires)\<in>set ss. paired st h a \<and> expires = issued + SESSION_TTL_MS)"

lemma grant_ids: "fst ` set (map grant_key gs) = wg_id ` set gs"
  by (auto simp: grant_key_def image_iff)

lemma credentials_inv_iff:
  "credentials_inv st \<longleftrightarrow> credentials_ok st (map rg_host_id (st_registrations st)) (map grant_key (st_grants st))
      (map session_key (st_sessions st))"
  by (simp add: credentials_inv_def credentials_ok_def grant_key_def session_key_def o_def)

lemma credentials_ok_mono: "store_le st st' \<Longrightarrow> credentials_ok st hs gs ss \<Longrightarrow> credentials_ok st' hs gs ss"
  using paired_mono [of st st'] unfolding credentials_ok_def by blast

lemma credentials_inv_keep:
  assumes "credentials_inv st" "store_le st st'"
    and "map rg_host_id (st_registrations st') = map rg_host_id (st_registrations st)"
      "map grant_key (st_grants st') = map grant_key (st_grants st)"
      "map session_key (st_sessions st') = map session_key (st_sessions st)"
  shows "credentials_inv st'"
  using credentials_ok_mono [OF assms(2)] assms(1) unfolding credentials_inv_iff assms(3-5) .

lemma key_updates [simp]:
  "grant_key (g\<lparr> wg_revoked_at := a, wg_revoked_reason := b \<rparr>) = grant_key g"
  "session_key (s\<lparr> ws_revoked_at := a \<rparr>) = session_key s"
  by (simp_all add: grant_key_def session_key_def)

lemma revoke_enrollments_other [simp]:
  "st_registrations (revoke_enrollments_where P now st) = st_registrations st"
  "st_grants (revoke_enrollments_where P now st) = st_grants st"
  "st_sessions (revoke_enrollments_where P now st) = st_sessions st"
  "st_hosts (revoke_enrollments_where P now st) = st_hosts st"
  by (simp_all add: revoke_enrollments_where_def)

lemma revoke_grants_other [simp]:
  "st_registrations (revoke_grants h r now P st) = st_registrations st"
  "st_enrollments (revoke_grants h r now P st) = st_enrollments st"
  "st_sessions (revoke_grants h r now P st) = st_sessions st"
  "st_hosts (revoke_grants h r now P st) = st_hosts st"
  "map grant_key (st_grants (revoke_grants h r now P st)) = map grant_key (st_grants st)"
  by (simp_all add: revoke_grants_def)

lemma revoke_sessions_other [simp]:
  "st_registrations (revoke_sessions h now st) = st_registrations st"
  "st_enrollments (revoke_sessions h now st) = st_enrollments st"
  "st_grants (revoke_sessions h now st) = st_grants st"
  "st_hosts (revoke_sessions h now st) = st_hosts st"
  "map session_key (st_sessions (revoke_sessions h now st)) = map session_key (st_sessions st)"
  by (simp_all add: revoke_sessions_def)

lemma rename_host_other [simp]:
  "st_registrations (rename_host h old name now st) = st_registrations st"
  "st_enrollments (rename_host h old name now st) = st_enrollments st"
  "st_grants (rename_host h old name now st) = st_grants st"
  "st_sessions (rename_host h old name now st) = st_sessions st"
  "map mh_id (st_hosts (rename_host h old name now st)) = map mh_id (st_hosts st)"
  by (simp_all add: rename_host_def)

lemma rename_host_ids: "mh_id ` set (st_hosts (rename_host h old name now st)) = mh_id ` set (st_hosts st)"
  by (metis list.set_map rename_host_other(5))

definition store_inv :: "mobile_store \<Rightarrow> bool" where
  "store_inv st \<longleftrightarrow> enrollments_inv st \<and> credentials_inv st"

lemma claimed_row:
  assumes inv: "enrollments_inv st" and row: "find_enrollment st i = Some row"
    and c: "claim_pending_enrollment i now st = Some st1"
  shows "en_status row = Es_Pending" "now < en_expires_at row"
    "row\<lparr> en_status := Es_Used, en_consumed_at := Some now \<rparr> \<in> set (st_enrollments st1)"
proof -
  let ?hit = "\<lambda>e. en_id e = i \<and> en_status e = Es_Pending \<and> en_expires_at e > now"
  have mem: "row \<in> set (st_enrollments st)" "en_id row = i" using find_enrollment_SomeD [OF row] by auto
  have one: "e = row" if "e \<in> set (st_enrollments st)" "en_id e = i" for e
    using enrollment_unique [OF inv that(1) mem(1)] that(2) mem(2) by simp
  have "filter ?hit (st_enrollments st) \<noteq> []"
  proof
    assume "filter ?hit (st_enrollments st) = []"
    then show False using c by (simp add: claim_pending_enrollment_def Let_def)
  qed
  then obtain e where "e \<in> set (st_enrollments st)" "?hit e" by (auto simp: filter_empty_conv)
  then have h: "?hit row" using one by metis
  then show "en_status row = Es_Pending" "now < en_expires_at row" by simp_all
  show "row\<lparr> en_status := Es_Used, en_consumed_at := Some now \<rparr> \<in> set (st_enrollments st1)"
    using claim_Some [OF c] mem(1) h by (auto simp: image_iff intro!: bexI [of _ row])
qed

lemma exchange_new_inv:
  assumes inv: "store_inv st" and row: "find_enrollment st i = Some row" and k: "en_kind row = En_New" and t: "0 < now"
    and ex: "exchange_new_enrollment sha origin xs row name ver now st = (st', out)"
  shows "store_inv st'"
  using ex
proof (cases rule: exchange_new_cases)
  case 1
  then show ?thesis using inv by simp
next
  case (2 st1 r)
  have i: "en_id row = i" and mem: "row \<in> set (st_enrollments st)" using find_enrollment_SomeD [OF row] by auto
  note c = claim_Some [OF 2(1)]
  have fields: "st_enrollments st' = st_enrollments st1" "st_registrations st' = st_registrations st @ [r]"
    "st_grants st' = st_grants st @ [new_grant_row sha xs (en_host_id row) (en_web_admin row) now]"
    "st_sessions st' = st_sessions st" "mh_id ` set (st_hosts st') = mh_id ` set (st_hosts st) \<union> {en_host_id row}"
    using c unfolding 2(7) by auto
  have ei: "enrollments_inv st" and ci: "credentials_inv st" using inv by (simp_all add: store_inv_def)
  have e: "enrollments_inv st'"
    by (rule enrollments_inv_claim [OF ei row 2(1) [unfolded i] 2(3)]) (simp_all add: fields k)
  have le: "store_le st st'"
    unfolding 2(7) by (rule store_le_trans [OF claim_le [OF 2(1)]], rule store_leI) (auto intro!: covered_append covered_same)
  have "\<exists>e\<in>set (st_enrollments st1). en_consumed_at e \<noteq> None \<and> en_ident e = en_ident row"
    using claimed_row [OF ei row 2(1) [unfolded i]]
    by (intro bexI [of _ "row\<lparr> en_status := Es_Used, en_consumed_at := Some now \<rparr>"]) (simp_all add: en_ident_def)
  then have p: "paired st' (en_host_id row) (en_web_admin row)"
    using k by (auto simp: paired_def pairs_def en_ident_def fields)
  have nid: "xs_grant_id xs \<notin> wg_id ` set (st_grants st)"
    using 2(8) by simp
  have "credentials_ok st' (map rg_host_id (st_registrations st)) (map grant_key (st_grants st)) (map session_key (st_sessions st))"
    using ci credentials_ok_mono [OF le] by (simp add: credentials_inv_iff)
  then have "credentials_inv st'"
    using p nid 2(4,5) unfolding credentials_inv_iff
    by (simp add: credentials_ok_def fields grant_key_def new_grant_row_def o_def image_iff)
  then show ?thesis using e by (simp add: store_inv_def)
qed

lemma exchange_reconnect_inv:
  assumes inv: "store_inv st" and row: "find_enrollment st i = Some row" and k: "en_kind row = En_Reconnect" and t: "0 < now"
    and ex: "exchange_reconnect_enrollment sha origin xs row name ver now st = (st', out)"
    and le: "store_le st st'"
  shows "store_inv st'"
  using ex
proof (cases rule: exchange_reconnect_cases)
  case 1
  then show ?thesis using inv by simp
next
  case (2 st1 st2 old)
  have i: "en_id row = i" and mem: "row \<in> set (st_enrollments st)" using find_enrollment_SomeD [OF row] by auto
  have ei: "enrollments_inv st" and ci: "credentials_inv st" using inv by (simp_all add: store_inv_def)
  note c = claim_Some [OF 2(3)] and r = rotate_Some [OF 2(4)]
  let ?g = "new_grant_row sha xs (en_host_id row) (en_web_admin row) now"
  let ?st3 = "revoke_grants (en_host_id row) (Some RECONNECT_ROTATED_REASON) now (\<lambda>g. wg_revoked_at g = None) st2"
  have fields: "st_enrollments st' = st_enrollments st1" "st_registrations st' = st_registrations st2"
    "st_grants st' = st_grants ?st3 @ [?g]" "st_sessions st' = st_sessions (revoke_sessions (en_host_id row) now ?st3)"
    "mh_id ` set (st_hosts st') = mh_id ` set (st_hosts st)"
    using c r unfolding 2(8) rename_host_ids by simp_all
  have keys: "map rg_host_id (st_registrations st') = map rg_host_id (st_registrations st)"
    "map grant_key (st_grants ?st3) = map grant_key (st_grants st)"
    "map session_key (st_sessions st') = map session_key (st_sessions st)"
    unfolding fields using c r by simp_all
  have e: "enrollments_inv st'"
    by (rule enrollments_inv_claim [OF ei row 2(3) [unfolded i]]) (simp_all add: fields k)
  have p: "paired st' (en_host_id row) (en_web_admin row)"
    using enrollments_invD(3) [OF ei mem k] by (rule paired_mono [OF le])
  have "wg_id ?g \<notin> wg_id ` set (st_grants ?st3)"
    using 2(7) by (auto simp: insert_grant_Some)
  then have nid: "wg_id ?g \<notin> fst ` set (map grant_key (st_grants ?st3))"
    unfolding grant_ids .
  then have nid2: "xs_grant_id xs \<notin> wg_id ` set (st_grants st)"
    unfolding keys(2) grant_ids by (simp add: new_grant_row_def)
  have "credentials_ok st' (map rg_host_id (st_registrations st)) (map grant_key (st_grants st)) (map session_key (st_sessions st))"
    using ci credentials_ok_mono [OF le] by (simp add: credentials_inv_iff)
  then have "credentials_inv st'"
    using p nid2 unfolding credentials_inv_iff keys fields(3) map_append keys(2)
    by (simp add: credentials_ok_def new_grant_row_def grant_key_def)
  then show ?thesis using e by (simp add: store_inv_def)
qed

lemma insert_inv:
  assumes inv: "store_inv st" and ins: "insert_enrollment_row e st = Some st1"
    and e: "en_status e = Es_Pending" "en_consumed_at e = None" "en_kind e = En_Reconnect \<Longrightarrow> paired st (en_host_id e) (en_web_admin e)"
  shows "store_inv (revoke_enrollments_where P now st1)"
proof -
  have ei: "enrollments_inv st1" using enrollments_inv_insert [OF _ ins e] inv by (simp add: store_inv_def)
  have "store_le st st1" using ins by (intro store_leI) (auto simp: insert_enrollment_Some intro!: covered_append covered_same)
  then have le: "store_le st (revoke_enrollments_where P now st1)" using revoke_enrollments_le by (rule store_le_trans)
  have "credentials_inv (revoke_enrollments_where P now st1)"
    using inv ins by (intro credentials_inv_keep [OF _ le]) (auto simp: store_inv_def insert_enrollment_Some)
  then show ?thesis using enrollments_inv_revoke [OF ei] by (simp add: store_inv_def)
qed

lemma handle_enroll_inv:
  assumes inv: "store_inv st" and t: "0 < now"
  shows "store_inv (handle_enroll sha req now st)"
proof -
  have le: "store_le st (handle_enroll sha req now st)" by (rule handle_enroll_le [OF t])
  have ei: "enrollments_inv st" and ci: "credentials_inv st" using inv by (simp_all add: store_inv_def)
  show ?thesis
  proof (cases req)
    case (Eq_Create origin admin client i host secret)
    then show ?thesis
      using inv by (auto simp: create_mobile_enrollment_def revoke_other_pending_new_enrollments_def Let_def
          new_enrollment_row_def split: option.split intro!: insert_inv [OF inv])
  next
    case (Eq_Reconnect origin host i secret)
    have p: "paired st host a" if auth: "resolve_reconnect_authority st host = Inr a" for a
    proof -
      obtain g where "live_grants st host = [g]" "wg_admin g = a"
        using auth
        by (cases "live_grants st host" rule: remdups_adj.cases) (auto simp: resolve_reconnect_authority_def)
      then have "g \<in> set (st_grants st)" "wg_registration_id g = host" "wg_admin g = a"
        using filter_set [of _ "st_grants st"] by (auto simp: live_grants_def dest!: arg_cong [of _ _ set])
      then show ?thesis using ci by (auto simp: credentials_inv_def)
    qed
    show ?thesis
      unfolding Eq_Reconnect
      using inv p by (auto simp: create_reconnect_enrollment_def revoke_other_pending_reconnects_for_host_def Let_def
          new_enrollment_row_def split: option.split sum.split intro!: insert_inv [OF inv])
  next
    case (Eq_Exchange origin xs i secret name ver)
    show ?thesis
    proof (cases "find_enrollment st i")
      case None
      then show ?thesis using inv Eq_Exchange by (simp add: exchange_mobile_enrollment_def)
    next
      case (Some row)
      obtain s1 o1 where 1: "exchange_new_enrollment sha origin xs row name ver now st = (s1, o1)" by fastforce
      obtain s2 o2 where 2: "exchange_reconnect_enrollment sha origin xs row name ver now st = (s2, o2)" by fastforce
      have h: "handle_enroll sha req now st = st \<or> handle_enroll sha req now st = s1 \<and> en_kind row = En_New \<or>
          handle_enroll sha req now st = s2 \<and> en_kind row = En_Reconnect"
        using Some 1 2 Eq_Exchange
        by (cases "en_kind row") (auto simp: exchange_mobile_enrollment_def Let_def)
      then show ?thesis
        using inv exchange_new_inv [OF inv Some _ t 1] exchange_reconnect_inv [OF inv Some _ t 2] le by auto
    qed
  next
    case (Eq_Check_In host ver)
    have "map mh_id (st_hosts (mobile_check_in host ver now st)) = map mh_id (st_hosts st)"
      by (simp add: mobile_check_in_def)
    then have "mh_id ` set (st_hosts (mobile_check_in host ver now st)) = mh_id ` set (st_hosts st)"
      by (metis list.set_map)
    then have "enrollments_inv (handle_enroll sha req now st)"
      by (intro enrollments_inv_same [OF ei]) (simp_all add: Eq_Check_In, simp add: mobile_check_in_def)
    moreover have "credentials_inv (handle_enroll sha req now st)"
      by (rule credentials_inv_keep [OF ci le]) (simp_all add: Eq_Check_In mobile_check_in_def)
    ultimately show ?thesis by (simp add: store_inv_def)
  next
    case (Eq_Bootstrap grant secret sid)
    have new: "store_inv (st\<lparr> st_sessions := st_sessions st @ [s] \<rparr>)"
      if "\<not> list_ex (\<lambda>x. ws_id x = ws_id s \<or> ws_session_hash x = h) (st_sessions st)"
        "ws_expires_at s = ws_issued_at s + SESSION_TTL_MS" "paired st (ws_registration_id s) (ws_admin s)" for s h
    proof -
      have p: "paired (st\<lparr> st_sessions := st_sessions st @ [s] \<rparr>) = paired st" by (simp add: paired_def fun_eq_iff)
      have "enrollments_inv (st\<lparr> st_sessions := st_sessions st @ [s] \<rparr>)" by (rule enrollments_inv_same [OF ei]) simp_all
      then show ?thesis using that ci by (auto simp: store_inv_def credentials_inv_def p list_ex_iff)
    qed
    have g: "paired st (wg_registration_id g) (wg_admin g)" if "find (\<lambda>g. wg_grant_hash g = sha grant) (st_grants st) = Some g" for g
      using ci find_SomeD [OF that] by (auto simp: credentials_inv_def)
    show ?thesis
      unfolding Eq_Bootstrap using inv g
      by (auto simp: bootstrap_mobile_web_session_def Let_def dest!: find_registration_SomeD split: option.split
          intro!: new [where h = "sha secret"])
  next
    case (Eq_Revoke host reason)
    let ?r = "revoke_sessions host now (revoke_grants host reason now (\<lambda>_. True) (revoke_registration_row host reason now st))"
    have cases: "handle_enroll sha req now st = st \<or> handle_enroll sha req now st =
        revoke_enrollments_where (\<lambda>e. en_host_id e = host \<and> en_status e \<noteq> Es_Revoked) now ?r"
      by (auto simp: Eq_Revoke revoke_registration_everywhere_def split: option.split)
    have "enrollments_inv ?r"
      by (rule enrollments_inv_same [OF ei]) (simp_all add: revoke_registration_row_def)
    then have "enrollments_inv (handle_enroll sha req now st)"
      using ei cases enrollments_inv_revoke by (elim disjE) simp_all
    moreover have "credentials_inv (handle_enroll sha req now st)"
    proof (rule credentials_inv_keep [OF ci le])
      have "map rg_host_id (st_registrations ?r) = map rg_host_id (st_registrations st)"
        "map grant_key (st_grants ?r) = map grant_key (st_grants st)"
        "map session_key (st_sessions ?r) = map session_key (st_sessions st)"
        by (simp_all add: revoke_registration_row_def)
      then show "map rg_host_id (st_registrations (handle_enroll sha req now st)) = map rg_host_id (st_registrations st)"
        "map grant_key (st_grants (handle_enroll sha req now st)) = map grant_key (st_grants st)"
        "map session_key (st_sessions (handle_enroll sha req now st)) = map session_key (st_sessions st)"
        using cases by (elim disjE; simp)+
    qed
    ultimately show ?thesis by (simp add: store_inv_def)
  next
    case (Eq_Logout secret)
    have "enrollments_inv (handle_enroll sha req now st)"
      by (rule enrollments_inv_same [OF ei]) (simp_all add: Eq_Logout revoke_mobile_web_session_def Let_def)
    moreover have "credentials_inv (handle_enroll sha req now st)"
      by (rule credentials_inv_keep [OF ci le]) (simp_all add: Eq_Logout revoke_mobile_web_session_def Let_def)
    ultimately show ?thesis by (simp add: store_inv_def)
  qed
qed

lemma store_later_inv: "store_later sha st st' \<Longrightarrow> store_inv st \<Longrightarrow> store_inv st'"
  by (induction rule: store_later.induct) (auto intro: handle_enroll_inv)

lemma store_start_inv: "store_start st \<Longrightarrow> store_inv st"
  by (simp add: store_start_def store_inv_def enrollments_inv_def credentials_inv_def)

lemma store_reach_inv: "store_reach sha st \<Longrightarrow> store_inv st"
  unfolding store_reach_def using store_later_inv store_start_inv by blast

section \<open>Single use\<close>

text \<open>What an exchange that succeeds needs, and what it leaves behind.\<close>

lemma exchange_ok:
  assumes inv: "store_inv st" and ex: "exchange_mobile_enrollment sha origin xs i secret name ver now st = (st', Ex_Ok h rot ids)"
  shows "\<exists>row. find_enrollment st i = Some row \<and> en_status row = Es_Pending \<and> now < en_expires_at row \<and>
    en_host_id row = h \<and> hashes_equal (sha secret) (en_secret_hash row) \<and> rot = (en_kind row = En_Reconnect) \<and>
    (\<exists>e\<in>set (st_enrollments st'). en_id e = i \<and> en_status e = Es_Used)"
proof -
  have ei: "enrollments_inv st" using inv by (simp add: store_inv_def)
  from ex obtain row where row: "find_enrollment st i = Some row"
    by (auto simp: exchange_mobile_enrollment_def split: option.splits)
  have i: "en_id row = i" using find_enrollment_SomeD [OF row] by simp
  have hq: "hashes_equal (sha secret) (en_secret_hash row)"
    and run: "if en_kind row = En_Reconnect then exchange_reconnect_enrollment sha origin xs row name ver now st = (st', Ex_Ok h rot ids)
         else exchange_new_enrollment sha origin xs row name ver now st = (st', Ex_Ok h rot ids)"
    using ex row by (auto simp: exchange_mobile_enrollment_def Let_def split: if_splits)
  show ?thesis
  proof (cases "en_kind row = En_Reconnect")
    case True
    then have "exchange_reconnect_enrollment sha origin xs row name ver now st = (st', Ex_Ok h rot ids)" using run by simp
    then show ?thesis
    proof (cases rule: exchange_reconnect_cases)
      case (2 st1 st2 old)
      have en: "st_enrollments st' = st_enrollments st1" using rotate_Some [OF 2(4)] unfolding 2(8) by simp
      note c = claimed_row [OF ei row 2(3) [unfolded i]]
      have "\<exists>e\<in>set (st_enrollments st'). en_id e = i \<and> en_status e = Es_Used"
        unfolding en using c(3) i by (intro bexI [OF _ c(3)]) simp
      then show ?thesis using row c(1,2) hq 2(6) True by auto
    qed blast
  next
    case False
    then have "exchange_new_enrollment sha origin xs row name ver now st = (st', Ex_Ok h rot ids)" using run by simp
    then show ?thesis
    proof (cases rule: exchange_new_cases)
      case (2 st1 r)
      have en: "st_enrollments st' = st_enrollments st1" unfolding 2(7) by simp
      note c = claimed_row [OF ei row 2(1) [unfolded i]]
      have "\<exists>e\<in>set (st_enrollments st'). en_id e = i \<and> en_status e = Es_Used"
        unfolding en using c(3) i by (intro bexI [OF _ c(3)]) simp
      then show ?thesis using row c(1,2) hq 2(2) False by auto
    qed blast
  qed
qed

text \<open>A phone and its codes, for the examples; the toy digest is the length, in pairs of hexadecimal digits.\<close>

definition toy_hash :: "string \<Rightarrow> string" where
  "toy_hash s = concat (map (\<lambda>_. ''a1'') s)"

definition sample_store :: mobile_store where
  "sample_store = \<lparr> st_enrollments = [], st_registrations = [], st_grants = [], st_sessions = [], st_hosts = [] \<rparr>"

definition sample_secrets :: "nat \<Rightarrow> exchange_secrets" where
  "sample_secrets n = \<lparr> xs_native_token = ''token'' @ replicate n (CHR ''a''), xs_web_grant = ''grant'' @ replicate n (CHR ''a''),
     xs_grant_id = ''g'' @ replicate n (CHR ''a'') \<rparr>"

definition sample_paired :: mobile_store where
  "sample_paired =
     handle_enroll toy_hash (Eq_Exchange (Some ''https://o'') (sample_secrets 1) ''e1'' ''secret1'' ''Phone'' ''1.0'') 2
       (handle_enroll toy_hash (Eq_Create (Some ''https://o'') True ''android'' ''e1'' ''mob-1'' ''secret1'') 1 sample_store)"

lemma sample_store_start: "store_start sample_store"
  by (simp add: store_start_def sample_store_def)

lemma sample_paired_later: "store_later toy_hash sample_store sample_paired"
  unfolding sample_paired_def by (intro store_later.step store_later.now) simp_all

lemma sample_paired_reach: "store_reach toy_hash sample_paired"
  unfolding store_reach_def using sample_paired_later sample_store_start by blast



section \<open>Revocation and rotation\<close>

lemma registration_unique:
  "store_inv st \<Longrightarrow> r \<in> set (st_registrations st) \<Longrightarrow> r' \<in> set (st_registrations st) \<Longrightarrow> rg_host_id r = rg_host_id r' \<Longrightarrow> r = r'"
  by (auto simp: store_inv_def credentials_inv_def distinct_map dest: inj_onD)

text \<open>A store in which a device is revoked: none of its credentials work.\<close>

definition device_revoked :: "mobile_store \<Rightarrow> string \<Rightarrow> bool" where
  "device_revoked st h \<longleftrightarrow> (\<exists>r\<in>set (st_registrations st). rg_host_id r = h \<and> is_row_revoked (rg_revoked_at r))"

lemma device_revoked_mono: "store_le st st' \<Longrightarrow> device_revoked st h \<Longrightarrow> device_revoked st' h"
  unfolding store_le_def covered_def device_revoked_def rg_le_def by metis

lemma device_revoked_find:
  assumes "store_inv st" "device_revoked st h"
  shows "\<exists>r. find_registration_by_host_id st h = Some r \<and> is_row_revoked (rg_revoked_at r)"
proof -
  from assms(2) obtain r where r: "r \<in> set (st_registrations st)" "rg_host_id r = h" "is_row_revoked (rg_revoked_at r)"
    by (auto simp: device_revoked_def)
  then have "find_registration_by_host_id st h \<noteq> None"
    by (auto simp: find_registration_by_host_id_def find_None_iff)
  then obtain r' where r': "find_registration_by_host_id st h = Some r'" by blast
  have "r' = r" using registration_unique [OF assms(1)] find_registration_SomeD [OF r'] r by blast
  then show ?thesis using r' r(3) by blast
qed

lemma device_revoked_dead:
  assumes inv: "store_inv st" and rev: "device_revoked st h"
  shows "resolve_native_host sha st token \<noteq> Some h"
    and "resolve_live_session sha st secret t = Some (s, r, g) \<Longrightarrow> ws_registration_id s \<noteq> h"
    and "snd (exchange_mobile_enrollment sha origin xs i code name ver t st) \<noteq> Ex_Ok h rot ids"
proof -
  from device_revoked_find [OF inv rev] obtain d where
    d: "find_registration_by_host_id st h = Some d" "is_row_revoked (rg_revoked_at d)" by blast
  note dd = find_registration_SomeD [OF d(1)]
  have mem: "h \<in> rg_host_id ` set (st_registrations st)" using dd by (metis imageI)
  have dead: "is_row_revoked (rg_revoked_at x)" if "x \<in> set (st_registrations st)" "rg_host_id x = h" for x
    using registration_unique [OF inv that(1), of d] dd that(2) d(2) by auto
  show "resolve_native_host sha st token \<noteq> Some h"
    by (auto simp: resolve_native_host_def dest!: find_SomeD split: option.split dest: dead)
  show "ws_registration_id s \<noteq> h" if "resolve_live_session sha st secret t = Some (s, r, g)"
    using that d by (auto simp: resolve_live_session_def split: option.splits if_splits)
  show "snd (exchange_mobile_enrollment sha origin xs i code name ver t st) \<noteq> Ex_Ok h rot ids"
  proof
    assume "snd (exchange_mobile_enrollment sha origin xs i code name ver t st) = Ex_Ok h rot ids"
    then obtain st' where ex: "exchange_mobile_enrollment sha origin xs i code name ver t st = (st', Ex_Ok h rot ids)"
      by (metis prod.collapse)
    then obtain row where row: "en_host_id row = h" and
      run: "if rot then exchange_reconnect_enrollment sha origin xs row name ver t st = (st', Ex_Ok h rot ids)
            else exchange_new_enrollment sha origin xs row name ver t st = (st', Ex_Ok h rot ids)"
      using exchange_ok [OF inv ex]
      by (auto simp: exchange_mobile_enrollment_def Let_def split: if_splits option.splits)
    show False
    proof (cases rot)
      case True
      then have "exchange_reconnect_enrollment sha origin xs row name ver t st = (st', Ex_Ok h rot ids)" using run by simp
      then show False
        by (cases rule: exchange_reconnect_cases) (use row d in auto)
    next
      case False
      then have "exchange_new_enrollment sha origin xs row name ver t st = (st', Ex_Ok h rot ids)" using run by simp
      then show False
        by (cases rule: exchange_new_cases) (use row mem in auto)
    qed
  qed
qed

lemma revocation_marks:
  assumes "0 < now" and "revoke_registration_everywhere h reason now st = (st1, Some since)"
  shows "device_revoked st1 h"
proof -
  from assms(2) obtain r where r: "find_registration_by_host_id st h = Some r"
    by (auto simp: revoke_registration_everywhere_def split: option.splits)
  note rr = find_registration_SomeD [OF r]
  show ?thesis
  proof (cases "is_row_revoked (rg_revoked_at r)")
    case True
    then show ?thesis using assms(2) r rr by (auto simp: revoke_registration_everywhere_def device_revoked_def)
  next
    case False
    then have "st_registrations st1 = map (\<lambda>r. if rg_host_id r = h
        then r\<lparr> rg_revoked_at := Some now, rg_revoked_reason := reason \<rparr> else r) (st_registrations st)"
      using assms(2) r
      by (auto simp: revoke_registration_everywhere_def revoke_enrollments_where_def revoke_sessions_def revoke_grants_def
          revoke_registration_row_def)
    then have "r\<lparr> rg_revoked_at := Some now, rg_revoked_reason := reason \<rparr> \<in> set (st_registrations st1)"
      using rr by (auto simp: image_iff intro!: bexI [of _ r])
    then show ?thesis
      unfolding device_revoked_def using rr assms(1) by (intro bexI) (auto simp: is_row_revoked_def)
  qed
qed

text \<open>
  C25. Revoking a device is final. Once it was revoked, whatever is requested later, no native
  token and no web session of it is accepted, and no code, shown before or after, gives
  credentials for it.
\<close>

theorem revoked_devices_stay_revoked:
  assumes "store_reach sha st" and "0 < now"
    and "revoke_registration_everywhere h reason now st = (st1, Some since)" and "store_later sha st1 st2"
  shows "resolve_native_host sha st2 token \<noteq> Some h \<and>
    (resolve_live_session sha st2 secret t = None \<or>
     ws_registration_id (fst (the (resolve_live_session sha st2 secret t))) \<noteq> h) \<and>
    snd (exchange_mobile_enrollment sha origin xs i code name ver t st2) \<noteq> Ex_Ok h rot ids"
proof -
  have inv: "store_inv st" by (rule store_reach_inv [OF assms(1)])
  have st1: "st1 = handle_enroll sha (Eq_Revoke h reason) now st" using assms(3) by simp
  have inv2: "store_inv st2"
    using store_later_inv [OF assms(4)] handle_enroll_inv [OF inv assms(2)] st1 by metis
  have "device_revoked st1 h" by (rule revocation_marks [OF assms(2,3)])
  then have rev: "device_revoked st2 h" using device_revoked_mono [OF store_later_le [OF assms(4)]] by blast
  note dead = device_revoked_dead [OF inv2 rev]
  show ?thesis
    using dead(1,3) dead(2) [of sha secret t]
    by (cases "resolve_live_session sha st2 secret t") auto
qed

theorem revoked_devices_stay_revoked_witness:
  "resolve_native_host toy_hash (fst (revoke_registration_everywhere ''mob-1'' None 5 sample_paired)) ''tokena'' \<noteq> Some ''mob-1'' \<and>
   resolve_native_host toy_hash sample_paired ''tokena'' = Some ''mob-1''"
proof -
  let ?rv = "revoke_registration_everywhere ''mob-1'' None 5 sample_paired"
  have "snd ?rv = Some 5" by code_simp
  then have rv: "?rv = (fst ?rv, Some 5)" by (metis prod.collapse)
  have t: "(0::int) < 5" by simp
  have "resolve_native_host toy_hash sample_paired ''tokena'' = Some ''mob-1''" by code_simp
  with conjunct1 [OF revoked_devices_stay_revoked [OF sample_paired_reach t rv store_later.now]]
  show ?thesis by blast
qed

end
