(* ===== verification/Api_Keys.thy ===== *)
theory Api_Keys
  imports Principals Mobile_Enrollment
begin

text \<open>
  Managed keys, \<open>server/src/api-keys.ts\<close> and \<open>server/src/routes/api-keys.ts\<close>: the token
  format, the table of hashed secrets, lookup, and the administrator's list, create, reveal
  and revoke. Random ids and secrets, the clock, the hash \<open>sha\<close> and what sealing or opening the
  stored copy gave are arguments: a sealed copy is \<open>None\<close> when the encryption key is missing.
\<close>

section \<open>Tokens\<close>

definition TOKEN_PREFIX :: string where "TOKEN_PREFIX = ''lmsk''"

definition KEY_ID_ALPHABET :: string where
  "KEY_ID_ALPHABET = ''ABCDEFGHJKLMNPQRSTUVWXYZabcdefghijkmnopqrstuvwxyz23456789''"

definition KEY_ID_LENGTH :: nat where "KEY_ID_LENGTH = 12"

definition LAST_USED_WRITE_WINDOW_MS :: int where "LAST_USED_WRITE_WINDOW_MS = 5 * 60 * 1000"

definition api_key_token :: "string \<Rightarrow> string \<Rightarrow> string" where
  "api_key_token key_id secret = TOKEN_PREFIX @ ''.'' @ key_id @ ''.'' @ secret"

definition parse_api_key_token :: "string \<Rightarrow> (string \<times> string) option" where
  "parse_api_key_token token =
     (case split_on (CHR ''.'') token of
        [prefix, key_id, secret] \<Rightarrow>
          if prefix \<noteq> TOKEN_PREFIX then None
          else if length key_id \<noteq> KEY_ID_LENGTH then None
          else if \<not> list_all (\<lambda>c. c \<in> set KEY_ID_ALPHABET) key_id then None
          else if length secret < 16 then None
          else Some (key_id, secret)
      | _ \<Rightarrow> None)"

section \<open>Rows\<close>

datatype api_key_kind = Kind_Admin | Kind_Device | Kind_Deploy | Kind_Other string

record api_key_row =
  ak_id :: string
  ak_name :: string
  ak_kind :: api_key_kind
  ak_host_id :: "string option"
  ak_token_hash :: string
  ak_token_enc :: string
  ak_created_at :: int
  ak_last_used_at :: "int option"
  ak_revealed_at :: "int option"
  ak_revoked_at :: "int option"
  ak_revoked_reason :: "string option"

definition is_api_key_row_revoked :: "api_key_row \<Rightarrow> bool" where
  "is_api_key_row_revoked r = (case ak_revoked_at r of None \<Rightarrow> False | Some t \<Rightarrow> t > 0)"

definition fingerprint_from_hash :: "string \<Rightarrow> string" where
  "fingerprint_from_hash h = take 10 h"

text \<open>What a row shows: everything but the hash and the sealed copy.\<close>

record api_key_summary =
  ks_id :: string
  ks_name :: string
  ks_kind :: api_key_kind
  ks_host_id :: "string option"
  ks_created_at :: int
  ks_last_used_at :: "int option"
  ks_revealed_at :: "int option"
  ks_revoked_at :: "int option"
  ks_revoked_reason :: "string option"
  ks_fingerprint :: string

definition api_key_row_to_summary :: "api_key_row \<Rightarrow> api_key_summary" where
  "api_key_row_to_summary r =
     \<lparr> ks_id = ak_id r, ks_name = ak_name r, ks_kind = ak_kind r, ks_host_id = ak_host_id r,
       ks_created_at = ak_created_at r, ks_last_used_at = ak_last_used_at r,
       ks_revealed_at = ak_revealed_at r, ks_revoked_at = ak_revoked_at r,
       ks_revoked_reason = ak_revoked_reason r, ks_fingerprint = fingerprint_from_hash (ak_token_hash r) \<rparr>"

definition find_key :: "api_key_row list \<Rightarrow> string \<Rightarrow> api_key_row option" where
  "find_key keys i = find (\<lambda>r. ak_id r = i) keys"

definition find_api_key_by_token :: "(string \<Rightarrow> string) \<Rightarrow> api_key_row list \<Rightarrow> string \<Rightarrow> api_key_row option" where
  "find_api_key_by_token sha keys token =
     (case parse_api_key_token token of
        None \<Rightarrow> None
      | Some (key_id, secret) \<Rightarrow>
          (case find_key keys key_id of
             None \<Rightarrow> None
           | Some row \<Rightarrow> if \<not> hashes_equal (sha secret) (ak_token_hash row) then None else Some row))"

text \<open>A new row; \<open>None\<close> is an error thrown: no encryption key, a device key without host, or a row
  with the same id or hash.\<close>

definition insert_managed_api_key_into ::
    "(string \<Rightarrow> string) \<Rightarrow> string \<Rightarrow> string \<Rightarrow> string option \<Rightarrow> string \<Rightarrow> api_key_kind \<Rightarrow> string option \<Rightarrow> int \<Rightarrow>
     api_key_row list \<Rightarrow> (api_key_row list \<times> string) option" where
  "insert_managed_api_key_into sha key_id secret sealed name kind host now keys =
     (let host_id = (if kind = Kind_Device then host else None)
      in case sealed of
        None \<Rightarrow> None
      | Some enc \<Rightarrow>
          if kind = Kind_Device \<and> host_id = None then None
          else if list_ex (\<lambda>r. ak_id r = key_id \<or> ak_token_hash r = sha secret) keys then None
          else Some (keys @ [\<lparr> ak_id = key_id, ak_name = name, ak_kind = kind, ak_host_id = host_id,
                               ak_token_hash = sha secret, ak_token_enc = enc, ak_created_at = now,
                               ak_last_used_at = None, ak_revealed_at = None, ak_revoked_at = None,
                               ak_revoked_reason = None \<rparr>],
                     api_key_token key_id secret))"

definition update_key :: "string \<Rightarrow> (api_key_row \<Rightarrow> api_key_row) \<Rightarrow> api_key_row list \<Rightarrow> api_key_row list" where
  "update_key i f keys = map (\<lambda>r. if ak_id r = i then f r else r) keys"

definition touch_api_key_last_used :: "string \<Rightarrow> int \<Rightarrow> api_key_row list \<Rightarrow> api_key_row list" where
  "touch_api_key_last_used i now keys =
     (case find_key keys i of
        None \<Rightarrow> keys
      | Some row \<Rightarrow>
          if (case ak_last_used_at row of None \<Rightarrow> False | Some t \<Rightarrow> now - t < LAST_USED_WRITE_WINDOW_MS)
          then keys
          else update_key i (\<lambda>r. r\<lparr> ak_last_used_at := Some now \<rparr>) keys)"

section \<open>Routes\<close>

datatype key_reply =
    Key_Refused nat
  | Key_List "api_key_summary list"
  | Key_Created api_key_summary string
  | Key_Revealed string string int
  | Key_Revoked string int

definition list_rows :: "api_key_row list \<Rightarrow> api_key_row list" where
  "list_rows keys = rev (sort_key ak_created_at (rev keys))"

definition get_api_keys :: "auth_principal option \<Rightarrow> api_key_row list \<Rightarrow> key_reply" where
  "get_api_keys who keys =
     (if \<not> require_admin who then Key_Refused 403 else Key_List (map api_key_row_to_summary (list_rows keys)))"

definition post_api_key ::
    "(string \<Rightarrow> string) \<Rightarrow> auth_principal option \<Rightarrow> string \<Rightarrow> bool \<Rightarrow> string \<Rightarrow> string \<Rightarrow> string option \<Rightarrow> int \<Rightarrow>
     api_key_row list \<Rightarrow> api_key_row list \<times> key_reply" where
  "post_api_key sha who body_name deploy key_id secret sealed now keys =
     (let name = js_trim body_name
      in if \<not> require_admin who then (keys, Key_Refused 403)
         else if length name = 0 then (keys, Key_Refused 400)
         else if length name > 64 then (keys, Key_Refused 400)
         else case insert_managed_api_key_into sha key_id secret sealed name
                     (if deploy then Kind_Deploy else Kind_Admin) None now keys of
           None \<Rightarrow> (keys, Key_Refused 500)
         | Some (keys', token) \<Rightarrow> (keys', Key_Created (api_key_row_to_summary (last keys')) token))"

text \<open>\<open>opened\<close> is what opening a sealed copy gives.\<close>

definition post_reveal ::
    "auth_principal option \<Rightarrow> (string \<Rightarrow> string option) \<Rightarrow> string \<Rightarrow> int \<Rightarrow> api_key_row list \<Rightarrow>
     api_key_row list \<times> key_reply" where
  "post_reveal who opened i now keys =
     (if \<not> require_admin who then (keys, Key_Refused 403)
      else case find_key keys i of
        None \<Rightarrow> (keys, Key_Refused 404)
      | Some row \<Rightarrow>
          (case opened (ak_token_enc row) of
             None \<Rightarrow> (keys, Key_Refused 500)
           | Some secret \<Rightarrow>
               if length secret = 0 then (keys, Key_Refused 500)
               else (update_key (ak_id row) (\<lambda>r. r\<lparr> ak_revealed_at := Some now \<rparr>) keys,
                     Key_Revealed (ak_id row) secret now)))"

definition revocation_reason :: "string option \<Rightarrow> string option" where
  "revocation_reason reason =
     (let t = take 200 (js_trim (or_default reason [])) in if t = [] then None else Some t)"

definition post_revoke ::
    "auth_principal option \<Rightarrow> string option \<Rightarrow> string \<Rightarrow> int \<Rightarrow> api_key_row list \<Rightarrow> api_key_row list \<times> key_reply" where
  "post_revoke who reason i now keys =
     (if \<not> require_admin who then (keys, Key_Refused 403)
      else case find_key keys i of
        None \<Rightarrow> (keys, Key_Refused 404)
      | Some row \<Rightarrow>
          (update_key (ak_id row) (\<lambda>r. r\<lparr> ak_revoked_at := Some now, ak_revoked_reason := revocation_reason reason \<rparr>) keys,
           Key_Revoked (ak_id row) now))"

section \<open>Facts\<close>

text \<open>A key id as \<open>generateKeyId\<close> makes it, a secret in base64url.\<close>

definition key_id_ok :: "string \<Rightarrow> bool" where
  "key_id_ok i \<longleftrightarrow> length i = KEY_ID_LENGTH \<and> list_all (\<lambda>c. c \<in> set KEY_ID_ALPHABET) i"

definition secret_ok :: "string \<Rightarrow> bool" where
  "secret_ok s \<longleftrightarrow> 16 \<le> length s \<and> CHR ''.'' \<notin> set s"

lemma no_dot [simp]: "CHR ''.'' \<notin> set KEY_ID_ALPHABET" "CHR ''.'' \<notin> set TOKEN_PREFIX"
  by (simp_all add: KEY_ID_ALPHABET_def TOKEN_PREFIX_def)

lemma key_id_no_dot: "key_id_ok i \<Longrightarrow> CHR ''.'' \<notin> set i"
  using no_dot(1) by (auto simp: key_id_ok_def list_all_iff)

text \<open>
  A token is its two parts. What is minted parses back to the key id and the secret it was
  made of, and nothing else parses to them.
\<close>

theorem tokens_round_trip:
  assumes "key_id_ok i" and "secret_ok s"
  shows "parse_api_key_token token = Some (i, s) \<longleftrightarrow> token = api_key_token i s"
proof
  assume "parse_api_key_token token = Some (i, s)"
  then have sp: "split_on (CHR ''.'') token = [TOKEN_PREFIX, i, s]"
    by (auto simp: parse_api_key_token_def split: list.splits if_splits)
  then show "token = api_key_token i s"
    using join_split_on [of "CHR ''.''" token] by (simp add: api_key_token_def)
next
  assume "token = api_key_token i s"
  then have "split_on (CHR ''.'') token = [TOKEN_PREFIX, i, s]"
    using assms key_id_no_dot [OF assms(1)]
    by (simp add: api_key_token_def split_on_append split_on_id secret_ok_def)
  then show "parse_api_key_token token = Some (i, s)"
    using assms by (simp add: parse_api_key_token_def key_id_ok_def secret_ok_def)
qed

theorem tokens_round_trip_witness:
  "parse_api_key_token (api_key_token ''ABCDEFGHJKLM'' ''0123456789abcdef'') = Some (''ABCDEFGHJKLM'', ''0123456789abcdef'')"
proof -
  have "key_id_ok ''ABCDEFGHJKLM''" "secret_ok ''0123456789abcdef''" by code_simp+
  from tokens_round_trip [OF this] show ?thesis by blast
qed

lemma parse_api_key_token_ok: "parse_api_key_token token = Some (i, s) \<Longrightarrow> key_id_ok i \<and> token = api_key_token i s"
  using join_split_on [of "CHR ''.''" token]
  by (auto simp: parse_api_key_token_def key_id_ok_def api_key_token_def split: list.splits if_splits)

lemma find_key_SomeD: "find_key keys i = Some r \<Longrightarrow> r \<in> set keys \<and> ak_id r = i"
  by (auto simp: find_key_def dest: find_SomeD)

lemma set_update_key: "set (update_key i f keys) = (\<lambda>r. if ak_id r = i then f r else r) ` set keys"
  by (simp add: update_key_def)

text \<open>A row is found by its token, by no other token with another hash.\<close>

lemma find_api_key_SomeD:
  "find_api_key_by_token sha keys token = Some r \<Longrightarrow>
     r \<in> set keys \<and> (\<exists>s. token = api_key_token (ak_id r) s \<and> hashes_equal (sha s) (ak_token_hash r))"
  by (auto simp: find_api_key_by_token_def split: option.splits if_splits dest!: find_key_SomeD parse_api_key_token_ok)

lemma minted_key_found:
  assumes "insert_managed_api_key_into sha i s sealed name kind host now keys = Some (keys', token)"
    and "key_id_ok i" and "secret_ok s" and "hashes_equal (sha s) (sha s)"
  shows "find_api_key_by_token sha keys' token = Some (last keys')" and "keys' = keys @ [last keys']"
    and "ak_id (last keys') = i" and "ak_kind (last keys') = kind" and "ak_revoked_at (last keys') = None"
    and "ak_host_id (last keys') = (if kind = Kind_Device then host else None)"
    and "kind = Kind_Device \<Longrightarrow> host \<noteq> None" and "token = api_key_token i s"
proof -
  have t: "parse_api_key_token (api_key_token i s) = Some (i, s)"
    using assms(2,3) key_id_no_dot [OF assms(2)]
    by (simp add: parse_api_key_token_def api_key_token_def split_on_append split_on_id secret_ok_def key_id_ok_def)
  obtain r where keys': "keys' = keys @ [r]" and r: "ak_id r = i" "ak_kind r = kind" "ak_revoked_at r = None"
      "ak_host_id r = (if kind = Kind_Device then host else None)" "ak_token_hash r = sha s"
    and tok: "token = api_key_token i s" and fresh: "\<forall>x\<in>set keys. ak_id x \<noteq> i"
    and h: "kind = Kind_Device \<Longrightarrow> host \<noteq> None"
    using assms(1)
    by (auto simp: insert_managed_api_key_into_def Let_def list_ex_iff split: option.splits if_splits)
  have "find (\<lambda>x. ak_id x = i) keys = None" using fresh by (auto simp: find_None_iff)
  then have "find_key keys' i = Some r" using r(1) by (simp add: keys' find_key_def find_append)
  then show "find_api_key_by_token sha keys' token = Some (last keys')"
    using t r(5) assms(4) by (simp add: find_api_key_by_token_def tok keys')
  show "keys' = keys @ [last keys']" "ak_id (last keys') = i" "ak_kind (last keys') = kind"
    "ak_revoked_at (last keys') = None" "ak_host_id (last keys') = (if kind = Kind_Device then host else None)"
    using keys' r by simp_all
  show "token = api_key_token i s" by (rule tok)
  show "host \<noteq> None" if "kind = Kind_Device" using h that .
qed

end
