(* ===== verification/Auth_Boundary.thy ===== *)
theory Auth_Boundary
  imports Api_Keys
begin

text \<open>
  The authentication boundary, \<open>server/src/auth.ts\<close>: it turns a request into a principal or
  refuses it, and confines devices, phones and plain web sessions to their lists of routes.
  \<open>Proceed None\<close> lets an anonymous request through. A request is its method, the path of its URL
  and the headers the boundary reads; header names are matched by the framework. The hash,
  the CSRF derivation, the master key and the trusted origin are the environment.
\<close>

section \<open>Requests and routes\<close>

record api_call =
  rq_method :: string
  rq_path :: string
  rq_upgrade :: "string option"
  rq_authorization :: "string option"
  rq_cookie :: "string option"
  rq_origin :: "string option"
  rq_csrf :: "string option"

record auth_env =
  ae_sha :: "string \<Rightarrow> string"
  ae_csrf :: "string \<Rightarrow> string"
  ae_master :: string
  ae_origin :: "string option"

record auth_state =
  as_keys :: "api_key_row list"
  as_store :: mobile_store

type_synonym route_list = "(string \<times> string) list"

definition segments_of :: "string \<Rightarrow> string list" where
  "segments_of path = filter (\<lambda>s. length s > 0) (split_on (CHR ''/'') path)"

definition path_matches_pattern :: "string list \<Rightarrow> string \<Rightarrow> bool" where
  "path_matches_pattern path pattern \<longleftrightarrow>
     (let pat = segments_of pattern
      in length pat = length path \<and> list_all2 (\<lambda>p s. \<not> (p \<noteq> ''*'' \<and> p \<noteq> s)) pat path)"

definition route_allowed :: "route_list \<Rightarrow> string \<Rightarrow> string \<Rightarrow> bool" where
  "route_allowed routes path method \<longleftrightarrow>
     list_ex (\<lambda>(m, pattern). m = method \<and> path_matches_pattern (segments_of path) pattern) routes"

definition AUTH_EXEMPT_ROUTES :: route_list where
  "AUTH_EXEMPT_ROUTES =
    [(''POST'', ''/api/v1/pairing/*/exchange''),
     (''POST'', ''/api/v1/mobile/enrollments/*/exchange''),
     (''POST'', ''/api/v1/mobile/web-session'')]"

definition DEVICE_ALLOWED_ROUTES :: route_list where
  "DEVICE_ALLOWED_ROUTES =
    [(''POST'', ''/api/v1/register''),
     (''GET'', ''/api/v1/hosts/*''),
     (''GET'', ''/api/v1/actions/pending''),
     (''GET'', ''/api/v1/actions/taken''),
     (''POST'', ''/api/v1/actions/*/lease''),
     (''POST'', ''/api/v1/actions/*/complete''),
     (''POST'', ''/api/v1/report/health''),
     (''POST'', ''/api/v1/report''),
     (''POST'', ''/api/v1/sync-progress''),
     (''POST'', ''/api/v1/folder-health''),
     (''POST'', ''/api/v1/folder-plans''),
     (''GET'', ''/api/v1/folder-plans/*''),
     (''GET'', ''/api/v1/seed-plans/*''),
     (''GET'', ''/api/v1/seed-jobs/*''),
     (''POST'', ''/api/v1/seed-jobs/*/progress''),
     (''POST'', ''/api/v1/seed-jobs/*/archive''),
     (''POST'', ''/api/v1/seed-jobs/*/lease''),
     (''POST'', ''/api/v1/seed-jobs/*/complete''),
     (''GET'', ''/api/v1/config/*''),
     (''POST'', ''/api/v1/operations/acquire''),
     (''POST'', ''/api/v1/operations/heartbeat''),
     (''POST'', ''/api/v1/operations/release''),
     (''GET'', ''/api/v1/operations/locks''),
     (''GET'', ''/api/v1/conflicts''),
     (''POST'', ''/api/v1/conflicts''),
     (''POST'', ''/api/v1/conflicts/*/resolve''),
     (''GET'', ''/api/v1/restic/snapshots''),
     (''POST'', ''/api/v1/restic/snapshots''),
     (''GET'', ''/api/v1/restic/restore''),
     (''POST'', ''/api/v1/restic/restore''),
     (''POST'', ''/api/v1/restic/restore/*/status''),
     (''GET'', ''/api/v1/apps/protections''),
     (''GET'', ''/api/v1/apps/protections/*''),
     (''GET'', ''/api/v1/apps/protections/*/snapshots''),
     (''POST'', ''/api/v1/apps/protections/*/snapshots''),
     (''GET'', ''/api/v1/apps/snapshots/*''),
     (''GET'', ''/api/v1/apps/snapshots/*/download''),
     (''GET'', ''/api/v1/release/latest''),
     (''GET'', ''/api/v1/health''),
     (''GET'', ''/api/v1/auth/me''),
     (''PATCH'', ''/api/v1/folders/*/assign/*'')]"

definition MOBILE_ALLOWED_ROUTES :: route_list where
  "MOBILE_ALLOWED_ROUTES =
    [(''GET'', ''/api/v1/mobile/me''),
     (''POST'', ''/api/v1/mobile/check-in''),
     (''GET'', ''/api/v1/mobile/destinations''),
     (''POST'', ''/api/v1/mobile/uploads''),
     (''GET'', ''/api/v1/mobile/uploads''),
     (''GET'', ''/api/v1/mobile/uploads/*''),
     (''PUT'', ''/api/v1/mobile/uploads/*/chunks''),
     (''POST'', ''/api/v1/mobile/uploads/*/finalize''),
     (''POST'', ''/api/v1/mobile/uploads/*/cancel'')]"

definition NON_ADMIN_SESSION_ALLOWED_ROUTES :: route_list where
  "NON_ADMIN_SESSION_ALLOWED_ROUTES =
    [(''GET'', ''/api/v1/auth/me''),
     (''POST'', ''/api/v1/mobile/web-session/logout'')]"

definition device_may_call_route :: "string \<Rightarrow> string \<Rightarrow> bool" where
  "device_may_call_route path method = route_allowed DEVICE_ALLOWED_ROUTES path method"

definition mobile_may_call_route :: "string \<Rightarrow> string \<Rightarrow> bool" where
  "mobile_may_call_route path method = route_allowed MOBILE_ALLOWED_ROUTES path method"

section \<open>Credentials\<close>

definition safe_equal :: "string \<Rightarrow> string \<Rightarrow> bool" where
  "safe_equal a b \<longleftrightarrow> length a = length b \<and> a = b"

definition resolve_principal ::
    "auth_env \<Rightarrow> string option \<Rightarrow> int \<Rightarrow> auth_state \<Rightarrow> auth_state \<times> auth_principal option" where
  "resolve_principal env token now st =
     (case token of
        None \<Rightarrow> (st, None)
      | Some t \<Rightarrow>
          if length t = 0 then (st, None)
          else if length (ae_master env) > 0 \<and> safe_equal t (ae_master env) then (st, Some Master_Key)
          else
            (let native = map_option Mobile_Token (resolve_native_host (ae_sha env) (as_store st) t);
                 touched = (\<lambda>r. st\<lparr> as_keys := touch_api_key_last_used (ak_id r) now (as_keys st) \<rparr>)
             in case find_api_key_by_token (ae_sha env) (as_keys st) t of
                  None \<Rightarrow> (st, native)
                | Some r \<Rightarrow>
                    if is_api_key_row_revoked r then (st, native)
                    else (case ak_kind r of
                       Kind_Device \<Rightarrow>
                         (case ak_host_id r of
                            None \<Rightarrow> (st, None)
                          | Some h \<Rightarrow> if length h = 0 then (st, None)
                                       else (touched r, Some (Device_Key (ak_id r) h)))
                     | Kind_Deploy \<Rightarrow> (touched r, Some (Deploy_Key (ak_id r)))
                     | Kind_Admin \<Rightarrow> (touched r, Some (Admin_Key (ak_id r)))
                     | Kind_Other _ \<Rightarrow> (st, None))))"

text \<open>The web session of a cookie secret, with its CSRF token.\<close>

definition resolve_cookie_session ::
    "auth_env \<Rightarrow> string \<Rightarrow> int \<Rightarrow> auth_state \<Rightarrow> (string \<times> bool \<times> string) option" where
  "resolve_cookie_session env secret now st =
     (case resolve_live_session (ae_sha env) (as_store st) secret now of
        None \<Rightarrow> None
      | Some (s, _, _) \<Rightarrow> Some (ws_id s, ws_admin s, ae_csrf env secret))"

definition MOBILE_SESSION_COOKIE :: string where "MOBILE_SESSION_COOKIE = ''__Host-lamasync-mobile''"

fun cookie_in :: "string list \<Rightarrow> string \<Rightarrow> string option" where
  "cookie_in [] name = None"
| "cookie_in (part # parts) name =
     (if CHR ''='' \<notin> set part then cookie_in parts name
      else if js_trim (takeWhile (\<lambda>c. c \<noteq> CHR ''='') part) = name
        then (let v = js_trim (tl (dropWhile (\<lambda>c. c \<noteq> CHR ''='') part)) in if length v > 0 then Some v else None)
      else cookie_in parts name)"

definition read_cookie_header :: "string option \<Rightarrow> string \<Rightarrow> string option" where
  "read_cookie_header raw name =
     (case raw of None \<Rightarrow> None | Some r \<Rightarrow> if r = [] then None else cookie_in (split_on (CHR '';'') r) name)"

text \<open>\<open>/^Bearer[ \t]+(.+)$/i\<close>: blanks are given back when nothing else is left for the token, and a
  line break never matches.\<close>

definition blank :: "char \<Rightarrow> bool" where
  "blank c \<longleftrightarrow> of_char c = (32 :: nat) \<or> of_char c = (9 :: nat)"

definition line_break :: "char \<Rightarrow> bool" where
  "line_break c \<longleftrightarrow> of_char c = (10 :: nat) \<or> of_char c = (13 :: nat)"

definition bearer_token :: "string \<Rightarrow> string option" where
  "bearer_token header =
     (let rest = drop 6 header; blanks = takeWhile blank rest; token = dropWhile blank rest
      in if to_lower (take 6 header) \<noteq> ''bearer'' \<or> blanks = [] \<or> list_ex line_break token then None
         else if token \<noteq> [] then Some token
         else if length blanks \<ge> 2 then Some [last blanks] else None)"

section \<open>The boundary\<close>

definition is_safe_method :: "string \<Rightarrow> bool" where
  "is_safe_method m \<longleftrightarrow> m = ''GET'' \<or> m = ''HEAD'' \<or> m = ''OPTIONS''"

datatype boundary_outcome = Proceed "auth_principal option" | Rejected nat

definition bearer_boundary ::
    "auth_env \<Rightarrow> string \<Rightarrow> int \<Rightarrow> api_call \<Rightarrow> auth_state \<Rightarrow> auth_state \<times> boundary_outcome" where
  "bearer_boundary env header now rq st =
     (case bearer_token header of
        None \<Rightarrow> (st, Rejected 401)
      | Some bearer \<Rightarrow>
          if length bearer = 0 then (st, Rejected 401)
          else (case resolve_principal env (Some bearer) now st of
             (st', None) \<Rightarrow> (st', Rejected 401)
           | (st', Some p) \<Rightarrow>
               if (case p of Device_Key _ _ \<Rightarrow> True | _ \<Rightarrow> False) \<and>
                  \<not> device_may_call_route (rq_path rq) (rq_method rq) then (st', Rejected 403)
               else if (case p of Mobile_Token _ \<Rightarrow> True | _ \<Rightarrow> False) \<and>
                  \<not> mobile_may_call_route (rq_path rq) (rq_method rq) then (st', Rejected 403)
               else (st', Proceed (Some p))))"

definition cookie_boundary ::
    "auth_env \<Rightarrow> string \<Rightarrow> int \<Rightarrow> api_call \<Rightarrow> auth_state \<Rightarrow> boundary_outcome" where
  "cookie_boundary env cookie now rq st =
     (case resolve_cookie_session env cookie now st of
        None \<Rightarrow> Rejected 401
      | Some (sid, admin, csrf_token) \<Rightarrow>
          if \<not> admin \<and> \<not> route_allowed NON_ADMIN_SESSION_ALLOWED_ROUTES (rq_path rq) (rq_method rq)
            then Rejected 403
          else if \<not> is_safe_method (rq_method rq) \<and>
              (ae_origin env = None \<or> rq_origin rq = None \<or> rq_origin rq \<noteq> ae_origin env)
            then Rejected 400
          else if \<not> is_safe_method (rq_method rq) \<and>
              (rq_csrf rq = None \<or> \<not> safe_equal (the (rq_csrf rq)) csrf_token)
            then Rejected 403
          else Proceed (Some (Web_Session sid admin)))"

definition auth_boundary ::
    "auth_env \<Rightarrow> int \<Rightarrow> api_call \<Rightarrow> auth_state \<Rightarrow> auth_state \<times> boundary_outcome" where
  "auth_boundary env now rq st =
     (if \<not> starts_with ''/api/'' (rq_path rq) then (st, Proceed None)
      else if to_lower (or_default (rq_upgrade rq) []) = ''websocket'' then (st, Proceed None)
      else if route_allowed AUTH_EXEMPT_ROUTES (rq_path rq) (rq_method rq) then (st, Proceed None)
      else case rq_authorization rq of
        Some header \<Rightarrow> bearer_boundary env header now rq st
      | None \<Rightarrow>
          (case read_cookie_header (rq_cookie rq) MOBILE_SESSION_COOKIE of
             Some cookie \<Rightarrow> (st, cookie_boundary env cookie now rq st)
           | None \<Rightarrow> (st, Rejected 401)))"

section \<open>Who gets in\<close>

text \<open>What an admitted principal has shown. The key row is live and the token is its own; a phone's
  registration is live and the hash is its token's; a session is live, and came by cookie only.\<close>

definition presented_bearer :: "api_call \<Rightarrow> string option" where
  "presented_bearer rq = (case rq_authorization rq of None \<Rightarrow> None | Some h \<Rightarrow> bearer_token h)"

definition shows_key :: "auth_env \<Rightarrow> auth_state \<Rightarrow> api_call \<Rightarrow> string \<Rightarrow> api_key_kind \<Rightarrow> string option \<Rightarrow> bool" where
  "shows_key env st rq i kind host \<longleftrightarrow>
     (\<exists>r\<in>set (as_keys st). \<exists>s. ak_id r = i \<and> ak_kind r = kind \<and> \<not> is_api_key_row_revoked r \<and>
        (host = None \<or> ak_host_id r = host) \<and> presented_bearer rq = Some (api_key_token i s) \<and>
        hashes_equal (ae_sha env s) (ak_token_hash r))"

definition shows_session :: "auth_env \<Rightarrow> int \<Rightarrow> auth_state \<Rightarrow> api_call \<Rightarrow> string \<Rightarrow> bool \<Rightarrow> bool" where
  "shows_session env now st rq sid admin \<longleftrightarrow>
     (\<exists>secret s r g. rq_authorization rq = None \<and>
        read_cookie_header (rq_cookie rq) MOBILE_SESSION_COOKIE = Some secret \<and>
        resolve_live_session (ae_sha env) (as_store st) secret now = Some (s, r, g) \<and>
        ws_id s = sid \<and> ws_admin s = admin \<and>
        (is_safe_method (rq_method rq) \<or>
           rq_origin rq \<noteq> None \<and> rq_origin rq = ae_origin env \<and> rq_csrf rq = Some (ae_csrf env secret)))"

fun admitted :: "auth_env \<Rightarrow> int \<Rightarrow> auth_state \<Rightarrow> api_call \<Rightarrow> auth_principal option \<Rightarrow> bool" where
  "admitted env now st rq None \<longleftrightarrow>
     \<not> starts_with ''/api/'' (rq_path rq) \<or> to_lower (or_default (rq_upgrade rq) []) = ''websocket'' \<or>
     route_allowed AUTH_EXEMPT_ROUTES (rq_path rq) (rq_method rq)"
| "admitted env now st rq (Some Master_Key) \<longleftrightarrow>
     ae_master env \<noteq> [] \<and> presented_bearer rq = Some (ae_master env)"
| "admitted env now st rq (Some (Admin_Key i)) \<longleftrightarrow> shows_key env st rq i Kind_Admin None"
| "admitted env now st rq (Some (Deploy_Key i)) \<longleftrightarrow> shows_key env st rq i Kind_Deploy None"
| "admitted env now st rq (Some (Device_Key i h)) \<longleftrightarrow>
     shows_key env st rq i Kind_Device (Some h) \<and> device_may_call_route (rq_path rq) (rq_method rq)"
| "admitted env now st rq (Some (Mobile_Token h)) \<longleftrightarrow>
     (\<exists>t. presented_bearer rq = Some t \<and> resolve_native_host (ae_sha env) (as_store st) t = Some h) \<and>
     mobile_may_call_route (rq_path rq) (rq_method rq)"
| "admitted env now st rq (Some (Web_Session sid admin)) \<longleftrightarrow>
     shows_session env now st rq sid admin \<and>
     (admin \<or> route_allowed NON_ADMIN_SESSION_ALLOWED_ROUTES (rq_path rq) (rq_method rq))"

text \<open>What resolving a bearer says of the principal, before the confinement.\<close>

fun bearer_shows :: "auth_env \<Rightarrow> auth_state \<Rightarrow> api_call \<Rightarrow> auth_principal \<Rightarrow> bool" where
  "bearer_shows env st rq Master_Key \<longleftrightarrow> ae_master env \<noteq> [] \<and> presented_bearer rq = Some (ae_master env)"
| "bearer_shows env st rq (Admin_Key i) \<longleftrightarrow> shows_key env st rq i Kind_Admin None"
| "bearer_shows env st rq (Deploy_Key i) \<longleftrightarrow> shows_key env st rq i Kind_Deploy None"
| "bearer_shows env st rq (Device_Key i h) \<longleftrightarrow> shows_key env st rq i Kind_Device (Some h)"
| "bearer_shows env st rq (Mobile_Token h) \<longleftrightarrow>
     (\<exists>t. presented_bearer rq = Some t \<and> resolve_native_host (ae_sha env) (as_store st) t = Some h)"
| "bearer_shows env st rq (Web_Session sid admin) \<longleftrightarrow> False"

lemma resolve_principal_shows:
  assumes "presented_bearer rq = Some t" and "resolve_principal env (Some t) now st = (st', Some p)"
  shows "bearer_shows env st rq p"
proof (cases "length (ae_master env) > 0 \<and> safe_equal t (ae_master env)")
  case True
  then show ?thesis using assms by (auto simp: resolve_principal_def safe_equal_def split: if_splits)
next
  case notm: False
  show ?thesis
  proof (cases "find_api_key_by_token (ae_sha env) (as_keys st) t")
    case None
    then show ?thesis using assms notm by (auto simp: resolve_principal_def Let_def split: if_splits)
  next
    case (Some r)
    from find_api_key_SomeD [OF Some] obtain s where
      r: "r \<in> set (as_keys st)" "t = api_key_token (ak_id r) s" "hashes_equal (ae_sha env s) (ak_token_hash r)" by blast
    show ?thesis
    proof (cases "is_api_key_row_revoked r")
      case True
      then show ?thesis using assms notm Some by (auto simp: resolve_principal_def Let_def split: if_splits)
    next
      case False
      have "shows_key env st rq (ak_id r) (ak_kind r) None" "shows_key env st rq (ak_id r) (ak_kind r) (ak_host_id r)"
        using r False assms(1) by (auto simp: shows_key_def)
      then show ?thesis
        using assms(2) notm Some False
        by (cases "ak_kind r") (auto simp: resolve_principal_def Let_def split: if_splits option.splits)
    qed
  qed
qed

lemma bearer_boundary_admits:
  assumes "rq_authorization rq = Some header" and "bearer_boundary env header now rq st = (st', Proceed who)"
  shows "admitted env now st rq who"
proof -
  from assms(2) obtain t p where t: "bearer_token header = Some t"
      "resolve_principal env (Some t) now st = (st', Some p)" and who: "who = Some p"
    and dev: "\<not> ((case p of Device_Key _ _ \<Rightarrow> True | _ \<Rightarrow> False) \<and> \<not> device_may_call_route (rq_path rq) (rq_method rq))"
    and mob: "\<not> ((case p of Mobile_Token _ \<Rightarrow> True | _ \<Rightarrow> False) \<and> \<not> mobile_may_call_route (rq_path rq) (rq_method rq))"
    unfolding bearer_boundary_def by (auto split: option.splits prod.splits if_split_asm simp del: not_None_eq)
  have "presented_bearer rq = Some t" using assms(1) t(1) by (simp add: presented_bearer_def)
  from resolve_principal_shows [OF this t(2)] have "bearer_shows env st rq p" .
  then show ?thesis unfolding who using dev mob by (cases p) auto
qed

lemma cookie_boundary_admits:
  assumes "rq_authorization rq = None" and "read_cookie_header (rq_cookie rq) MOBILE_SESSION_COOKIE = Some cookie"
    and "cookie_boundary env cookie now rq st = Proceed who"
  shows "admitted env now st rq who"
  using assms
  by (auto simp: cookie_boundary_def resolve_cookie_session_def shows_session_def safe_equal_def
      split: option.splits if_splits)

text \<open>
  C37. Nobody gets past the boundary but who has shown why. The principal of an admitted
  request holds a live credential of exactly its kind: the master key, an unrevoked key row
  whose hash the presented secret has, a live phone registration, or a live web session that
  came without an Authorization header and, for a change, from the trusted origin with its own
  CSRF token. Devices, phones and plain sessions are on their lists of routes. An anonymous request
  is outside the API, on the three exempt routes, or carries an upgrade header.
\<close>

theorem the_boundary_admits_only_shown_credentials:
  assumes "auth_boundary env now rq st = (st', Proceed who)"
  shows "admitted env now st rq who"
  using assms
  by (auto simp: auth_boundary_def split: if_splits option.splits intro: bearer_boundary_admits cookie_boundary_admits)

text \<open>A server with one device key, for the examples.\<close>

definition sample_env :: auth_env where
  "sample_env = \<lparr> ae_sha = (\<lambda>s. concat (map (\<lambda>_. ''a1'') s)), ae_csrf = (\<lambda>s. ''csrf'' @ s), ae_master = ''master'',
     ae_origin = Some ''https://fleet'' \<rparr>"

definition sample_auth :: auth_state where
  "sample_auth =
     \<lparr> as_keys = [\<lparr> ak_id = ''ABCDEFGHJKLM'', ak_name = ''laptop'', ak_kind = Kind_Device, ak_host_id = Some ''h1'',
         ak_token_hash = concat (replicate 16 ''a1''), ak_token_enc = ''x'', ak_created_at = 1, ak_last_used_at = None,
         ak_revealed_at = None, ak_revoked_at = None, ak_revoked_reason = None \<rparr>],
       as_store = \<lparr> st_enrollments = [], st_registrations = [], st_grants = [], st_sessions = [], st_hosts = [] \<rparr> \<rparr>"

definition sample_call :: api_call where
  "sample_call = \<lparr> rq_method = ''GET'', rq_path = ''/api/v1/config/h1'', rq_upgrade = None,
     rq_authorization = Some ''bearer lmsk.ABCDEFGHJKLM.0123456789abcdef'', rq_cookie = None, rq_origin = None,
     rq_csrf = None \<rparr>"

theorem the_boundary_admits_only_shown_credentials_witness:
  "admitted sample_env 5 sample_auth sample_call (Some (Device_Key ''ABCDEFGHJKLM'' ''h1''))"
proof -
  have "snd (auth_boundary sample_env 5 sample_call sample_auth) = Proceed (Some (Device_Key ''ABCDEFGHJKLM'' ''h1''))"
    by code_simp
  then have "auth_boundary sample_env 5 sample_call sample_auth =
      (fst (auth_boundary sample_env 5 sample_call sample_auth), Proceed (Some (Device_Key ''ABCDEFGHJKLM'' ''h1'')))"
    by (metis prod.collapse)
  then show ?thesis by (rule the_boundary_admits_only_shown_credentials)
qed

text \<open>The boundary changes nothing but the times keys were last used.\<close>

lemma touch_keeps: "map (ak_last_used_at_update (\<lambda>_. None)) (touch_api_key_last_used i now keys) = map (ak_last_used_at_update (\<lambda>_. None)) keys"
  by (auto simp: touch_api_key_last_used_def update_key_def split: option.split)

lemma resolve_principal_keeps:
  "as_store (fst (resolve_principal env t now st)) = as_store st \<and>
   map (ak_last_used_at_update (\<lambda>_. None)) (as_keys (fst (resolve_principal env t now st))) =
   map (ak_last_used_at_update (\<lambda>_. None)) (as_keys st)"
  by (auto simp: resolve_principal_def Let_def touch_keeps split: option.splits if_splits api_key_kind.splits)

text \<open>The upgrade header alone lets any request through, whatever its method and path.\<close>

lemma upgrade_header_skips_authentication:
  "to_lower u = ''websocket'' \<Longrightarrow> auth_boundary env now (rq\<lparr> rq_upgrade := Some u \<rparr>) st = (st, Proceed None)"
  by (simp add: auth_boundary_def)

text \<open>Without it, a request that is not exempt and shows nothing is refused.\<close>

lemma anonymous_is_refused:
  "starts_with ''/api/'' (rq_path rq) \<Longrightarrow> \<not> route_allowed AUTH_EXEMPT_ROUTES (rq_path rq) (rq_method rq) \<Longrightarrow>
   rq_upgrade rq = None \<Longrightarrow> rq_authorization rq = None \<Longrightarrow> rq_cookie rq = None \<Longrightarrow>
   auth_boundary env now rq st = (st, Rejected 401)"
  by (simp add: auth_boundary_def read_cookie_header_def to_lower_def)

text \<open>A deploy key is confined to no list: it passes on every route.\<close>

lemma deploy_keys_are_not_confined:
  "starts_with ''/api/'' (rq_path rq) \<Longrightarrow> rq_upgrade rq = None \<Longrightarrow>
   \<not> route_allowed AUTH_EXEMPT_ROUTES (rq_path rq) (rq_method rq) \<Longrightarrow>
   rq_authorization rq = Some header \<Longrightarrow> bearer_token header = Some t \<Longrightarrow> t \<noteq> [] \<Longrightarrow>
   resolve_principal env (Some t) now st = (st', Some (Deploy_Key i)) \<Longrightarrow>
   auth_boundary env now rq st = (st', Proceed (Some (Deploy_Key i)))"
  by (simp add: auth_boundary_def bearer_boundary_def to_lower_def)

end
