(* ===== verification/Pairing.thy ===== *)
theory Pairing
  imports Auth_Boundary Runs
begin

text \<open>
  Pairing a device by a short code, \<open>server/src/routes/pairing.ts\<close>, behind the boundary of
  \<^theory_text>\<open>Auth_Boundary\<close>. The table is the list of its rows, whose code is unique. Random bytes,
  the two readings of the clock of an exchange, and the material of the key it issues are
  arguments.
\<close>

section \<open>Codes\<close>

definition DEFAULT_TTL_SECONDS :: int where "DEFAULT_TTL_SECONDS = 600"
definition MIN_TTL_SECONDS :: int where "MIN_TTL_SECONDS = 30"
definition MAX_TTL_SECONDS :: int where "MAX_TTL_SECONDS = 60 * 60"

definition CODE_ALPHABET :: string where "CODE_ALPHABET = ''23456789ABCDEFGHJKMNPQRSTUVWXYZ''"

definition generate_pairing_code :: "nat list \<Rightarrow> string" where
  "generate_pairing_code bytes =
     (let body = map (\<lambda>b. CODE_ALPHABET ! (b mod length CODE_ALPHABET)) bytes
      in ''lama-'' @ take 4 body @ ''-'' @ take 4 (drop 4 body))"

definition issued_device_key_name :: "string \<Rightarrow> string \<Rightarrow> string" where
  "issued_device_key_name hostname host_id = (let name = js_trim hostname in if length name > 0 then name else host_id)"

definition is_valid_code_shape :: "string \<Rightarrow> bool" where
  "is_valid_code_shape value \<longleftrightarrow>
     (let u = to_upper value; word = (\<lambda>s. list_all (\<lambda>c. is_upper c \<or> is_digit c) s)
      in length u = 14 \<and> take 5 u = ''LAMA-'' \<and> word (take 4 (drop 5 u)) \<and> u ! 9 = CHR ''-'' \<and>
         word (drop 10 u) \<and>
         list_all (\<lambda>c. c \<in> set CODE_ALPHABET) (take 4 (drop 5 u) @ drop 10 u))"

definition clamp_ttl :: "json \<Rightarrow> int" where
  "clamp_ttl raw =
     (case raw of
        JNum (Fin r) \<Rightarrow>
          if \<lfloor>r\<rfloor> < MIN_TTL_SECONDS then MIN_TTL_SECONDS
          else if \<lfloor>r\<rfloor> > MAX_TTL_SECONDS then MAX_TTL_SECONDS else \<lfloor>r\<rfloor>
      | _ \<Rightarrow> DEFAULT_TTL_SECONDS)"

section \<open>Rows\<close>

datatype pairing_status = Ps_Pending | Ps_Used | Ps_Expired

record pairing_row =
  pr_id :: string
  pr_code :: string
  pr_status :: pairing_status
  pr_expires_at :: int
  pr_created_at :: int

text \<open>The attempts of an insert: the id and the code are unique.\<close>

fun try_insert :: "int \<Rightarrow> int \<Rightarrow> (nat \<Rightarrow> nat list) \<Rightarrow> nat list \<Rightarrow> pairing_row list \<Rightarrow>
    pairing_row list \<times> pairing_row option" where
  "try_insert expires now bytes [] rows = (rows, None)"
| "try_insert expires now bytes (attempt # rest) rows =
     (let code = to_upper (generate_pairing_code (bytes attempt));
          row = \<lparr> pr_id = code @ ''-'' @ show_nat (nat now) @ ''-'' @ show_nat attempt, pr_code = code,
                  pr_status = Ps_Pending, pr_expires_at = expires, pr_created_at = now \<rparr>
      in if list_ex (\<lambda>r. pr_id r = pr_id row \<or> pr_code r = code) rows then try_insert expires now bytes rest rows
         else (rows @ [row], Some row))"

definition create_session_row :: "int \<Rightarrow> int \<Rightarrow> (nat \<Rightarrow> nat list) \<Rightarrow> pairing_row list \<Rightarrow>
    pairing_row list \<times> pairing_row option" where
  "create_session_row ttl now bytes rows = try_insert (now + ttl * 1000) now bytes [0..<5] rows"

definition prune_expired_pending :: "int \<Rightarrow> pairing_row list \<Rightarrow> pairing_row list" where
  "prune_expired_pending now rows =
     map (\<lambda>r. if pr_status r = Ps_Pending \<and> pr_expires_at r \<le> now then r\<lparr> pr_status := Ps_Expired \<rparr> else r) rows"

definition find_session_by_code :: "string \<Rightarrow> int \<Rightarrow> pairing_row list \<Rightarrow> pairing_row list \<times> pairing_row option" where
  "find_session_by_code code now rows =
     (let rows' = prune_expired_pending now rows in (rows', find (\<lambda>r. pr_code r = code) rows'))"

definition claim_session_for_exchange :: "string \<Rightarrow> int \<Rightarrow> pairing_row list \<Rightarrow> pairing_row list \<times> bool" where
  "claim_session_for_exchange code now rows =
     (let hit = (\<lambda>r. pr_code r = code \<and> pr_status r = Ps_Pending \<and> pr_expires_at r > now)
      in (map (\<lambda>r. if hit r then r\<lparr> pr_status := Ps_Used \<rparr> else r) rows, length (filter hit rows) = 1))"

definition effective_status :: "pairing_row \<Rightarrow> int \<Rightarrow> pairing_status" where
  "effective_status r now =
     (if pr_status r = Ps_Used then Ps_Used
      else if pr_status r = Ps_Expired then Ps_Expired
      else if pr_expires_at r > now then Ps_Pending else Ps_Expired)"

definition sweep_expired_pairing_sessions :: "int \<Rightarrow> int \<Rightarrow> pairing_row list \<Rightarrow> pairing_row list" where
  "sweep_expired_pairing_sessions window now rows =
     filter (\<lambda>r. \<not> (pr_status r = Ps_Expired \<and> pr_expires_at r \<le> now - window)) rows"

section \<open>Routes\<close>

datatype pairing_reply =
    Pair_Refused nat | Pair_Code string int | Pair_Status pairing_status int | Pair_Key string

record pairing_state =
  ps_rows :: "pairing_row list"
  ps_auth :: auth_state

definition post_pairing :: "json \<Rightarrow> int \<Rightarrow> (nat \<Rightarrow> nat list) \<Rightarrow> pairing_state \<Rightarrow> pairing_state \<times> pairing_reply" where
  "post_pairing requested now bytes st =
     (let ttl = clamp_ttl requested; (rows, made) = create_session_row ttl now bytes (ps_rows st)
      in (st\<lparr> ps_rows := rows \<rparr>, case made of None \<Rightarrow> Pair_Refused 503 | Some r \<Rightarrow> Pair_Code (pr_code r) ttl))"

definition get_pairing :: "string \<Rightarrow> int \<Rightarrow> int \<Rightarrow> pairing_state \<Rightarrow> pairing_state \<times> pairing_reply" where
  "get_pairing raw t0 now st =
     (let code = to_upper raw
      in if \<not> is_valid_code_shape code then (st, Pair_Refused 400)
         else (let (rows, found) = find_session_by_code code t0 (ps_rows st)
               in (st\<lparr> ps_rows := rows \<rparr>,
                   case found of None \<Rightarrow> Pair_Refused 404
                   | Some r \<Rightarrow> Pair_Status (effective_status r now) (pr_expires_at r))))"

text \<open>The key material of an exchange: a key id, a secret, and the sealed copy where sealing works.\<close>

record key_material =
  km_id :: string
  km_secret :: string
  km_sealed :: "string option"

definition post_exchange ::
    "(string \<Rightarrow> string) \<Rightarrow> key_material \<Rightarrow> string \<Rightarrow> string \<Rightarrow> string \<Rightarrow> int \<Rightarrow> int \<Rightarrow> pairing_state \<Rightarrow>
     pairing_state \<times> pairing_reply" where
  "post_exchange sha km raw host_id hostname t0 now st =
     (let code = to_upper raw; host = js_trim host_id
      in if \<not> is_valid_code_shape code then (st, Pair_Refused 400)
         else if length host = 0 then (st, Pair_Refused 400)
         else
           (let (rows, found) = find_session_by_code code t0 (ps_rows st); st1 = st\<lparr> ps_rows := rows \<rparr>
            in case found of
                 None \<Rightarrow> (st1, Pair_Refused 404)
               | Some r \<Rightarrow>
                   if pr_status r = Ps_Used then (st1, Pair_Refused 409)
                   else if pr_expires_at r \<le> now then (st1, Pair_Refused 410)
                   else if pr_status r \<noteq> Ps_Pending then (st1, Pair_Refused 409)
                   else
                     (let (rows2, claimed) = claim_session_for_exchange code now rows; st2 = st\<lparr> ps_rows := rows2 \<rparr>
                      in if \<not> claimed then
                           (let (rows3, after) = find_session_by_code code now rows2
                            in (st\<lparr> ps_rows := rows3 \<rparr>,
                                case after of None \<Rightarrow> Pair_Refused 404
                                | Some a \<Rightarrow>
                                    if effective_status a now = Ps_Used then Pair_Refused 409
                                    else if effective_status a now = Ps_Expired then Pair_Refused 410
                                    else Pair_Refused 409))
                         else
                           (case insert_managed_api_key_into sha (km_id km) (km_secret km) (km_sealed km)
                                   (issued_device_key_name hostname host) Kind_Device (Some host) now
                                   (as_keys (ps_auth st)) of
                              None \<Rightarrow> (st2, Pair_Refused 503)
                            | Some (keys, token) \<Rightarrow>
                                (st2\<lparr> ps_auth := (ps_auth st)\<lparr> as_keys := keys \<rparr> \<rparr>, Pair_Key token)))))"

section \<open>Behind the boundary\<close>

text \<open>A request names its route; the caller chooses the headers.\<close>

datatype pairing_request = Pq_Create json | Pq_Poll string | Pq_Exchange string string string

fun request_route :: "pairing_request \<Rightarrow> string \<times> string" where
  "request_route (Pq_Create _) = (''POST'', ''/api/v1/pairing'')"
| "request_route (Pq_Poll code) = (''GET'', ''/api/v1/pairing/'' @ code)"
| "request_route (Pq_Exchange code _ _) = (''POST'', ''/api/v1/pairing/'' @ code @ ''/exchange'')"

record pairing_inputs =
  pi_t0 :: int
  pi_now :: int
  pi_bytes :: "nat \<Rightarrow> nat list"
  pi_key :: key_material

fun pairing_route :: "(string \<Rightarrow> string) \<Rightarrow> pairing_inputs \<Rightarrow> pairing_request \<Rightarrow> pairing_state \<Rightarrow>
    pairing_state \<times> pairing_reply" where
  "pairing_route sha inp (Pq_Create ttl) st = post_pairing ttl (pi_now inp) (pi_bytes inp) st"
| "pairing_route sha inp (Pq_Poll code) st = get_pairing code (pi_t0 inp) (pi_now inp) st"
| "pairing_route sha inp (Pq_Exchange code host hostname) st =
     post_exchange sha (pi_key inp) code host hostname (pi_t0 inp) (pi_now inp) st"

definition serve_pairing :: "auth_env \<Rightarrow> pairing_inputs \<Rightarrow> api_call \<Rightarrow> pairing_request \<Rightarrow> pairing_state \<Rightarrow>
    pairing_state \<times> pairing_reply" where
  "serve_pairing env inp headers req st =
     (let call = headers\<lparr> rq_method := fst (request_route req), rq_path := snd (request_route req) \<rparr>
      in case auth_boundary env (pi_now inp) call (ps_auth st) of
           (a, Rejected code) \<Rightarrow> (st\<lparr> ps_auth := a \<rparr>, Pair_Refused code)
         | (a, Proceed _) \<Rightarrow> pairing_route (ae_sha env) inp req (st\<lparr> ps_auth := a \<rparr>))"

text \<open>What changes the table: requests, the sweep, and any other change of the credentials.\<close>

datatype pairing_event =
    Pe_Serve pairing_inputs api_call pairing_request
  | Pe_Sweep int int
  | Pe_Credentials auth_state

fun pairing_step :: "auth_env \<Rightarrow> pairing_event \<Rightarrow> pairing_state \<Rightarrow> pairing_state" where
  "pairing_step env (Pe_Serve inp headers req) st = fst (serve_pairing env inp headers req st)"
| "pairing_step env (Pe_Sweep window now) st = st\<lparr> ps_rows := sweep_expired_pairing_sessions window now (ps_rows st) \<rparr>"
| "pairing_step env (Pe_Credentials a) st = st\<lparr> ps_auth := a \<rparr>"

section \<open>Single use\<close>

definition pairing_ok :: "pairing_row list \<Rightarrow> bool" where
  "pairing_ok rows \<longleftrightarrow> distinct (map pr_code rows)"

definition used_codes :: "pairing_row list \<Rightarrow> string set" where
  "used_codes rows = pr_code ` {r \<in> set rows. pr_status r = Ps_Used}"

text \<open>Every operation on the table keeps the codes unique and the used ones used.\<close>

definition rows_grow :: "pairing_row list \<Rightarrow> pairing_row list \<Rightarrow> bool" where
  "rows_grow rows rows' \<longleftrightarrow> (pairing_ok rows \<longrightarrow> pairing_ok rows') \<and> used_codes rows \<subseteq> used_codes rows'"

lemma rows_grow_refl [simp]: "rows_grow rows rows"
  by (simp add: rows_grow_def)

lemma rows_grow_trans: "rows_grow a b \<Longrightarrow> rows_grow b c \<Longrightarrow> rows_grow a c"
  by (auto simp: rows_grow_def)

lemma rows_grow_map:
  assumes "\<And>r. pr_code (f r) = pr_code r" and "\<And>r. pr_status r = Ps_Used \<Longrightarrow> pr_status (f r) = Ps_Used"
  shows "rows_grow rows (map f rows)"
  using assms by (force simp: rows_grow_def pairing_ok_def used_codes_def comp_def image_iff)

lemma rows_grow_prune: "rows_grow rows (prune_expired_pending now rows)"
  unfolding prune_expired_pending_def by (rule rows_grow_map) auto

lemma rows_grow_claim: "rows_grow rows (fst (claim_session_for_exchange code now rows))"
  unfolding claim_session_for_exchange_def Let_def fst_conv by (rule rows_grow_map) auto

lemma rows_grow_find: "rows_grow rows (fst (find_session_by_code code now rows))"
  by (simp add: find_session_by_code_def Let_def rows_grow_prune)

lemma rows_grow_sweep: "rows_grow rows (sweep_expired_pairing_sessions window now rows)"
  by (auto simp: rows_grow_def pairing_ok_def used_codes_def sweep_expired_pairing_sessions_def distinct_map
      intro: inj_on_subset)

lemma rows_grow_insert: "rows_grow rows (fst (try_insert expires now bytes attempts rows))"
proof (induction attempts)
  case (Cons a as)
  then show ?case
    by (auto simp: Let_def rows_grow_def pairing_ok_def used_codes_def list_ex_iff)
qed simp

lemma rows_grow_exchange: "rows_grow (ps_rows st) (ps_rows (fst (post_exchange sha km raw host hn t0 now st)))"
proof -
  let ?code = "to_upper raw"
  let ?rows = "fst (find_session_by_code ?code t0 (ps_rows st))"
  let ?rows2 = "fst (claim_session_for_exchange ?code now ?rows)"
  let ?rows3 = "fst (find_session_by_code ?code now ?rows2)"
  have "ps_rows (fst (post_exchange sha km raw host hn t0 now st)) \<in> {ps_rows st, ?rows, ?rows2, ?rows3}"
    by (auto simp: post_exchange_def Let_def split: prod.splits option.splits if_splits)
  moreover have "rows_grow (ps_rows st) ?rows" by (rule rows_grow_find)
  moreover have "rows_grow (ps_rows st) ?rows2" by (rule rows_grow_trans [OF rows_grow_find rows_grow_claim])
  moreover from this have "rows_grow (ps_rows st) ?rows3" by (rule rows_grow_trans) (rule rows_grow_find)
  ultimately show ?thesis by auto
qed

lemma rows_grow_route: "rows_grow (ps_rows st) (ps_rows (fst (pairing_route sha inp req st)))"
proof (cases req)
  case (Pq_Create ttl)
  then show ?thesis
    using rows_grow_insert by (auto simp: post_pairing_def create_session_row_def Let_def split: prod.split)
      (metis fst_conv)
next
  case (Pq_Poll code)
  then show ?thesis
    using rows_grow_find by (auto simp: get_pairing_def Let_def split: prod.split) (metis fst_conv)
next
  case (Pq_Exchange code host hn)
  then show ?thesis using rows_grow_exchange by simp
qed

lemma rows_grow_step: "rows_grow (ps_rows st) (ps_rows (pairing_step env e st))"
proof (cases e)
  case (Pe_Serve inp headers req)
  then show ?thesis
    using rows_grow_route [where sha = "ae_sha env" and inp = inp and req = req]
    by (auto simp: serve_pairing_def Let_def split: prod.split boundary_outcome.split)
      (metis (no_types, lifting) pairing_state.ext_inject pairing_state.surjective pairing_state.update_convs(2))
qed (simp_all add: rows_grow_sweep)

interpretation pairing: growing "pairing_step env" "\<lambda>st. pairing_ok (ps_rows st)"
    "\<lambda>st st'. rows_grow (ps_rows st) (ps_rows st')" for env
proof
  show "pairing_ok (ps_rows (pairing_step env e st))" if "pairing_ok (ps_rows st)" for e st
    using rows_grow_step that by (simp add: rows_grow_def)
qed (auto intro: rows_grow_step rows_grow_trans)

lemma prune_pending: "r \<in> set (prune_expired_pending now rows) \<Longrightarrow> pr_status r = Ps_Pending \<Longrightarrow> r \<in> set rows"
  by (auto simp: prune_expired_pending_def split: if_splits)

lemma claim_uses:
  assumes "r \<in> set rows" "pr_code r = code" "pr_status r = Ps_Pending" "pr_expires_at r > now"
  shows "code \<in> used_codes (fst (claim_session_for_exchange code now rows))"
proof -
  have "r\<lparr> pr_status := Ps_Used \<rparr> \<in> set (fst (claim_session_for_exchange code now rows))"
    using assms by (auto simp: claim_session_for_exchange_def Let_def image_iff intro!: bexI [of _ r])
  then show ?thesis using assms(2) by (force simp: used_codes_def image_iff)
qed

lemma pairing_exchange_ok:
  assumes "post_exchange sha km raw host hn t0 now st = (st', Pair_Key token)"
  shows "is_valid_code_shape (to_upper raw) \<and> js_trim host \<noteq> []"
    and "\<exists>r\<in>set (ps_rows st). pr_code r = to_upper raw \<and> pr_status r = Ps_Pending \<and> now < pr_expires_at r"
    and "to_upper raw \<in> used_codes (ps_rows st')"
    and "insert_managed_api_key_into sha (km_id km) (km_secret km) (km_sealed km)
           (issued_device_key_name hn (js_trim host)) Kind_Device (Some (js_trim host)) now
           (as_keys (ps_auth st)) = Some (as_keys (ps_auth st'), token)"
    and "as_store (ps_auth st') = as_store (ps_auth st)"
proof -
  let ?code = "to_upper raw"
  obtain rows found where f: "find_session_by_code ?code t0 (ps_rows st) = (rows, found)" by fastforce
  obtain rows2 claimed where c: "claim_session_for_exchange ?code now rows = (rows2, claimed)" by fastforce
  from assms obtain r keys where shape: "is_valid_code_shape ?code" "js_trim host \<noteq> []"
    and r: "found = Some r" "\<not> pr_expires_at r \<le> now" "pr_status r = Ps_Pending" and claimed
    and ins: "insert_managed_api_key_into sha (km_id km) (km_secret km) (km_sealed km)
           (issued_device_key_name hn (js_trim host)) Kind_Device (Some (js_trim host)) now
           (as_keys (ps_auth st)) = Some (keys, token)"
    and st': "st' = st\<lparr> ps_rows := rows2, ps_auth := (ps_auth st)\<lparr> as_keys := keys \<rparr> \<rparr>"
    unfolding post_exchange_def Let_def f c prod.case
    by (auto split: option.splits if_split_asm prod.splits simp del: not_None_eq)
  have rr: "r \<in> set rows" "pr_code r = ?code" and rows: "rows = prune_expired_pending t0 (ps_rows st)"
    using f r(1) by (auto simp: find_session_by_code_def Let_def dest: find_SomeD)
  show "is_valid_code_shape (to_upper raw) \<and> js_trim host \<noteq> []" using shape by simp
  have "r \<in> set (ps_rows st)" using prune_pending [OF rr(1) [unfolded rows] r(3)] .
  then show "\<exists>r\<in>set (ps_rows st). pr_code r = to_upper raw \<and> pr_status r = Ps_Pending \<and> now < pr_expires_at r"
    using rr(2) r(2,3) by force
  show "to_upper raw \<in> used_codes (ps_rows st')"
    using claim_uses [OF rr r(3), of now] r(2) c st' by simp
  show "insert_managed_api_key_into sha (km_id km) (km_secret km) (km_sealed km)
           (issued_device_key_name hn (js_trim host)) Kind_Device (Some (js_trim host)) now
           (as_keys (ps_auth st)) = Some (as_keys (ps_auth st'), token)"
    and "as_store (ps_auth st') = as_store (ps_auth st)" using ins st' by simp_all
qed

lemma used_code_refused:
  assumes "pairing_ok (ps_rows st)" and "to_upper raw \<in> used_codes (ps_rows st)"
  shows "snd (post_exchange sha km raw host hn t0 now st) \<noteq> Pair_Key token"
proof
  assume "snd (post_exchange sha km raw host hn t0 now st) = Pair_Key token"
  then have "post_exchange sha km raw host hn t0 now st = (fst (post_exchange sha km raw host hn t0 now st), Pair_Key token)"
    by (simp add: prod_eq_iff)
  from pairing_exchange_ok(2) [OF this] obtain r where
    r: "r \<in> set (ps_rows st)" "pr_code r = to_upper raw" "pr_status r = Ps_Pending" by blast
  from assms(2) obtain u where u: "u \<in> set (ps_rows st)" "pr_code u = to_upper raw" "pr_status u = Ps_Used"
    by (force simp: used_codes_def)
  have "inj_on pr_code (set (ps_rows st))" using assms(1) by (simp add: pairing_ok_def distinct_map)
  from inj_onD [OF this _ r(1) u(1)] have "r = u" using r(2) u(2) by simp
  then show False using r(3) u(3) by simp
qed

text \<open>
  C38. A pairing code buys one key. Once an exchange of it has issued one, no exchange of the
  same code, however it is typed, issues another, whatever requests, sweeps and changes of
  credentials come in between.
\<close>

theorem pairing_codes_are_single_use:
  assumes "pairing_ok (ps_rows st)"
    and "post_exchange sha km raw host hn t0 now st = (st1, Pair_Key token)"
    and "to_upper raw' = to_upper raw"
  shows "snd (post_exchange sha' km' raw' host' hn' t0' now' (fold (pairing_step env) events st1)) \<noteq> Pair_Key token'"
proof -
  have ok1: "pairing_ok (ps_rows st1)"
    using rows_grow_exchange [of st sha km raw host hn t0 now] assms(1,2) by (simp add: rows_grow_def)
  have "to_upper raw' \<in> used_codes (ps_rows (fold (pairing_step env) events st1))"
    using pairing_exchange_ok(3) [OF assms(2)] assms(3) pairing.grows [OF ok1] by (auto simp: rows_grow_def)
  then show ?thesis by (rule used_code_refused [OF pairing.runs [OF ok1]])
qed

text \<open>A server without credentials, a code, and the material of a key.\<close>

definition sample_key :: key_material where
  "sample_key = \<lparr> km_id = ''ABCDEFGHJKLM'', km_secret = ''0123456789abcdef'', km_sealed = Some ''x'' \<rparr>"

definition sample_inputs :: "int \<Rightarrow> pairing_inputs" where
  "sample_inputs t = \<lparr> pi_t0 = t, pi_now = t, pi_bytes = (\<lambda>_. [0, 1, 2, 3, 4, 5, 6, 7]), pi_key = sample_key \<rparr>"

definition sample_pairing :: pairing_state where
  "sample_pairing = \<lparr> ps_rows = [],
     ps_auth = \<lparr> as_keys = [],
       as_store = \<lparr> st_enrollments = [], st_registrations = [], st_grants = [], st_sessions = [], st_hosts = [] \<rparr> \<rparr> \<rparr>"

definition sample_offered :: pairing_state where
  "sample_offered = fst (post_pairing JUndef 1000 (pi_bytes (sample_inputs 1000)) sample_pairing)"

lemma sample_offered_ok: "pairing_ok (ps_rows sample_offered)"
proof -
  have "map pr_code (ps_rows sample_offered) = [''LAMA-2345-6789'']" by code_simp
  then show ?thesis by (simp add: pairing_ok_def)
qed

theorem pairing_codes_are_single_use_witness:
  "let ex = post_exchange (ae_sha sample_env) sample_key ''lama-2345-6789'' ''h1'' ''laptop'' 2000 2000 sample_offered
   in snd ex = Pair_Key ''lmsk.ABCDEFGHJKLM.0123456789abcdef'' \<and>
      snd (post_exchange (ae_sha sample_env) sample_key ''LAMA-2345-6789'' ''h2'' ''tablet'' 3000 3000 (fst ex)) \<noteq>
        Pair_Key ''lmsk.ABCDEFGHJKLM.0123456789abcdef''"
proof -
  let ?ex = "post_exchange (ae_sha sample_env) sample_key ''lama-2345-6789'' ''h1'' ''laptop'' 2000 2000 sample_offered"
  have k: "snd ?ex = Pair_Key ''lmsk.ABCDEFGHJKLM.0123456789abcdef''" by code_simp
  then have ex: "?ex = (fst ?ex, Pair_Key ''lmsk.ABCDEFGHJKLM.0123456789abcdef'')" by (metis prod.collapse)
  have "to_upper ''LAMA-2345-6789'' = to_upper ''lama-2345-6789''" by code_simp
  from pairing_codes_are_single_use [OF sample_offered_ok ex this, where events = "[]"] k
  show ?thesis by (simp add: Let_def)
qed

section \<open>What a code buys, and who can make one\<close>

lemma code_alphabet: "list_all (\<lambda>c. \<not> is_lower c \<and> c \<noteq> CHR 0xDF \<and> (is_upper c \<or> is_digit c)) CODE_ALPHABET"
  by code_simp

lemma to_upper_append [simp]: "to_upper (s @ t) = to_upper s @ to_upper t"
  by (simp add: to_upper_def)

lemma to_upper_code: "set s \<subseteq> set CODE_ALPHABET \<Longrightarrow> to_upper s = s"
proof (induction s)
  case (Cons c s)
  then show ?case using code_alphabet by (auto simp: to_upper_def list_all_iff)
qed (simp add: to_upper_def)

lemma generate_pairing_code_parts:
  assumes "length bytes = 8"
  obtains a b where "generate_pairing_code bytes = ''lama-'' @ a @ ''-'' @ b"
    and "length a = 4" "length b = 4" "set a \<subseteq> set CODE_ALPHABET" "set b \<subseteq> set CODE_ALPHABET"
proof -
  let ?body = "map (\<lambda>b. CODE_ALPHABET ! (b mod length CODE_ALPHABET)) bytes"
  have "0 < length CODE_ALPHABET" by (simp add: CODE_ALPHABET_def)
  then have "set ?body \<subseteq> set CODE_ALPHABET" by auto
  then have "set (take 4 ?body) \<subseteq> set CODE_ALPHABET" "set (take 4 (drop 4 ?body)) \<subseteq> set CODE_ALPHABET"
    by (meson order_trans set_take_subset set_drop_subset)+
  then show ?thesis
    using assms by (intro that [of "take 4 ?body" "take 4 (drop 4 ?body)"]) (simp_all add: generate_pairing_code_def Let_def)
qed

lemma upper_code:
  assumes "length bytes = 8"
  shows "is_valid_code_shape (to_upper (generate_pairing_code bytes))"
    and "to_upper (to_upper (generate_pairing_code bytes)) = to_upper (generate_pairing_code bytes)"
proof -
  from generate_pairing_code_parts [OF assms] obtain a b where
    g: "generate_pairing_code bytes = ''lama-'' @ a @ ''-'' @ b" and ab: "length a = 4" "length b = 4"
      "set a \<subseteq> set CODE_ALPHABET" "set b \<subseteq> set CODE_ALPHABET" .
  have lama: "to_upper ''lama-'' = ''LAMA-''" "to_upper ''LAMA-'' = ''LAMA-''" "to_upper ''-'' = ''-''" by code_simp+
  have u: "to_upper (generate_pairing_code bytes) = ''LAMA-'' @ a @ ''-'' @ b"
    unfolding g to_upper_append lama using ab by (simp add: to_upper_code)
  then show uu: "to_upper (to_upper (generate_pairing_code bytes)) = to_upper (generate_pairing_code bytes)"
    unfolding u to_upper_append lama using ab by (simp add: to_upper_code)
  have word: "list_all (\<lambda>c. is_upper c \<or> is_digit c) s" "list_all (\<lambda>c. c \<in> set CODE_ALPHABET) s"
    if "set s \<subseteq> set CODE_ALPHABET" for s
    using that code_alphabet by (auto simp: list_all_iff)
  have "(''LAMA-'' @ a @ ''-'' @ b) ! 9 = CHR ''-''" using ab by (simp add: nth_append)
  moreover have "to_upper (''LAMA-'' @ a @ ''-'' @ b) = ''LAMA-'' @ a @ ''-'' @ b" using uu unfolding u .
  ultimately show "is_valid_code_shape (to_upper (generate_pairing_code bytes))"
    unfolding is_valid_code_shape_def Let_def u using ab word by simp
qed

lemma try_insert_Some:
  "try_insert expires now bytes attempts rows = (rows', Some row) \<Longrightarrow>
     rows' = rows @ [row] \<and> pr_status row = Ps_Pending \<and> pr_expires_at row = expires \<and>
     (\<exists>n. pr_code row = to_upper (generate_pairing_code (bytes n))) \<and> (\<forall>r\<in>set rows. pr_code r \<noteq> pr_code row)"
  by (induction attempts) (auto simp: Let_def list_ex_iff split: if_splits)

lemma distinct_singleton_list: "distinct xs \<Longrightarrow> set xs = {x} \<Longrightarrow> xs = [x]"
  by (cases xs) (auto simp: subset_singleton_iff)

text \<open>The key an exchange issues is bound to the host that was submitted.\<close>

lemma exchanged_key_resolves:
  assumes "post_exchange (ae_sha env) km raw host hn t0 now st = (st', Pair_Key token)"
    and "key_id_ok (km_id km)" and "secret_ok (km_secret km)"
    and "hashes_equal (ae_sha env (km_secret km)) (ae_sha env (km_secret km))" and "token \<noteq> ae_master env"
  shows "snd (resolve_principal env (Some token) t (ps_auth st')) = Some (Device_Key (km_id km) (js_trim host))"
proof -
  note found = minted_key_found [OF pairing_exchange_ok(4) [OF assms(1)] assms(2,3,4)]
  have tok: "token \<noteq> []" using found(8) by (simp add: api_key_token_def TOKEN_PREFIX_def)
  show ?thesis
    using found pairing_exchange_ok(1) [OF assms(1)] assms(5) tok
    by (simp add: resolve_principal_def safe_equal_def is_api_key_row_revoked_def)
qed

lemma offered_code_is_exchanged:
  assumes row: "find (\<lambda>r. pr_code r = to_upper raw) rows = Some row" "pr_status row = Ps_Pending"
      "t0 < pr_expires_at row" "now < pr_expires_at row"
    and one: "pairing_ok rows" and shape: "is_valid_code_shape (to_upper raw)" and host: "js_trim host \<noteq> []"
    and rows: "ps_rows st = rows"
    and ins: "insert_managed_api_key_into sha (km_id km) (km_secret km) (km_sealed km)
        (issued_device_key_name hn (js_trim host)) Kind_Device (Some (js_trim host)) now (as_keys (ps_auth st)) \<noteq> None"
  shows "\<exists>token st'. post_exchange sha km raw host hn t0 now st = (st', Pair_Key token) \<and> token = api_key_token (km_id km) (km_secret km)"
proof -
  let ?code = "to_upper raw"
  let ?pr = "prune_expired_pending t0 rows"
  from find_SomeD [OF row(1)] have r: "row \<in> set rows" "pr_code row = ?code" by auto
  let ?f = "\<lambda>r. if pr_status r = Ps_Pending \<and> pr_expires_at r \<le> t0 then r\<lparr>pr_status := Ps_Expired\<rparr> else r"
  have "row = ?f row" using row(3) by simp
  then have rp: "row \<in> set ?pr" using r(1) unfolding prune_expired_pending_def set_map by (rule image_eqI)
  have okp: "distinct (map pr_code ?pr)"
    using rows_grow_prune [of rows t0] one by (simp add: rows_grow_def pairing_ok_def)
  then have uniq: "x = row" if "x \<in> set ?pr" "pr_code x = ?code" for x
    using that rp r(2) unfolding distinct_map by (metis inj_onD)
  have "find (\<lambda>r. pr_code r = ?code) ?pr \<noteq> None" using rp r(2) by (auto simp: find_None_iff)
  then obtain x where x: "find (\<lambda>r. pr_code r = ?code) ?pr = Some x" by blast
  with uniq have f: "find (\<lambda>r. pr_code r = ?code) ?pr = Some row" using find_SomeD [OF x] by simp
  have "filter (\<lambda>r. pr_code r = ?code \<and> pr_status r = Ps_Pending \<and> pr_expires_at r > now) ?pr = [row]"
  proof -
    have "distinct ?pr" using okp by (simp add: distinct_map)
    then have "distinct (filter (\<lambda>r. pr_code r = ?code \<and> pr_status r = Ps_Pending \<and> pr_expires_at r > now) ?pr)" by simp
    moreover have "set (filter (\<lambda>r. pr_code r = ?code \<and> pr_status r = Ps_Pending \<and> pr_expires_at r > now) ?pr) = {row}"
      unfolding set_filter using rp r(2) row(2,4) uniq by blast
    ultimately show ?thesis by (rule distinct_singleton_list)
  qed
  then obtain rows2 where c: "claim_session_for_exchange ?code now ?pr = (rows2, True)"
    by (simp add: claim_session_for_exchange_def Let_def)
  obtain keys token where i: "insert_managed_api_key_into sha (km_id km) (km_secret km) (km_sealed km)
      (issued_device_key_name hn (js_trim host)) Kind_Device (Some (js_trim host)) now (as_keys (ps_auth st)) = Some (keys, token)"
    using ins by auto
  then have "token = api_key_token (km_id km) (km_secret km)"
    by (auto simp: insert_managed_api_key_into_def Let_def split: option.splits if_splits)
  moreover have "\<exists>st'. post_exchange sha km raw host hn t0 now st = (st', Pair_Key token)"
    using shape host f row(2,4) c i
    by (simp add: post_exchange_def Let_def find_session_by_code_def rows)
  ultimately show ?thesis by blast
qed

text \<open>
  C39. The boundary does not keep strangers from pairing. A caller without any credential who
  sends an upgrade header gets a fresh code and exchanges it for a key of any host it names, and
  the server then takes that key for the device: all that is needed is that a code and a key can
  be made at all.
\<close>

theorem strangers_can_mint_device_keys:
  assumes "pairing_ok (ps_rows st)" and "to_lower u = ''websocket''" and "js_trim host \<noteq> []"
    and "\<And>n. length (pi_bytes inp n) = 8"
    and "create_session_row 600 (pi_now inp) (pi_bytes inp) (ps_rows st) = (rows, Some row)"
    and "pi_t0 inp' < pi_now inp + 600000" and "pi_now inp' < pi_now inp + 600000"
    and "key_id_ok (km_id (pi_key inp'))" and "secret_ok (km_secret (pi_key inp'))"
    and "insert_managed_api_key_into (ae_sha env) (km_id (pi_key inp')) (km_secret (pi_key inp')) (km_sealed (pi_key inp'))
           (issued_device_key_name hn (js_trim host)) Kind_Device (Some (js_trim host)) (pi_now inp') (as_keys (ps_auth st)) \<noteq> None"
    and "hashes_equal (ae_sha env (km_secret (pi_key inp'))) (ae_sha env (km_secret (pi_key inp')))"
    and "api_key_token (km_id (pi_key inp')) (km_secret (pi_key inp')) \<noteq> ae_master env"
  shows "\<exists>code st1 token st2.
    serve_pairing env inp (stranger\<lparr> rq_upgrade := Some u \<rparr>) (Pq_Create JUndef) st = (st1, Pair_Code code 600) \<and>
    serve_pairing env inp' (stranger\<lparr> rq_upgrade := Some u \<rparr>) (Pq_Exchange code host hn) st1 = (st2, Pair_Key token) \<and>
    snd (resolve_principal env (Some token) t (ps_auth st2)) = Some (Device_Key (km_id (pi_key inp')) (js_trim host))"
proof -
  let ?st1 = "st\<lparr> ps_rows := rows \<rparr>" and ?code = "pr_code row" and ?km = "pi_key inp'"
  have ins: "rows = ps_rows st @ [row]" "pr_status row = Ps_Pending" "pr_expires_at row = pi_now inp + 600000"
      "\<forall>r\<in>set (ps_rows st). pr_code r \<noteq> ?code" "\<exists>n. ?code = to_upper (generate_pairing_code (pi_bytes inp n))"
    using try_insert_Some [OF assms(5) [unfolded create_session_row_def]] by simp_all
  have code: "to_upper ?code = ?code" "is_valid_code_shape ?code" using ins(5) upper_code [OF assms(4)] by auto
  have skip: "auth_boundary env now (stranger\<lparr> rq_upgrade := Some u, rq_method := m, rq_path := p \<rparr>) a = (a, Proceed None)"
    for now m p a using assms(2) by (simp add: auth_boundary_def)
  have ttl: "clamp_ttl JUndef = 600" by (simp add: clamp_ttl_def DEFAULT_TTL_SECONDS_def)
  have one: "serve_pairing env inp (stranger\<lparr> rq_upgrade := Some u \<rparr>) (Pq_Create JUndef) st = (?st1, Pair_Code ?code 600)"
    by (simp add: serve_pairing_def skip post_pairing_def ttl assms(5))
  have "find (\<lambda>r. pr_code r = ?code) (ps_rows st) = None" using ins(4) by (simp add: find_None_iff)
  then have f: "find (\<lambda>r. pr_code r = to_upper ?code) rows = Some row" by (simp add: code(1) ins(1) find_append)
  have ok: "pairing_ok rows" using assms(1) ins(1,4) by (auto simp: pairing_ok_def)
  obtain token st2 where ex: "post_exchange (ae_sha env) ?km ?code host hn (pi_t0 inp') (pi_now inp') ?st1 = (st2, Pair_Key token)"
    and tok: "token = api_key_token (km_id ?km) (km_secret ?km)"
    using offered_code_is_exchanged [OF f ins(2) _ _ ok, of "pi_t0 inp'" "pi_now inp'" host ?st1 "ae_sha env" ?km hn]
      code assms(3,6,7,10) ins(3) by auto
  have two: "serve_pairing env inp' (stranger\<lparr> rq_upgrade := Some u \<rparr>) (Pq_Exchange ?code host hn) ?st1 = (st2, Pair_Key token)"
    by (simp add: serve_pairing_def skip ex)
  show ?thesis
    using one two exchanged_key_resolves [OF ex assms(8,9,11)] assms(12) tok by blast
qed

definition sample_stranger :: api_call where
  "sample_stranger = \<lparr> rq_method = ''POST'', rq_path = ''/'', rq_upgrade = None, rq_authorization = None,
     rq_cookie = None, rq_origin = None, rq_csrf = None \<rparr>"

theorem strangers_can_mint_device_keys_witness:
  "\<exists>code st1 token st2.
    serve_pairing sample_env (sample_inputs 1000) (sample_stranger\<lparr> rq_upgrade := Some ''WebSocket'' \<rparr>) (Pq_Create JUndef)
      sample_pairing = (st1, Pair_Code code 600) \<and>
    serve_pairing sample_env (sample_inputs 2000) (sample_stranger\<lparr> rq_upgrade := Some ''WebSocket'' \<rparr>)
      (Pq_Exchange code ''anyhost'' ''x'') st1 = (st2, Pair_Key token) \<and>
    snd (resolve_principal sample_env (Some token) 3000 (ps_auth st2)) =
      Some (Device_Key (km_id (pi_key (sample_inputs 2000))) (js_trim ''anyhost''))"
proof -
  have 1: "pairing_ok (ps_rows sample_pairing)" by (simp add: pairing_ok_def sample_pairing_def)
  have 2: "to_lower ''WebSocket'' = ''websocket''" "js_trim ''anyhost'' \<noteq> []" by code_simp+
  have 3: "length (pi_bytes (sample_inputs 1000) n) = 8" for n by (simp add: sample_inputs_def)
  have "snd (create_session_row 600 (pi_now (sample_inputs 1000)) (pi_bytes (sample_inputs 1000)) (ps_rows sample_pairing)) \<noteq> None"
    by code_simp
  then obtain rows row where 4: "create_session_row 600 (pi_now (sample_inputs 1000)) (pi_bytes (sample_inputs 1000))
      (ps_rows sample_pairing) = (rows, Some row)" by (metis not_None_eq prod.collapse)
  have 5: "pi_t0 (sample_inputs 2000) < pi_now (sample_inputs 1000) + 600000"
    "pi_now (sample_inputs 2000) < pi_now (sample_inputs 1000) + 600000" by (simp_all add: sample_inputs_def)
  have 6: "key_id_ok (km_id (pi_key (sample_inputs 2000)))" "secret_ok (km_secret (pi_key (sample_inputs 2000)))" by code_simp+
  have 7: "insert_managed_api_key_into (ae_sha sample_env) (km_id (pi_key (sample_inputs 2000)))
      (km_secret (pi_key (sample_inputs 2000))) (km_sealed (pi_key (sample_inputs 2000)))
      (issued_device_key_name ''x'' (js_trim ''anyhost'')) Kind_Device (Some (js_trim ''anyhost''))
      (pi_now (sample_inputs 2000)) (as_keys (ps_auth sample_pairing)) \<noteq> None"
    by (simp add: insert_managed_api_key_into_def sample_inputs_def sample_key_def sample_pairing_def)
  have 8: "hashes_equal (ae_sha sample_env (km_secret (pi_key (sample_inputs 2000)))) (ae_sha sample_env (km_secret (pi_key (sample_inputs 2000))))"
    "api_key_token (km_id (pi_key (sample_inputs 2000))) (km_secret (pi_key (sample_inputs 2000))) \<noteq> ae_master sample_env"
    by code_simp+
  show ?thesis by (rule strangers_can_mint_device_keys [OF 1 2 3 4 5 6 7 8])
qed

end
