(* ===== verification/S3_Listing.thy ===== *)
theory S3_Listing
  imports Action_Queue "HOL-Library.AList"
begin

text \<open>
  Listing a bucket, \<open>server/src/s3-list.ts\<close>: the XML reader the server has of its own, the page
  of a ListObjectsV2 answer, the entries of one directory, and the size of a prefix, which
  follows continuation tokens until the bucket says the listing is complete. Signing and the
  request itself are an argument: \<open>fetch n\<close> is what the \<open>n\<close>-th request of a call is answered,
  \<open>None\<close> when it fails; so is \<open>Date.parse\<close>. A loop that may go on for ever is a partial function.
\<close>

section \<open>Reading XML\<close>

datatype xml = Xml_Text string | Xml_Node string "(string \<times> string) list" "xml list"

text \<open>The open elements, innermost first, each with the children it has so far.\<close>

type_synonym xml_frame = "string \<times> (string \<times> string) list \<times> xml list"

text \<open>What follows the first occurrence of a pattern.\<close>

fun after_first :: "string \<Rightarrow> string \<Rightarrow> string option" where
  "after_first pat [] = None"
| "after_first pat (c # s) =
     (if starts_with pat (c # s) then Some (drop (length pat) (c # s)) else after_first pat s)"

lemma after_first_length: "after_first pat s = Some t \<Longrightarrow> length t \<le> length s"
  by (induction pat s rule: after_first.induct) (auto split: if_splits)

fun push_child :: "xml \<Rightarrow> xml_frame list \<Rightarrow> xml_frame list" where
  "push_child x [] = []"
| "push_child x ((tag, attrs, xs) # fs) = (tag, attrs, xs @ [x]) # fs"

definition flush_text :: "string \<Rightarrow> xml_frame list \<Rightarrow> xml_frame list" where
  "flush_text buf fs = (let t = js_trim buf in if length t = 0 then fs else push_child (Xml_Text t) fs)"

text \<open>\<open>split(/\s+/)\<close> without the empty parts.\<close>

fun words_of :: "string \<Rightarrow> string \<Rightarrow> string list" where
  "words_of acc [] = (if acc = [] then [] else [acc])"
| "words_of acc (c # s) =
     (if js_space c then (if acc = [] then words_of [] s else acc # words_of [] s) else words_of (acc @ [c]) s)"

definition quoted_by :: "char \<Rightarrow> string \<Rightarrow> bool" where
  "quoted_by q v \<longleftrightarrow> v \<noteq> [] \<and> hd v = q \<and> last v = q"

fun read_attrs :: "string list \<Rightarrow> (string \<times> string) list \<Rightarrow> (string \<times> string) list" where
  "read_attrs [] attrs = attrs"
| "read_attrs (p # ps) attrs =
     (if CHR ''='' \<notin> set p then read_attrs ps attrs
      else
        (let key = takeWhile (\<lambda>c. c \<noteq> CHR ''='') p; v = tl (dropWhile (\<lambda>c. c \<noteq> CHR ''='') p);
             value = (if quoted_by (CHR 0x22) v \<or> quoted_by (CHR 0x27) v then butlast (tl v) else v)
         in read_attrs ps (AList.update key value attrs)))"

definition parse_tag :: "string \<Rightarrow> string \<times> (string \<times> string) list" where
  "parse_tag content =
     (case words_of [] content of [] \<Rightarrow> ([], []) | tag # parts \<Rightarrow> (tag, read_attrs parts []))"

definition close_tag :: "xml_frame list \<Rightarrow> xml option \<Rightarrow> xml_frame list \<times> xml option" where
  "close_tag fs doc =
     (case fs of
        [] \<Rightarrow> ([], doc)
      | (tag, attrs, xs) # rest \<Rightarrow>
          (let n = Xml_Node tag attrs xs in if rest = [] then ([], Some n) else (push_child n rest, doc)))"

definition self_closing_tag :: "string \<Rightarrow> xml_frame list \<Rightarrow> xml option \<Rightarrow> xml_frame list \<times> xml option" where
  "self_closing_tag content fs doc =
     (let (tag, attrs) = parse_tag (js_trim (butlast content)); n = Xml_Node tag attrs []
      in (push_child n fs, if fs = [] then Some n else doc))"

definition open_tag :: "string \<Rightarrow> xml_frame list \<Rightarrow> xml_frame list" where
  "open_tag content fs = (let (tag, attrs) = parse_tag content in (tag, attrs, []) # fs)"

function (sequential) parse_xml_loop :: "string \<Rightarrow> string \<Rightarrow> xml_frame list \<Rightarrow> xml option \<Rightarrow> xml option" where
  "parse_xml_loop [] buf fs doc = doc"
| "parse_xml_loop (c # s) buf fs doc =
     (if c \<noteq> CHR ''<'' then parse_xml_loop s (buf @ [c]) fs doc
      else if starts_with ''?'' s
        then parse_xml_loop (or_default (after_first ''?>'' (drop 1 s)) []) [] (flush_text buf fs) doc
      else if starts_with ''!--'' s
        then parse_xml_loop (or_default (after_first ''-->'' (drop 3 s)) []) [] (flush_text buf fs) doc
      else if CHR ''>'' \<notin> set s then doc
      else
        (let content = takeWhile (\<lambda>c. c \<noteq> CHR ''>'') s; rest = tl (dropWhile (\<lambda>c. c \<noteq> CHR ''>'') s);
             fs1 = flush_text buf fs
         in if starts_with ''/'' content
              then parse_xml_loop rest [] (fst (close_tag fs1 doc)) (snd (close_tag fs1 doc))
            else if ends_with ''/'' content
              then parse_xml_loop rest [] (fst (self_closing_tag content fs1 doc)) (snd (self_closing_tag content fs1 doc))
            else parse_xml_loop rest [] (open_tag content fs1) doc))"
  by pat_completeness auto

lemma rest_shorter: "length (dropWhile P s) - Suc 0 < Suc (length s)"
  using length_dropWhile_le [of P s] by simp

lemma after_first_shorter: "length (or_default (after_first pat (drop n s)) []) \<le> length s"
proof (cases "after_first pat (drop n s)")
  case (Some t)
  then show ?thesis using after_first_length [OF Some] by simp
qed simp

termination parse_xml_loop
  by (relation "measure (\<lambda>(s, _). length s)") (auto simp: le_imp_less_Suc rest_shorter after_first_shorter [unfolded One_nat_def])

definition parse_xml :: "string \<Rightarrow> xml option" where
  "parse_xml s = parse_xml_loop s [] [] None"

section \<open>One page\<close>

datatype s3_error = Invalid_Prefix | Missing_Credentials | Request_Failed | Bad_Xml

record s3_object =
  so_key :: string
  so_size :: jnum
  so_modified :: int

record list_objects_page =
  lp_contents :: "s3_object list"
  lp_prefixes :: "string list"
  lp_truncated :: bool
  lp_token :: "string option"

fun children_of :: "xml \<Rightarrow> xml list" where
  "children_of (Xml_Node _ _ xs) = xs"
| "children_of (Xml_Text _) = []"

fun has_tag :: "string \<Rightarrow> xml \<Rightarrow> bool" where
  "has_tag tag (Xml_Node t _ _) = (t = tag)"
| "has_tag tag (Xml_Text _) = False"

fun text_part :: "xml \<Rightarrow> string" where
  "text_part (Xml_Text t) = t"
| "text_part (Xml_Node _ _ _) = []"

definition first_text :: "xml \<Rightarrow> string \<Rightarrow> string option" where
  "first_text node tag =
     (case find (has_tag tag) (children_of node) of
        None \<Rightarrow> None
      | Some child \<Rightarrow> Some (js_trim (concat (map text_part (children_of child)))))"

definition parse_iso_date :: "(string \<Rightarrow> int option) \<Rightarrow> string option \<Rightarrow> int" where
  "parse_iso_date date v = (case truthy v of None \<Rightarrow> 0 | Some s \<Rightarrow> or_default (date s) 0)"

definition object_of :: "(string \<Rightarrow> int option) \<Rightarrow> xml \<Rightarrow> s3_object option" where
  "object_of date child =
     (case truthy (first_text child ''Key'') of
        None \<Rightarrow> None
      | Some key \<Rightarrow>
          (let n = (case truthy (first_text child ''Size'') of None \<Rightarrow> Fin 0 | Some t \<Rightarrow> js_parse_int t)
           in Some \<lparr> so_key = key, so_size = (if n = NaN then Fin 0 else n),
                     so_modified = parse_iso_date date (first_text child ''LastModified'') \<rparr>))"

definition parse_list_objects_page :: "(string \<Rightarrow> int option) \<Rightarrow> string \<Rightarrow> s3_error + list_objects_page" where
  "parse_list_objects_page date body =
     (case parse_xml body of
        None \<Rightarrow> Inl Bad_Xml
      | Some doc \<Rightarrow>
          Inr \<lparr> lp_contents = List.map_filter (object_of date) (filter (has_tag ''Contents'') (children_of doc)),
                lp_prefixes = List.map_filter (\<lambda>c. truthy (first_text c ''Prefix''))
                                (filter (has_tag ''CommonPrefixes'') (children_of doc)),
                lp_truncated = (first_text doc ''IsTruncated'' = Some ''true''),
                lp_token = truthy (first_text doc ''NextContinuationToken'') \<rparr>)"

record s3_config =
  sc_endpoint :: string
  sc_bucket :: string
  sc_access_key :: string
  sc_secret_key :: string

record list_query =
  lq_prefix :: string
  lq_limit :: int
  lq_delimiter :: "string option"
  lq_token :: "string option"

type_synonym s3_fetch = "nat \<Rightarrow> list_query \<Rightarrow> string option"

definition run_list_objects_page ::
    "(string \<Rightarrow> int option) \<Rightarrow> s3_config \<Rightarrow> s3_fetch \<Rightarrow> nat \<Rightarrow> list_query \<Rightarrow> s3_error + list_objects_page" where
  "run_list_objects_page date s3 fetch n query =
     (let endpoint = rev (dropWhile (\<lambda>c. c = CHR ''/'') (rev (sc_endpoint s3)))
      in if endpoint = [] \<or> sc_bucket s3 = [] \<or> sc_access_key s3 = [] \<or> sc_secret_key s3 = []
         then Inl Missing_Credentials
         else case fetch n query of
           None \<Rightarrow> Inl Request_Failed
         | Some body \<Rightarrow> parse_list_objects_page date body)"

section \<open>Entries and sizes\<close>

text \<open>\<open>includes("\0")\<close> or \<open>includes("..")\<close>.\<close>

fun has_dots :: "string \<Rightarrow> bool" where
  "has_dots (c # d # s) = (c = CHR ''.'' \<and> d = CHR ''.'' \<or> has_dots (d # s))"
| "has_dots _ = False"

definition bad_prefix :: "string \<Rightarrow> bool" where
  "bad_prefix p \<longleftrightarrow> nul_char \<in> set p \<or> has_dots p"

definition relative_name :: "string \<Rightarrow> string \<Rightarrow> string" where
  "relative_name key prefix =
     (let t = (if starts_with prefix key then drop (length prefix) key else key)
      in if ends_with ''/'' t then butlast t else t)"

record s3_entry =
  se_name :: string
  se_dir :: bool
  se_size :: jnum
  se_modified :: int

definition list_s3_objects ::
    "(string \<Rightarrow> int option) \<Rightarrow> s3_config \<Rightarrow> string \<Rightarrow> int \<Rightarrow> s3_fetch \<Rightarrow> s3_error + s3_entry list" where
  "list_s3_objects date s3 prefix limit fetch =
     (if bad_prefix prefix then Inl Invalid_Prefix
      else case run_list_objects_page date s3 fetch 0
                  \<lparr> lq_prefix = prefix, lq_limit = limit, lq_delimiter = Some ''/'', lq_token = None \<rparr> of
        Inl e \<Rightarrow> Inl e
      | Inr page \<Rightarrow>
          Inr (map (\<lambda>c. \<lparr> se_name = relative_name (so_key c) prefix, se_dir = False, se_size = so_size c,
                           se_modified = so_modified c \<rparr>) (lp_contents page) @
               map (\<lambda>p. \<lparr> se_name = relative_name p prefix, se_dir = True, se_size = Fin 0, se_modified = 0 \<rparr>)
                 (lp_prefixes page)))"

fun jnum_plus :: "jnum \<Rightarrow> jnum \<Rightarrow> jnum" where
  "jnum_plus (Fin a) (Fin b) = Fin (a + b)"
| "jnum_plus NaN _ = NaN"
| "jnum_plus _ NaN = NaN"
| "jnum_plus PosInf NegInf = NaN"
| "jnum_plus NegInf PosInf = NaN"
| "jnum_plus PosInf _ = PosInf"
| "jnum_plus NegInf _ = NegInf"
| "jnum_plus _ b = b"

definition add_page :: "list_objects_page \<Rightarrow> nat \<times> jnum \<Rightarrow> nat \<times> jnum" where
  "add_page page t =
     fold (\<lambda>c (count, bytes). (count + 1, jnum_plus bytes (so_size c))) (lp_contents page) t"

definition last_page :: "list_objects_page \<Rightarrow> bool" where
  "last_page page \<longleftrightarrow> \<not> lp_truncated page \<or> lp_token page = None"

type_synonym page_source = "nat \<Rightarrow> string option \<Rightarrow> s3_error + list_objects_page"

partial_function (option) size_loop ::
    "page_source \<Rightarrow> nat \<Rightarrow> string option \<Rightarrow> nat \<times> jnum \<Rightarrow> (s3_error + nat \<times> jnum) option" where
  "size_loop ask n token tally =
     (case ask n token of
        Inl e \<Rightarrow> Some (Inl e)
      | Inr page \<Rightarrow>
          if last_page page then Some (Inr (add_page page tally))
          else size_loop ask (Suc n) (lp_token page) (add_page page tally))"

definition ask_page :: "(string \<Rightarrow> int option) \<Rightarrow> s3_config \<Rightarrow> string \<Rightarrow> s3_fetch \<Rightarrow> page_source" where
  "ask_page date s3 prefix fetch n token =
     run_list_objects_page date s3 fetch n
       \<lparr> lq_prefix = prefix, lq_limit = 1000, lq_delimiter = None, lq_token = token \<rparr>"

definition size_s3_prefix ::
    "(string \<Rightarrow> int option) \<Rightarrow> s3_config \<Rightarrow> string \<Rightarrow> s3_fetch \<Rightarrow> (s3_error + nat \<times> jnum) option" where
  "size_s3_prefix date s3 prefix fetch =
     (if bad_prefix prefix then Some (Inl Invalid_Prefix)
      else size_loop (ask_page date s3 prefix fetch) 0 None (0, Fin 0))"

section \<open>The reader undoes the writer\<close>

text \<open>A document as a bucket writes it, without attributes and entities.\<close>

fun render_xml :: "xml \<Rightarrow> string" where
  "render_xml (Xml_Text t) = t"
| "render_xml (Xml_Node tag attrs kids) =
     ''<'' @ tag @ ''>'' @ concat (map render_xml kids) @ ''</'' @ tag @ ''>''"

definition tag_ok :: "string \<Rightarrow> bool" where
  "tag_ok tag \<longleftrightarrow> tag \<noteq> [] \<and> hd tag \<noteq> CHR ''?'' \<and> hd tag \<noteq> CHR ''!'' \<and>
     list_all (\<lambda>c. \<not> js_space c \<and> c \<noteq> CHR ''<'' \<and> c \<noteq> CHR ''>'' \<and> c \<noteq> CHR ''/'') tag"

fun is_text :: "xml \<Rightarrow> bool" where
  "is_text (Xml_Text _) = True"
| "is_text _ = False"

fun apart :: "xml list \<Rightarrow> bool" where
  "apart (x # y # xs) = (\<not> (is_text x \<and> is_text y) \<and> apart (y # xs))"
| "apart _ = True"

fun plain_xml :: "xml \<Rightarrow> bool" where
  "plain_xml (Xml_Text t) \<longleftrightarrow> t \<noteq> [] \<and> js_trim t = t \<and> CHR ''<'' \<notin> set t"
| "plain_xml (Xml_Node tag attrs kids) \<longleftrightarrow> tag_ok tag \<and> attrs = [] \<and> apart kids \<and> list_all plain_xml kids"

declare parse_xml_loop.simps [simp del]

lemma words_of_word: "list_all (\<lambda>c. \<not> js_space c) s \<Longrightarrow> acc @ s \<noteq> [] \<Longrightarrow> words_of acc s = [acc @ s]"
  by (induction acc s rule: words_of.induct) auto

lemma parse_tag_ok: "tag_ok tag \<Longrightarrow> parse_tag tag = (tag, [])"
  using words_of_word [of tag "[]"] by (simp add: parse_tag_def tag_ok_def list_all_iff)

lemma loop_text:
  "CHR ''<'' \<notin> set t \<Longrightarrow> parse_xml_loop (t @ s) buf fs doc = parse_xml_loop s (buf @ t) fs doc"
proof (induction t arbitrary: buf)
  case (Cons c t)
  then have "c \<noteq> CHR ''<''" by auto
  then show ?case using Cons by (simp add: parse_xml_loop.simps(2))
qed simp

lemma take_to_close: "CHR ''>'' \<notin> set tag \<Longrightarrow> takeWhile (\<lambda>c. c \<noteq> CHR ''>'') (tag @ CHR ''>'' # s) = tag"
    "CHR ''>'' \<notin> set tag \<Longrightarrow> dropWhile (\<lambda>c. c \<noteq> CHR ''>'') (tag @ CHR ''>'' # s) = CHR ''>'' # s"
  by (induction tag) auto

lemma loop_open:
  assumes "tag_ok tag"
  shows "parse_xml_loop (''<'' @ tag @ ''>'' @ s) buf fs doc = parse_xml_loop s [] ((tag, [], []) # flush_text buf fs) doc"
proof -
  obtain c t where tag: "tag = c # t" using assms by (cases tag) (auto simp: tag_ok_def)
  have c: "c \<noteq> CHR ''?''" "c \<noteq> CHR ''!''" "c \<noteq> CHR ''/''" and gt: "CHR ''>'' \<notin> set tag" "CHR ''/'' \<notin> set tag"
    using assms by (auto simp: tag tag_ok_def list_all_iff)
  have "\<not> ends_with ''/'' tag" using gt(2) by (auto simp: ends_with_iff)
  moreover have "\<not> starts_with ''/'' tag" "\<not> starts_with ''?'' (tag @ CHR ''>'' # s)" "\<not> starts_with ''!--'' (tag @ CHR ''>'' # s)"
    using c by (simp_all add: tag starts_with_def)
  ultimately show ?thesis
    using take_to_close [OF gt(1)] by (simp add: parse_xml_loop.simps(2) open_tag_def parse_tag_ok [OF assms])
qed

lemma loop_close:
  assumes "tag_ok tag"
  shows "parse_xml_loop (''</'' @ tag @ ''>'' @ s) buf fs doc =
    parse_xml_loop s [] (fst (close_tag (flush_text buf fs) doc)) (snd (close_tag (flush_text buf fs) doc))"
proof -
  have gt: "CHR ''>'' \<notin> set (''/'' @ tag)" using assms by (auto simp: tag_ok_def list_all_iff)
  show ?thesis
    using take_to_close [OF gt, of s] by (simp add: parse_xml_loop.simps(2) starts_with_def Let_def)
qed

text \<open>Children are pushed on the open element; a text may still be in the buffer.\<close>

lemma flush_plain: "t \<noteq> [] \<Longrightarrow> js_trim t = t \<Longrightarrow> flush_text t fs = push_child (Xml_Text t) fs"
  by (simp add: flush_text_def)

lemma flush_nil [simp]: "flush_text [] fs = fs"
  by (simp add: flush_text_def js_trim_def)

lemma push_nonempty [simp]: "push_child x fs = [] \<longleftrightarrow> fs = []" "flush_text buf fs = [] \<longleftrightarrow> fs = []"
  by (cases fs; force simp: flush_text_def Let_def)+

definition node_done :: "xml \<Rightarrow> xml_frame list \<Rightarrow> xml option \<Rightarrow> xml_frame list \<times> xml option" where
  "node_done n fs doc = (if fs = [] then ([], Some n) else (push_child n fs, doc))"

definition reads_node :: "xml \<Rightarrow> bool" where
  "reads_node n \<longleftrightarrow> (\<forall>s buf fs doc. parse_xml_loop (render_xml n @ s) buf fs doc =
     parse_xml_loop s [] (fst (node_done n (flush_text buf fs) doc)) (snd (node_done n (flush_text buf fs) doc)))"

lemma loop_children:
  assumes "\<And>k. k \<in> set kids \<Longrightarrow> plain_xml k" and "\<And>k. k \<in> set kids \<Longrightarrow> \<not> is_text k \<Longrightarrow> reads_node k"
    and "apart kids" and "buf \<noteq> [] \<Longrightarrow> kids \<noteq> [] \<Longrightarrow> \<not> is_text (hd kids)" and "fs \<noteq> []"
  shows "\<exists>buf' fs'. parse_xml_loop (concat (map render_xml kids) @ s) buf fs doc = parse_xml_loop s buf' fs' doc \<and>
    flush_text buf' fs' = fold push_child kids (flush_text buf fs)"
  using assms
proof (induction kids arbitrary: buf fs)
  case Nil
  show ?case by (intro exI [of _ buf] exI [of _ fs]) simp
next
  case (Cons k ks)
  have ks: "apart ks" using Cons.prems(3) by (cases ks) auto
  show ?case
  proof (cases k)
    case (Xml_Text t)
    then have t: "t \<noteq> []" "js_trim t = t" "CHR ''<'' \<notin> set t" and buf: "buf = []"
      using Cons.prems(1) [of k] Cons.prems(4) by auto
    have next_node: "ks \<noteq> [] \<Longrightarrow> \<not> is_text (hd ks)" using Cons.prems(3) Xml_Text by (cases ks) auto
    obtain buf' fs' where "parse_xml_loop (concat (map render_xml ks) @ s) t fs doc = parse_xml_loop s buf' fs' doc"
        "flush_text buf' fs' = fold push_child ks (flush_text t fs)"
      using Cons.IH [where buf = t and fs = fs] Cons.prems ks next_node by auto
    then show ?thesis
      using loop_text [OF t(3), of "concat (map render_xml ks) @ s" "[]" fs doc] flush_plain [OF t(1,2)]
      by (auto simp: Xml_Text buf)
  next
    case (Xml_Node tag attrs xs)
    then have "reads_node k" using Cons.prems(2) by simp
    then have step: "parse_xml_loop (render_xml k @ concat (map render_xml ks) @ s) buf fs doc =
        parse_xml_loop (concat (map render_xml ks) @ s) [] (push_child k (flush_text buf fs)) doc"
      using Cons.prems(5) by (simp add: reads_node_def node_done_def)
    obtain buf' fs' where "parse_xml_loop (concat (map render_xml ks) @ s) [] (push_child k (flush_text buf fs)) doc =
          parse_xml_loop s buf' fs' doc" "flush_text buf' fs' = fold push_child ks (push_child k (flush_text buf fs))"
      using Cons.IH [where buf = "[]" and fs = "push_child k (flush_text buf fs)"] Cons.prems ks by auto
    then show ?thesis using step by auto
  qed
qed

lemma push_children: "fold push_child kids ((tag, attrs, xs) # fs) = (tag, attrs, xs @ kids) # fs"
  by (induction kids arbitrary: xs) auto

lemma plain_node_read: "plain_xml n \<Longrightarrow> \<not> is_text n \<Longrightarrow> reads_node n"
proof (induction n)
  case (Xml_Node tag attrs kids)
  then have tag: "tag_ok tag" "attrs = []" "apart kids" and kids: "\<And>k. k \<in> set kids \<Longrightarrow> plain_xml k"
    by (auto simp: list_all_iff)
  have rn: "\<And>k. k \<in> set kids \<Longrightarrow> \<not> is_text k \<Longrightarrow> reads_node k" using Xml_Node.IH kids by blast
  show ?case
    unfolding reads_node_def
  proof (intro allI)
    fix s buf fs doc
    let ?closing = "''</'' @ tag @ ''>'' @ s"
    obtain buf' fs' where body: "parse_xml_loop (concat (map render_xml kids) @ ?closing) [] ((tag, [], []) # flush_text buf fs) doc =
          parse_xml_loop ?closing buf' fs' doc" and fl: "flush_text buf' fs' = (tag, [], kids) # flush_text buf fs"
      using loop_children [OF kids rn tag(3), where buf = "[]" and fs = "(tag, [], []) # flush_text buf fs" and s = ?closing and doc = doc]
      by (auto simp: push_children)
    have "parse_xml_loop (render_xml (Xml_Node tag attrs kids) @ s) buf fs doc =
        parse_xml_loop (''<'' @ tag @ ''>'' @ concat (map render_xml kids) @ ?closing) buf fs doc" by simp
    also have "\<dots> = parse_xml_loop ?closing buf' fs' doc" unfolding loop_open [OF tag(1)] body ..
    also have "\<dots> = parse_xml_loop s [] (fst (close_tag (flush_text buf' fs') doc)) (snd (close_tag (flush_text buf' fs') doc))"
      by (rule loop_close [OF tag(1)])
    also have "close_tag (flush_text buf' fs') doc = node_done (Xml_Node tag attrs kids) (flush_text buf fs) doc"
      by (simp add: fl close_tag_def node_done_def tag(2))
    finally show "parse_xml_loop (render_xml (Xml_Node tag attrs kids) @ s) buf fs doc =
        parse_xml_loop s [] (fst (node_done (Xml_Node tag attrs kids) (flush_text buf fs) doc))
          (snd (node_done (Xml_Node tag attrs kids) (flush_text buf fs) doc))" .
  qed
qed simp

lemma plain_document_read: "plain_xml n \<Longrightarrow> \<not> is_text n \<Longrightarrow> parse_xml (render_xml n) = Some n"
  using plain_node_read [of n]
  by (auto simp: parse_xml_def reads_node_def node_done_def parse_xml_loop.simps(1) dest!: spec [of _ "[]"])

text \<open>
  The XML reader is right on what buckets write. An element whose tags are names and whose
  texts are trimmed, not adjacent and free of entities is read back exactly, whatever its depth.
\<close>

theorem xml_round_trip:
  assumes "plain_xml n" and "\<not> is_text n"
  shows "parse_xml (render_xml n) = Some n"
  by (rule plain_document_read [OF assms])

theorem xml_round_trip_witness:
  "parse_xml (render_xml (Xml_Node ''R'' [] [Xml_Node ''Key'' [] [Xml_Text ''a b''], Xml_Text ''x'']))
     = Some (Xml_Node ''R'' [] [Xml_Node ''Key'' [] [Xml_Text ''a b''], Xml_Text ''x''])"
proof -
  have "plain_xml (Xml_Node ''R'' [] [Xml_Node ''Key'' [] [Xml_Text ''a b''], Xml_Text ''x''])" by code_simp
  then show ?thesis by (rule xml_round_trip) simp
qed

text \<open>Entities are not decoded: the name of the object \<open>a&b\<close>, which a bucket writes \<open>a&amp;b\<close>, is
  listed as \<open>a&amp;b\<close>.\<close>

definition escaped_object :: xml where
  "escaped_object = Xml_Node ''Contents'' []
     [Xml_Node ''Key'' [] [Xml_Text ''d/a&amp;b''], Xml_Node ''Size'' [] [Xml_Text ''5'']]"

definition escaped_listing :: xml where
  "escaped_listing = Xml_Node ''ListBucketResult'' [] [escaped_object]"

definition sample_bucket :: s3_config where
  "sample_bucket = \<lparr> sc_endpoint = ''s3.example'', sc_bucket = ''b'', sc_access_key = ''k'', sc_secret_key = ''s'' \<rparr>"

lemma escaped_names_are_listed_escaped:
  "map_sum id (map se_name) (list_s3_objects (\<lambda>_. None) sample_bucket ''d/'' 1000 (\<lambda>_ _. Some (render_xml escaped_listing)))
     = Inr [''a&amp;b'']"
proof -
  have "plain_xml escaped_listing" by code_simp
  then have "parse_xml (render_xml escaped_listing) = Some escaped_listing"
    by (rule plain_document_read) (simp add: escaped_listing_def)
  then obtain page where page: "parse_list_objects_page (\<lambda>_. None) (render_xml escaped_listing) = Inr page"
    and parts: "lp_contents page = List.map_filter (object_of (\<lambda>_. None)) (filter (has_tag ''Contents'') (children_of escaped_listing))"
      "lp_prefixes page = List.map_filter (\<lambda>c. truthy (first_text c ''Prefix'')) (filter (has_tag ''CommonPrefixes'') (children_of escaped_listing))"
    by (simp add: parse_list_objects_page_def)
  have "first_text escaped_object ''Key'' = Some ''d/a&amp;b''" by code_simp
  then have "\<exists>ob. object_of (\<lambda>_. None) escaped_object = Some ob \<and> so_key ob = ''d/a&amp;b''"
    by (simp add: object_of_def truthy_def Let_def)
  then obtain ob where ob: "object_of (\<lambda>_. None) escaped_object = Some ob" "so_key ob = ''d/a&amp;b''" by blast
  have "filter (has_tag ''Contents'') (children_of escaped_listing) = [escaped_object]"
    "filter (has_tag ''CommonPrefixes'') (children_of escaped_listing) = []"
    by (simp_all add: escaped_listing_def escaped_object_def)
  then have "lp_contents page = [ob]" "lp_prefixes page = []" using parts ob(1) by (simp_all add: List.map_filter_def)
  moreover have "\<not> bad_prefix ''d/''" "relative_name ''d/a&amp;b'' ''d/'' = ''a&amp;b''" by code_simp+
  ultimately show ?thesis
    using page ob(2) by (simp add: list_s3_objects_def run_list_objects_page_def sample_bucket_def)
qed

section \<open>The size loop ends with the listing\<close>

text \<open>The pages of a listing, up to the one that ends it or fails; \<open>None\<close> if that takes more than
  the given number of requests.\<close>

fun listing_pages :: "page_source \<Rightarrow> nat \<Rightarrow> string option \<Rightarrow> nat \<Rightarrow> (s3_error + list_objects_page list) option" where
  "listing_pages ask n token 0 = None"
| "listing_pages ask n token (Suc k) =
     (case ask n token of
        Inl e \<Rightarrow> Some (Inl e)
      | Inr page \<Rightarrow>
          if last_page page then Some (Inr [page])
          else map_option (map_sum id (Cons page)) (listing_pages ask (Suc n) (lp_token page) k))"

definition tally_pages :: "nat \<times> jnum \<Rightarrow> s3_error + list_objects_page list \<Rightarrow> s3_error + nat \<times> jnum" where
  "tally_pages tally pages = map_sum id (\<lambda>ps. fold add_page ps tally) pages"

lemma size_loop_of_pages:
  "listing_pages ask n token k = Some pages \<Longrightarrow> size_loop ask n token tally = Some (tally_pages tally pages)"
proof (induction k arbitrary: n token tally pages)
  case (Suc k)
  show ?case
  proof (cases "ask n token")
    case (Inl e)
    then show ?thesis using Suc.prems by (auto simp: size_loop.simps [of ask n] tally_pages_def)
  next
    case (Inr page)
    show ?thesis
    proof (cases "last_page page")
      case True
      then show ?thesis using Suc.prems Inr by (auto simp: size_loop.simps [of ask n] tally_pages_def)
    next
      case False
      then obtain ps where ps: "listing_pages ask (Suc n) (lp_token page) k = Some ps" "pages = map_sum id (Cons page) ps"
        using Suc.prems Inr by auto
      show ?thesis
        using Suc.IH [OF ps(1), of "add_page page tally"] Inr False
        by (cases ps) (simp_all add: size_loop.simps [of ask n] tally_pages_def ps(2))
    qed
  qed
qed simp

lemma pages_of_size_loop:
  "size_loop ask n token tally = Some result \<Longrightarrow> \<exists>k pages. listing_pages ask n token k = Some pages"
proof (induction rule: size_loop.raw_induct [rotated, consumes 1])
  case (1 size ask n token tally result)
  show ?case
  proof (cases "ask n token")
    case (Inl e)
    then show ?thesis by (intro exI [of _ 1]) simp
  next
    case (Inr page)
    show ?thesis
    proof (cases "last_page page")
      case True
      then show ?thesis using Inr by (intro exI [of _ 1]) simp
    next
      case False
      then obtain k pages where "listing_pages ask (Suc n) (lp_token page) k = Some pages"
        using 1 Inr by fastforce
      then show ?thesis using Inr False by (intro exI [of _ "Suc k"]) simp
    qed
  qed
qed

text \<open>
  Measuring a prefix ends exactly when the listing does. The loop returns a result if and
  only if, after some number of requests, the bucket answers a page that is not truncated or has
  no token, or a request fails; the result is then the count and the sum over exactly the pages
  on the way, or that failure.
\<close>

theorem size_ends_with_the_listing:
  assumes "\<not> bad_prefix prefix"
  shows "size_s3_prefix date s3 prefix fetch = Some result \<longleftrightarrow>
    (\<exists>k pages. listing_pages (ask_page date s3 prefix fetch) 0 None k = Some pages \<and> result = tally_pages (0, Fin 0) pages)"
proof
  assume "size_s3_prefix date s3 prefix fetch = Some result"
  then have s: "size_loop (ask_page date s3 prefix fetch) 0 None (0, Fin 0) = Some result"
    using assms by (simp add: size_s3_prefix_def)
  from pages_of_size_loop [OF this] obtain k pages where
    p: "listing_pages (ask_page date s3 prefix fetch) 0 None k = Some pages" by blast
  then show "\<exists>k pages. listing_pages (ask_page date s3 prefix fetch) 0 None k = Some pages \<and> result = tally_pages (0, Fin 0) pages"
    using size_loop_of_pages [OF p] s by auto
qed (use assms size_loop_of_pages in \<open>auto simp: size_s3_prefix_def\<close>)

text \<open>A bucket that is never done: the measurement does not return.\<close>

definition endless_page :: xml where
  "endless_page = Xml_Node ''R'' [] [Xml_Node ''IsTruncated'' [] [Xml_Text ''true''],
     Xml_Node ''NextContinuationToken'' [] [Xml_Text ''t'']]"

lemma endless_page_parsed: "parse_list_objects_page date (render_xml endless_page) =
    Inr \<lparr> lp_contents = [], lp_prefixes = [], lp_truncated = True, lp_token = Some ''t'' \<rparr>"
proof -
  have "plain_xml endless_page" by code_simp
  then have "parse_xml (render_xml endless_page) = Some endless_page"
    by (rule plain_document_read) (simp add: endless_page_def)
  moreover have "filter (has_tag ''Contents'') (children_of endless_page) = []"
    "filter (has_tag ''CommonPrefixes'') (children_of endless_page) = []"
    "first_text endless_page ''IsTruncated'' = Some ''true''"
    "truthy (first_text endless_page ''NextContinuationToken'') = Some ''t''" by code_simp+
  ultimately show ?thesis by (simp add: parse_list_objects_page_def List.map_filter_def)
qed

lemma endless_listing_never_returns:
  "size_s3_prefix date sample_bucket ''d'' (\<lambda>_ _. Some (render_xml endless_page)) = None"
proof -
  let ?ask = "ask_page date sample_bucket ''d'' (\<lambda>_ _. Some (render_xml endless_page))"
  have "?ask n token = Inr \<lparr> lp_contents = [], lp_prefixes = [], lp_truncated = True, lp_token = Some ''t'' \<rparr>" for n token
    by (simp add: ask_page_def run_list_objects_page_def sample_bucket_def endless_page_parsed)
  then have "listing_pages ?ask n token k = None" for n token k
    by (induction k arbitrary: n token) (simp_all add: last_page_def)
  then have "size_loop ?ask 0 None (0, Fin 0) = None"
    using pages_of_size_loop [of ?ask 0 None "(0, Fin 0)"] by (metis not_None_eq option.distinct(1))
  moreover have "\<not> bad_prefix ''d''" by code_simp
  ultimately show ?thesis by (simp add: size_s3_prefix_def)
qed

theorem size_ends_with_the_listing_witness:
  "size_s3_prefix (\<lambda>_. None) sample_bucket ''d'' (\<lambda>_ _. None) = Some (Inl Request_Failed)"
proof -
  have ok: "\<not> bad_prefix ''d''" by code_simp
  have "listing_pages (ask_page (\<lambda>_. None) sample_bucket ''d'' (\<lambda>_ _. None)) 0 None 1 = Some (Inl Request_Failed)"
    by (simp add: ask_page_def run_list_objects_page_def sample_bucket_def)
  moreover have "Inl Request_Failed = tally_pages (0, Fin 0) (Inl Request_Failed)" by (simp add: tally_pages_def)
  ultimately show ?thesis using size_ends_with_the_listing [OF ok] by blast
qed

end
