(* ===== verification/Log_Archive.thy ===== *)
theory Log_Archive
  imports Action_Queue
begin

text \<open>
  Pruning and exporting the operation log, \<open>server/src/routes/admin.ts\<close>. The log is the list
  of its rows, the target directory a map from file names to the rows written there. An
  export reads the clock three times (for the selection, for the name of the file, for the
  deletion) and may fail while it writes; both are arguments.
\<close>

section \<open>Rows\<close>

record op_log_row =
  ol_id :: int
  ol_timestamp :: int
  ol_host_id :: string
  ol_folder_id :: "string option"
  ol_operation :: string
  ol_status :: string
  ol_summary :: "string option"
  ol_details :: "string option"
  ol_duration_ms :: "int option"
  ol_demo :: int

definition DEFAULT_RETENTION_MS :: rat where "DEFAULT_RETENTION_MS = 30 * 24 * 60 * 60 * 1000"
definition DEFAULT_EXPORT_RETENTION_MS :: rat where "DEFAULT_EXPORT_RETENTION_MS = 90 * 24 * 60 * 60 * 1000"

definition older :: "rat \<Rightarrow> op_log_row \<Rightarrow> bool" where
  "older cutoff r \<longleftrightarrow> of_int (ol_timestamp r) < cutoff"

text \<open>\<open>SELECT MAX(id) ... WHERE timestamp < ? GROUP BY host_id\<close>.\<close>

definition last_by_host :: "rat \<Rightarrow> op_log_row list \<Rightarrow> int list" where
  "last_by_host cutoff rows =
     (let old = filter (older cutoff) rows
      in map (\<lambda>h. Max (set (map ol_id (filter (\<lambda>r. ol_host_id r = h) old)))) (remdups (map ol_host_id old)))"

text \<open>The predicate the selection and the deletion share.\<close>

definition goes :: "rat \<Rightarrow> op_log_row list \<Rightarrow> op_log_row \<Rightarrow> bool" where
  "goes cutoff rows r \<longleftrightarrow> older cutoff r \<and> ol_id r \<notin> set (last_by_host cutoff rows)"

definition select_archivable_rows :: "rat \<Rightarrow> op_log_row list \<Rightarrow> op_log_row list" where
  "select_archivable_rows cutoff rows = sort_key ol_id (filter (goes cutoff rows) rows)"

definition prune_operation_log :: "rat \<Rightarrow> int \<Rightarrow> op_log_row list \<Rightarrow> op_log_row list \<times> nat" where
  "prune_operation_log older_than now rows =
     (let cutoff = of_int now - older_than
      in (filter (\<lambda>r. \<not> goes cutoff rows r) rows, length (filter (goes cutoff rows) rows)))"

definition normalize_retention_ms :: "query_limit option \<Rightarrow> rat \<Rightarrow> rat option" where
  "normalize_retention_ms raw fallback =
     (let provided = (case raw of
                        Some (Limit_Number (Fin r)) \<Rightarrow> Some r
                      | Some (Limit_Text s) \<Rightarrow> if length s > 0 then jnum_val (js_parse_int s) else None
                      | _ \<Rightarrow> None);
          value = or_default provided fallback
      in if value < 0 then None else Some value)"

section \<open>Archiving\<close>

record archive_state =
  ar_rows :: "op_log_row list"
  ar_files :: "string \<rightharpoonup> op_log_row list"

record archive_io =
  ai_select :: int
  ai_name :: int
  ai_prune :: int
  ai_written :: bool

record log_export =
  lx_archived :: nat
  lx_file :: "string option"
  lx_deleted :: nat

definition archive_name :: "int \<Rightarrow> string" where
  "archive_name now = ''lamasync-oplog-'' @ show_nat (nat (now div 1000)) @ ''.ndjson.gz''"

text \<open>\<open>None\<close> is an error thrown while writing. The file of the same second is replaced.\<close>

definition archive_and_prune_operation_log ::
    "rat \<Rightarrow> archive_io \<Rightarrow> archive_state \<Rightarrow> archive_state \<times> log_export option" where
  "archive_and_prune_operation_log older_than io st =
     (let archivable = select_archivable_rows (of_int (ai_select io) - older_than) (ar_rows st)
      in if length archivable = 0 then (st, Some \<lparr> lx_archived = 0, lx_file = None, lx_deleted = 0 \<rparr>)
         else if \<not> ai_written io then (st, None)
         else
           (let name = archive_name (ai_name io); (rows, deleted) = prune_operation_log older_than (ai_prune io) (ar_rows st)
            in (\<lparr> ar_rows = rows, ar_files = (ar_files st)(name \<mapsto> archivable) \<rparr>,
                Some \<lparr> lx_archived = length archivable, lx_file = Some name, lx_deleted = deleted \<rparr>)))"

datatype archive_reply = Ar_Pruned nat | Ar_Exported log_export | Ar_Refused nat

definition post_admin_prune :: "query_limit option \<Rightarrow> int \<Rightarrow> archive_state \<Rightarrow> archive_state \<times> archive_reply" where
  "post_admin_prune raw now st =
     (let provided = (case raw of
                        Some (Limit_Number n) \<Rightarrow> n
                      | Some (Limit_Text s) \<Rightarrow> if s \<noteq> [] then js_parse_int s else Fin DEFAULT_RETENTION_MS
                      | None \<Rightarrow> Fin DEFAULT_RETENTION_MS)
      in case provided of
           Fin r \<Rightarrow>
             if r < 0 then (st, Ar_Refused 400)
             else (let (rows, n) = prune_operation_log r now (ar_rows st) in (st\<lparr> ar_rows := rows \<rparr>, Ar_Pruned n))
         | _ \<Rightarrow> (st, Ar_Refused 400))"

definition post_admin_export :: "query_limit option \<Rightarrow> archive_io \<Rightarrow> archive_state \<Rightarrow> archive_state \<times> archive_reply" where
  "post_admin_export raw io st =
     (case normalize_retention_ms raw DEFAULT_EXPORT_RETENTION_MS of
        None \<Rightarrow> (st, Ar_Refused 400)
      | Some r \<Rightarrow>
          (case archive_and_prune_operation_log r io st of
             (st', None) \<Rightarrow> (st', Ar_Refused 500)
           | (st', Some x) \<Rightarrow> (st', Ar_Exported x)))"

section \<open>What pruning keeps\<close>

lemma set_last_by_host:
  "set (last_by_host cutoff rows) =
     (\<lambda>h. Max (ol_id ` {r \<in> set rows. older cutoff r \<and> ol_host_id r = h})) ` ol_host_id ` {r \<in> set rows. older cutoff r}"
proof -
  have eq: "set (map ol_id (filter (\<lambda>r. ol_host_id r = h) (filter (older cutoff) rows))) =
      ol_id ` {r \<in> set rows. older cutoff r \<and> ol_host_id r = h}" for h by auto
  show ?thesis unfolding last_by_host_def Let_def eq by simp
qed

lemma last_by_host_mem:
  "i \<in> set (last_by_host cutoff rows) \<longleftrightarrow>
     (\<exists>r\<in>set rows. older cutoff r \<and> ol_id r = i \<and>
        (\<forall>x\<in>set rows. older cutoff x \<longrightarrow> ol_host_id x = ol_host_id r \<longrightarrow> ol_id x \<le> i))" (is "?l \<longleftrightarrow> ?r")
proof
  let ?ids = "\<lambda>h. ol_id ` {r \<in> set rows. older cutoff r \<and> ol_host_id r = h}"
  assume ?l
  then have "i \<in> (\<lambda>h. Max (?ids h)) ` ol_host_id ` {r \<in> set rows. older cutoff r}" by (simp only: set_last_by_host)
  then obtain r where r: "r \<in> set rows" "older cutoff r" and i: "i = Max (?ids (ol_host_id r))" by auto
  have fin: "finite (?ids (ol_host_id r))" by simp
  have "?ids (ol_host_id r) \<noteq> {}" using r by auto
  then have "i \<in> ?ids (ol_host_id r)" unfolding i by (rule Max_in [OF fin])
  moreover have "x \<in> ?ids (ol_host_id r) \<Longrightarrow> x \<le> i" for x unfolding i by (rule Max_ge [OF fin])
  ultimately show ?r by auto
next
  assume ?r
  then obtain r where r: "r \<in> set rows" "older cutoff r" "ol_id r = i"
    and max: "\<And>x. x \<in> set rows \<Longrightarrow> older cutoff x \<Longrightarrow> ol_host_id x = ol_host_id r \<Longrightarrow> ol_id x \<le> i" by blast
  let ?ids = "ol_id ` {x \<in> set rows. older cutoff x \<and> ol_host_id x = ol_host_id r}"
  have "Max ?ids = i" using r max by (intro Max_eqI) auto
  moreover have "ol_host_id r \<in> ol_host_id ` {x \<in> set rows. older cutoff x}" using r by auto
  ultimately show ?l unfolding set_last_by_host by (intro image_eqI [of _ _ "ol_host_id r"]) simp_all
qed

text \<open>
  A host never vanishes from the log. After a prune with any cutoff, every host that had a
  row still has one, and its row of the highest id among the old ones is kept.
\<close>

theorem pruning_keeps_every_host:
  assumes "r \<in> set rows"
  shows "\<exists>x\<in>set (fst (prune_operation_log older_than now rows)). ol_host_id x = ol_host_id r \<and>
    (ol_id r \<le> ol_id x \<or> \<not> older (of_int now - older_than) r)"
proof -
  let ?c = "of_int now - older_than"
  show ?thesis
  proof (cases "older ?c r")
    case False
    then show ?thesis using assms by (intro bexI [of _ r]) (simp_all add: prune_operation_log_def Let_def goes_def)
  next
    case True
    let ?S = "{x \<in> set rows. older ?c x \<and> ol_host_id x = ol_host_id r}"
    have fin: "finite (ol_id ` ?S)" and ne: "ol_id ` ?S \<noteq> {}" using True assms by auto
    from Max_in [OF fin ne] obtain x where x: "x \<in> ?S" "ol_id x = Max (ol_id ` ?S)" by auto
    have max: "ol_id y \<le> ol_id x" if "y \<in> ?S" for y unfolding x(2) using that fin by (intro Max_ge) auto
    have "ol_id x \<in> set (last_by_host ?c rows)" unfolding last_by_host_mem using x(1) max by (intro bexI [of _ x]) auto
    then have "x \<in> set (fst (prune_operation_log older_than now rows))"
      using x(1) by (simp add: prune_operation_log_def Let_def goes_def)
    moreover have "ol_id r \<le> ol_id x" using max True assms by simp
    ultimately show ?thesis using x(1) by blast
  qed
qed

definition sample_log_row :: "int \<Rightarrow> int \<Rightarrow> op_log_row" where
  "sample_log_row i t = \<lparr> ol_id = i, ol_timestamp = t, ol_host_id = ''h1'', ol_folder_id = None, ol_operation = ''sync'',
     ol_status = ''success'', ol_summary = None, ol_details = None, ol_duration_ms = None, ol_demo = 0 \<rparr>"

theorem pruning_keeps_every_host_witness:
  "\<exists>x\<in>set (fst (prune_operation_log 0 100 [sample_log_row 1 10, sample_log_row 2 20])). ol_host_id x = ''h1'' \<and>
    (1 \<le> ol_id x \<or> \<not> older (of_int 100 - 0) (sample_log_row 1 10))"
  using pruning_keeps_every_host [of "sample_log_row 1 10" "[sample_log_row 1 10, sample_log_row 2 20]" 0 100]
  by (simp add: sample_log_row_def)

section \<open>What an export loses\<close>

lemma set_select: "set (select_archivable_rows cutoff rows) = {r \<in> set rows. goes cutoff rows r}"
  by (simp add: select_archivable_rows_def)

text \<open>As long as the two cutoffs agree, the file has exactly what the deletion takes.\<close>

lemma export_of_one_instant:
  assumes "archive_and_prune_operation_log older_than io st = (st', Some x)" and "ai_prune io = ai_select io"
    and "lx_file x = Some name"
  shows "ar_files st' name = Some (select_archivable_rows (of_int (ai_select io) - older_than) (ar_rows st))"
    and "set (ar_rows st') = set (ar_rows st) - set (select_archivable_rows (of_int (ai_select io) - older_than) (ar_rows st))"
    and "lx_deleted x = lx_archived x"
  using assms
  by (auto simp: archive_and_prune_operation_log_def prune_operation_log_def Let_def set_select split: if_splits)
    (simp add: select_archivable_rows_def)

text \<open>
  C40. An export can delete what it did not archive. The deletion reads the clock again: a row
  that passes the cutoff in between, and is not the last of its host, is gone from the log
  and is in no file the export has written.
\<close>

theorem exports_can_lose_rows:
  assumes "archive_and_prune_operation_log older_than io st = (st', Some x)" and "lx_file x = Some name"
    and "r \<in> set (ar_rows st)" and "\<not> older (of_int (ai_select io) - older_than) r"
    and "older (of_int (ai_prune io) - older_than) r"
    and "r' \<in> set (ar_rows st)" and "ol_host_id r' = ol_host_id r" and "ol_id r < ol_id r'"
    and "older (of_int (ai_prune io) - older_than) r'"
    and "inj_on ol_id (set (ar_rows st))"
  shows "r \<notin> set (ar_rows st') \<and> (\<exists>rows. ar_files st' name = Some rows \<and> r \<notin> set rows)"
proof -
  let ?c = "of_int (ai_prune io) - older_than"
  have "ol_id r \<notin> set (last_by_host ?c (ar_rows st))"
  proof
    assume "ol_id r \<in> set (last_by_host ?c (ar_rows st))"
    then obtain y where y: "y \<in> set (ar_rows st)" "ol_id y = ol_id r"
      "\<forall>z\<in>set (ar_rows st). older ?c z \<longrightarrow> ol_host_id z = ol_host_id y \<longrightarrow> ol_id z \<le> ol_id r"
      unfolding last_by_host_mem by blast
    then have "y = r" using assms(3,10) by (auto dest: inj_onD)
    then show False using y(3) assms(6,7,8,9) by fastforce
  qed
  then have "goes ?c (ar_rows st) r" using assms(5) by (simp add: goes_def)
  then have "r \<notin> set (fst (prune_operation_log older_than (ai_prune io) (ar_rows st)))"
    by (simp add: prune_operation_log_def Let_def)
  moreover have "r \<notin> set (select_archivable_rows (of_int (ai_select io) - older_than) (ar_rows st))"
    using assms(4) by (simp add: set_select goes_def)
  ultimately show ?thesis
    using assms(1,2) by (auto simp: archive_and_prune_operation_log_def Let_def split: if_splits prod.splits)
qed

definition sample_log :: archive_state where
  "sample_log = \<lparr> ar_rows = [sample_log_row 1 10, sample_log_row 2 20, sample_log_row 3 101, sample_log_row 4 102],
     ar_files = Map.empty \<rparr>"

definition slow_export :: archive_io where
  "slow_export = \<lparr> ai_select = 100, ai_name = 103, ai_prune = 110, ai_written = True \<rparr>"

theorem exports_can_lose_rows_witness:
  "sample_log_row 3 101 \<notin> set (ar_rows (fst (archive_and_prune_operation_log 0 slow_export sample_log)))"
proof -
  let ?x = "archive_and_prune_operation_log 0 slow_export sample_log"
  have "map_option lx_file (snd ?x) = Some (Some (archive_name 103))" by code_simp
  then obtain x where "snd ?x = Some x" and name: "lx_file x = Some (archive_name 103)" by (auto simp: map_option_case split: option.splits)
  then have run: "?x = (fst ?x, Some x)" by (metis prod.collapse)
  have inj: "inj_on ol_id (set (ar_rows sample_log))" by (simp add: sample_log_def sample_log_row_def)
  have rows: "sample_log_row 3 101 \<in> set (ar_rows sample_log)" "sample_log_row 4 102 \<in> set (ar_rows sample_log)"
    by (simp_all add: sample_log_def)
  have cut: "\<not> older (of_int (ai_select slow_export) - 0) (sample_log_row 3 101)"
    "older (of_int (ai_prune slow_export) - 0) (sample_log_row 3 101)"
    "older (of_int (ai_prune slow_export) - 0) (sample_log_row 4 102)"
    by (simp_all add: older_def slow_export_def sample_log_row_def)
  have host: "ol_host_id (sample_log_row 4 102) = ol_host_id (sample_log_row 3 101)"
    "ol_id (sample_log_row 3 101) < ol_id (sample_log_row 4 102)" by (simp_all add: sample_log_row_def)
  show ?thesis
    using exports_can_lose_rows [OF run name rows(1) cut(1,2) rows(2) host cut(3) inj] by simp
qed

text \<open>A second export in the same second replaces the file of the first, whose rows are deleted.\<close>

lemma same_second_replaces:
  assumes "archive_and_prune_operation_log r2 io2 st1 = (st2, Some x2)" and "lx_file x2 = Some name2"
    and "ai_name io1 div 1000 = ai_name io2 div 1000" and "archive_and_prune_operation_log r1 io1 st = (st1, Some x1)"
    and "lx_file x1 = Some name"
  shows "name2 = name \<and>
    ar_files st2 name = Some (select_archivable_rows (of_int (ai_select io2) - r2) (ar_rows st1))"
  using assms
  by (auto simp: archive_and_prune_operation_log_def archive_name_def Let_def split: if_splits prod.splits)

end
