(* ===== verification/Seed_Relay.thy ===== *)
theory Seed_Relay
  imports Seed_Facts Versions
begin

text \<open>
  The contract of the temporary object space, \<open>core/src/seed-relay.ts\<close>: keys and prefixes of
  the seed namespace, the metadata of an archive, the manifest document that travels with it,
  and which objects a sweep may delete. Sentences are values that name them. A parsed document
  holds values of the declared types, so the tests of \<open>seedManifestDocumentProblem\<close> that repeat
  \<open>typeof\<close> checks of the parser have no branch here.
\<close>

section \<open>Namespace and keys\<close>

definition SEED_RELAY_ABANDONED_RETENTION_MS :: int where
  "SEED_RELAY_ABANDONED_RETENTION_MS = 24 * 60 * 60000"

definition SEED_RELAY_SWEEP_LIMIT :: nat where
  "SEED_RELAY_SWEEP_LIMIT = 1000"

definition job_id_char :: "char \<Rightarrow> bool" where
  "job_id_char c \<longleftrightarrow> is_alnum c \<or> c \<in> set ''._-''"

definition is_valid_seed_relay_job_id :: "string \<Rightarrow> bool" where
  "is_valid_seed_relay_job_id job_id \<longleftrightarrow>
     (case job_id of [] \<Rightarrow> False | c # cs \<Rightarrow> is_alnum c \<and> length cs \<le> 127 \<and> list_all job_id_char cs)"

definition seed_relay_namespace :: "string \<Rightarrow> string" where
  "seed_relay_namespace job_id = SEED_OBJECT_KEY_PREFIX @ ''/'' @ job_id @ ''/''"

definition seed_relay_archive_key :: "string \<Rightarrow> seed_archive_format \<Rightarrow> string" where
  "seed_relay_archive_key job_id format = seed_archive_object_key job_id format"

datatype relay_key_error =
    Key_Empty | Key_Too_Long | Key_Absolute | Key_Windows | Key_Backslash | Key_Control
  | Key_Empty_Segment | Key_Traversal | Key_Outside | Key_Shape | Key_Job_Id | Key_Foreign string string

record seed_relay_key_verdict =
  kv_ok :: bool
  kv_error :: "relay_key_error option"
  kv_job_id :: "string option"
  kv_in_namespace :: bool

definition reject_key :: "relay_key_error \<Rightarrow> string option \<Rightarrow> bool \<Rightarrow> seed_relay_key_verdict" where
  "reject_key e job_id inside = \<lparr> kv_ok = False, kv_error = Some e, kv_job_id = job_id, kv_in_namespace = inside \<rparr>"

definition validate_seed_relay_object_key :: "string \<Rightarrow> string option \<Rightarrow> seed_relay_key_verdict" where
  "validate_seed_relay_object_key key expected =
     (if length key = 0 then reject_key Key_Empty None False
      else if length key > SEED_PATH_MAX_LENGTH then reject_key Key_Too_Long None False
      else if starts_with ''/'' key \<or> starts_with [backslash] key then reject_key Key_Absolute None False
      else if windows_drive key then reject_key Key_Windows None False
      else if backslash \<in> set key then reject_key Key_Backslash None False
      else if list_ex control_char key then reject_key Key_Control None False
      else
        (let segments = split_on (CHR ''/'') key
         in if list_ex (\<lambda>s. length s = 0) segments then reject_key Key_Empty_Segment None False
            else if list_ex (\<lambda>s. s = ''.'' \<or> s = ''..'') segments then reject_key Key_Traversal None False
            else if \<not> starts_with (SEED_OBJECT_KEY_PREFIX @ ''/'') key then reject_key Key_Outside None False
            else
              (let prefix_segments = split_on (CHR ''/'') SEED_OBJECT_KEY_PREFIX
               in if length segments \<noteq> length prefix_segments + 2 then reject_key Key_Shape None True
                  else
                    (let job_id = segments ! length prefix_segments
                     in if \<not> is_valid_seed_relay_job_id job_id then reject_key Key_Job_Id None True
                        else if (case expected of None \<Rightarrow> False | Some e \<Rightarrow> job_id \<noteq> e)
                          then reject_key (Key_Foreign job_id (the expected)) (Some job_id) True
                        else \<lparr> kv_ok = True, kv_error = None, kv_job_id = Some job_id, kv_in_namespace = True \<rparr>))))"

definition seed_relay_key_belongs_to_job :: "string \<Rightarrow> string \<Rightarrow> bool" where
  "seed_relay_key_belongs_to_job key job_id \<longleftrightarrow> kv_ok (validate_seed_relay_object_key key (Some job_id))"

text \<open>The verdict on a prefix: \<open>None\<close> when it may be listed.\<close>

definition validate_seed_relay_prefix :: "string \<Rightarrow> relay_key_error option" where
  "validate_seed_relay_prefix prefix =
     (if length prefix = 0 then Some Key_Empty
      else if length prefix > SEED_PATH_MAX_LENGTH then Some Key_Too_Long
      else if starts_with ''/'' prefix \<or> starts_with [backslash] prefix \<or> windows_drive prefix then Some Key_Absolute
      else if backslash \<in> set prefix then Some Key_Backslash
      else if list_ex control_char prefix then Some Key_Control
      else if \<not> starts_with (SEED_OBJECT_KEY_PREFIX @ ''/'') prefix then Some Key_Outside
      else
        (let interior = (if ends_with ''/'' prefix then butlast prefix else prefix);
             segments = split_on (CHR ''/'') interior
         in if list_ex (\<lambda>s. length s = 0) segments then Some Key_Empty_Segment
            else if list_ex (\<lambda>s. s = ''.'' \<or> s = ''..'') segments then Some Key_Traversal
            else None))"

section \<open>Bounded sentences\<close>

text \<open>\<open>replace(/\s+/g, " ")\<close>: every run of white space becomes one space. The flag tells that the
  previous character was white space.\<close>

fun squeeze_spaces :: "bool \<Rightarrow> string \<Rightarrow> string" where
  "squeeze_spaces b [] = []"
| "squeeze_spaces b (c # cs) =
     (if js_space c then (if b then squeeze_spaces True cs else CHR '' '' # squeeze_spaces True cs)
      else c # squeeze_spaces False cs)"

definition bounded_text :: "nat \<Rightarrow> string \<Rightarrow> string" where
  "bounded_text n s = take n (js_trim (squeeze_spaces False s))"

definition describe_seed_relay_failure :: "string \<Rightarrow> string \<Rightarrow> string" where
  "describe_seed_relay_failure store_kind e = store_kind @ '' seed relay: '' @ bounded_text 200 e"

section \<open>Archive metadata\<close>

record seed_archive_metadata =
  am_job_id :: string
  am_object_key :: string
  am_format :: seed_archive_format
  am_bytes :: int
  am_sha256 :: string
  am_manifest_fingerprint :: string
  am_member_count :: int
  am_created_at :: int

datatype relay_problem =
    Bad_Key relay_key_error | Not_Archive_Key | Bad_Byte_Count | Bad_Digest | Bad_Fingerprint | Bad_Member_Count
  | Not_Manifest_Key

text \<open>\<open>Number.isSafeInteger(n) && n > 0\<close> of an integer.\<close>

definition safe_positive :: "int \<Rightarrow> bool" where
  "safe_positive n \<longleftrightarrow> 0 < n \<and> n \<le> js_max_safe"

definition seed_archive_metadata_problem :: "seed_archive_metadata \<Rightarrow> relay_problem option" where
  "seed_archive_metadata_problem m =
     (let key = validate_seed_relay_object_key (am_object_key m) (Some (am_job_id m))
      in if \<not> kv_ok key then map_option Bad_Key (kv_error key)
         else if am_object_key m \<noteq> seed_relay_archive_key (am_job_id m) (am_format m) then Some Not_Archive_Key
         else if \<not> safe_positive (am_bytes m) then Some Bad_Byte_Count
         else if \<not> hex64 (am_sha256 m) then Some Bad_Digest
         else if \<not> hex64 (am_manifest_fingerprint m) then Some Bad_Fingerprint
         else if \<not> safe_positive (am_member_count m) then Some Bad_Member_Count
         else None)"

datatype relay_mismatch = Wrong_Byte_Count int int | Digest_Unread | Wrong_Digest

text \<open>What is recorded (bytes, digest) against what is observed; \<open>None\<close> when they match.\<close>

definition seed_archive_matches_metadata :: "int \<times> string \<Rightarrow> int \<times> string option \<Rightarrow> relay_mismatch option" where
  "seed_archive_matches_metadata recorded observed =
     (if fst observed \<noteq> fst recorded then Some (Wrong_Byte_Count (fst observed) (fst recorded))
      else if snd observed = None then Some Digest_Unread
      else if snd observed \<noteq> Some (snd recorded) then Some Wrong_Digest
      else None)"

section \<open>The manifest document\<close>

definition SEED_RELAY_MANIFEST_NAME :: string where
  "SEED_RELAY_MANIFEST_NAME = ''manifest.json''"

definition seed_relay_manifest_key :: "string \<Rightarrow> string" where
  "seed_relay_manifest_key job_id = SEED_OBJECT_KEY_PREFIX @ ''/'' @ job_id @ ''/'' @ SEED_RELAY_MANIFEST_NAME"

datatype manifest_kind = Kind_File | Kind_Dir

fun kind_name :: "manifest_kind \<Rightarrow> string" where
  "kind_name Kind_File = ''file''"
| "kind_name Kind_Dir = ''dir''"

record seed_manifest_entry =
  me_path :: string
  me_kind :: manifest_kind
  me_size :: jnum
  me_mtime_ms :: jnum
  me_sha256 :: "string option"

record seed_manifest_document =
  mf_version :: jnum
  mf_fingerprint :: string
  mf_filter_fingerprint :: "string option"
  mf_file_count :: jnum
  mf_dir_count :: jnum
  mf_total_bytes :: jnum
  mf_entries :: "seed_manifest_entry list"

definition SEED_MANIFEST_ENTRY_LIMIT :: nat where
  "SEED_MANIFEST_ENTRY_LIMIT = 2000000"

text \<open>A count as a template string prints it. A valid document has no other numbers there.\<close>

definition show_count :: "jnum \<Rightarrow> string" where
  "show_count n = (case n of Fin r \<Rightarrow> show_nat (nat \<lfloor>r\<rfloor>) | _ \<Rightarrow> [])"

definition digest_line :: "seed_manifest_entry \<Rightarrow> string" where
  "digest_line e = me_path e @ [nul_char] @ kind_name (me_kind e) @ [nul_char] @ show_count (me_size e) @ [nul_char] @
     or_default (me_sha256 e) ''-'' @ [CHR 0x0A]"

definition seed_manifest_content_digest_input :: "seed_manifest_entry list \<Rightarrow> string" where
  "seed_manifest_content_digest_input entries = fold (\<lambda>e out. out @ digest_line e) entries []"

datatype manifest_problem =
    Mp_Version | Mp_Fingerprint | Mp_Filter | Mp_Count string | Mp_Too_Many | Mp_Member_Count
  | Mp_Path | Mp_Unsafe_Path string | Mp_Control | Mp_Size string | Mp_Mtime string
  | Mp_No_Checksum string | Mp_Dir_Checksum string | Mp_Kinds | Mp_Bytes

text \<open>\<open>Number.isSafeInteger(value) && value >= 0\<close>.\<close>

definition safe_count :: "jnum \<Rightarrow> bool" where
  "safe_count n \<longleftrightarrow> js_is_safe_integer n \<and> (case n of Fin r \<Rightarrow> r \<ge> 0 | _ \<Rightarrow> False)"

definition member_problem :: "seed_manifest_entry \<Rightarrow> manifest_problem option" where
  "member_problem e =
     (let p = me_path e
      in if length p = 0 \<or> length p > SEED_PATH_MAX_LENGTH then Some Mp_Path
         else if starts_with ''/'' p \<or> backslash \<in> set p \<or>
             list_ex (\<lambda>s. s = [] \<or> s = ''.'' \<or> s = ''..'') (split_on (CHR ''/'') p) then Some (Mp_Unsafe_Path (take 120 p))
         else if list_ex control_char p then Some Mp_Control
         else if \<not> safe_count (me_size e) then Some (Mp_Size (take 120 p))
         else if \<not> js_is_finite (me_mtime_ms e) then Some (Mp_Mtime (take 120 p))
         else case me_kind e of
           Kind_File \<Rightarrow>
             (case me_sha256 e of
                Some h \<Rightarrow> if hex64 h then None else Some (Mp_No_Checksum (take 120 p))
              | None \<Rightarrow> Some (Mp_No_Checksum (take 120 p)))
         | Kind_Dir \<Rightarrow> if me_sha256 e \<noteq> None then Some (Mp_Dir_Checksum (take 120 p)) else None)"

definition count_value :: "jnum \<Rightarrow> rat" where
  "count_value n = or_default (jnum_val n) 0"

text \<open>The loop over the members, with the files, directories and bytes counted so far.\<close>

fun scan_members :: "seed_manifest_entry list \<Rightarrow> nat \<Rightarrow> nat \<Rightarrow> rat \<Rightarrow> manifest_problem + nat \<times> nat \<times> rat" where
  "scan_members [] files dirs bytes = Inr (files, dirs, bytes)"
| "scan_members (e # es) files dirs bytes =
     (case member_problem e of
        Some p \<Rightarrow> Inl p
      | None \<Rightarrow> (case me_kind e of
                   Kind_File \<Rightarrow> scan_members es (files + 1) dirs (bytes + count_value (me_size e))
                 | Kind_Dir \<Rightarrow> scan_members es files (dirs + 1) bytes))"

definition seed_manifest_document_problem :: "seed_manifest_document \<Rightarrow> manifest_problem option" where
  "seed_manifest_document_problem d =
     (if mf_version d \<noteq> Fin 1 then Some Mp_Version
      else if \<not> hex64 (mf_fingerprint d) then Some Mp_Fingerprint
      else if (case mf_filter_fingerprint d of None \<Rightarrow> False | Some f \<Rightarrow> \<not> hex64 f) then Some Mp_Filter
      else if \<not> safe_count (mf_file_count d) then Some (Mp_Count ''fileCount'')
      else if \<not> safe_count (mf_dir_count d) then Some (Mp_Count ''dirCount'')
      else if \<not> safe_count (mf_total_bytes d) then Some (Mp_Count ''totalBytes'')
      else if length (mf_entries d) > SEED_MANIFEST_ENTRY_LIMIT then Some Mp_Too_Many
      else if of_nat (length (mf_entries d)) \<noteq> count_value (mf_file_count d) + count_value (mf_dir_count d)
        then Some Mp_Member_Count
      else case scan_members (mf_entries d) 0 0 0 of
        Inl p \<Rightarrow> Some p
      | Inr (files, dirs, bytes) \<Rightarrow>
          if of_nat files \<noteq> count_value (mf_file_count d) \<or> of_nat dirs \<noteq> count_value (mf_dir_count d) then Some Mp_Kinds
          else if bytes \<noteq> count_value (mf_total_bytes d) then Some Mp_Bytes
          else None)"

definition kind_of_json :: "json \<Rightarrow> manifest_kind option" where
  "kind_of_json v = (if v = JStr ''file'' then Some Kind_File else if v = JStr ''dir'' then Some Kind_Dir else None)"

text \<open>A string or \<open>null\<close>.\<close>

definition string_or_null :: "json \<Rightarrow> string option option" where
  "string_or_null v = (case v of JStr s \<Rightarrow> Some (Some s) | JNull \<Rightarrow> Some None | _ \<Rightarrow> None)"

definition parse_member :: "json \<Rightarrow> seed_manifest_entry option" where
  "parse_member raw =
     (if \<not> is_record raw then None
      else case (as_string (obj_get raw ''path''), kind_of_json (obj_get raw ''kind''), as_number (obj_get raw ''size''),
                 as_number (obj_get raw ''mtimeMs''), string_or_null (obj_get raw ''sha256'')) of
        (Some p, Some k, Some s, Some m, Some h) \<Rightarrow>
          Some \<lparr> me_path = p, me_kind = k, me_size = s, me_mtime_ms = m, me_sha256 = h \<rparr>
      | _ \<Rightarrow> None)"

fun parse_members :: "json list \<Rightarrow> seed_manifest_entry list option" where
  "parse_members [] = Some []"
| "parse_members (v # vs) =
     (case parse_member v of
        None \<Rightarrow> None
      | Some e \<Rightarrow> (case parse_members vs of None \<Rightarrow> None | Some es \<Rightarrow> Some (e # es)))"

definition parse_seed_manifest_document :: "json \<Rightarrow> seed_manifest_document option" where
  "parse_seed_manifest_document v =
     (if \<not> is_record v then None
      else if obj_get v ''version'' \<noteq> JNum (Fin 1) then None
      else case (as_string (obj_get v ''fingerprint''), string_or_null (obj_get v ''filterFingerprint''),
                 as_number (obj_get v ''fileCount''), as_number (obj_get v ''dirCount''),
                 as_number (obj_get v ''totalBytes''), obj_get v ''entries'') of
        (Some fp, Some ff, Some fc, Some dc, Some tb, JArr raws) \<Rightarrow>
          (case parse_members raws of
             None \<Rightarrow> None
           | Some entries \<Rightarrow>
               (let d = \<lparr> mf_version = Fin 1, mf_fingerprint = fp, mf_filter_fingerprint = ff, mf_file_count = fc,
                          mf_dir_count = dc, mf_total_bytes = tb, mf_entries = entries \<rparr>
                in if seed_manifest_document_problem d = None then Some d else None))
      | _ \<Rightarrow> None)"

record seed_manifest_metadata =
  mm_job_id :: string
  mm_object_key :: string
  mm_bytes :: int
  mm_sha256 :: string
  mm_content_fingerprint :: string

definition seed_manifest_metadata_problem :: "seed_manifest_metadata \<Rightarrow> relay_problem option" where
  "seed_manifest_metadata_problem m =
     (let key = validate_seed_relay_object_key (mm_object_key m) (Some (mm_job_id m))
      in if \<not> kv_ok key then map_option Bad_Key (kv_error key)
         else if mm_object_key m \<noteq> seed_relay_manifest_key (mm_job_id m) then Some Not_Manifest_Key
         else if \<not> safe_positive (mm_bytes m) then Some Bad_Byte_Count
         else if \<not> hex64 (mm_sha256 m) then Some Bad_Digest
         else if \<not> hex64 (mm_content_fingerprint m) then Some Bad_Fingerprint
         else None)"

section \<open>Retention\<close>

datatype cleanup_reason =
    Already_Cleaned | Job_Ended | Age_Unknown | Past_Retention int | Inside_Retention | Job_Running

definition is_terminal_seed_status :: "string \<Rightarrow> bool" where
  "is_terminal_seed_status s \<longleftrightarrow> s = ''completed'' \<or> s = ''failed'' \<or> s = ''cancelled''"

text \<open>The status of the job, \<open>None\<close> where the job is unknown.\<close>

definition seed_relay_cleanup_due ::
    "string option \<Rightarrow> seed_relay_cleanup \<Rightarrow> int option \<Rightarrow> int \<Rightarrow> int option \<Rightarrow> bool \<times> cleanup_reason" where
  "seed_relay_cleanup_due job cleanup stored_at now retention =
     (if is_seed_relay_cleanup_complete cleanup then (False, Already_Cleaned)
      else case job of
        Some status \<Rightarrow> if is_terminal_seed_status status then (True, Job_Ended) else (False, Job_Running)
      | None \<Rightarrow>
          (case stored_at of
             None \<Rightarrow> (False, Age_Unknown)
           | Some t \<Rightarrow>
               (let age = now - t
                in if age \<ge> or_default retention SEED_RELAY_ABANDONED_RETENTION_MS
                   then (True, Past_Retention (js_round (of_int age / 3600000)))
                   else (False, Inside_Retention))))"

record orphan_scan =
  or_orphans :: "string list"
  or_invalid :: "string list"
  or_truncated :: bool

definition scan_orphan :: "string set \<Rightarrow> nat \<Rightarrow> string \<Rightarrow> orphan_scan \<Rightarrow> orphan_scan" where
  "scan_orphan known limit key acc =
     (let verdict = validate_seed_relay_object_key key None
      in if \<not> kv_ok verdict then acc\<lparr> or_invalid := or_invalid acc @ [key] \<rparr>
         else if kv_job_id verdict = None \<or> the (kv_job_id verdict) \<in> known then acc
         else if length (or_orphans acc) \<ge> limit then acc\<lparr> or_truncated := True \<rparr>
         else acc\<lparr> or_orphans := or_orphans acc @ [key] \<rparr>)"

definition seed_relay_orphan_keys :: "string list \<Rightarrow> string list \<Rightarrow> nat option \<Rightarrow> orphan_scan" where
  "seed_relay_orphan_keys listed known_job_ids limit =
     fold (scan_orphan (set known_job_ids) (or_default limit SEED_RELAY_SWEEP_LIMIT)) listed
       \<lparr> or_orphans = [], or_invalid = [], or_truncated = False \<rparr>"

section \<open>Keys\<close>

definition key_name_ok :: "string \<Rightarrow> bool" where
  "key_name_ok name \<longleftrightarrow> name \<noteq> [] \<and> name \<noteq> ''.'' \<and> name \<noteq> ''..'' \<and> CHR ''/'' \<notin> set name \<and> backslash \<notin> set name \<and>
     \<not> list_ex control_char name"

lemma job_id_chars: "is_valid_seed_relay_job_id j \<Longrightarrow> c \<in> set j \<Longrightarrow> is_alnum c \<or> c \<in> set ''._-''"
  by (auto simp: is_valid_seed_relay_job_id_def job_id_char_def list_all_iff split: list.splits)

lemma alnum_plain: "is_alnum c \<Longrightarrow> c \<noteq> CHR ''/'' \<and> c \<noteq> backslash \<and> \<not> control_char c \<and> c \<noteq> CHR ''.''"
  by (auto simp: is_alnum_def is_letter_def is_upper_def is_lower_def is_digit_def backslash_def control_char_def Let_def)

lemma job_id_plain:
  assumes "is_valid_seed_relay_job_id j"
  shows "CHR ''/'' \<notin> set j" "backslash \<notin> set j" "\<not> list_ex control_char j" "j \<noteq> []" "j \<noteq> ''.''" "j \<noteq> ''..''"
proof -
  have c: "c \<in> set j \<Longrightarrow> c \<noteq> CHR ''/'' \<and> c \<noteq> backslash \<and> \<not> control_char c" for c
    using job_id_chars [OF assms, of c] alnum_plain [of c] by (auto simp: backslash_def control_char_def)
  then show "CHR ''/'' \<notin> set j" "backslash \<notin> set j" "\<not> list_ex control_char j" by (auto simp: list_ex_iff)
  show "j \<noteq> []" using assms by (auto simp: is_valid_seed_relay_job_id_def)
  have "is_alnum (hd j)" using assms by (auto simp: is_valid_seed_relay_job_id_def split: list.splits)
  then show "j \<noteq> ''.''" "j \<noteq> ''..''" using alnum_plain by fastforce+
qed

lemma prefix_segments: "split_on (CHR ''/'') SEED_OBJECT_KEY_PREFIX = [''lamasync'', ''seed'']"
  by (simp add: SEED_OBJECT_KEY_PREFIX_def)

lemma prefix_count: "length (split_on (CHR ''/'') SEED_OBJECT_KEY_PREFIX) = 2"
  by (simp add: prefix_segments)

lemma kv_error_None: "kv_error (validate_seed_relay_object_key key expected) = None \<longleftrightarrow> kv_ok (validate_seed_relay_object_key key expected)"
  unfolding validate_seed_relay_object_key_def Let_def reject_key_def by (simp split: if_split)

lemma archive_metadata_ok:
  "seed_archive_metadata_problem m = None \<longleftrightarrow>
     seed_relay_key_belongs_to_job (am_object_key m) (am_job_id m) \<and>
     am_object_key m = seed_relay_archive_key (am_job_id m) (am_format m) \<and> safe_positive (am_bytes m) \<and>
     hex64 (am_sha256 m) \<and> hex64 (am_manifest_fingerprint m) \<and> safe_positive (am_member_count m)"
  using kv_error_None [of "am_object_key m" "Some (am_job_id m)"]
  by (auto simp: seed_archive_metadata_problem_def seed_relay_key_belongs_to_job_def Let_def)

lemma segments_inside:
  "split_on (CHR ''/'') (SEED_OBJECT_KEY_PREFIX @ ''/'' @ t) = ''lamasync'' # ''seed'' # split_on (CHR ''/'') t"
  by (simp add: SEED_OBJECT_KEY_PREFIX_def)

lemma prefix_plain:
  "\<not> starts_with ''/'' (SEED_OBJECT_KEY_PREFIX @ t)" "\<not> starts_with [backslash] (SEED_OBJECT_KEY_PREFIX @ t)"
  "\<not> windows_drive (SEED_OBJECT_KEY_PREFIX @ t)" "backslash \<notin> set SEED_OBJECT_KEY_PREFIX"
  "\<not> list_ex control_char SEED_OBJECT_KEY_PREFIX"
  by (simp_all add: SEED_OBJECT_KEY_PREFIX_def starts_with_def windows_drive_def backslash_def control_char_def)

lemma valid_keyD:
  assumes "kv_ok (validate_seed_relay_object_key key expected)"
  obtains j name where "key = seed_relay_namespace j @ name" "is_valid_seed_relay_job_id j" "key_name_ok name"
    "kv_job_id (validate_seed_relay_object_key key expected) = Some j" "expected = None \<or> expected = Some j"
    "length key \<le> SEED_PATH_MAX_LENGTH"
proof -
  let ?segs = "split_on (CHR ''/'') key"
  have *: "length key \<le> SEED_PATH_MAX_LENGTH" "backslash \<notin> set key" "\<not> list_ex control_char key"
      "\<not> list_ex (\<lambda>s. length s = 0) ?segs" "\<not> list_ex (\<lambda>s. s = ''.'' \<or> s = ''..'') ?segs"
      "starts_with (SEED_OBJECT_KEY_PREFIX @ ''/'') key" "length ?segs = 4"
      "is_valid_seed_relay_job_id (?segs ! 2)" "expected = None \<or> expected = Some (?segs ! 2)"
      "kv_job_id (validate_seed_relay_object_key key expected) = Some (?segs ! 2)"
    using assms unfolding validate_seed_relay_object_key_def Let_def prefix_count
    by (auto simp: reject_key_def split: if_splits option.splits)
  from *(6) obtain t where key: "key = SEED_OBJECT_KEY_PREFIX @ ''/'' @ t" by (auto simp: starts_with_iff)
  have "length (split_on (CHR ''/'') t) = 2" using *(7) unfolding key segments_inside by simp
  then obtain j name where t: "split_on (CHR ''/'') t = [j, name]"
    by (auto simp: length_Suc_conv numeral_2_eq_2)
  have "t = j @ ''/'' @ name" using join_split_on [of "CHR ''/''" t] unfolding t by simp
  then have "key = seed_relay_namespace j @ name" by (simp add: key seed_relay_namespace_def)
  moreover have segs: "?segs = [''lamasync'', ''seed'', j, name]" unfolding key segments_inside t ..
  moreover have "key_name_ok name"
  proof -
    have "CHR ''/'' \<notin> set name" using split_on_segment_free [of name "CHR ''/''" t] t by simp
    moreover have "set name \<subseteq> set key" using \<open>key = seed_relay_namespace j @ name\<close> by auto
    moreover have "name \<noteq> []" "name \<noteq> ''.''" "name \<noteq> ''..''" using *(4,5) unfolding segs by auto
    ultimately show ?thesis using *(2,3) by (auto simp: key_name_ok_def list_ex_iff)
  qed
  moreover have "?segs ! 2 = j" by (simp add: segs)
  ultimately show thesis using that [of j name] *(1,8,9,10) by simp
qed

lemma valid_keyI:
  assumes "is_valid_seed_relay_job_id j" "key_name_ok name" "length (seed_relay_namespace j @ name) \<le> SEED_PATH_MAX_LENGTH"
    and "expected = None \<or> expected = Some j"
  shows "validate_seed_relay_object_key (seed_relay_namespace j @ name) expected =
    \<lparr> kv_ok = True, kv_error = None, kv_job_id = Some j, kv_in_namespace = True \<rparr>"
proof -
  let ?key = "SEED_OBJECT_KEY_PREFIX @ ''/'' @ j @ ''/'' @ name"
  note j = job_id_plain [OF assms(1)]
  have segs: "split_on (CHR ''/'') ?key = [''lamasync'', ''seed'', j, name]"
    unfolding segments_inside using j(1) assms(2) by (simp add: split_on_append split_on_id key_name_ok_def)
  have "backslash \<notin> set ?key" "\<not> list_ex control_char ?key"
    using j prefix_plain(4,5) assms(2) by (auto simp: key_name_ok_def list_ex_iff backslash_def control_char_def)
  moreover have "starts_with (SEED_OBJECT_KEY_PREFIX @ ''/'') ?key" by (auto simp: starts_with_iff)
  moreover have "?key \<noteq> []" by simp
  moreover have "seed_relay_namespace j @ name = ?key" by (simp add: seed_relay_namespace_def)
  moreover have "name \<noteq> [] \<and> name \<noteq> ''.'' \<and> name \<noteq> ''..''" using assms(2) by (simp add: key_name_ok_def)
  ultimately show ?thesis
    using assms(1,3,4) j prefix_plain(1-3) [of "''/'' @ j @ ''/'' @ name"] segs
    unfolding validate_seed_relay_object_key_def Let_def prefix_count by auto
qed

text \<open>
  A key passes the check of a job exactly when it is a single name directly inside the
  namespace of that job; nothing else can be stored, read or deleted for it.
\<close>

theorem relay_keys_of_a_job:
  "seed_relay_key_belongs_to_job key j \<longleftrightarrow>
     (\<exists>name. key = seed_relay_namespace j @ name \<and> is_valid_seed_relay_job_id j \<and> key_name_ok name \<and>
        length key \<le> SEED_PATH_MAX_LENGTH)"
  unfolding seed_relay_key_belongs_to_job_def
  by (auto elim!: valid_keyD simp: valid_keyI)

lemma sep_inj:
  "c \<notin> set a \<Longrightarrow> c \<notin> set a' \<Longrightarrow> a @ c # s = a' @ c # s' \<longleftrightarrow> a = a' \<and> s = s'"
proof (induction a arbitrary: a')
  case Nil
  then show ?case by (cases a') auto
next
  case (Cons x a)
  then show ?case by (cases a') auto
qed

lemma namespaces_apart:
  assumes "seed_relay_namespace j @ name = seed_relay_namespace j' @ name'"
    and "is_valid_seed_relay_job_id j" "is_valid_seed_relay_job_id j'"
  shows "j = j' \<and> name = name'"
  using assms(1) sep_inj [OF job_id_plain(1) [OF assms(2)] job_id_plain(1) [OF assms(3)]]
  by (simp add: seed_relay_namespace_def)

lemma one_job_for_a_key:
  "seed_relay_key_belongs_to_job key j \<Longrightarrow> seed_relay_key_belongs_to_job key j' \<Longrightarrow> j = j'"
  unfolding relay_keys_of_a_job using namespaces_apart by metis

section \<open>The sweep\<close>

lemma scan_orphan_invariant:
  assumes "key \<in> set (or_orphans (fold (scan_orphan known limit) listed acc))"
  shows "key \<in> set (or_orphans acc) \<or>
    (key \<in> set listed \<and> (\<exists>j. kv_ok (validate_seed_relay_object_key key None) \<and>
       kv_job_id (validate_seed_relay_object_key key None) = Some j \<and> j \<notin> known))"
  using assms
proof (induction listed arbitrary: acc)
  case (Cons k ks)
  then have "key \<in> set (or_orphans (fold (scan_orphan known limit) ks (scan_orphan known limit k acc)))" by simp
  from Cons.IH [OF this] show ?case by (auto simp: scan_orphan_def Let_def split: if_splits)
qed simp

lemma scan_orphan_bound:
  "length (or_orphans acc) \<le> limit \<Longrightarrow> length (or_orphans (fold (scan_orphan known limit) listed acc)) \<le> limit"
proof (induction listed arbitrary: acc)
  case (Cons k ks)
  then have "length (or_orphans (scan_orphan known limit k acc)) \<le> limit" by (simp add: scan_orphan_def Let_def)
  from Cons.IH [OF this] show ?case by simp
qed simp

text \<open>
  A sweep deletes no object of a job that exists. Whatever a listing returns, each key it
  calls an orphan is in the listing, lies in the namespace of one job, and that job is unknown.
\<close>

theorem sweeps_spare_known_jobs:
  assumes "key \<in> set (or_orphans (seed_relay_orphan_keys listed known limit))"
  shows "\<exists>j name. key = seed_relay_namespace j @ name \<and> key_name_ok name \<and> key \<in> set listed \<and> j \<notin> set known"
proof -
  from assms obtain j where j: "key \<in> set listed" "kv_ok (validate_seed_relay_object_key key None)"
      "kv_job_id (validate_seed_relay_object_key key None) = Some j" "j \<notin> set known"
    unfolding seed_relay_orphan_keys_def by (auto dest: scan_orphan_invariant)
  from j(2) obtain j' name where "key = seed_relay_namespace j' @ name" "key_name_ok name"
      "kv_job_id (validate_seed_relay_object_key key None) = Some j'" by (rule valid_keyD)
  with j show ?thesis by auto
qed

theorem sweeps_spare_known_jobs_witness:
  "\<exists>j name. ''lamasync/seed/old/payload.tar.gz'' = seed_relay_namespace j @ name \<and> key_name_ok name \<and>
     ''lamasync/seed/old/payload.tar.gz'' \<in> set [''lamasync/seed/new/payload.tar.gz'', ''lamasync/seed/old/payload.tar.gz''] \<and>
     j \<notin> set [''new'']"
  by (rule sweeps_spare_known_jobs [where limit = None]) code_simp

lemma sweeps_are_bounded:
  "length (or_orphans (seed_relay_orphan_keys listed known limit)) \<le> or_default limit SEED_RELAY_SWEEP_LIMIT"
  unfolding seed_relay_orphan_keys_def by (rule scan_orphan_bound) simp

text \<open>A running job keeps its objects, whatever their age.\<close>

lemma running_jobs_keep_their_objects:
  "\<not> is_terminal_seed_status status \<Longrightarrow> \<not> fst (seed_relay_cleanup_due (Some status) cleanup stored_at now retention)"
  by (simp add: seed_relay_cleanup_due_def)

section \<open>Manifest documents\<close>

lemma scan_members_Inr:
  "scan_members es f d b = Inr r \<Longrightarrow> list_all (\<lambda>e. member_problem e = None) es"
  by (induction es f d b rule: scan_members.induct) (auto split: option.splits manifest_kind.splits)

lemma document_members:
  "seed_manifest_document_problem d = None \<Longrightarrow> list_all (\<lambda>e. member_problem e = None) (mf_entries d)"
  unfolding seed_manifest_document_problem_def
  by (auto split: if_splits sum.splits prod.splits option.splits dest: scan_members_Inr)

lemma member_ok:
  assumes "member_problem e = None"
  shows "\<not> list_ex control_char (me_path e)" "safe_count (me_size e)"
    "me_kind e = Kind_File \<Longrightarrow> \<exists>h. me_sha256 e = Some h \<and> hex64 h" "me_kind e = Kind_Dir \<Longrightarrow> me_sha256 e = None"
  using assms by (auto simp: member_problem_def Let_def split: if_splits manifest_kind.splits option.splits)

lemma no_control: "\<not> list_ex control_char s \<Longrightarrow> control_char c \<Longrightarrow> c \<notin> set s"
  by (auto simp: list_ex_iff)

lemma control_separators: "control_char nul_char" "control_char (CHR 0x0A)"
  by (simp_all add: control_char_def nul_char_def)

lemma digit_no_control: "is_digit c \<Longrightarrow> \<not> control_char c" "is_hex_digit c \<Longrightarrow> \<not> control_char c"
  by (auto simp: is_digit_def is_hex_digit_def control_char_def Let_def)

lemma show_count_plain: "\<not> list_ex control_char (show_count n)"
  using show_nat_digits by (auto simp: show_count_def list_all_iff list_ex_iff digit_no_control split: jnum.split)

lemma show_count_inj:
  assumes "safe_count a" "safe_count b" "show_count a = show_count b"
  shows "a = b"
proof -
  from assms(1,2) obtain r q where ab: "a = Fin r" "b = Fin q" "r \<ge> 0" "q \<ge> 0" "js_is_safe_integer a" "js_is_safe_integer b"
    by (auto simp: safe_count_def split: jnum.splits)
  then have "show_nat (nat \<lfloor>r\<rfloor>) = show_nat (nat \<lfloor>q\<rfloor>)" using assms(3) by (simp add: show_count_def)
  then have "nat \<lfloor>r\<rfloor> = nat \<lfloor>q\<rfloor>" by (metis parse_dec_show_nat)
  then have "\<lfloor>r\<rfloor> = \<lfloor>q\<rfloor>" using ab(3,4) by (metis eq_nat_nat_iff zero_le_floor)
  moreover have "of_int \<lfloor>r\<rfloor> = r" "of_int \<lfloor>q\<rfloor> = q"
    using ab(5,6) unfolding ab(1,2) by (auto simp: js_is_safe_integer_iff)
  ultimately show ?thesis using ab(1,2) by metis
qed

lemma kind_plain: "\<not> list_ex control_char (kind_name k)"
  by (cases k) (simp_all add: control_char_def)

lemma kind_name_inj: "kind_name k = kind_name k' \<Longrightarrow> k = k'"
  by (cases k; cases k') simp_all

lemma sum_plain: "member_problem e = None \<Longrightarrow> \<not> list_ex control_char (or_default (me_sha256 e) ''-'')"
proof (cases "me_sha256 e")
  case None
  then show ?thesis by (simp add: control_char_def)
next
  case (Some h)
  assume "member_problem e = None"
  then have "hex64 h" using member_ok(3,4) [of e] Some by (cases "me_kind e") auto
  then show ?thesis using Some digit_no_control(2) by (auto simp: hex64_def list_all_iff list_ex_iff)
qed

text \<open>What the digest covers of a member.\<close>

definition member_identity :: "seed_manifest_entry \<Rightarrow> string \<times> manifest_kind \<times> jnum \<times> string option" where
  "member_identity e = (me_path e, me_kind e, me_size e, me_sha256 e)"

lemma sum_inj:
  assumes "member_problem e = None" "member_problem e' = None" "me_kind e = me_kind e'"
    and "or_default (me_sha256 e) ''-'' = or_default (me_sha256 e') ''-''"
  shows "me_sha256 e = me_sha256 e'"
  using member_ok(3,4) [OF assms(1)] member_ok(3,4) [OF assms(2)] assms(3,4) by (cases "me_kind e") auto

lemma digest_line_inj:
  assumes e: "member_problem e = None" and e': "member_problem e' = None"
    and eq: "digest_line e @ s = digest_line e' @ s'"
  shows "member_identity e = member_identity e' \<and> s = s'"
proof -
  note plain = no_control [OF _ control_separators(1)] no_control [OF _ control_separators(2)]
  have 1: "me_path e = me_path e' \<and>
      kind_name (me_kind e) @ [nul_char] @ show_count (me_size e) @ [nul_char] @ or_default (me_sha256 e) ''-'' @ [CHR 0x0A] @ s =
      kind_name (me_kind e') @ [nul_char] @ show_count (me_size e') @ [nul_char] @ or_default (me_sha256 e') ''-'' @ [CHR 0x0A] @ s'"
    using eq sep_inj [OF plain(1) [OF member_ok(1) [OF e]] plain(1) [OF member_ok(1) [OF e']]] by (simp add: digest_line_def)
  then have 2: "kind_name (me_kind e) = kind_name (me_kind e') \<and>
      show_count (me_size e) @ [nul_char] @ or_default (me_sha256 e) ''-'' @ [CHR 0x0A] @ s =
      show_count (me_size e') @ [nul_char] @ or_default (me_sha256 e') ''-'' @ [CHR 0x0A] @ s'"
    using sep_inj [OF plain(1) [OF kind_plain] plain(1) [OF kind_plain]] by simp
  then have 3: "show_count (me_size e) = show_count (me_size e') \<and>
      or_default (me_sha256 e) ''-'' @ [CHR 0x0A] @ s = or_default (me_sha256 e') ''-'' @ [CHR 0x0A] @ s'"
    using sep_inj [OF plain(1) [OF show_count_plain] plain(1) [OF show_count_plain]] by simp
  then have 4: "or_default (me_sha256 e) ''-'' = or_default (me_sha256 e') ''-'' \<and> s = s'"
    using sep_inj [OF plain(2) [OF sum_plain [OF e]] plain(2) [OF sum_plain [OF e']]] by simp
  have "me_kind e = me_kind e'" using 2 kind_name_inj by blast
  moreover have "me_size e = me_size e'" using 3 show_count_inj member_ok(2) e e' by blast
  ultimately show ?thesis using 1 4 sum_inj [OF e e'] by (simp add: member_identity_def)
qed

lemma digest_input_lines: "fold (\<lambda>e out. out @ digest_line e) es out = out @ concat (map digest_line es)"
  by (induction es arbitrary: out) auto

lemma digest_input_concat: "seed_manifest_content_digest_input es = concat (map digest_line es)"
  by (simp add: seed_manifest_content_digest_input_def digest_input_lines)

lemma digest_lines_inj:
  assumes "list_all (\<lambda>e. member_problem e = None) es" "list_all (\<lambda>e. member_problem e = None) es'"
    and "concat (map digest_line es) = concat (map digest_line es')"
  shows "map member_identity es = map member_identity es'"
  using assms
proof (induction es arbitrary: es')
  case Nil
  then show ?case by (cases es') (auto simp: digest_line_def)
next
  case (Cons e es)
  then obtain e' rest where es': "es' = e' # rest" by (cases es') (auto simp: digest_line_def)
  then show ?case using Cons digest_line_inj [of e e' "concat (map digest_line es)" "concat (map digest_line rest)"] by auto
qed

text \<open>
  The content digest tells the members. Two usable manifests whose digest inputs are the
  same text list the same paths, kinds, sizes and checksums in the same order, so equal
  fingerprints mean equal trees as far as the hash function separates its inputs.
\<close>

theorem digest_inputs_determine_the_members:
  assumes "seed_manifest_document_problem d = None" and "seed_manifest_document_problem d' = None"
    and "seed_manifest_content_digest_input (mf_entries d) = seed_manifest_content_digest_input (mf_entries d')"
  shows "map member_identity (mf_entries d) = map member_identity (mf_entries d')"
  using digest_lines_inj [OF document_members [OF assms(1)] document_members [OF assms(2)]] assms(3)
  by (simp add: digest_input_concat)

text \<open>What \<open>JSON.parse\<close> makes of \<open>JSON.stringify(document)\<close>: numbers that are not finite become \<open>null\<close>.\<close>

definition json_count :: "jnum \<Rightarrow> json" where
  "json_count n = (if js_is_finite n then JNum n else JNull)"

definition json_text :: "string option \<Rightarrow> json" where
  "json_text s = (case s of None \<Rightarrow> JNull | Some t \<Rightarrow> JStr t)"

definition member_json :: "seed_manifest_entry \<Rightarrow> json" where
  "member_json e = JObj [(''path'', JStr (me_path e)), (''kind'', JStr (kind_name (me_kind e))),
     (''size'', json_count (me_size e)), (''mtimeMs'', json_count (me_mtime_ms e)), (''sha256'', json_text (me_sha256 e))]"

definition document_json :: "seed_manifest_document \<Rightarrow> json" where
  "document_json d = JObj [(''version'', json_count (mf_version d)), (''fingerprint'', JStr (mf_fingerprint d)),
     (''filterFingerprint'', json_text (mf_filter_fingerprint d)), (''fileCount'', json_count (mf_file_count d)),
     (''dirCount'', json_count (mf_dir_count d)), (''totalBytes'', json_count (mf_total_bytes d)),
     (''entries'', JArr (map member_json (mf_entries d)))]"

lemma string_or_null_text [simp]: "string_or_null (json_text s) = Some s"
  by (cases s) (simp_all add: string_or_null_def json_text_def)

lemma kind_of_json_name [simp]: "kind_of_json (JStr (kind_name k)) = Some k"
  by (cases k) (simp_all add: kind_of_json_def)

lemma finite_count: "safe_count n \<Longrightarrow> json_count n = JNum n"
  by (cases n) (auto simp: safe_count_def json_count_def)

lemma parse_member_json:
  assumes "member_problem e = None"
  shows "parse_member (member_json e) = Some e"
proof -
  have "js_is_finite (me_mtime_ms e)" "safe_count (me_size e)"
    using assms by (auto simp: member_problem_def Let_def split: if_splits)
  then show ?thesis by (simp add: parse_member_def member_json_def finite_count json_count_def [of "me_mtime_ms e"])
qed

lemma parse_members_json:
  "list_all (\<lambda>e. member_problem e = None) es \<Longrightarrow> parse_members (map member_json es) = Some es"
  by (induction es) (simp_all add: parse_member_json)

lemma document_json_parses:
  assumes "seed_manifest_document_problem d = None"
  shows "parse_seed_manifest_document (document_json d) = Some d"
proof -
  have v: "mf_version d = Fin 1" and counts: "safe_count (mf_file_count d)" "safe_count (mf_dir_count d)" "safe_count (mf_total_bytes d)"
    using assms by (auto simp: seed_manifest_document_problem_def split: if_splits)
  have members: "parse_members (map member_json (mf_entries d)) = Some (mf_entries d)"
    by (rule parse_members_json [OF document_members [OF assms]])
  from v obtain fp ff fc dc tb es where d: "d = \<lparr> mf_version = Fin 1, mf_fingerprint = fp, mf_filter_fingerprint = ff,
      mf_file_count = fc, mf_dir_count = dc, mf_total_bytes = tb, mf_entries = es \<rparr>" by (cases d) auto
  show ?thesis using assms counts members
    by (simp add: d parse_seed_manifest_document_def document_json_def finite_count json_count_def [of "Fin 1"] Let_def)
qed

text \<open>
  C13. Every usable manifest survives its transport: written as JSON and read back by the
  target's parser it is the same document, checks included.
\<close>

theorem manifest_documents_round_trip:
  assumes "seed_manifest_document_problem d = None"
  shows "parse_seed_manifest_document (document_json d) = Some d"
  using assms by (rule document_json_parses)

lemma parsed_documents_are_usable: "parse_seed_manifest_document v = Some d \<Longrightarrow> seed_manifest_document_problem d = None"
  by (auto simp: parse_seed_manifest_document_def Let_def split: if_splits option.splits json.splits)

definition sample_digest :: string where
  "sample_digest = replicate 64 (CHR ''a'')"

definition sample_document :: seed_manifest_document where
  "sample_document = \<lparr> mf_version = Fin 1, mf_fingerprint = sample_digest, mf_filter_fingerprint = None,
     mf_file_count = Fin 1, mf_dir_count = Fin 1, mf_total_bytes = Fin 12,
     mf_entries = [\<lparr> me_path = ''docs'', me_kind = Kind_Dir, me_size = Fin 0, me_mtime_ms = Fin 5, me_sha256 = None \<rparr>,
       \<lparr> me_path = ''docs/a.txt'', me_kind = Kind_File, me_size = Fin 12, me_mtime_ms = Fin 7, me_sha256 = Some sample_digest \<rparr>] \<rparr>"

lemma sample_digest_ok: "hex64 sample_digest"
  by code_simp

lemma sample_members: "scan_members (mf_entries sample_document) 0 0 0 = Inr (1, 1, 12)"
  by code_simp

lemma sample_document_ok: "seed_manifest_document_problem sample_document = None"
  unfolding seed_manifest_document_problem_def sample_members
  by (simp add: sample_document_def sample_digest_ok safe_count_def js_is_safe_integer_integer
      SEED_MANIFEST_ENTRY_LIMIT_def count_value_def js_max_safe_def)

theorem manifest_documents_round_trip_witness:
  "parse_seed_manifest_document (document_json sample_document) = Some sample_document"
  by (rule manifest_documents_round_trip [OF sample_document_ok])

theorem digest_inputs_determine_the_members_witness:
  "map member_identity (mf_entries sample_document) =
     map member_identity (mf_entries (sample_document\<lparr> mf_filter_fingerprint := Some sample_digest \<rparr>))"
proof (rule digest_inputs_determine_the_members [OF sample_document_ok])
  show "seed_manifest_document_problem (sample_document\<lparr> mf_filter_fingerprint := Some sample_digest \<rparr>) = None"
    using sample_document_ok by (simp add: seed_manifest_document_problem_def sample_digest_ok sample_members split: if_splits)
qed simp

end
