(* ===== verification/Seed_Transport.thy ===== *)
theory Seed_Transport
  imports Seed_Relay Seed_Phases
begin

text \<open>
  The seed archive transport, \<open>daemon/src/seed-transport.ts\<close>: upload, download and cleanup
  through any object store. A store is the record of its operations over a state of its own
  (\<open>SeedRelayStore\<close>); the local disk maps a path to its content. The hash function, the text of
  a JSON value and whether a removal works are arguments. The locale \<open>relay_store\<close> says what
  the interface documents of a store; the safety of a download needs none of it.
\<close>

section \<open>Stores and files\<close>

datatype 'a relay_result = Relay_Ok 'a | Relay_Fail string bool

record seed_relay_object_head =
  oh_key :: string
  oh_bytes :: int
  oh_sha256 :: "string option"
  oh_stored_at :: int

text \<open>A path holds nothing, a file that cannot be read, or a file with a content.\<close>

type_synonym file_entry = "string option option"
type_synonym local_disk = "string \<Rightarrow> file_entry"

text \<open>A download also says what it leaves at the destination, whatever it reports. A deletion may
  throw (\<open>None\<close>).\<close>

record 's seed_relay_store =
  st_kind :: string
  st_put :: "string \<Rightarrow> string \<Rightarrow> int \<times> string \<Rightarrow> 's \<Rightarrow> 's \<times> seed_relay_object_head relay_result"
  st_head :: "string \<Rightarrow> 's \<Rightarrow> seed_relay_object_head relay_result"
  st_get :: "string \<Rightarrow> int \<times> string \<Rightarrow> file_entry \<Rightarrow> 's \<Rightarrow> (int \<times> string) relay_result \<times> file_entry"
  st_delete :: "string \<Rightarrow> 's \<Rightarrow> 's \<times> (bool \<times> bool) relay_result option"

definition seed_relay_file_digest :: "(string \<Rightarrow> string) \<Rightarrow> file_entry \<Rightarrow> (int \<times> string) option" where
  "seed_relay_file_digest sha f = (case f of Some (Some c) \<Rightarrow> Some (int (length c), sha c) | _ \<Rightarrow> None)"

text \<open>Removing a file that the failure path leaves behind; \<open>works\<close> tells whether \<open>rm\<close> does.\<close>

definition best_effort_rm :: "(string \<Rightarrow> bool) \<Rightarrow> string \<Rightarrow> local_disk \<Rightarrow> local_disk" where
  "best_effort_rm works path disk = (if works path then disk(path := None) else disk)"

definition best_effort_delete :: "'s seed_relay_store \<Rightarrow> string \<Rightarrow> 's \<Rightarrow> 's" where
  "best_effort_delete store key s =
     (if kv_ok (validate_seed_relay_object_key key None) then fst (st_delete store key s) else s)"

section \<open>Steps and phases\<close>

datatype seed_transport_step = Step_Upload | Step_Download | Step_Verify

fun STEP_PHASE :: "seed_transport_step \<Rightarrow> seed_job_phase" where
  "STEP_PHASE Step_Upload = Uploading_Archive"
| "STEP_PHASE Step_Download = Downloading_Archive"
| "STEP_PHASE Step_Verify = Verifying_Archive"

datatype step_refusal = Step_Job_Ended seed_phase | Step_Skips_Phase seed_phase

definition seed_transport_phase_allowed ::
    "seed_phase \<Rightarrow> seed_transport_step \<Rightarrow> seed_job_phase \<times> step_refusal option" where
  "seed_transport_phase_allowed current step =
     (let phase = STEP_PHASE step
      in if is_terminal_seed_phase current then (phase, Some (Step_Job_Ended current))
         else if \<not> can_transition_seed_phase current (Work phase) then (phase, Some (Step_Skips_Phase current))
         else (phase, None))"

section \<open>Upload of the archive\<close>

datatype transport_error =
    Te_Key "relay_key_error option" | Te_No_File | Te_No_Fingerprint | Te_Unreadable | Te_Empty
  | Te_Store string | Te_Mismatch relay_mismatch | Te_Problem relay_problem
  | Te_No_Metadata | Te_Byte_Count | Te_Digest | Te_Not_Archive_Key
  | Te_Manifest manifest_problem | Te_No_Manifest | Te_No_Content_Fingerprint | Te_Not_Manifest_Key
  | Te_Not_Json | Te_Bad_Document | Te_Wrong_Members | Te_Other_Universe

record upload_seed_archive_input =
  ui_job_id :: string
  ui_format :: seed_archive_format
  ui_archive_path :: string
  ui_manifest_fingerprint :: string
  ui_member_count :: int
  ui_now :: int

record upload_seed_archive_result =
  ur_archive :: seed_job_archive_facts
  ur_metadata :: "seed_archive_metadata option"
  ur_error :: "transport_error option"

definition ur_ok :: "upload_seed_archive_result \<Rightarrow> bool" where
  "ur_ok r \<longleftrightarrow> ur_error r = None"

definition upload_seed_archive ::
    "(string \<Rightarrow> string) \<Rightarrow> 's seed_relay_store \<Rightarrow> upload_seed_archive_input \<Rightarrow> local_disk \<Rightarrow> 's \<Rightarrow>
     's \<times> upload_seed_archive_result" where
  "upload_seed_archive sha store input disk s =
     (let archive = (empty_seed_job_archive_facts (ui_format input))
            \<lparr> af_member_count := Some (ui_member_count input),
              af_manifest_fingerprint := Some (ui_manifest_fingerprint input) \<rparr>;
          object_key = seed_relay_archive_key (ui_job_id input) (ui_format input);
          verdict = validate_seed_relay_object_key object_key (Some (ui_job_id input));
          fail = (\<lambda>e. \<lparr> ur_archive = archive, ur_metadata = None, ur_error = Some e \<rparr>)
      in if \<not> kv_ok verdict then (s, fail (Te_Key (kv_error verdict)))
         else if disk (ui_archive_path input) = None then (s, fail Te_No_File)
         else if \<not> hex64 (ui_manifest_fingerprint input) then (s, fail Te_No_Fingerprint)
         else case disk (ui_archive_path input) of
           None \<Rightarrow> (s, fail Te_Unreadable)
         | Some None \<Rightarrow> (s, fail Te_Unreadable)
         | Some (Some content) \<Rightarrow>
         (let digest = (int (length content), sha content)
          in if fst digest \<le> 0 then (s, fail Te_Empty)
             else case st_put store object_key content digest s of
               (s1, Relay_Fail e _) \<Rightarrow> (best_effort_delete store object_key s1, fail (Te_Store (describe_seed_relay_failure (st_kind store) e)))
             | (s1, Relay_Ok _) \<Rightarrow>
               (case st_head store object_key s1 of
                  Relay_Fail e _ \<Rightarrow> (best_effort_delete store object_key s1, fail (Te_Store (describe_seed_relay_failure (st_kind store) e)))
                | Relay_Ok head \<Rightarrow>
                  (case seed_archive_matches_metadata digest (oh_bytes head, oh_sha256 head) of
                     Some m \<Rightarrow> (best_effort_delete store object_key s1, fail (Te_Mismatch m))
                   | None \<Rightarrow>
                     (let metadata = \<lparr> am_job_id = ui_job_id input, am_object_key = object_key, am_format = ui_format input,
                            am_bytes = fst digest, am_sha256 = snd digest,
                            am_manifest_fingerprint = ui_manifest_fingerprint input,
                            am_member_count = ui_member_count input, am_created_at = ui_now input \<rparr>
                      in case seed_archive_metadata_problem metadata of
                           Some p \<Rightarrow> (best_effort_delete store object_key s1, fail (Te_Problem p))
                         | None \<Rightarrow>
                             (s1, \<lparr> ur_archive = archive\<lparr> af_bytes := Some (am_bytes metadata),
                                       af_sha256 := Some (am_sha256 metadata), af_object_key := Some (am_object_key metadata),
                                       af_uploaded_at := Some (ui_now input), af_cleanup := initial_seed_relay_cleanup \<rparr>,
                                    ur_metadata = Some metadata, ur_error = None \<rparr>))))))"

section \<open>Download of the archive\<close>

record download_seed_archive_result =
  dr_bytes :: int
  dr_sha256 :: "string option"
  dr_archive :: seed_job_archive_facts
  dr_error :: "transport_error option"

definition dr_ok :: "download_seed_archive_result \<Rightarrow> bool" where
  "dr_ok r \<longleftrightarrow> dr_error r = None"

text \<open>The checks before the store is asked: what is expected, or why nothing can be verified.\<close>

definition download_expectation :: "seed_job_archive_facts \<Rightarrow> string \<Rightarrow> transport_error + string \<times> int \<times> string" where
  "download_expectation archive job_id =
     (case (af_bytes archive, af_sha256 archive, af_object_key archive) of
        (Some bytes, Some sha256, Some object_key) \<Rightarrow>
          if \<not> safe_positive bytes then Inl Te_Byte_Count
          else if \<not> hex64 sha256 then Inl Te_Digest
          else if \<not> kv_ok (validate_seed_relay_object_key object_key (Some job_id))
            then Inl (Te_Key (kv_error (validate_seed_relay_object_key object_key (Some job_id))))
          else if object_key \<noteq> seed_relay_archive_key job_id (af_format archive) then Inl Te_Not_Archive_Key
          else Inr (object_key, bytes, sha256)
      | _ \<Rightarrow> Inl Te_No_Metadata)"

definition download_seed_archive ::
    "(string \<Rightarrow> string) \<Rightarrow> (string \<Rightarrow> bool) \<Rightarrow> 's seed_relay_store \<Rightarrow> seed_job_archive_facts \<Rightarrow> string \<Rightarrow> string \<Rightarrow> int \<Rightarrow>
     local_disk \<Rightarrow> 's \<Rightarrow> local_disk \<times> download_seed_archive_result" where
  "download_seed_archive sha rm_works store archive job_id dest now disk s =
     (let fail = (\<lambda>e. \<lparr> dr_bytes = 0, dr_sha256 = None, dr_archive = archive, dr_error = Some e \<rparr>)
      in case download_expectation archive job_id of
           Inl e \<Rightarrow> (disk, fail e)
         | Inr (object_key, expected) \<Rightarrow>
             (case st_get store object_key expected (disk dest) s of
                (Relay_Fail e _, left) \<Rightarrow> (best_effort_rm rm_works dest (disk(dest := left)), fail (Te_Store (describe_seed_relay_failure (st_kind store) e)))
              | (Relay_Ok _, left) \<Rightarrow>
                  (case seed_relay_file_digest sha left of
                     None \<Rightarrow> (best_effort_rm rm_works dest (disk(dest := left)), fail Te_Unreadable)
                   | Some observed \<Rightarrow>
                       (case seed_archive_matches_metadata expected (fst observed, Some (snd observed)) of
                          Some m \<Rightarrow> (best_effort_rm rm_works dest (disk(dest := left)), fail (Te_Mismatch m))
                        | None \<Rightarrow>
                            (disk(dest := left),
                             \<lparr> dr_bytes = fst observed, dr_sha256 = Some (snd observed),
                               dr_archive = archive\<lparr> af_verified_at := Some now \<rparr>, dr_error = None \<rparr>)))))"

section \<open>The manifest handoff\<close>

definition SEED_EMPTY_FILTER_FINGERPRINT :: string where
  "SEED_EMPTY_FILTER_FINGERPRINT = ''none''"

text \<open>The manifest of the source, as far as it is transported.\<close>

record seed_manifest =
  sm_entries :: "seed_manifest_entry list"
  sm_file_count :: jnum
  sm_dir_count :: jnum
  sm_total_bytes :: jnum
  sm_fingerprint :: string
  sm_filter_fingerprint :: string

definition seed_manifest_content_fingerprint :: "(string \<Rightarrow> string) \<Rightarrow> seed_manifest_entry list \<Rightarrow> string" where
  "seed_manifest_content_fingerprint sha entries = sha (seed_manifest_content_digest_input entries)"

definition seed_manifest_to_document :: "seed_manifest \<Rightarrow> seed_manifest_document" where
  "seed_manifest_to_document m =
     \<lparr> mf_version = Fin 1, mf_fingerprint = sm_fingerprint m,
       mf_filter_fingerprint =
         (if sm_filter_fingerprint m = SEED_EMPTY_FILTER_FINGERPRINT then None else Some (sm_filter_fingerprint m)),
       mf_file_count = sm_file_count m, mf_dir_count = sm_dir_count m, mf_total_bytes = sm_total_bytes m,
       mf_entries = sm_entries m \<rparr>"

definition serialize_seed_manifest_document :: "(json \<Rightarrow> string) \<Rightarrow> seed_manifest_document \<Rightarrow> string" where
  "serialize_seed_manifest_document json_string d = json_string (document_json d)"

definition upload_seed_manifest ::
    "(string \<Rightarrow> string) \<Rightarrow> (json \<Rightarrow> string) \<Rightarrow> 's seed_relay_store \<Rightarrow> string \<Rightarrow> seed_manifest \<Rightarrow> 's \<Rightarrow>
     's \<times> (transport_error + seed_manifest_metadata)" where
  "upload_seed_manifest sha json_string store job_id manifest s =
     (let document = seed_manifest_to_document manifest; object_key = seed_relay_manifest_key job_id;
          verdict = validate_seed_relay_object_key object_key (Some job_id)
      in case seed_manifest_document_problem document of
           Some p \<Rightarrow> (s, Inl (Te_Manifest p))
         | None \<Rightarrow>
           if \<not> kv_ok verdict then (s, Inl (Te_Key (kv_error verdict)))
           else
             (let bytes = serialize_seed_manifest_document json_string document;
                  expected = (int (length bytes), sha bytes)
              in case st_put store object_key bytes expected s of
                   (s1, Relay_Fail e _) \<Rightarrow> (best_effort_delete store object_key s1, Inl (Te_Store (describe_seed_relay_failure (st_kind store) e)))
                 | (s1, Relay_Ok _) \<Rightarrow>
                   (case st_head store object_key s1 of
                      Relay_Fail e _ \<Rightarrow> (best_effort_delete store object_key s1, Inl (Te_Store (describe_seed_relay_failure (st_kind store) e)))
                    | Relay_Ok head \<Rightarrow>
                      (case seed_archive_matches_metadata expected (oh_bytes head, oh_sha256 head) of
                         Some m \<Rightarrow> (best_effort_delete store object_key s1, Inl (Te_Mismatch m))
                       | None \<Rightarrow>
                         (let metadata = \<lparr> mm_job_id = job_id, mm_object_key = object_key, mm_bytes = fst expected,
                                mm_sha256 = snd expected, mm_content_fingerprint = mf_fingerprint document \<rparr>
                          in case seed_manifest_metadata_problem metadata of
                               Some p \<Rightarrow> (best_effort_delete store object_key s1, Inl (Te_Problem p))
                             | None \<Rightarrow> (s1, Inr metadata))))))"

definition manifest_expectation :: "seed_job_archive_facts \<Rightarrow> string \<Rightarrow> transport_error + string \<times> (int \<times> string) \<times> string" where
  "manifest_expectation archive job_id =
     (case (af_manifest_object_key archive, af_manifest_bytes archive, af_manifest_sha256 archive) of
        (Some object_key, Some bytes, Some sha256) \<Rightarrow>
          (case af_manifest_fingerprint archive of
             None \<Rightarrow> Inl Te_No_Content_Fingerprint
           | Some fingerprint \<Rightarrow>
               if object_key \<noteq> seed_relay_manifest_key job_id then Inl Te_Not_Manifest_Key
               else if \<not> kv_ok (validate_seed_relay_object_key object_key (Some job_id))
                 then Inl (Te_Key (kv_error (validate_seed_relay_object_key object_key (Some job_id))))
               else Inr (object_key, (bytes, sha256), fingerprint))
      | _ \<Rightarrow> Inl Te_No_Manifest)"

text \<open>The checks on the text of the downloaded document.\<close>

definition verify_manifest_text ::
    "(string \<Rightarrow> string) \<Rightarrow> (string \<Rightarrow> json option) \<Rightarrow> string \<Rightarrow> string \<Rightarrow> transport_error + seed_manifest_document" where
  "verify_manifest_text sha parse fingerprint content =
     (case parse content of
        None \<Rightarrow> Inl Te_Not_Json
      | Some v \<Rightarrow>
          (case parse_seed_manifest_document v of
             None \<Rightarrow> Inl Te_Bad_Document
           | Some d \<Rightarrow>
               (let derived = seed_manifest_content_fingerprint sha (mf_entries d)
                in if derived \<noteq> mf_fingerprint d then Inl Te_Wrong_Members
                   else if derived \<noteq> fingerprint then Inl Te_Other_Universe
                   else Inr d)))"

definition download_seed_manifest ::
    "(string \<Rightarrow> string) \<Rightarrow> (string \<Rightarrow> json option) \<Rightarrow> (string \<Rightarrow> bool) \<Rightarrow> 's seed_relay_store \<Rightarrow>
     seed_job_archive_facts \<Rightarrow> string \<Rightarrow> string \<Rightarrow> local_disk \<Rightarrow> 's \<Rightarrow>
     local_disk \<times> (transport_error + seed_manifest_document)" where
  "download_seed_manifest sha parse rm_works store archive job_id dest disk s =
     (case manifest_expectation archive job_id of
        Inl e \<Rightarrow> (disk, Inl e)
      | Inr (object_key, expected, fingerprint) \<Rightarrow>
          (case st_get store object_key expected (disk dest) s of
             (Relay_Fail e _, left) \<Rightarrow> (best_effort_rm rm_works dest (disk(dest := left)), Inl (Te_Store (describe_seed_relay_failure (st_kind store) e)))
           | (Relay_Ok _, left) \<Rightarrow>
               (let removed = best_effort_rm rm_works dest (disk(dest := left))
                in case left of
                     Some (Some content) \<Rightarrow>
                       (case seed_archive_matches_metadata expected (int (length content), Some (sha content)) of
                          Some m \<Rightarrow> (removed, Inl (Te_Mismatch m))
                        | None \<Rightarrow>
                            (case verify_manifest_text sha parse fingerprint content of
                               Inl e \<Rightarrow> (removed, Inl e)
                             | Inr d \<Rightarrow> (disk(dest := left), Inr d)))
                   | _ \<Rightarrow> (removed, Inl Te_Unreadable))))"

section \<open>Cleanup\<close>

record cleanup_run =
  cr_deleted :: "string list"
  cr_failed :: nat

text \<open>One key of the loop.\<close>

definition cleanup_key :: "'s seed_relay_store \<Rightarrow> string \<Rightarrow> 's \<times> cleanup_run \<Rightarrow> 's \<times> cleanup_run" where
  "cleanup_key store key acc =
     (case acc of (s, run) \<Rightarrow>
        if key \<in> set (cr_deleted run) then (s, run)
        else if \<not> kv_ok (validate_seed_relay_object_key key None) then (s, run\<lparr> cr_failed := cr_failed run + 1 \<rparr>)
        else (case st_delete store key s of
                (s', Some (Relay_Ok _)) \<Rightarrow> (s', run\<lparr> cr_deleted := cr_deleted run @ [key] \<rparr>)
              | (s', Some (Relay_Fail _ True)) \<Rightarrow> (s', run\<lparr> cr_deleted := cr_deleted run @ [key] \<rparr>)
              | (s', _) \<Rightarrow> (s', run\<lparr> cr_failed := cr_failed run + 1 \<rparr>)))"

record cleanup_result =
  cu_cleanup :: seed_relay_cleanup
  cu_deleted :: "string list"
  cu_complete :: bool

text \<open>The message of a failure names its first key and reason; it is an argument.\<close>

definition cleanup_seed_relay_objects ::
    "'s seed_relay_store \<Rightarrow> string list \<Rightarrow> seed_relay_cleanup \<Rightarrow> int \<Rightarrow> string \<Rightarrow> 's \<Rightarrow> 's \<times> cleanup_result" where
  "cleanup_seed_relay_objects store keys cleanup now message s =
     (if is_seed_relay_cleanup_complete cleanup
        then (s, \<lparr> cu_cleanup = cleanup, cu_deleted = [], cu_complete = True \<rparr>)
      else
        (let (s', run) = fold (cleanup_key store) keys (s, \<lparr> cr_deleted = rc_deleted_keys cleanup, cr_failed = 0 \<rparr>);
             next = \<lparr> rc_state = Cleaned, rc_attempts = rc_attempts cleanup + 1, rc_last_attempt_at = Some now,
                      rc_deleted_keys = cr_deleted run, rc_message = None \<rparr>
         in if cr_failed run = 0 then (s', \<lparr> cu_cleanup = next, cu_deleted = cr_deleted run, cu_complete = True \<rparr>)
            else (s', \<lparr> cu_cleanup = next\<lparr> rc_state := Cleanup_Failed, rc_message := Some (take 240 message) \<rparr>,
                        cu_deleted = cr_deleted run, cu_complete = False \<rparr>)))"

definition cleanup_after_failure ::
    "'s seed_relay_store \<Rightarrow> string list \<Rightarrow> seed_relay_cleanup \<Rightarrow> int \<Rightarrow> string \<Rightarrow> 's \<Rightarrow> 's \<times> seed_relay_cleanup" where
  "cleanup_after_failure store keys cleanup now message s =
     (case cleanup_seed_relay_objects store keys cleanup now message s of (s', r) \<Rightarrow> (s', cu_cleanup r))"

section \<open>What a download proves\<close>

lemma matches_None [simp]:
  "seed_archive_matches_metadata recorded observed = None \<longleftrightarrow> fst observed = fst recorded \<and> snd observed = Some (snd recorded)"
  by (auto simp: seed_archive_matches_metadata_def)

lemma matches_same [simp]: "seed_archive_matches_metadata (b, h) (b, Some h) = None"
  by simp

lemma file_digest_Some: "seed_relay_file_digest sha f = Some d \<longleftrightarrow> (\<exists>c. f = Some (Some c) \<and> d = (int (length c), sha c))"
  by (auto simp: seed_relay_file_digest_def split: option.splits)

lemma download_expectation_Inr:
  "download_expectation archive job_id = Inr (key, bytes, sha256) \<Longrightarrow>
     af_bytes archive = Some bytes \<and> af_sha256 archive = Some sha256 \<and> af_object_key archive = Some key \<and>
     seed_relay_key_belongs_to_job key job_id"
  by (auto simp: download_expectation_def seed_relay_key_belongs_to_job_def split: option.splits if_splits)

text \<open>
  C10. The target trusts no store. Whatever a store answers and whatever it writes, a download
  that succeeds has left at the destination a file of exactly the recorded size and digest.
\<close>

theorem downloads_are_what_was_recorded:
  assumes "download_seed_archive sha rm_works store archive job_id dest now disk s = (disk', r)" and "dr_ok r"
  shows "\<exists>content. disk' dest = Some (Some content) \<and> af_bytes archive = Some (int (length content)) \<and>
    af_sha256 archive = Some (sha content)"
proof (cases "download_expectation archive job_id")
  case (Inl e)
  then show ?thesis using assms by (auto simp: download_seed_archive_def dr_ok_def)
next
  case (Inr x)
  obtain key bytes sha256 where x: "x = (key, bytes, sha256)" by (cases x)
  obtain res left where get: "st_get store key (bytes, sha256) (disk dest) s = (res, left)" by fastforce
  from assms obtain content where "left = Some (Some content)" "int (length content) = bytes" "sha content = sha256"
      "disk' = disk(dest := left)"
    unfolding download_seed_archive_def Inr x
    by (auto simp: get dr_ok_def file_digest_Some split: relay_result.splits option.splits)
  then show ?thesis using download_expectation_Inr [OF Inr [unfolded x]] by auto
qed

lemma failed_downloads_leave_nothing:
  assumes "download_seed_archive sha rm_works store archive job_id dest now disk s = (disk', r)" and "\<not> dr_ok r"
    and "rm_works dest"
  shows "disk' dest = None \<or> disk' = disk"
  using assms
  by (auto simp: download_seed_archive_def Let_def dr_ok_def best_effort_rm_def
      split: sum.splits prod.splits relay_result.splits option.splits)

lemma downloads_touch_one_path:
  "fst (download_seed_archive sha rm_works store archive job_id dest now disk s) path = disk path" if "path \<noteq> dest"
  using that
  by (auto simp: download_seed_archive_def Let_def best_effort_rm_def
      split: sum.split prod.split relay_result.split option.split)

section \<open>What the manifest handoff proves\<close>

lemma uploaded_manifest:
  assumes "upload_seed_manifest sha json_string store job_id m s = (s', Inr meta)"
  shows "seed_manifest_document_problem (seed_manifest_to_document m) = None"
    and "mm_content_fingerprint meta = sm_fingerprint m"
  using assms
  by (auto simp: upload_seed_manifest_def Let_def seed_manifest_to_document_def
      split: option.splits if_splits prod.splits relay_result.splits)

lemma verified_manifest:
  "verify_manifest_text sha parse fp content = Inr d \<Longrightarrow>
     seed_manifest_document_problem d = None \<and> seed_manifest_content_fingerprint sha (mf_entries d) = fp"
  by (auto simp: verify_manifest_text_def Let_def parsed_documents_are_usable split: option.splits if_splits)

lemma downloaded_manifest:
  assumes "download_seed_manifest sha parse rm_works store archive job_id dest disk s = (disk', Inr d)"
  shows "seed_manifest_document_problem d = None"
    and "af_manifest_fingerprint archive = Some (seed_manifest_content_fingerprint sha (mf_entries d))"
  using assms
  by (auto simp: download_seed_manifest_def manifest_expectation_def Let_def
      dest!: verified_manifest split: sum.splits prod.splits relay_result.splits option.splits if_splits)

text \<open>
  C11. The universe survives the handoff. When the source uploaded its manifest and recorded its
  fingerprint, and the target accepted a document for that fingerprint from whatever store, the
  document lists the members of the source, in order, with their sizes and checksums, unless
  the hash collides on exactly these two texts.
\<close>

theorem manifest_handoff_keeps_the_members:
  assumes "upload_seed_manifest sha json_string store job_id m s = (s', Inr meta)"
    and "sm_fingerprint m = seed_manifest_content_fingerprint sha (sm_entries m)"
    and "af_manifest_fingerprint archive = Some (sm_fingerprint m)"
    and "download_seed_manifest sha parse rm_works store' archive job_id dest disk t = (disk', Inr d)"
    and "sha (seed_manifest_content_digest_input (sm_entries m)) = sha (seed_manifest_content_digest_input (mf_entries d)) \<Longrightarrow>
      seed_manifest_content_digest_input (sm_entries m) = seed_manifest_content_digest_input (mf_entries d)"
  shows "map member_identity (mf_entries d) = map member_identity (sm_entries m)"
proof -
  let ?src = "seed_manifest_content_digest_input (sm_entries m)" and ?dst = "seed_manifest_content_digest_input (mf_entries d)"
  have "sha ?src = sha ?dst"
    using assms(2,3) downloaded_manifest(2) [OF assms(4)] by (simp add: seed_manifest_content_fingerprint_def)
  then have "?src = ?dst" by (rule assms(5))
  moreover have "mf_entries (seed_manifest_to_document m) = sm_entries m" by (simp add: seed_manifest_to_document_def)
  ultimately show ?thesis
    using digest_lines_inj [OF document_members [OF downloaded_manifest(1) [OF assms(4)]]
        document_members [OF uploaded_manifest(1) [OF assms(1)]]]
    unfolding digest_input_concat by metis
qed

section \<open>The contract of a store\<close>

text \<open>
  What the interface documents: an object is written once and verified while it is written, a
  listing of its size is true, a download of the recorded digest returns it, a deletion removes
  it, and no operation touches another object. \<open>holds\<close> is what a state stores under a key,
  \<open>usable\<close> the keys whose operations meet no failure of the disk or the network.
\<close>

locale relay_store =
  fixes sha :: "string \<Rightarrow> string" and store :: "'s seed_relay_store" and holds :: "'s \<Rightarrow> string \<Rightarrow> string option"
    and usable :: "string \<Rightarrow> bool" and inv :: "'s \<Rightarrow> bool"
  assumes put_inv: "inv s \<Longrightarrow> usable key \<Longrightarrow> inv (fst (st_put store key c d s))"
    and put_frame: "inv s \<Longrightarrow> usable key \<Longrightarrow> usable k \<Longrightarrow> k \<noteq> key \<Longrightarrow> holds (fst (st_put store key c d s)) k = holds s k"
    and put_immutable: "inv s \<Longrightarrow> usable key \<Longrightarrow> holds s key = Some x \<Longrightarrow> holds (fst (st_put store key c d s)) key = Some x"
    and put_refuses: "inv s \<Longrightarrow> usable key \<Longrightarrow> holds s key = Some x \<Longrightarrow> (int (length x), sha x) \<noteq> d \<Longrightarrow>
      \<exists>e nf. snd (st_put store key c d s) = Relay_Fail e nf"
    and put_stores: "inv s \<Longrightarrow> usable key \<Longrightarrow> snd (st_put store key c d s) = Relay_Ok head \<Longrightarrow>
      \<exists>x. holds (fst (st_put store key c d s)) key = Some x \<and> (int (length x), sha x) = d"
    and get_returns: "inv s \<Longrightarrow> usable key \<Longrightarrow> holds s key = Some x \<Longrightarrow>
      st_get store key (int (length x), sha x) f s = (Relay_Ok (int (length x), sha x), Some (Some x))"
    and delete_inv: "inv s \<Longrightarrow> usable key \<Longrightarrow> inv (fst (st_delete store key s))"
    and delete_frame: "inv s \<Longrightarrow> usable key \<Longrightarrow> usable k \<Longrightarrow> k \<noteq> key \<Longrightarrow> holds (fst (st_delete store key s)) k = holds s k"
    and delete_removes: "inv s \<Longrightarrow> usable key \<Longrightarrow> holds (fst (st_delete store key s)) key = None"
begin

lemma best_effort_delete_inv: "inv s \<Longrightarrow> usable key \<Longrightarrow> inv (best_effort_delete store key s)"
  by (simp add: best_effort_delete_def delete_inv)

lemma best_effort_delete_frame:
  "inv s \<Longrightarrow> usable key \<Longrightarrow> usable k \<Longrightarrow> k \<noteq> key \<Longrightarrow> holds (best_effort_delete store key s) k = holds s k"
  by (simp add: best_effort_delete_def delete_frame)

text \<open>What an accepted upload has stored and recorded.\<close>

lemma upload_stores:
  assumes "inv s" "usable (seed_relay_archive_key (ui_job_id input) (ui_format input))"
    and up: "upload_seed_archive sha store input disk s = (s', r)" "ur_ok r"
  shows "inv s'" and "\<exists>x. holds s' (seed_relay_archive_key (ui_job_id input) (ui_format input)) = Some x \<and>
      download_expectation (ur_archive r) (ui_job_id input) =
        Inr (seed_relay_archive_key (ui_job_id input) (ui_format input), int (length x), sha x)"
proof -
  let ?key = "seed_relay_archive_key (ui_job_id input) (ui_format input)"
  from up obtain content head meta where c: "disk (ui_archive_path input) = Some (Some content)"
    and put: "st_put store ?key content (int (length content), sha content) s = (s', Relay_Ok head)"
    and valid: "kv_ok (validate_seed_relay_object_key ?key (Some (ui_job_id input)))"
    and meta: "seed_archive_metadata_problem meta = None" "am_bytes meta = int (length content)" "am_sha256 meta = sha content"
    and r: "af_bytes (ur_archive r) = Some (int (length content))" "af_sha256 (ur_archive r) = Some (sha content)"
      "af_object_key (ur_archive r) = Some ?key" "af_format (ur_archive r) = ui_format input"
    unfolding upload_seed_archive_def Let_def ur_ok_def
    by (auto simp: empty_seed_job_archive_facts_def split: if_splits option.splits prod.splits relay_result.splits)
  show "inv s'" using put_inv [OF assms(1,2)] put by (metis fst_conv)
  obtain x where x: "holds s' ?key = Some x" "int (length x) = int (length content)" "sha x = sha content"
    using put_stores [OF assms(1,2)] put by (metis fst_conv prod.inject snd_conv)
  have "safe_positive (int (length content))" "hex64 (sha content)"
    using meta by (simp_all add: archive_metadata_ok)
  then show "\<exists>x. holds s' ?key = Some x \<and> download_expectation (ur_archive r) (ui_job_id input) = Inr (?key, int (length x), sha x)"
    using x valid r by (simp add: download_expectation_def)
qed

lemma uploaded_archive_downloads:
  assumes "inv s" "usable (seed_relay_archive_key (ui_job_id input) (ui_format input))"
    and "upload_seed_archive sha store input disk s = (s', r)" "ur_ok r"
    and "inv t" "holds t (seed_relay_archive_key (ui_job_id input) (ui_format input)) =
      holds s' (seed_relay_archive_key (ui_job_id input) (ui_format input))"
  shows "dr_ok (snd (download_seed_archive sha rm_works store (ur_archive r) (ui_job_id input) dest now disk' t))"
proof -
  obtain x where x: "holds t (seed_relay_archive_key (ui_job_id input) (ui_format input)) = Some x"
      "download_expectation (ur_archive r) (ui_job_id input) =
        Inr (seed_relay_archive_key (ui_job_id input) (ui_format input), int (length x), sha x)"
    using upload_stores(2) [OF assms(1-4)] assms(6) by auto
  show ?thesis
    unfolding download_seed_archive_def x(2)
    by (simp add: get_returns [OF assms(5,2) x(1)] seed_relay_file_digest_def dr_ok_def)
qed

text \<open>A put that the store refuses to protect the object it holds is followed by its deletion.\<close>

lemma refused_upload_deletes:
  assumes "inv s" "usable (seed_relay_archive_key (ui_job_id input) (ui_format input))"
    and "seed_relay_key_belongs_to_job (seed_relay_archive_key (ui_job_id input) (ui_format input)) (ui_job_id input)"
    and "disk (ui_archive_path input) = Some (Some content)" "content \<noteq> []" "hex64 (ui_manifest_fingerprint input)"
    and "holds s (seed_relay_archive_key (ui_job_id input) (ui_format input)) = Some x"
    and "(int (length x), sha x) \<noteq> (int (length content), sha content)"
  shows "holds (fst (upload_seed_archive sha store input disk s)) (seed_relay_archive_key (ui_job_id input) (ui_format input)) = None"
proof -
  let ?key = "seed_relay_archive_key (ui_job_id input) (ui_format input)"
  obtain e nf where put: "snd (st_put store ?key content (int (length content), sha content) s) = Relay_Fail e nf"
    using put_refuses [OF assms(1,2,7,8)] by blast
  then have put: "st_put store ?key content (int (length content), sha content) s =
      (fst (st_put store ?key content (int (length content), sha content) s), Relay_Fail e nf)" (is "_ = (?s1, _)")
    by (metis prod.collapse)
  have ok: "kv_ok (validate_seed_relay_object_key ?key (Some (ui_job_id input)))"
    using assms(3) by (simp add: seed_relay_key_belongs_to_job_def)
  then obtain j name where key: "?key = seed_relay_namespace j @ name" "is_valid_seed_relay_job_id j" "key_name_ok name"
      "length ?key \<le> SEED_PATH_MAX_LENGTH" by (rule valid_keyD)
  then have ok': "kv_ok (validate_seed_relay_object_key ?key None)" by (simp add: valid_keyI)
  have "fst (upload_seed_archive sha store input disk s) = best_effort_delete store ?key ?s1"
    using ok assms(4,5,6) by (simp add: upload_seed_archive_def Let_def) (subst put, simp)
  then show ?thesis
    using delete_removes [OF put_inv [OF assms(1,2)] assms(2)] ok' by (simp add: best_effort_delete_def)
qed

text \<open>A cleanup removes the keys it was given and nothing else.\<close>

lemma cleanup_key_state:
  assumes "inv s" "usable key"
  shows "inv (fst (cleanup_key store key (s, run)))"
    and "usable k \<Longrightarrow> k \<noteq> key \<Longrightarrow> holds (fst (cleanup_key store key (s, run))) k = holds s k"
    and "holds s k = None \<Longrightarrow> usable k \<Longrightarrow> holds (fst (cleanup_key store key (s, run))) k = None"
    and "key \<notin> set (cr_deleted run) \<Longrightarrow> key \<in> set (cr_deleted (snd (cleanup_key store key (s, run)))) \<Longrightarrow>
      holds (fst (cleanup_key store key (s, run))) key = None"
proof -
  have cases: "fst (cleanup_key store key (s, run)) \<in> {s, fst (st_delete store key s)}"
    by (auto simp: cleanup_key_def split: prod.split option.split relay_result.split bool.split)
  then show "inv (fst (cleanup_key store key (s, run)))" using assms delete_inv by auto
  show frame: "usable k \<Longrightarrow> k \<noteq> key \<Longrightarrow> holds (fst (cleanup_key store key (s, run))) k = holds s k"
    using cases delete_frame [OF assms] by auto
  show "holds s k = None \<Longrightarrow> usable k \<Longrightarrow> holds (fst (cleanup_key store key (s, run))) k = None"
    using cases delete_frame [OF assms] delete_removes [OF assms] by (cases "k = key") auto
  show "key \<notin> set (cr_deleted run) \<Longrightarrow> key \<in> set (cr_deleted (snd (cleanup_key store key (s, run)))) \<Longrightarrow>
      holds (fst (cleanup_key store key (s, run))) key = None"
    using delete_removes [OF assms] by (auto simp: cleanup_key_def split: if_splits prod.splits option.splits relay_result.splits bool.splits)
qed

lemma cleanup_keys_frame:
  assumes "inv s" "\<forall>key\<in>set keys. usable key" "usable k" "k \<notin> set keys"
  shows "holds (fst (fold (cleanup_key store) keys (s, run))) k = holds s k"
  using assms
proof (induction keys arbitrary: s run)
  case (Cons key keys)
  obtain s1 run1 where step: "cleanup_key store key (s, run) = (s1, run1)" by fastforce
  have "inv s1" "holds s1 k = holds s k"
    using cleanup_key_state(1,2) [OF Cons.prems(1), of key] Cons.prems step by (metis fst_conv list.set_intros(1))+
  then show ?case using Cons.IH [of s1 run1] Cons.prems(2-4) step by simp
qed simp

lemma cleanup_frame:
  assumes "inv s" "\<forall>key\<in>set keys. usable key" "usable k" "k \<notin> set keys"
  shows "holds (fst (cleanup_seed_relay_objects store keys cleanup now message s)) k = holds s k"
  using cleanup_keys_frame [OF assms]
  by (auto simp: cleanup_seed_relay_objects_def Let_def split: prod.split) (metis fst_conv)+

end

section \<open>Instances\<close>

text \<open>A store that answers everything with one text.\<close>

definition echo_store :: "string \<Rightarrow> unit seed_relay_store" where
  "echo_store content =
     (let head = \<lparr> oh_key = [], oh_bytes = int (length content), oh_sha256 = Some sample_digest, oh_stored_at = 1 \<rparr>
      in \<lparr> st_kind = ''echo'', st_put = (\<lambda>key c d s. (s, Relay_Ok head)), st_head = (\<lambda>key s. Relay_Ok head),
           st_get = (\<lambda>key d f s. (Relay_Ok d, Some (Some content))), st_delete = (\<lambda>key s. (s, None)) \<rparr>)"

definition sample_transport_facts :: seed_job_archive_facts where
  "sample_transport_facts = (empty_seed_job_archive_facts TarGz)
     \<lparr> af_bytes := Some 7, af_sha256 := Some sample_digest, af_object_key := Some (seed_relay_archive_key ''j1'' TarGz),
       af_manifest_fingerprint := Some sample_digest, af_manifest_object_key := Some (seed_relay_manifest_key ''j1''),
       af_manifest_bytes := Some 7, af_manifest_sha256 := Some sample_digest \<rparr>"

definition one_hash :: "string \<Rightarrow> string" where
  "one_hash s = sample_digest"

theorem downloads_are_what_was_recorded_witness:
  "\<exists>content. fst (download_seed_archive one_hash (\<lambda>p. True) (echo_store ''archive'') sample_transport_facts ''j1'' ''/d'' 9
       (\<lambda>p. None) ()) ''/d'' = Some (Some content) \<and> Some 7 = Some (int (length content)) \<and> Some sample_digest = Some (one_hash content)"
proof -
  let ?run = "download_seed_archive one_hash (\<lambda>p. True) (echo_store ''archive'') sample_transport_facts ''j1'' ''/d'' 9 (\<lambda>p. None) ()"
  have "dr_ok (snd ?run)" by code_simp
  from downloads_are_what_was_recorded [OF prod.collapse [symmetric] this] show ?thesis
    by (simp add: sample_transport_facts_def)
qed

definition sample_manifest :: seed_manifest where
  "sample_manifest = \<lparr> sm_entries = mf_entries sample_document, sm_file_count = Fin 1, sm_dir_count = Fin 1,
     sm_total_bytes = Fin 12, sm_fingerprint = sample_digest, sm_filter_fingerprint = SEED_EMPTY_FILTER_FINGERPRINT \<rparr>"

lemma sample_manifest_document: "seed_manifest_to_document sample_manifest = sample_document"
  by (simp add: seed_manifest_to_document_def sample_manifest_def sample_document_def)

lemma sample_manifest_uploaded:
  "\<exists>meta. upload_seed_manifest one_hash (\<lambda>v. ''a text'') (echo_store ''a text'') ''j1'' sample_manifest () = ((), Inr meta)"
proof -
  have key: "kv_ok (validate_seed_relay_object_key (seed_relay_manifest_key ''j1'') (Some ''j1''))" by code_simp
  then show ?thesis
    unfolding upload_seed_manifest_def sample_manifest_document sample_document_ok Let_def
    by (simp add: echo_store_def Let_def one_hash_def serialize_seed_manifest_document_def seed_manifest_metadata_problem_def
        safe_positive_def js_max_safe_def sample_digest_ok) (simp add: sample_document_def sample_digest_ok)
qed

lemma sample_manifest_downloaded:
  "snd (download_seed_manifest one_hash (\<lambda>t. Some (document_json sample_document)) (\<lambda>p. True) (echo_store ''archive'')
     sample_transport_facts ''j1'' ''/m'' (\<lambda>p. None) ()) = Inr sample_document"
proof -
  have "manifest_expectation sample_transport_facts ''j1'' =
      Inr (seed_relay_manifest_key ''j1'', (7, sample_digest), sample_digest)" by code_simp
  then show ?thesis
    by (simp add: download_seed_manifest_def echo_store_def Let_def one_hash_def verify_manifest_text_def
        document_json_parses [OF sample_document_ok] seed_manifest_content_fingerprint_def) (simp add: sample_document_def)
qed

theorem manifest_handoff_keeps_the_members_witness:
  "map member_identity (mf_entries sample_document) = map member_identity (sm_entries sample_manifest)"
proof -
  obtain meta where up: "upload_seed_manifest one_hash (\<lambda>v. ''a text'') (echo_store ''a text'') ''j1'' sample_manifest () = ((), Inr meta)"
    using sample_manifest_uploaded ..
  obtain disk' where down: "download_seed_manifest one_hash (\<lambda>t. Some (document_json sample_document)) (\<lambda>p. True) (echo_store ''archive'')
      sample_transport_facts ''j1'' ''/m'' (\<lambda>p. None) () = (disk', Inr sample_document)"
    using sample_manifest_downloaded by (metis prod.collapse)
  show ?thesis
    by (rule manifest_handoff_keeps_the_members [OF up _ _ down])
      (simp_all add: sample_manifest_def one_hash_def seed_manifest_content_fingerprint_def sample_transport_facts_def)
qed

end
