(* ===== verification/Relay_Local.thy ===== *)
theory Relay_Local
  imports Seed_Transport "HOL-Library.AList" "HOL-Library.List_Lexorder"
begin

text \<open>
  The object store on a local directory, \<open>daemon/src/seed-relay-local.ts\<close>. The state is the files
  below the root, by relative path, and what else \<open>lstat\<close> sees there; a directory that \<open>put\<close>
  creates is not recorded, since the containment walk gives an absent component and a directory
  the same verdict. Failures of the disk are an argument: for a key whose operations throw,
  nothing has changed, or, for a put, the object is in place and its digest file is not.
\<close>

section \<open>Files\<close>

datatype path_node = Node_File | Node_Dir | Node_Link | Node_Other

record local_relay =
  lr_files :: "(string \<times> string \<times> int) list"
  lr_other :: "string \<Rightarrow> path_node option"

definition SEED_RELAY_DIGEST_SUFFIX :: string where
  "SEED_RELAY_DIGEST_SUFFIX = ''.sha256''"

definition SEED_RELAY_TMP_DIR :: string where
  "SEED_RELAY_TMP_DIR = ''.lamasync-seed-relay-tmp''"

definition file_at :: "local_relay \<Rightarrow> string \<Rightarrow> (string \<times> int) option" where
  "file_at st path = map_of (lr_files st) path"

definition lstat :: "local_relay \<Rightarrow> string \<Rightarrow> path_node option" where
  "lstat st path = (if file_at st path \<noteq> None then Some Node_File else lr_other st path)"

section \<open>Containment\<close>

datatype containment_error =
    Bad_Segment | Link_Component string | Not_A_Directory string | Not_Regular string | Bad_Object_Key relay_key_error

text \<open>The walk, over the components already verified and those to come.\<close>

fun walk_components :: "local_relay \<Rightarrow> string list \<Rightarrow> string list \<Rightarrow> containment_error option" where
  "walk_components st verified [] = None"
| "walk_components st verified (seg # rest) =
     (let path = join_with ''/'' (verified @ [seg])
      in case lstat st path of
           None \<Rightarrow> None
         | Some Node_Link \<Rightarrow> Some (Link_Component path)
         | Some node \<Rightarrow>
             if rest \<noteq> [] \<and> node \<noteq> Node_Dir then Some (Not_A_Directory path)
             else if rest = [] \<and> node \<noteq> Node_File \<and> node \<noteq> Node_Dir then Some (Not_Regular path)
             else walk_components st (verified @ [seg]) rest)"

definition check_seed_relay_filesystem_containment :: "local_relay \<Rightarrow> string \<Rightarrow> containment_error option" where
  "check_seed_relay_filesystem_containment st relative =
     (let segments = split_on (CHR ''/'') relative
      in if segments = [] \<or> list_ex (\<lambda>s. length s = 0 \<or> s = ''.'' \<or> s = ''..'') segments then Some Bad_Segment
         else walk_components st [] segments)"

text \<open>A valid key has no traversal segment, so it never resolves outside the root; the second
  test of the code has no branch.\<close>

definition resolve_seed_relay_object_path :: "string \<Rightarrow> relay_key_error option" where
  "resolve_seed_relay_object_path key = kv_error (validate_seed_relay_object_key key None)"

definition check_seed_relay_object_containment :: "local_relay \<Rightarrow> string \<Rightarrow> containment_error option" where
  "check_seed_relay_object_containment st key =
     (case resolve_seed_relay_object_path key of
        Some e \<Rightarrow> Some (Bad_Object_Key e)
      | None \<Rightarrow> check_seed_relay_filesystem_containment st key)"

definition digest_path_for :: "string \<Rightarrow> string" where
  "digest_path_for path = path @ SEED_RELAY_DIGEST_SUFFIX"

definition object_containment :: "local_relay \<Rightarrow> string \<Rightarrow> containment_error option" where
  "object_containment st key =
     (case check_seed_relay_object_containment st key of
        Some e \<Rightarrow> Some e
      | None \<Rightarrow> check_seed_relay_object_containment st (digest_path_for key))"

section \<open>Operations\<close>

datatype io_fault = No_Fault | Fault_Before | Fault_Between

definition copy_matches :: "(string \<Rightarrow> string) \<Rightarrow> string \<Rightarrow> int \<times> string \<Rightarrow> bool" where
  "copy_matches sha content expected \<longleftrightarrow> int (length content) = fst expected \<and> sha content = snd expected"

definition read_digest :: "local_relay \<Rightarrow> string \<Rightarrow> string option" where
  "read_digest st path =
     (case file_at st (digest_path_for path) of
        None \<Rightarrow> None
      | Some (text, _) \<Rightarrow> if hex64 (js_trim text) then Some (js_trim text) else None)"

definition head_at :: "local_relay \<Rightarrow> string \<Rightarrow> seed_relay_object_head relay_result" where
  "head_at st key =
     (case file_at st key of
        Some (content, mtime) \<Rightarrow>
          Relay_Ok \<lparr> oh_key = key, oh_bytes = int (length content), oh_sha256 = read_digest st key, oh_stored_at = mtime \<rparr>
      | None \<Rightarrow>
          (if lstat st key = None then Relay_Fail ''no object stored'' True else Relay_Fail ''not a stored object'' False))"

definition write_file :: "string \<Rightarrow> string \<times> int \<Rightarrow> local_relay \<Rightarrow> local_relay" where
  "write_file path entry st = st\<lparr> lr_files := AList.update path entry (lr_files st) \<rparr>"

definition remove_file :: "string \<Rightarrow> local_relay \<Rightarrow> local_relay" where
  "remove_file path st = st\<lparr> lr_files := AList.delete path (lr_files st) \<rparr>"

definition local_put ::
    "(string \<Rightarrow> string) \<Rightarrow> int \<Rightarrow> (string \<Rightarrow> io_fault) \<Rightarrow> string \<Rightarrow> string \<Rightarrow> int \<times> string \<Rightarrow> local_relay \<Rightarrow>
     local_relay \<times> seed_relay_object_head relay_result" where
  "local_put sha now faults key content expected st =
     (if resolve_seed_relay_object_path key \<noteq> None then (st, Relay_Fail ''the object key is not usable'' False)
      else if \<not> safe_positive (fst expected) then (st, Relay_Fail ''bad byte count'' False)
      else if object_containment st key \<noteq> None then (st, Relay_Fail ''the object path is not contained'' False)
      else if check_seed_relay_filesystem_containment st SEED_RELAY_TMP_DIR \<noteq> None
        then (st, Relay_Fail ''the relay working directory is not contained'' False)
      else if lstat st key \<noteq> None then
        (case head_at st key of
           Relay_Fail e nf \<Rightarrow> (st, Relay_Fail e nf)
         | Relay_Ok existing \<Rightarrow>
             if oh_bytes existing \<noteq> fst expected \<or> oh_sha256 existing \<noteq> Some (snd expected)
               then (st, Relay_Fail ''seed archive objects are immutable'' False)
             else (st, Relay_Ok existing))
      else if faults key = Fault_Before then (st, Relay_Fail ''storing failed'' False)
      else if \<not> copy_matches sha content expected then (st, Relay_Fail ''the source does not match'' False)
      else
        (let st1 = write_file key (content, now) st
         in if faults key = Fault_Between then (st1, Relay_Fail ''storing failed'' False)
            else (let st2 = write_file (digest_path_for key) (sha content @ [CHR 0x0A], now) st1
                  in (st2, head_at st2 key))))"

definition local_head :: "string \<Rightarrow> local_relay \<Rightarrow> seed_relay_object_head relay_result" where
  "local_head key st =
     (if resolve_seed_relay_object_path key \<noteq> None then Relay_Fail ''the object key is not usable'' False
      else if object_containment st key \<noteq> None then Relay_Fail ''the object path is not contained'' False
      else head_at st key)"

text \<open>A copy that runs over the expected size throws, so it ends as a failed read.\<close>

definition local_get ::
    "(string \<Rightarrow> string) \<Rightarrow> (string \<Rightarrow> io_fault) \<Rightarrow> string \<Rightarrow> int \<times> string \<Rightarrow> file_entry \<Rightarrow> local_relay \<Rightarrow>
     (int \<times> string) relay_result \<times> file_entry" where
  "local_get sha faults key expected old st =
     (if resolve_seed_relay_object_path key \<noteq> None then (Relay_Fail ''the object key is not usable'' False, old)
      else if object_containment st key \<noteq> None then (Relay_Fail ''the object path is not contained'' False, old)
      else if lstat st key = None then (Relay_Fail ''no object stored'' True, old)
      else case file_at st key of
        None \<Rightarrow> (Relay_Fail ''reading failed'' False, None)
      | Some (content, _) \<Rightarrow>
          if faults key \<noteq> No_Fault then (Relay_Fail ''reading failed'' False, None)
          else if int (length content) > fst expected then (Relay_Fail ''reading failed'' False, None)
          else if int (length content) \<noteq> fst expected then (Relay_Fail ''wrong byte count'' False, None)
          else if sha content \<noteq> snd expected then (Relay_Fail ''wrong digest'' False, None)
          else (Relay_Ok (int (length content), sha content), Some (Some content)))"

definition delete_at :: "(string \<Rightarrow> io_fault) \<Rightarrow> string \<Rightarrow> local_relay \<Rightarrow> local_relay \<times> (bool \<times> bool) relay_result" where
  "delete_at faults key st =
     (let present = lstat st key \<noteq> None; digest_present = lstat st (digest_path_for key) \<noteq> None
      in if faults key \<noteq> No_Fault \<or> lstat st key = Some Node_Dir then (st, Relay_Fail ''could not delete'' False)
         else (remove_file (digest_path_for key) (remove_file key st), Relay_Ok (present \<or> digest_present, \<not> present)))"

definition local_delete :: "(string \<Rightarrow> io_fault) \<Rightarrow> string \<Rightarrow> local_relay \<Rightarrow> local_relay \<times> (bool \<times> bool) relay_result" where
  "local_delete faults key st =
     (if resolve_seed_relay_object_path key \<noteq> None then (st, Relay_Fail ''the object key is not usable'' False)
      else if object_containment st key \<noteq> None then (st, Relay_Fail ''the object path is not contained'' False)
      else delete_at faults key st)"

text \<open>The listing: the files with the prefix that are no digest files, in order.\<close>

definition local_list :: "string \<Rightarrow> local_relay \<Rightarrow> string list relay_result" where
  "local_list prefix st =
     (if validate_seed_relay_prefix prefix \<noteq> None then Relay_Fail ''the list prefix is not usable'' False
      else Relay_Ok (sort_key (map (of_char :: char \<Rightarrow> nat))
        (filter (\<lambda>k. starts_with prefix k \<and> \<not> ends_with SEED_RELAY_DIGEST_SUFFIX k) (map fst (lr_files st)))))"

definition create_local_seed_relay_store ::
    "(string \<Rightarrow> string) \<Rightarrow> int \<Rightarrow> (string \<Rightarrow> io_fault) \<Rightarrow> local_relay seed_relay_store" where
  "create_local_seed_relay_store sha now faults =
     \<lparr> st_kind = ''local-fs'', st_put = local_put sha now faults, st_head = local_head,
       st_get = local_get sha faults,
       st_delete = (\<lambda>key st. case local_delete faults key st of (st', r) \<Rightarrow> (st', Some r)) \<rparr>"

section \<open>The local store keeps the contract\<close>

definition holds_at :: "local_relay \<Rightarrow> string \<Rightarrow> string option" where
  "holds_at st key = map_option fst (file_at st key)"

text \<open>Keys whose operations do not throw. A key that ends like a digest file is left out: the
  store would overwrite it with the digest of another object.\<close>

definition usable_key :: "(string \<Rightarrow> io_fault) \<Rightarrow> string \<Rightarrow> bool" where
  "usable_key faults key \<longleftrightarrow> faults key = No_Fault \<and> \<not> ends_with SEED_RELAY_DIGEST_SUFFIX key \<and>
     kv_ok (validate_seed_relay_object_key key None) \<and> kv_ok (validate_seed_relay_object_key (digest_path_for key) None)"

text \<open>Nobody has planted a link or a foreign file below the root, and every digest file tells the truth.\<close>

definition local_inv :: "(string \<Rightarrow> string) \<Rightarrow> (string \<Rightarrow> io_fault) \<Rightarrow> local_relay \<Rightarrow> bool" where
  "local_inv sha faults st \<longleftrightarrow>
     (\<forall>x. hex64 (sha x)) \<and>
     (\<forall>path. lr_other st path = None \<or> lr_other st path = Some Node_Dir) \<and>
     (\<forall>key. kv_ok (validate_seed_relay_object_key key None) \<longrightarrow> lr_other st key = None) \<and>
     (\<forall>path. file_at st path \<noteq> None \<longrightarrow> kv_ok (validate_seed_relay_object_key path None)) \<and>
     (\<forall>key d. usable_key faults key \<longrightarrow> read_digest st key = Some d \<longrightarrow> (\<exists>x. holds_at st key = Some x \<and> d = sha x))"

lemma file_at_write [simp]: "file_at (write_file path entry st) = (file_at st)(path \<mapsto> entry)"
  by (rule ext) (simp add: file_at_def write_file_def update_conv)

lemma file_at_remove [simp]: "file_at (remove_file path st) = (file_at st)(path := None)"
  by (rule ext) (simp add: file_at_def remove_file_def delete_conv)

lemma other_unchanged [simp]: "lr_other (write_file path entry st) = lr_other st" "lr_other (remove_file path st) = lr_other st"
  by (simp_all add: write_file_def remove_file_def)

lemma digest_path_ends: "ends_with SEED_RELAY_DIGEST_SUFFIX (digest_path_for key)"
  by (auto simp: digest_path_for_def ends_with_iff)

lemma digest_path_other: "usable_key faults k \<Longrightarrow> digest_path_for key \<noteq> k"
  using digest_path_ends by (auto simp: usable_key_def)

lemma digest_path_inj [simp]: "digest_path_for a = digest_path_for b \<longleftrightarrow> a = b"
  by (simp add: digest_path_for_def)

lemma short_path_invalid:
  "length (split_on (CHR ''/'') path) \<noteq> 4 \<Longrightarrow> \<not> kv_ok (validate_seed_relay_object_key path None)"
  unfolding validate_seed_relay_object_key_def Let_def prefix_count reject_key_def by simp

lemma no_short_file:
  assumes "local_inv sha faults st" "length (split_on (CHR ''/'') path) \<noteq> 4"
  shows "lstat st path = None \<or> lstat st path = Some Node_Dir"
  using assms short_path_invalid [OF assms(2)] by (auto simp: local_inv_def lstat_def)

lemma lstat_key:
  assumes "local_inv sha faults st" "kv_ok (validate_seed_relay_object_key key None)"
  shows "lstat st key = None \<or> lstat st key = Some Node_File"
  using assms by (auto simp: local_inv_def lstat_def)

lemma no_other_key:
  "local_inv sha faults st \<Longrightarrow> kv_ok (validate_seed_relay_object_key key None) \<Longrightarrow> lr_other st key = None"
  by (simp add: local_inv_def)

lemma key_contained:
  assumes inv: "local_inv sha faults st" and ok: "kv_ok (validate_seed_relay_object_key key None)"
  shows "check_seed_relay_object_containment st key = None"
proof -
  from ok obtain j name where key: "key = seed_relay_namespace j @ name" "is_valid_seed_relay_job_id j" "key_name_ok name"
    by (rule valid_keyD)
  note j = job_id_plain [OF key(2)]
  have segs: "split_on (CHR ''/'') key = [''lamasync'', ''seed'', j, name]"
    using segments_inside [of "j @ ''/'' @ name"] j(1) key(3)
    by (simp add: key(1) seed_relay_namespace_def split_on_append split_on_id key_name_ok_def)
  have whole: "join_with ''/'' [''lamasync'', ''seed'', j, name] = key"
    by (simp add: key(1) seed_relay_namespace_def SEED_OBJECT_KEY_PREFIX_def)
  have "lstat st ''lamasync'' = None \<or> lstat st ''lamasync'' = Some Node_Dir"
    "lstat st ''lamasync/seed'' = None \<or> lstat st ''lamasync/seed'' = Some Node_Dir"
    "lstat st (''lamasync/seed/'' @ j) = None \<or> lstat st (''lamasync/seed/'' @ j) = Some Node_Dir"
    using no_short_file [OF inv, of "''lamasync''"] no_short_file [OF inv, of "''lamasync/seed''"]
      no_short_file [OF inv, of "''lamasync/seed/'' @ j"] j(1) by (simp_all add: split_on_id)
  moreover have "lstat st key = None \<or> lstat st key = Some Node_File" by (rule lstat_key [OF inv ok])
  ultimately have "walk_components st [] [''lamasync'', ''seed'', j, name] = None"
    using whole by (auto simp: Let_def)
  moreover have "check_seed_relay_filesystem_containment st key = walk_components st [] [''lamasync'', ''seed'', j, name]"
    unfolding check_seed_relay_filesystem_containment_def segs Let_def using j(4-6) key(3) by (simp add: key_name_ok_def)
  moreover have "kv_error (validate_seed_relay_object_key key None) = None" using ok by (simp add: kv_error_None)
  ultimately show ?thesis by (simp add: check_seed_relay_object_containment_def resolve_seed_relay_object_path_def)
qed

lemma usable_contained:
  assumes "local_inv sha faults st" "usable_key faults key"
  shows "object_containment st key = None" "resolve_seed_relay_object_path key = None"
    "check_seed_relay_filesystem_containment st SEED_RELAY_TMP_DIR = None"
proof -
  show "object_containment st key = None"
    using assms key_contained [OF assms(1)] by (simp add: object_containment_def usable_key_def)
  show "resolve_seed_relay_object_path key = None"
    using assms(2) by (simp add: resolve_seed_relay_object_path_def usable_key_def kv_error_None)
  have segs: "split_on (CHR ''/'') SEED_RELAY_TMP_DIR = [SEED_RELAY_TMP_DIR]" by (simp add: SEED_RELAY_TMP_DIR_def)
  have "lstat st SEED_RELAY_TMP_DIR = None \<or> lstat st SEED_RELAY_TMP_DIR = Some Node_Dir"
    using no_short_file [OF assms(1), of SEED_RELAY_TMP_DIR] by (simp add: segs)
  then show "check_seed_relay_filesystem_containment st SEED_RELAY_TMP_DIR = None"
    unfolding check_seed_relay_filesystem_containment_def segs Let_def by (auto simp: SEED_RELAY_TMP_DIR_def)
qed

lemma trimmed_digest:
  assumes "hex64 h"
  shows "js_trim (h @ [CHR 0x0A]) = h"
proof -
  have sp: "is_hex_digit c \<Longrightarrow> \<not> js_space c" for c by (auto simp: is_hex_digit_def js_space_def Let_def)
  have h: "h \<noteq> []" "\<forall>c\<in>set h. \<not> js_space c" using assms sp by (auto simp: hex64_def list_all_iff)
  then have "\<not> js_space (hd h)" "\<not> js_space (hd (rev h))" by (simp_all add: hd_rev)
  then have "dropWhile js_space (h @ [CHR 0x0A]) = h @ [CHR 0x0A]" "dropWhile js_space (rev h) = rev h"
    using h(1) by (auto intro!: dropWhile_id)
  then show ?thesis by (simp add: js_trim_def js_space_def)
qed

lemma digest_written:
  assumes "hex64 (sha content)"
  shows "read_digest (write_file (digest_path_for key) (sha content @ [CHR 0x0A], now) st) key = Some (sha content)"
  using assms by (simp add: read_digest_def trimmed_digest)

text \<open>What a put does to a usable key.\<close>

lemma put_usable:
  assumes "local_inv sha faults st" "usable_key faults key"
  shows "local_put sha now faults key c d st =
    (case file_at st key of
       Some (x, t) \<Rightarrow>
         if safe_positive (fst d) \<and> int (length x) = fst d \<and> read_digest st key = Some (snd d)
           then (st, head_at st key) else (st, snd (local_put sha now faults key c d st))
     | None \<Rightarrow>
         if safe_positive (fst d) \<and> copy_matches sha c d
           then (let st2 = write_file (digest_path_for key) (sha c @ [CHR 0x0A], now) (write_file key (c, now) st)
                 in (st2, head_at st2 key))
         else (st, snd (local_put sha now faults key c d st)))"
  using assms(2) usable_contained [OF assms] no_other_key [OF assms(1), of key]
  by (auto simp: local_put_def head_at_def lstat_def usable_key_def Let_def split: option.splits if_splits)

lemma delete_usable:
  assumes "local_inv sha faults st" "usable_key faults key"
  shows "fst (local_delete faults key st) = remove_file (digest_path_for key) (remove_file key st)"
  using assms(2) usable_contained [OF assms] lstat_key [OF assms(1), of key]
  by (auto simp: local_delete_def delete_at_def usable_key_def Let_def)

lemma put_usable_state:
  assumes "local_inv sha faults st" "usable_key faults key"
  shows "fst (local_put sha now faults key c d st) = st \<or>
    (file_at st key = None \<and> fst (local_put sha now faults key c d st) =
       write_file (digest_path_for key) (sha c @ [CHR 0x0A], now) (write_file key (c, now) st))"
  by (subst (1 2) put_usable [OF assms]) (auto simp: Let_def split: option.split)

lemma inv_written:
  assumes inv: "local_inv sha faults st" and key: "usable_key faults key"
  shows "local_inv sha faults (write_file (digest_path_for key) (sha c @ [CHR 0x0A], now) (write_file key (c, now) st))"
    (is "local_inv _ _ ?st")
proof -
  have hex: "hex64 (sha c)" using inv by (simp add: local_inv_def)
  have "\<exists>x. holds_at ?st k = Some x \<and> d = sha x" if k: "usable_key faults k" and d: "read_digest ?st k = Some d" for k d
  proof (cases "k = key")
    case True
    then show ?thesis using d hex digest_path_other [OF key, of key] by (simp add: digest_written holds_at_def)
  next
    case False
    then have "read_digest ?st k = read_digest st k" using digest_path_other [OF key, of k] by (simp add: read_digest_def)
    moreover have "holds_at ?st k = holds_at st k" using False digest_path_other [OF k, of key] by (simp add: holds_at_def)
    ultimately show ?thesis using inv k d by (simp add: local_inv_def)
  qed
  then show ?thesis using inv key by (auto simp: local_inv_def usable_key_def)
qed

lemma inv_removed:
  assumes inv: "local_inv sha faults st" and key: "usable_key faults key"
  shows "local_inv sha faults (remove_file (digest_path_for key) (remove_file key st))" (is "local_inv _ _ ?st")
proof -
  have "\<exists>x. holds_at ?st k = Some x \<and> d = sha x" if k: "usable_key faults k" and d: "read_digest ?st k = Some d" for k d
  proof (cases "k = key")
    case True
    then show ?thesis using d by (simp add: read_digest_def)
  next
    case False
    then have "read_digest ?st k = read_digest st k" using digest_path_other [OF key, of k] by (simp add: read_digest_def)
    moreover have "holds_at ?st k = holds_at st k" using False digest_path_other [OF k, of key] by (simp add: holds_at_def)
    ultimately show ?thesis using inv k d by (simp add: local_inv_def)
  qed
  then show ?thesis using inv by (auto simp: local_inv_def)
qed

lemma put_accepted:
  assumes inv: "local_inv sha faults st" and key: "usable_key faults key"
    and ok: "snd (local_put sha now faults key c d st) = Relay_Ok head"
  shows "\<exists>x. holds_at (fst (local_put sha now faults key c d st)) key = Some x \<and> (int (length x), sha x) = d"
proof (cases "file_at st key")
  case None
  then show ?thesis
    using ok usable_contained [OF inv key] no_other_key [OF inv, of key] key digest_path_other [OF key, of key]
    by (auto simp: local_put_def lstat_def usable_key_def Let_def holds_at_def copy_matches_def prod_eq_iff split: if_splits)
next
  case (Some e)
  then have "read_digest st key = Some (snd d)" "int (length (fst e)) = fst d"
      "fst (local_put sha now faults key c d st) = st"
    using ok usable_contained [OF inv key]
    by (auto simp: local_put_def lstat_def head_at_def split: if_splits prod.splits)
  then show ?thesis using inv key Some by (force simp: local_inv_def holds_at_def prod_eq_iff)
qed

lemma put_refused:
  assumes inv: "local_inv sha faults st" and key: "usable_key faults key"
    and old: "holds_at st key = Some x" "(int (length x), sha x) \<noteq> d"
  shows "\<exists>e nf. snd (local_put sha now faults key c d st) = Relay_Fail e nf"
proof (cases "snd (local_put sha now faults key c d st)")
  case (Relay_Ok head)
  have "fst (local_put sha now faults key c d st) = st" using put_usable_state [OF inv key, of now c d] old(1)
    by (auto simp: holds_at_def)
  then show ?thesis using put_accepted [OF inv key Relay_Ok] old by simp
qed auto

lemma get_stored:
  assumes inv: "local_inv sha faults st" and key: "usable_key faults key" and "holds_at st key = Some x"
  shows "local_get sha faults key (int (length x), sha x) f st = (Relay_Ok (int (length x), sha x), Some (Some x))"
  using assms(3) key usable_contained [OF inv key] by (auto simp: local_get_def holds_at_def lstat_def usable_key_def)

interpretation local_store: relay_store sha "create_local_seed_relay_store sha now faults" holds_at "usable_key faults"
    "local_inv sha faults" for sha now faults
proof
  fix s key k c d f x and head :: seed_relay_object_head
  let ?store = "create_local_seed_relay_store sha now faults"
  have put [simp]: "st_put ?store = local_put sha now faults" and get [simp]: "st_get ?store = local_get sha faults"
    and del: "fst (st_delete ?store key s) = fst (local_delete faults key s)"
    by (simp_all add: create_local_seed_relay_store_def split: prod.split)
  assume inv: "local_inv sha faults s" and key: "usable_key faults key"
  note state = put_usable_state [OF inv key, of now c d]
  show "local_inv sha faults (fst (st_put ?store key c d s))" using state inv inv_written [OF inv key] by auto
  show "holds_at (fst (st_put ?store key c d s)) k = holds_at s k" if "usable_key faults k" "k \<noteq> key"
    using state that digest_path_other [OF that(1), of key] by (auto simp: holds_at_def)
  show "holds_at (fst (st_put ?store key c d s)) key = Some x" if "holds_at s key = Some x"
    using state that by (auto simp: holds_at_def)
  show "\<exists>e nf. snd (st_put ?store key c d s) = Relay_Fail e nf" if "holds_at s key = Some x" "(int (length x), sha x) \<noteq> d"
    using put_refused [OF inv key that] by simp
  show "\<exists>x. holds_at (fst (st_put ?store key c d s)) key = Some x \<and> (int (length x), sha x) = d"
    if "snd (st_put ?store key c d s) = Relay_Ok head" using put_accepted [OF inv key] that by simp
  show "st_get ?store key (int (length x), sha x) f s = (Relay_Ok (int (length x), sha x), Some (Some x))"
    if "holds_at s key = Some x" using get_stored [OF inv key that] by simp
  show "local_inv sha faults (fst (st_delete ?store key s))"
    unfolding del delete_usable [OF inv key] by (rule inv_removed [OF inv key])
  show "holds_at (fst (st_delete ?store key s)) k = holds_at s k" if "usable_key faults k" "k \<noteq> key"
    unfolding del delete_usable [OF inv key] using that digest_path_other [OF that(1), of key] by (simp add: holds_at_def)
  show "holds_at (fst (st_delete ?store key s)) key = None"
    unfolding del delete_usable [OF inv key] by (simp add: holds_at_def)
qed

text \<open>
  C12. What the source uploads the target can fetch. After an accepted upload to a local store,
  and whatever happens to other objects meanwhile, a download with the facts that the upload
  returned succeeds.
\<close>

theorem uploaded_archives_can_be_downloaded:
  assumes "local_inv sha faults s" and "usable_key faults (seed_relay_archive_key (ui_job_id input) (ui_format input))"
    and "upload_seed_archive sha (create_local_seed_relay_store sha now faults) input disk s = (s', r)" and "ur_ok r"
    and "local_inv sha faults t"
    and "holds_at t (seed_relay_archive_key (ui_job_id input) (ui_format input)) =
      holds_at s' (seed_relay_archive_key (ui_job_id input) (ui_format input))"
  shows "dr_ok (snd (download_seed_archive sha rm_works (create_local_seed_relay_store sha now faults) (ur_archive r)
    (ui_job_id input) dest later disk' t))"
  using assms by (rule local_store.uploaded_archive_downloads)

text \<open>
  A refused upload deletes the archive it was refused for. The store protects an object by
  refusing a put of another content, and the failure path of the upload then deletes the object.
\<close>

theorem refused_uploads_delete_the_stored_archive:
  assumes "local_inv sha faults s" and "usable_key faults (seed_relay_archive_key (ui_job_id input) (ui_format input))"
    and "seed_relay_key_belongs_to_job (seed_relay_archive_key (ui_job_id input) (ui_format input)) (ui_job_id input)"
    and "disk (ui_archive_path input) = Some (Some content)" "content \<noteq> []" "hex64 (ui_manifest_fingerprint input)"
    and "holds_at s (seed_relay_archive_key (ui_job_id input) (ui_format input)) = Some x"
    and "(int (length x), sha x) \<noteq> (int (length content), sha content)"
  shows "holds_at (fst (upload_seed_archive sha (create_local_seed_relay_store sha now faults) input disk s))
    (seed_relay_archive_key (ui_job_id input) (ui_format input)) = None"
  using assms by (rule local_store.refused_upload_deletes)

definition toy_sha :: "string \<Rightarrow> string" where
  "toy_sha s = sample_digest"

definition empty_relay :: local_relay where
  "empty_relay = \<lparr> lr_files = [], lr_other = (\<lambda>path. None) \<rparr>"

definition sample_input :: upload_seed_archive_input where
  "sample_input = \<lparr> ui_job_id = ''j1'', ui_format = TarGz, ui_archive_path = ''/work/payload.archive'',
     ui_manifest_fingerprint = sample_digest, ui_member_count = 2, ui_now = 10 \<rparr>"

definition sample_disk :: local_disk where
  "sample_disk = (\<lambda>path. None)(''/work/payload.archive'' := Some (Some ''archive''))"

definition no_faults :: "string \<Rightarrow> io_fault" where
  "no_faults key = No_Fault"

lemma empty_relay_inv: "local_inv toy_sha no_faults empty_relay"
  by (simp add: local_inv_def empty_relay_def toy_sha_def sample_digest_ok file_at_def read_digest_def)

lemma sample_key_usable: "usable_key no_faults (seed_relay_archive_key ''j1'' TarGz)"
  by code_simp

lemma sample_upload_ok:
  "ur_ok (snd (upload_seed_archive toy_sha (create_local_seed_relay_store toy_sha 5 no_faults) sample_input sample_disk empty_relay))"
  by code_simp

theorem uploaded_archives_can_be_downloaded_witness:
  "dr_ok (snd (download_seed_archive toy_sha (\<lambda>path. True) (create_local_seed_relay_store toy_sha 5 no_faults)
     (ur_archive (snd (upload_seed_archive toy_sha (create_local_seed_relay_store toy_sha 5 no_faults) sample_input sample_disk empty_relay)))
     ''j1'' ''/target/payload.archive'' 20 (\<lambda>path. None)
     (fst (upload_seed_archive toy_sha (create_local_seed_relay_store toy_sha 5 no_faults) sample_input sample_disk empty_relay))))"
proof -
  let ?up = "upload_seed_archive toy_sha (create_local_seed_relay_store toy_sha 5 no_faults) sample_input sample_disk empty_relay"
  have key: "usable_key no_faults (seed_relay_archive_key (ui_job_id sample_input) (ui_format sample_input))"
    using sample_key_usable by (simp add: sample_input_def)
  have inv: "local_inv toy_sha no_faults (fst ?up)"
    by (rule local_store.upload_stores(1) [OF empty_relay_inv key prod.collapse [symmetric] sample_upload_ok])
  show ?thesis
    using uploaded_archives_can_be_downloaded [OF empty_relay_inv key prod.collapse [symmetric] sample_upload_ok inv refl,
        where rm_works = "\<lambda>path. True" and dest = "''/target/payload.archive''" and later = 20 and disk' = "\<lambda>path. None"]
    by (simp add: sample_input_def)
qed

definition stored_relay :: local_relay where
  "stored_relay = fst (local_put toy_sha 5 no_faults (seed_relay_archive_key ''j1'' TarGz) ''an older archive'' (16, sample_digest) empty_relay)"

theorem refused_uploads_delete_the_stored_archive_witness:
  "holds_at (fst (upload_seed_archive toy_sha (create_local_seed_relay_store toy_sha 5 no_faults) sample_input sample_disk stored_relay))
     (seed_relay_archive_key ''j1'' TarGz) = None \<and>
   holds_at stored_relay (seed_relay_archive_key ''j1'' TarGz) = Some ''an older archive''"
proof -
  have inv: "local_inv toy_sha no_faults stored_relay"
    unfolding stored_relay_def
    using local_store.put_inv [OF empty_relay_inv sample_key_usable] by (simp add: create_local_seed_relay_store_def)
  have old: "holds_at stored_relay (seed_relay_archive_key ''j1'' TarGz) = Some ''an older archive''" by code_simp
  have own: "seed_relay_key_belongs_to_job (seed_relay_archive_key ''j1'' TarGz) ''j1''" by code_simp
  show ?thesis
    using refused_uploads_delete_the_stored_archive [OF inv, of sample_input sample_disk "''archive''" "''an older archive''" 5]
      sample_key_usable own old
    by (simp add: sample_input_def sample_disk_def sample_digest_ok)
qed

end
