(* ===== verification/Lease_Supervisor.thy ===== *)
theory Lease_Supervisor
  imports Seed_Phases
begin

text \<open>
  The supervisor of a seed job's lease, \<open>daemon/src/seed-lease-supervisor.ts\<close>. Its timer runs
  while the run awaits something, so what happens during an await is a list of events: the
  timer fires, and the renewal it started is answered (a refusal together with the read that
  explains it). The clock, the answers of the server and the outcome of a stage are arguments.
\<close>

section \<open>Answers of the server\<close>

datatype 'a api_answer = Api_Ok 'a | Api_Status nat string | Api_Unreachable string

fun is_refusal :: "'a api_answer \<Rightarrow> bool" where
  "is_refusal (Api_Status status _) \<longleftrightarrow> 400 \<le> status \<and> status < 500"
| "is_refusal _ \<longleftrightarrow> False"

datatype stop_reason =
    Stop_Job_Ended seed_phase
  | Stop_Renewal_Refused
  | Stop_Not_Renewed int int
  | Stop_Unreadable
  | Stop_Wrong_Side seed_job_phase seed_job_role
  | Stop_Phase_Refused seed_job_phase

section \<open>The supervisor\<close>

record lease_supervisor =
  sv_lease_ms :: rat
  sv_interval_ms :: rat
  sv_grace_ms :: rat
  sv_stopped :: "stop_reason option"
  sv_timer :: bool
  sv_ticking :: bool
  sv_last_renewed :: int

definition clamp_rat :: "rat \<Rightarrow> rat \<Rightarrow> rat \<Rightarrow> rat" where
  "clamp_rat value lo hi = min (max value lo) hi"

definition new_supervisor :: "rat option \<Rightarrow> rat option \<Rightarrow> int \<Rightarrow> lease_supervisor" where
  "new_supervisor lease interval now =
     (let l = clamp_rat (or_default lease (of_int SEED_JOB_LEASE_MS)) 30000 3600000;
          i = clamp_rat (or_default interval (of_int SEED_JOB_LEASE_RENEW_INTERVAL_MS)) 1000 (of_int \<lfloor>l / 2\<rfloor>)
      in \<lparr> sv_lease_ms = l, sv_interval_ms = i, sv_grace_ms = max (l - i) 1000, sv_stopped = None,
           sv_timer = False, sv_ticking = False, sv_last_renewed = now \<rparr>)"

definition sv_start :: "lease_supervisor \<Rightarrow> lease_supervisor" where
  "sv_start sv = (if sv_timer sv \<or> sv_stopped sv \<noteq> None then sv else sv\<lparr> sv_timer := True \<rparr>)"

definition sv_stop :: "lease_supervisor \<Rightarrow> lease_supervisor" where
  "sv_stop sv = sv\<lparr> sv_timer := False \<rparr>"

definition mark_renewed :: "int \<Rightarrow> lease_supervisor \<Rightarrow> lease_supervisor" where
  "mark_renewed now sv = sv\<lparr> sv_last_renewed := now \<rparr>"

definition latch :: "stop_reason \<Rightarrow> lease_supervisor \<Rightarrow> lease_supervisor" where
  "latch reason sv = (if sv_stopped sv \<noteq> None then sv else sv_stop (sv\<lparr> sv_stopped := Some reason \<rparr>))"

definition on_renewal_failure ::
    "int \<Rightarrow> seed_phase api_answer \<Rightarrow> seed_phase api_answer \<Rightarrow> lease_supervisor \<Rightarrow> lease_supervisor" where
  "on_renewal_failure now failure explained sv =
     (if is_refusal failure then
        (case explained of
           Api_Ok phase \<Rightarrow> if is_terminal_seed_phase phase then latch (Stop_Job_Ended phase) sv else latch Stop_Renewal_Refused sv
         | _ \<Rightarrow> latch Stop_Renewal_Refused sv)
      else
        (let silent_for = now - sv_last_renewed sv
         in if of_int silent_for \<ge> sv_grace_ms sv
            then latch (Stop_Not_Renewed (js_round (of_int silent_for / 1000)) (js_round (sv_lease_ms sv / 1000))) sv
            else sv))"

text \<open>The two halves of a tick: it is started unless one is in flight, and it is answered.\<close>

definition tick_begin :: "lease_supervisor \<Rightarrow> lease_supervisor" where
  "tick_begin sv = (if sv_stopped sv \<noteq> None \<or> sv_ticking sv then sv else sv\<lparr> sv_ticking := True \<rparr>)"

definition tick_end ::
    "int \<Rightarrow> seed_phase api_answer \<Rightarrow> seed_phase api_answer \<Rightarrow> lease_supervisor \<Rightarrow> lease_supervisor" where
  "tick_end now answer explained sv =
     (let sv' = (case answer of
                   Api_Ok phase \<Rightarrow>
                     (let renewed = mark_renewed now sv
                      in if is_terminal_seed_phase phase then latch (Stop_Job_Ended phase) renewed else renewed)
                 | failure \<Rightarrow> on_renewal_failure now failure explained sv)
      in sv'\<lparr> sv_ticking := False \<rparr>)"

datatype supervisor_event = Timer_Fires | Renewal_Answered int "seed_phase api_answer" "seed_phase api_answer"

fun observe :: "supervisor_event \<Rightarrow> lease_supervisor \<Rightarrow> lease_supervisor" where
  "observe Timer_Fires sv = (if sv_timer sv then tick_begin sv else sv)"
| "observe (Renewal_Answered now answer explained) sv =
     (if sv_ticking sv then tick_end now answer explained sv else sv)"

definition during :: "supervisor_event list \<Rightarrow> lease_supervisor \<Rightarrow> lease_supervisor" where
  "during events sv = fold observe events sv"

text \<open>The check before an irreversible step: the state afterwards, and the stop it throws.\<close>

definition verify_authority ::
    "supervisor_event list \<Rightarrow> seed_phase api_answer \<Rightarrow> lease_supervisor \<Rightarrow> lease_supervisor \<times> stop_reason option" where
  "verify_authority events answer sv =
     (case sv_stopped sv of
        Some r \<Rightarrow> (sv, Some r)
      | None \<Rightarrow>
          (let sv1 = during events sv
           in case answer of
                Api_Ok phase \<Rightarrow>
                  (let sv2 = (if is_terminal_seed_phase phase then latch (Stop_Job_Ended phase) sv1 else sv1)
                   in (sv2, sv_stopped sv2))
              | failure \<Rightarrow>
                  if is_refusal failure then (let sv2 = latch Stop_Unreadable sv1 in (sv2, sv_stopped sv2))
                  else (sv1, None)))"

text \<open>A stage under supervision. It yields a value or throws (\<open>None\<close>); a stop comes before both.\<close>

definition run_stage ::
    "supervisor_event list \<Rightarrow> 'a \<Rightarrow> lease_supervisor \<Rightarrow> lease_supervisor \<times> (stop_reason + 'a)" where
  "run_stage events result sv =
     (case sv_stopped sv of
        Some r \<Rightarrow> (sv, Inl r)
      | None \<Rightarrow>
          (let sv1 = during events sv
           in case sv_stopped sv1 of Some r \<Rightarrow> (sv1, Inl r) | None \<Rightarrow> (sv1, Inr result)))"

section \<open>The latch\<close>

lemma latch_stopped [simp]: "sv_stopped (latch r sv) \<noteq> None"
  by (simp add: latch_def sv_stop_def)

lemma latch_keeps: "sv_stopped sv = Some r \<Longrightarrow> latch r' sv = sv"
  by (simp add: latch_def)

lemma tick_end_keeps: "sv_stopped sv = Some r \<Longrightarrow> sv_stopped (tick_end now a e sv) = Some r"
  by (auto simp: tick_end_def on_renewal_failure_def mark_renewed_def latch_def Let_def split: api_answer.split)

lemma event_keeps: "sv_stopped sv = Some r \<Longrightarrow> sv_stopped (observe ev sv) = Some r"
  by (cases ev) (auto simp: tick_begin_def tick_end_keeps)

text \<open>A stop is final and keeps its reason.\<close>

lemma stops_are_final: "sv_stopped sv = Some r \<Longrightarrow> sv_stopped (during events sv) = Some r"
  unfolding during_def by (induction events arbitrary: sv) (auto simp: event_keeps)

lemma event_times [simp]:
  "sv_lease_ms (observe ev sv) = sv_lease_ms sv" "sv_interval_ms (observe ev sv) = sv_interval_ms sv"
  "sv_grace_ms (observe ev sv) = sv_grace_ms sv"
  by (cases ev; auto simp: tick_begin_def tick_end_def on_renewal_failure_def mark_renewed_def latch_def sv_stop_def Let_def
      split: api_answer.split)+

lemma during_times [simp]:
  "sv_lease_ms (during events sv) = sv_lease_ms sv" "sv_interval_ms (during events sv) = sv_interval_ms sv"
  "sv_grace_ms (during events sv) = sv_grace_ms sv"
  unfolding during_def by (induction events arbitrary: sv) auto

text \<open>A stage never succeeds after a stop.\<close>

lemma stage_runs_live: "run_stage events x sv = (sv', Inr y) \<Longrightarrow> sv_stopped sv = None \<and> sv_stopped sv' = None \<and> y = x"
  by (auto simp: run_stage_def Let_def split: option.splits)

section \<open>The lease\<close>

lemma new_supervisor_times:
  assumes "sv = new_supervisor lease interval now"
  shows "sv_grace_ms sv = sv_lease_ms sv - sv_interval_ms sv" and "30000 \<le> sv_lease_ms sv" and "1000 \<le> sv_interval_ms sv"
    and "sv_interval_ms sv \<le> sv_lease_ms sv / 2"
proof -
  define l where "l = clamp_rat (or_default lease (of_int SEED_JOB_LEASE_MS)) 30000 3600000"
  have l: "30000 \<le> l" by (simp add: l_def clamp_rat_def)
  then have "15000 \<le> \<lfloor>l / 2\<rfloor>" by (simp add: le_floor_iff)
  then have half: "(15000 :: rat) \<le> of_int \<lfloor>l / 2\<rfloor>" "of_int \<lfloor>l / 2\<rfloor> \<le> l / 2"
    using of_int_floor_le [of "l / 2"] by (metis of_int_le_iff of_int_numeral, blast)
  have "sv_lease_ms sv = l" and i: "sv_interval_ms sv = clamp_rat (or_default interval (of_int SEED_JOB_LEASE_RENEW_INTERVAL_MS)) 1000 (of_int \<lfloor>l / 2\<rfloor>)"
    and g: "sv_grace_ms sv = max (l - sv_interval_ms sv) 1000"
    using assms by (simp_all add: new_supervisor_def l_def Let_def)
  moreover have "1000 \<le> sv_interval_ms sv" "sv_interval_ms sv \<le> of_int \<lfloor>l / 2\<rfloor>" using half unfolding i clamp_rat_def by auto
  ultimately show "sv_grace_ms sv = sv_lease_ms sv - sv_interval_ms sv" "30000 \<le> sv_lease_ms sv" "1000 \<le> sv_interval_ms sv"
    "sv_interval_ms sv \<le> sv_lease_ms sv / 2" using l half by auto
qed

lemma tick_end_silence:
  assumes "sv_stopped (tick_end now answer explained sv) = None" and "0 < sv_grace_ms sv"
  shows "of_int (now - sv_last_renewed (tick_end now answer explained sv)) < sv_grace_ms sv"
  using assms
  by (auto simp: tick_end_def on_renewal_failure_def mark_renewed_def latch_def sv_stop_def Let_def
      split: api_answer.splits if_splits)

text \<open>
  C14. No work on a lapsed lease. After any history, when a renewal is answered and the
  supervisor does not stop, then until the next answer, which comes at most one interval and
  one latency later, less than the granted lease plus that latency has passed since the last
  renewal that succeeded.
\<close>

theorem supervised_work_stays_inside_the_lease:
  assumes "sv = during events (sv_start (new_supervisor lease interval t0))"
    and "sv_stopped (tick_end now answer explained sv) = None"
    and "of_int (u - now) \<le> sv_interval_ms sv + latency"
  shows "of_int (u - sv_last_renewed (tick_end now answer explained sv)) < sv_lease_ms sv + latency"
proof -
  have times: "sv_grace_ms sv = sv_lease_ms sv - sv_interval_ms sv" "0 < sv_grace_ms sv"
    using new_supervisor_times [OF refl, of lease interval t0] by (simp_all add: assms(1) sv_start_def)
  have "of_int (u - sv_last_renewed (tick_end now answer explained sv)) =
      of_int (u - now) + (of_int (now - sv_last_renewed (tick_end now answer explained sv)) :: rat)" by simp
  also have "\<dots> < (sv_interval_ms sv + latency) + sv_grace_ms sv"
    using assms(3) tick_end_silence [OF assms(2) times(2)] by linarith
  finally show ?thesis using times(1) by simp
qed

theorem supervised_work_stays_inside_the_lease_witness:
  "of_int (590000 - sv_last_renewed (tick_end 530000 (Api_Unreachable ''reset'') (Api_Unreachable ''reset'')
     (during [Timer_Fires] (sv_start (new_supervisor None None 0))))) < (600000 :: rat)"
proof -
  let ?sv = "during [Timer_Fires] (sv_start (new_supervisor None None 0))"
  have "sv_stopped (tick_end 530000 (Api_Unreachable ''reset'') (Api_Unreachable ''reset'') ?sv) = None" by code_simp
  moreover have "sv_interval_ms ?sv = 60000" "sv_lease_ms ?sv = 600000" by code_simp+
  ultimately show ?thesis
    using supervised_work_stays_inside_the_lease [OF refl, of 530000 "Api_Unreachable ''reset''" "Api_Unreachable ''reset''"
        "[Timer_Fires]" None None 0 590000 0] by simp
qed

text \<open>
  C15. The check before an irreversible step can overlook a stop. When the read it makes fails in
  transport, it returns without looking at the latch again: a stop that a tick latched while the
  read was under way does not keep the caller from going on.
\<close>

theorem authority_check_can_overlook_a_stop:
  assumes "sv_stopped sv = None" and "sv_stopped (during events sv) = Some r" and "\<not> is_refusal answer"
    and "\<nexists>phase. answer = Api_Ok phase"
  shows "\<exists>sv'. verify_authority events answer sv = (sv', None) \<and> sv_stopped sv' = Some r"
  using assms by (cases answer) (auto simp: verify_authority_def Let_def)

definition cancelled_meanwhile :: "supervisor_event list" where
  "cancelled_meanwhile = [Timer_Fires, Renewal_Answered 70000 (Api_Status 409 ''the job ended'') (Api_Ok Cancelled)]"

theorem authority_check_can_overlook_a_stop_witness:
  "\<exists>sv'. verify_authority cancelled_meanwhile (Api_Unreachable ''reset'') (sv_start (new_supervisor None None 0)) = (sv', None) \<and>
     sv_stopped sv' = Some (Stop_Job_Ended Cancelled)"
proof (rule authority_check_can_overlook_a_stop)
  show "sv_stopped (sv_start (new_supervisor None None 0)) = None" by code_simp
  show "sv_stopped (during cancelled_meanwhile (sv_start (new_supervisor None None 0))) = Some (Stop_Job_Ended Cancelled)" by code_simp
qed simp_all

text \<open>When the read succeeds or is refused, the check is right.\<close>

lemma authority_check_sees_a_stop:
  assumes "verify_authority events answer sv = (sv', None)" and "is_refusal answer \<or> (\<exists>phase. answer = Api_Ok phase)"
  shows "sv_stopped sv' = None \<and> (\<exists>phase. answer = Api_Ok phase \<and> \<not> is_terminal_seed_phase phase)"
  using assms
  by (auto simp: verify_authority_def Let_def latch_def sv_stop_def split: option.splits api_answer.splits if_splits)

end
