(* ===== verification/Seed_Runner.thy ===== *)
theory Seed_Runner
  imports Lease_Supervisor Seed_Transport Seed_Jobs Seed_Staging Destinations
begin

text \<open>
  The seed side of the daemon, \<open>daemon/src/seed-runner.ts\<close>. What the runner asks of the world is
  a record of operations over a world of any type: the server's answers, the disk, the stages
  of the transport, rclone, and the supervisor events that happen while it awaits. A run is a
  function on the runner's state (\<open>SeedSideRunner\<close>) and ends with a value, a stop or an error.
  \<open>rn_trace\<close> lists what the runner has done. The test seam is closed, as in a production build;
  the wording of results and logs is left out.
\<close>

section \<open>What a run is given\<close>

record seed_relay_space =
  sp_job_id :: string
  sp_role :: seed_job_role
  sp_backend_id :: string
  sp_endpoint :: string
  sp_bucket :: string
  sp_region :: "string option"
  sp_access_key_id :: string
  sp_secret_access_key :: string

record host_config =
  hc_folders :: "folder list"
  hc_assignments :: "folder_assignment list"
  hc_rclone_config :: string
  hc_seed_relay :: "seed_relay_space option"

definition seed_relay_space_from_host_config ::
    "host_config option \<Rightarrow> string \<Rightarrow> seed_job_role \<Rightarrow> seed_relay_space option" where
  "seed_relay_space_from_host_config config job_id role =
     (case Option.bind config hc_seed_relay of
        None \<Rightarrow> None
      | Some space \<Rightarrow>
          if sp_job_id space \<noteq> job_id \<or> sp_role space \<noteq> role then None
          else if length (sp_endpoint space) = 0 \<or> length (sp_bucket space) = 0 then None
          else if length (sp_access_key_id space) = 0 \<or> length (sp_secret_access_key space) = 0 then None
          else Some space)"

definition get_remote_name :: "string option \<Rightarrow> string \<Rightarrow> string" where
  "get_remote_name remote folder_id =
     (case remote of Some r \<Rightarrow> if length r > 0 then r else ''lamasync-'' @ folder_id | None \<Rightarrow> ''lamasync-'' @ folder_id)"

datatype peer_error = Peer_Not_Sync | Peer_Bad_Remote string | Peer_Bad_Destination | Peer_Empty_Destination

definition resolve_seed_baseline_peer :: "folder \<Rightarrow> folder_assignment \<Rightarrow> peer_error + string" where
  "resolve_seed_baseline_peer f a =
     (if fo_type f \<noteq> FSync then Inl Peer_Not_Sync
      else
        (let remote = get_remote_name (fa_remote_name a) (fo_id f)
         in if length remote = 0 \<or> CHR '':'' \<in> set remote \<or> list_ex js_space remote then Inl (Peer_Bad_Remote remote)
            else case resolve_destination f a of
              Inl _ \<Rightarrow> Inl Peer_Bad_Destination
            | Inr destination \<Rightarrow>
                if length destination = 0 then Inl Peer_Empty_Destination
                else Inr (remote @ '':'' @ destination)))"

section \<open>The zero-change verdict\<close>

text \<open>Removing \<open>/\u001b\[[0-9;]*m/g\<close>.\<close>

function strip_ansi :: "string \<Rightarrow> string" where
  "strip_ansi s =
     (case s of
        [] \<Rightarrow> []
      | c # cs \<Rightarrow>
          (let rest = (if c = CHR 0x1B \<and> cs \<noteq> [] \<and> hd cs = CHR ''[''
                       then dropWhile (\<lambda>d. is_digit d \<or> d = CHR '';'') (tl cs) else [])
           in if rest \<noteq> [] \<and> hd rest = CHR ''m'' then strip_ansi (tl rest) else c # strip_ansi cs))"
  by pat_completeness auto

termination strip_ansi
proof (relation "measure length")
  fix s :: string and c cs rest
  assume s: "s = c # cs" and rest: "rest = (if c = CHR 0x1B \<and> cs \<noteq> [] \<and> hd cs = CHR ''[''
      then dropWhile (\<lambda>d. is_digit d \<or> d = CHR '';'') (tl cs) else [])"
  have "length rest \<le> length cs"
    using length_dropWhile_le [of "\<lambda>d. is_digit d \<or> d = CHR '';''" "tl cs"] by (auto simp: rest)
  then show "(tl rest, s) \<in> measure length" using s by simp
qed auto

declare strip_ansi.simps [simp del]

definition includes_text :: "string \<Rightarrow> string \<Rightarrow> bool" where
  "includes_text pattern s \<longleftrightarrow> list_ex (\<lambda>i. starts_with pattern (drop i s)) [0..<length s + 1]"

record resync_stats =
  rs_transfers :: "json option"
  rs_bytes :: "json option"
  rs_errors :: "json option"

definition newer_stat :: "json \<Rightarrow> string \<Rightarrow> json option \<Rightarrow> json option" where
  "newer_stat stats name old = (if obj_get stats name = JUndef \<or> obj_get stats name = JNull then old else Some (obj_get stats name))"

definition read_stats_line :: "(string \<Rightarrow> json option) \<Rightarrow> string \<Rightarrow> resync_stats \<Rightarrow> resync_stats" where
  "read_stats_line parse line st =
     (let trimmed = js_trim line
      in if \<not> starts_with ''{'' trimmed then st
         else case parse trimmed of
           None \<Rightarrow> st
         | Some parsed \<Rightarrow>
             (let stats = obj_get parsed ''stats''
              in \<lparr> rs_transfers = newer_stat stats ''totalTransfers'' (rs_transfers st),
                   rs_bytes = newer_stat stats ''bytes'' (rs_bytes st),
                   rs_errors = newer_stat stats ''errors'' (rs_errors st) \<rparr>))"

datatype baseline_failure =
    Resync_Exited int | Resync_Not_Successful | Resync_Moved "json option" "json option" | Resync_Errors json
  | Resync_Changed | No_Assignment | No_Peer peer_error

text \<open>\<open>None\<close> is the verdict that nothing moved.\<close>

definition seed_baseline_verdict :: "(string \<Rightarrow> json option) \<Rightarrow> int \<Rightarrow> string \<Rightarrow> baseline_failure option" where
  "seed_baseline_verdict parse exit_code stderr =
     (let raw = strip_ansi stderr;
          stats = fold (read_stats_line parse) (split_on (CHR 0x0A) raw)
            \<lparr> rs_transfers = None, rs_bytes = None, rs_errors = None \<rparr>
      in if exit_code \<noteq> 0 then Some (Resync_Exited exit_code)
         else if \<not> includes_text ''Bisync successful'' raw then Some Resync_Not_Successful
         else if rs_transfers stats \<noteq> Some (JNum (Fin 0)) \<or> rs_bytes stats \<noteq> Some (JNum (Fin 0))
           then Some (Resync_Moved (rs_transfers stats) (rs_bytes stats))
         else case (case rs_errors stats of Some e \<Rightarrow> if e \<noteq> JNum (Fin 0) then Some e else None | None \<Rightarrow> None) of
           Some e \<Rightarrow> Some (Resync_Errors e)
         | None \<Rightarrow>
             if includes_text ''File changed'' raw \<or> includes_text ''Safety abort'' raw then Some Resync_Changed
             else None)"

text \<open>The command line of the resync.\<close>

definition bisync_args :: "string \<Rightarrow> string \<Rightarrow> string \<Rightarrow> string \<Rightarrow> string \<Rightarrow> string list" where
  "bisync_args peer local_path config_path state_dir rules_path =
     [''rclone'', ''bisync'', peer, local_path, ''--config'', config_path, ''--workdir'', state_dir, ''--filter-from'', rules_path,
      ''--use-json-log'', ''-v'', ''--resilient'', ''--recover'', ''--max-lock'', ''10m'', ''--resync'']"

section \<open>The world\<close>

text \<open>A stage gives a value or throws.\<close>

datatype 'a stage_outcome = Gave 'a | Threw

record created_archive =
  ca_sha256 :: "string option"
  ca_bytes :: "int option"
  ca_member_count :: int

text \<open>The resync is asked for peer, local path and the config that is written to a private file.\<close>

record 'w seed_env =
  ev_host_id :: string
  ev_job_id :: string
  ev_payload_role :: seed_job_role
  ev_lease_ms :: "rat option"
  ev_interval_ms :: "rat option"
  ev_parse :: "string \<Rightarrow> json option"
  ev_now :: "'w \<Rightarrow> int"
  ev_config :: "'w \<Rightarrow> host_config option"
  ev_refresh :: "'w \<Rightarrow> 'w \<times> bool"
  ev_sleep :: "'w \<Rightarrow> 'w"
  ev_events :: "'w \<Rightarrow> 'w \<times> supervisor_event list"
  ev_get_job :: "'w \<Rightarrow> 'w \<times> seed_job api_answer"
  ev_progress :: "seed_job_phase \<Rightarrow> rat \<Rightarrow> int option \<Rightarrow> int option \<Rightarrow> 'w \<Rightarrow> 'w \<times> seed_job api_answer"
  ev_facts :: "seed_job_archive_facts \<Rightarrow> 'w \<Rightarrow> 'w \<times> seed_job api_answer"
  ev_complete :: "bool \<Rightarrow> 'w \<Rightarrow> 'w \<times> seed_job api_answer"
  ev_manifest :: "folder_assignment \<Rightarrow> 'w \<Rightarrow> 'w \<times> seed_manifest option stage_outcome"
  ev_tar :: "'w \<Rightarrow> bool"
  ev_archive :: "seed_archive_format \<Rightarrow> string \<Rightarrow> seed_manifest \<Rightarrow> 'w \<Rightarrow> 'w \<times> created_archive option stage_outcome"
  ev_upload :: "seed_archive_format \<Rightarrow> string \<Rightarrow> int \<Rightarrow> 'w \<Rightarrow> 'w \<times> upload_seed_archive_result stage_outcome"
  ev_upload_manifest :: "seed_manifest \<Rightarrow> 'w \<Rightarrow> 'w \<times> (transport_error + seed_manifest_metadata) stage_outcome"
  ev_download :: "seed_job_archive_facts \<Rightarrow> 'w \<Rightarrow> 'w \<times> bool stage_outcome"
  ev_download_manifest :: "seed_job_archive_facts \<Rightarrow> 'w \<Rightarrow> 'w \<times> (transport_error + seed_manifest_document) stage_outcome"
  ev_extract :: "seed_archive_format \<Rightarrow> string \<Rightarrow> 'w \<Rightarrow> 'w \<times> bool stage_outcome"
  ev_verify :: "string \<Rightarrow> seed_manifest_document \<Rightarrow> 'w \<Rightarrow> 'w \<times> bool stage_outcome"
  ev_publish :: "string \<Rightarrow> string \<Rightarrow> 'w \<Rightarrow> 'w \<times> bool"
  ev_resync :: "string \<Rightarrow> string \<Rightarrow> string \<Rightarrow> 'w \<Rightarrow> 'w \<times> (int \<times> string) stage_outcome"
  ev_remove :: "string \<Rightarrow> 'w \<Rightarrow> 'w \<times> bool"
  ev_cleanup :: "string list \<Rightarrow> seed_relay_cleanup \<Rightarrow> 'w \<Rightarrow> 'w"

datatype side_act =
    Entered seed_job_phase
  | Archived created_archive
  | Uploaded upload_seed_archive_result
  | Manifest_Uploaded seed_manifest_metadata
  | Authority_Checked
  | Recorded seed_job_archive_facts
  | Downloaded seed_job_archive_facts
  | Manifest_Read seed_manifest_document
  | Extracted string
  | Tree_Verified string seed_manifest_document
  | Published string string
  | Baseline_Proved
  | Completion_Reported
  | Failure_Reported
  | Path_Removed string
  | Objects_Deleted "string list"

record 'w side_runner =
  rn_world :: 'w
  rn_job :: seed_job
  rn_sup :: lease_supervisor
  rn_staging :: "string option"
  rn_published :: bool
  rn_cleaned :: bool
  rn_trace :: "side_act list"

datatype run_error =
    Not_Assigned | Refresh_Threw | Only_Sync | Manifest_Not_Built | No_Tar | Archive_Failed | Upload_Failed
  | Manifest_Upload_Failed | Facts_Not_Recorded | Job_Unreadable | Facts_Timed_Out | Download_Failed
  | Manifest_Download_Failed | No_Staging | Staging_Not_Cleared | Extraction_Failed | Verification_Failed
  | Publication_Failed | Baseline_Failed baseline_failure | Completion_Refused | Stage_Threw

datatype run_end = Stopped stop_reason | Broke run_error

type_synonym ('w, 'a) side = "'w side_runner \<Rightarrow> 'w side_runner \<times> (run_end + 'a)"

section \<open>Sequencing\<close>

definition and_then :: "('w, 'a) side \<Rightarrow> ('a \<Rightarrow> ('w, 'b) side) \<Rightarrow> ('w, 'b) side" where
  "and_then m f st = (case m st of (st', Inl e) \<Rightarrow> (st', Inl e) | (st', Inr x) \<Rightarrow> f x st')"

definition give :: "'a \<Rightarrow> ('w, 'a) side" where
  "give x st = (st, Inr x)"

definition throw :: "run_error \<Rightarrow> ('w, 'a) side" where
  "throw e st = (st, Inl (Broke e))"

definition require :: "bool \<Rightarrow> run_error \<Rightarrow> ('w, unit) side" where
  "require b e = (if b then give () else throw e)"

definition note_act :: "side_act \<Rightarrow> ('w, unit) side" where
  "note_act a st = (st\<lparr> rn_trace := rn_trace st @ [a] \<rparr>, Inr ())"

text \<open>What happens to the supervisor while the runner awaits.\<close>

definition await_events :: "'w seed_env \<Rightarrow> 'w side_runner \<Rightarrow> 'w side_runner \<times> supervisor_event list" where
  "await_events env st = (case ev_events env (rn_world st) of (w, evs) \<Rightarrow> (st\<lparr> rn_world := w \<rparr>, evs))"

text \<open>\<open>supervisor.run(stage)\<close>.\<close>

definition supervise :: "'w seed_env \<Rightarrow> ('w \<Rightarrow> 'w \<times> 'a stage_outcome) \<Rightarrow> ('w, 'a) side" where
  "supervise env stage st =
     (case sv_stopped (rn_sup st) of
        Some r \<Rightarrow> (st, Inl (Stopped r))
      | None \<Rightarrow>
          (case stage (rn_world st) of
             (w, out) \<Rightarrow>
               (case await_events env (st\<lparr> rn_world := w \<rparr>) of
                  (st1, evs) \<Rightarrow>
                    (case run_stage evs out (rn_sup st1) of
                       (sv, Inl r) \<Rightarrow> (st1\<lparr> rn_sup := sv \<rparr>, Inl (Stopped r))
                     | (sv, Inr Threw) \<Rightarrow> (st1\<lparr> rn_sup := sv \<rparr>, Inl (Broke Stage_Threw))
                     | (sv, Inr (Gave x)) \<Rightarrow> (st1\<lparr> rn_sup := sv \<rparr>, Inr x)))))"

fun phase_answer :: "seed_job api_answer \<Rightarrow> seed_phase api_answer" where
  "phase_answer (Api_Ok job) = Api_Ok (lf_phase job)"
| "phase_answer (Api_Status n s) = Api_Status n s"
| "phase_answer (Api_Unreachable s) = Api_Unreachable s"

definition check_authority :: "'w seed_env \<Rightarrow> ('w, unit) side" where
  "check_authority env st =
     (case sv_stopped (rn_sup st) of
        Some r \<Rightarrow> (st, Inl (Stopped r))
      | None \<Rightarrow>
          (case ev_get_job env (rn_world st) of
             (w, answer) \<Rightarrow>
               (case await_events env (st\<lparr> rn_world := w \<rparr>) of
                  (st1, evs) \<Rightarrow>
                    (case verify_authority evs (phase_answer answer) (rn_sup st1) of
                       (sv, Some r) \<Rightarrow> (st1\<lparr> rn_sup := sv \<rparr>, Inl (Stopped r))
                     | (sv, None) \<Rightarrow> note_act Authority_Checked (st1\<lparr> rn_sup := sv \<rparr>)))))"

text \<open>A call to the server that is not a stage: what it throws ends the run with the given error.\<close>

definition call_server :: "'w seed_env \<Rightarrow> run_error \<Rightarrow> ('w \<Rightarrow> 'w \<times> seed_job api_answer) \<Rightarrow> ('w, seed_job) side" where
  "call_server env e call st =
     (case call (rn_world st) of
        (w, answer) \<Rightarrow>
          (case await_events env (st\<lparr> rn_world := w \<rparr>) of
             (st1, evs) \<Rightarrow>
               (let st2 = st1\<lparr> rn_sup := during evs (rn_sup st1) \<rparr>
                in case answer of Api_Ok job \<Rightarrow> (st2, Inr job) | _ \<Rightarrow> (st2, Inl (Broke e)))))"

definition enter :: "'w seed_env \<Rightarrow> seed_job_role \<Rightarrow> seed_job_phase \<Rightarrow> int option \<Rightarrow> int option \<Rightarrow> ('w, unit) side" where
  "enter env role phase bytes_total entries_total st =
     (if seed_job_phase_role phase \<noteq> role then (st, Inl (Stopped (Stop_Wrong_Side phase (seed_job_phase_role phase))))
      else case sv_stopped (rn_sup st) of
        Some r \<Rightarrow> (st, Inl (Stopped r))
      | None \<Rightarrow>
          (case call_server env Job_Unreadable (ev_progress env phase (sv_lease_ms (rn_sup st)) bytes_total entries_total) st of
             (st1, Inl _) \<Rightarrow> (st1, Inl (Stopped (Stop_Phase_Refused phase)))
           | (st1, Inr job) \<Rightarrow>
               (let st2 = st1\<lparr> rn_job := job, rn_sup := mark_renewed (ev_now env (rn_world st1)) (rn_sup st1) \<rparr>
                in if is_terminal_seed_phase (lf_phase job) then (st2, Inl (Stopped (Stop_Job_Ended (lf_phase job))))
                   else note_act (Entered phase) st2)))"

section \<open>The assignment\<close>

definition assignment_in :: "host_config option \<Rightarrow> string \<Rightarrow> (folder_assignment \<times> folder) option" where
  "assignment_in config folder_id =
     (case config of
        None \<Rightarrow> None
      | Some c \<Rightarrow>
          (case (find (\<lambda>a. fa_folder_id a = folder_id) (hc_assignments c), find (\<lambda>f. fo_id f = folder_id) (hc_folders c)) of
             (Some a, Some f) \<Rightarrow> Some (a, f)
           | _ \<Rightarrow> None))"

text \<open>Two looks at the config, with a refresh after each one that fails but the last.\<close>

definition assignment :: "'w seed_env \<Rightarrow> ('w, folder_assignment \<times> folder) side" where
  "assignment env st =
     (case assignment_in (ev_config env (rn_world st)) (sj_folder_id (rn_job st)) of
        Some x \<Rightarrow> (st, Inr x)
      | None \<Rightarrow>
          (case ev_refresh env (rn_world st) of
             (w, False) \<Rightarrow> (st\<lparr> rn_world := w \<rparr>, Inl (Broke Refresh_Threw))
           | (w, True) \<Rightarrow>
               (let st1 = st\<lparr> rn_world := w \<rparr>
                in case assignment_in (ev_config env w) (sj_folder_id (rn_job st)) of
                     Some x \<Rightarrow> (st1, Inr x)
                   | None \<Rightarrow> (st1, Inl (Broke Not_Assigned)))))"

definition start_supervisor :: "('w, unit) side" where
  "start_supervisor st = (st\<lparr> rn_sup := sv_start (rn_sup st) \<rparr>, Inr ())"

section \<open>The source\<close>

definition upload_facts :: "upload_seed_archive_result \<Rightarrow> seed_manifest_metadata \<Rightarrow> seed_job_archive_facts" where
  "upload_facts up mm = (ur_archive up)
     \<lparr> af_manifest_object_key := Some (mm_object_key mm), af_manifest_bytes := Some (mm_bytes mm),
       af_manifest_sha256 := Some (mm_sha256 mm) \<rparr>"

definition build_manifest :: "'w seed_env \<Rightarrow> folder_assignment \<Rightarrow> ('w, seed_manifest) side" where
  "build_manifest env a =
     and_then (enter env Source_Role Measuring_Source None None) (\<lambda>_.
     and_then (supervise env (ev_manifest env a)) (\<lambda>built.
       case built of None \<Rightarrow> throw Manifest_Not_Built | Some m \<Rightarrow> give m))"

definition create_archive :: "'w seed_env \<Rightarrow> string \<Rightarrow> seed_manifest \<Rightarrow> ('w, created_archive) side" where
  "create_archive env local_path m =
     and_then (enter env Source_Role Archiving_Source None (Some (int (length (sm_entries m))))) (\<lambda>_ st.
     and_then (supervise env (ev_archive env (af_format (sj_archive (rn_job st))) local_path m)) (\<lambda>out.
       case out of
         None \<Rightarrow> throw Archive_Failed
       | Some c \<Rightarrow>
           if ca_sha256 c = None then throw Archive_Failed
           else and_then (note_act (Archived c)) (\<lambda>_. give c)) st)"

definition upload_both :: "'w seed_env \<Rightarrow> seed_manifest \<Rightarrow> created_archive \<Rightarrow> ('w, seed_job_archive_facts) side" where
  "upload_both env m c =
     and_then (enter env Source_Role Uploading_Archive (ca_bytes c) None) (\<lambda>_ st.
     and_then (supervise env (ev_upload env (af_format (sj_archive (rn_job st))) (sm_fingerprint m) (ca_member_count c))) (\<lambda>up.
     and_then (require (ur_ok up \<and> ur_metadata up \<noteq> None) Upload_Failed) (\<lambda>_.
     and_then (note_act (Uploaded up)) (\<lambda>_.
     and_then (supervise env (ev_upload_manifest env m)) (\<lambda>out.
       case out of
         Inl e \<Rightarrow> throw Manifest_Upload_Failed
       | Inr mm \<Rightarrow> and_then (note_act (Manifest_Uploaded mm)) (\<lambda>_. give (upload_facts up mm)))))) st)"

definition record_facts :: "'w seed_env \<Rightarrow> seed_job_archive_facts \<Rightarrow> ('w, unit) side" where
  "record_facts env facts =
     and_then (check_authority env) (\<lambda>_.
     and_then (call_server env Facts_Not_Recorded (ev_facts env facts)) (\<lambda>_. note_act (Recorded facts)))"

definition run_source :: "'w seed_env \<Rightarrow> ('w, unit) side" where
  "run_source env =
     and_then start_supervisor (\<lambda>_.
     and_then (assignment env) (\<lambda>(a, f).
     and_then (require (fo_type f \<noteq> FBackup) Only_Sync) (\<lambda>_.
     and_then (build_manifest env a) (\<lambda>m st.
     and_then (require (ev_tar env (rn_world st)) No_Tar) (\<lambda>_.
     and_then (create_archive env (fa_local_path a) m) (\<lambda>c.
     and_then (upload_both env m c) (\<lambda>facts.
       record_facts env facts))) st))))"

section \<open>The target\<close>

text \<open>\<open>readJob\<close>: adopts the job; a failed read is \<open>None\<close>, an ended job a stop.\<close>

definition read_job :: "'w seed_env \<Rightarrow> ('w, seed_job option) side" where
  "read_job env st =
     (case ev_get_job env (rn_world st) of
        (w, Api_Ok job) \<Rightarrow>
          (let st1 = st\<lparr> rn_world := w, rn_job := job \<rparr>
           in if is_terminal_seed_phase (lf_phase job) then (st1, Inl (Stopped (Stop_Job_Ended (lf_phase job))))
              else (st1, Inr (Some job)))
      | (w, _) \<Rightarrow> (st\<lparr> rn_world := w \<rparr>, Inr None))"

text \<open>The wait for the source's facts. \<open>None\<close>: it never returns.\<close>

partial_function (option) wait_for_source_facts ::
    "'w seed_env \<Rightarrow> int \<Rightarrow> 'w side_runner \<Rightarrow> ('w side_runner \<times> (run_end + seed_job)) option" where
  "wait_for_source_facts env deadline st =
     (case read_job env st of
        (st1, Inl e) \<Rightarrow> Some (st1, Inl e)
      | (st1, Inr None) \<Rightarrow> Some (st1, Inl (Broke Job_Unreadable))
      | (st1, Inr (Some job)) \<Rightarrow>
          if seed_archive_facts_complete (sj_archive job) then Some (st1, Inr job)
          else if ev_now env (rn_world st1) > deadline then Some (st1, Inl (Broke Facts_Timed_Out))
          else wait_for_source_facts env deadline (st1\<lparr> rn_world := ev_sleep env (rn_world st1) \<rparr>))"

declare wait_for_source_facts.simps [code]

definition fetch_archive :: "'w seed_env \<Rightarrow> seed_job \<Rightarrow> ('w, unit) side" where
  "fetch_archive env job =
     and_then (enter env Target_Role Downloading_Archive (af_bytes (sj_archive job)) None) (\<lambda>_.
     and_then (supervise env (ev_download env (sj_archive job))) (\<lambda>ok.
     and_then (require ok Download_Failed) (\<lambda>_.
       note_act (Downloaded (sj_archive job)))))"

definition fetch_manifest :: "'w seed_env \<Rightarrow> seed_job \<Rightarrow> ('w, seed_manifest_document) side" where
  "fetch_manifest env job =
     and_then (enter env Target_Role Verifying_Archive None None) (\<lambda>_.
     and_then (supervise env (ev_download_manifest env (sj_archive job))) (\<lambda>out.
       case out of
         Inl e \<Rightarrow> throw Manifest_Download_Failed
       | Inr d \<Rightarrow> and_then (note_act (Manifest_Read d)) (\<lambda>_. give d)))"

definition clear_staging :: "'w seed_env \<Rightarrow> string \<Rightarrow> ('w, unit) side" where
  "clear_staging env staging st =
     (case ev_remove env staging (rn_world st) of
        (w, False) \<Rightarrow> (st\<lparr> rn_world := w \<rparr>, Inl (Broke Staging_Not_Cleared))
      | (w, True) \<Rightarrow> note_act (Path_Removed staging) (st\<lparr> rn_world := w, rn_staging := Some staging \<rparr>))"

definition extract_and_verify ::
    "'w seed_env \<Rightarrow> seed_job \<Rightarrow> string \<Rightarrow> seed_manifest_document \<Rightarrow> ('w, unit) side" where
  "extract_and_verify env job staging d =
     and_then (enter env Target_Role Extracting_Target None (Some (int (length (mf_entries d))))) (\<lambda>_.
     and_then (supervise env (ev_extract env (af_format (sj_archive job)) staging)) (\<lambda>extracted.
     and_then (require extracted Extraction_Failed) (\<lambda>_.
     and_then (note_act (Extracted staging)) (\<lambda>_.
     and_then (enter env Target_Role Verifying_Target None None) (\<lambda>_.
     and_then (supervise env (ev_verify env staging d)) (\<lambda>verified.
     and_then (require verified Verification_Failed) (\<lambda>_.
       note_act (Tree_Verified staging d))))))))"

definition publish :: "'w seed_env \<Rightarrow> string \<Rightarrow> string \<Rightarrow> ('w, unit) side" where
  "publish env staging target =
     and_then (enter env Target_Role Publishing None None) (\<lambda>_.
     and_then (check_authority env) (\<lambda>_ st.
       (case ev_publish env staging target (rn_world st) of
          (w, False) \<Rightarrow> (st\<lparr> rn_world := w \<rparr>, Inl (Broke Publication_Failed))
        | (w, True) \<Rightarrow> note_act (Published staging target) (st\<lparr> rn_world := w, rn_published := True \<rparr>))))"

text \<open>\<open>runBaselineValidation\<close>, a stage: the peer is resolved from the config of that moment.\<close>

definition run_baseline_validation :: "'w seed_env \<Rightarrow> string \<Rightarrow> 'w \<Rightarrow> 'w \<times> baseline_failure option stage_outcome" where
  "run_baseline_validation env folder_id w =
     (case ev_config env w of
        None \<Rightarrow> (w, Gave (Some No_Assignment))
      | Some c \<Rightarrow>
          (case assignment_in (Some c) folder_id of
             None \<Rightarrow> (w, Gave (Some No_Assignment))
           | Some (a, f) \<Rightarrow>
               (case resolve_seed_baseline_peer f a of
                  Inl e \<Rightarrow> (w, Gave (Some (No_Peer e)))
                | Inr peer \<Rightarrow>
                    (case ev_resync env peer (fa_local_path a) (hc_rclone_config c) w of
                       (w', Threw) \<Rightarrow> (w', Threw)
                     | (w', Gave (code, stderr)) \<Rightarrow> (w', Gave (seed_baseline_verdict (ev_parse env) code stderr))))))"

definition validate_baseline :: "'w seed_env \<Rightarrow> ('w, unit) side" where
  "validate_baseline env =
     and_then (enter env Target_Role Baseline_Validation None None) (\<lambda>_ st.
     and_then (supervise env (run_baseline_validation env (sj_folder_id (rn_job st)))) (\<lambda>verdict.
       case verdict of Some why \<Rightarrow> throw (Baseline_Failed why) | None \<Rightarrow> note_act Baseline_Proved) st)"

definition report_completed :: "'w seed_env \<Rightarrow> ('w, unit) side" where
  "report_completed env =
     and_then (check_authority env) (\<lambda>_.
     and_then (call_server env Completion_Refused (ev_complete env True)) (\<lambda>_. note_act Completion_Reported))"

text \<open>Everything after the wait.\<close>

definition take_over :: "'w seed_env \<Rightarrow> string \<Rightarrow> seed_job \<Rightarrow> ('w, unit) side" where
  "take_over env local_path job =
     and_then start_supervisor (\<lambda>_.
     and_then (fetch_archive env job) (\<lambda>_.
     and_then (fetch_manifest env job) (\<lambda>d.
       case seed_staging_path local_path (ev_job_id env) of
         None \<Rightarrow> throw No_Staging
       | Some staging \<Rightarrow>
           and_then (clear_staging env staging) (\<lambda>_.
           and_then (extract_and_verify env job staging d) (\<lambda>_.
           and_then (publish env staging local_path) (\<lambda>_.
           and_then (validate_baseline env) (\<lambda>_. report_completed env)))))))"

section \<open>Leaving nothing behind\<close>

definition cleanup_staging :: "'w seed_env \<Rightarrow> 'w side_runner \<Rightarrow> 'w side_runner" where
  "cleanup_staging env st =
     (case rn_staging st of
        None \<Rightarrow> st
      | Some staging \<Rightarrow>
          if rn_published st then st
          else (let st1 = st\<lparr> rn_world := fst (ev_remove env staging (rn_world st)), rn_staging := None \<rparr>
                in st1\<lparr> rn_trace := rn_trace st1 @ [Path_Removed staging] \<rparr>))"

definition release :: "'w seed_env \<Rightarrow> 'w side_runner \<Rightarrow> 'w side_runner" where
  "release env st = cleanup_staging env (st\<lparr> rn_sup := sv_stop (rn_sup st) \<rparr>)"

definition relay_keys :: "'w seed_env \<Rightarrow> seed_job \<Rightarrow> string list" where
  "relay_keys env job = [seed_relay_archive_key (ev_job_id env) (af_format (sj_archive job)), seed_relay_manifest_key (ev_job_id env)]"

definition cleanup_relay_objects :: "'w seed_env \<Rightarrow> 'w side_runner \<Rightarrow> 'w side_runner" where
  "cleanup_relay_objects env st =
     (if rn_cleaned st then st
      else (let keys = relay_keys env (rn_job st)
            in st\<lparr> rn_cleaned := True, rn_world := ev_cleanup env keys (af_cleanup (sj_archive (rn_job st))) (rn_world st),
                   rn_trace := rn_trace st @ [Objects_Deleted keys] \<rparr>))"

definition fail_job :: "'w seed_env \<Rightarrow> 'w side_runner \<Rightarrow> 'w side_runner" where
  "fail_job env st =
     (let st1 = fst (call_server env Completion_Refused (ev_complete env False) st)
      in st1\<lparr> rn_trace := rn_trace st1 @ [Failure_Reported] \<rparr>)"

text \<open>The first lines of the target's half: the local path of a sync assignment.\<close>

definition choose_target :: "'w seed_env \<Rightarrow> ('w, string) side" where
  "choose_target env =
     and_then (assignment env) (\<lambda>(a, f).
     and_then (require (fo_type f \<noteq> FBackup) Only_Sync) (\<lambda>_. give (fa_local_path a)))"

text \<open>The target's half, the catch clauses and the final release.\<close>

definition run_target :: "'w seed_env \<Rightarrow> 'w side_runner \<Rightarrow> ('w side_runner \<times> (run_end + unit)) option" where
  "run_target env st =
     (case choose_target env st of
        (st1, Inl e) \<Rightarrow> Some (st1, Inl e)
      | (st1, Inr local_path) \<Rightarrow>
          (case wait_for_source_facts env (ev_now env (rn_world st1) + 30 * 60000) st1 of
             None \<Rightarrow> None
           | Some (st2, Inl e) \<Rightarrow> Some (st2, Inl e)
           | Some (st2, Inr job) \<Rightarrow>
               Some (case take_over env local_path job st2 of
                       (st3, Inl e) \<Rightarrow> (st3, Inl e)
                     | (st3, Inr _) \<Rightarrow> (cleanup_relay_objects env st3, Inr ()))))"

datatype action_outcome =
    No_Space | Unreadable_Job | Not_A_Party | Other_Side | Already_Over seed_phase
  | Side_Done | Side_Stopped stop_reason | Side_Failed run_error

definition settle :: "'w seed_env \<Rightarrow> 'w side_runner \<times> (run_end + unit) \<Rightarrow> 'w side_runner \<times> action_outcome" where
  "settle env run =
     (case run of
        (st, Inr _) \<Rightarrow> (release env st, Side_Done)
      | (st, Inl (Stopped r)) \<Rightarrow> (release env (cleanup_relay_objects env st), Side_Stopped r)
      | (st, Inl (Broke e)) \<Rightarrow> (release env (cleanup_relay_objects env (fail_job env st)), Side_Failed e))"

definition new_runner :: "'w seed_env \<Rightarrow> seed_job \<Rightarrow> 'w \<Rightarrow> 'w side_runner" where
  "new_runner env job w =
     \<lparr> rn_world = w, rn_job = job, rn_sup = new_supervisor (ev_lease_ms env) (ev_interval_ms env) (ev_now env w),
       rn_staging = None, rn_published = False, rn_cleaned = False, rn_trace = [] \<rparr>"

text \<open>The space issued for this job and side, after one refresh where the config has none.\<close>

definition issued_space :: "'w seed_env \<Rightarrow> 'w \<Rightarrow> 'w \<times> seed_relay_space option" where
  "issued_space env w =
     (case seed_relay_space_from_host_config (ev_config env w) (ev_job_id env) (ev_payload_role env) of
        Some space \<Rightarrow> (w, Some space)
      | None \<Rightarrow>
          (let w' = fst (ev_refresh env w)
           in (w', seed_relay_space_from_host_config (ev_config env w') (ev_job_id env) (ev_payload_role env))))"

text \<open>The world and the trace at the end, and the outcome; \<open>None\<close> where the wait never returns.\<close>

definition run_seed_action :: "'w seed_env \<Rightarrow> 'w \<Rightarrow> ('w \<times> side_act list \<times> action_outcome) option" where
  "run_seed_action env w =
     (case issued_space env w of
        (w1, None) \<Rightarrow> Some (w1, [], No_Space)
      | (w1, Some space) \<Rightarrow>
          (case ev_get_job env w1 of
             (w2, Api_Ok job) \<Rightarrow>
               (case seed_job_role_for (sj_host_id job) (sj_source_host_id job) (Some (ev_host_id env)) of
                  None \<Rightarrow> Some (w2, [], Not_A_Party)
                | Some role \<Rightarrow>
                    if role \<noteq> ev_payload_role env then Some (w2, [], Other_Side)
                    else if is_terminal_seed_phase (lf_phase job) then Some (w2, [], Already_Over (lf_phase job))
                    else map_option (\<lambda>run. case settle env run of (st, outcome) \<Rightarrow> (rn_world st, rn_trace st, outcome))
                      (case role of
                         Source_Role \<Rightarrow> Some (run_source env (new_runner env job w2))
                       | Target_Role \<Rightarrow> run_target env (new_runner env job w2)))
           | (w2, _) \<Rightarrow> Some (w2, [], Unreadable_Job)))"

section \<open>Reasoning about runs\<close>

text \<open>From a state with \<open>P\<close> the run ends normally with \<open>Q\<close> or early with \<open>E\<close>.\<close>

definition triple :: "('w side_runner \<Rightarrow> bool) \<Rightarrow> ('w, 'a) side \<Rightarrow> ('a \<Rightarrow> 'w side_runner \<Rightarrow> bool) \<Rightarrow> ('w side_runner \<Rightarrow> bool) \<Rightarrow> bool" where
  "triple P m Q E \<longleftrightarrow> (\<forall>st. P st \<longrightarrow> (case m st of (st', Inr x) \<Rightarrow> Q x st' | (st', Inl e) \<Rightarrow> E st'))"

named_theorems triples

lemma triple_then:
  assumes "triple P m R E" and "\<And>x. triple (R x) (f x) Q E"
  shows "triple P (and_then m f) Q E"
  using assms unfolding triple_def and_then_def by (fastforce split: prod.splits sum.splits)

lemma triple_state: "(\<And>y. triple P (m y) Q E) \<Longrightarrow> triple P (\<lambda>st. m (g st) st) Q E"
  by (simp add: triple_def)

lemma triple_give [triples]: "triple (Q x) (give x) Q E"
  by (simp add: triple_def give_def)

lemma triple_throw: "(\<And>st. P st \<Longrightarrow> E st) \<Longrightarrow> triple P (throw e) Q E"
  by (simp add: triple_def throw_def)

lemma triple_require: "(\<And>st. P st \<Longrightarrow> E st) \<Longrightarrow> triple P (require b e) (\<lambda>_. P) E"
  by (simp add: triple_def require_def give_def throw_def)

lemma triple_weaken:
  "triple P m Q E \<Longrightarrow> (\<And>st. P' st \<Longrightarrow> P st) \<Longrightarrow> (\<And>x st. Q x st \<Longrightarrow> Q' x st) \<Longrightarrow> (\<And>st. E st \<Longrightarrow> E' st) \<Longrightarrow> triple P' m Q' E'"
  unfolding triple_def by (fastforce split: prod.splits sum.splits)

text \<open>Predicates that only look at the trace and the published flag.\<close>

definition on_trace :: "(side_act list \<Rightarrow> bool \<Rightarrow> bool) \<Rightarrow> 'w side_runner \<Rightarrow> bool" where
  "on_trace p st \<longleftrightarrow> p (rn_trace st) (rn_published st)"

lemma on_trace_awaited: "await_events env st = (st', evs) \<Longrightarrow> rn_trace st' = rn_trace st \<and> rn_published st' = rn_published st"
  by (auto simp: await_events_def split: prod.splits)

lemma triple_note: "triple (on_trace p) (note_act a) (\<lambda>_. on_trace (\<lambda>tr b. \<exists>tr0. p tr0 b \<and> tr = tr0 @ [a])) E"
  by (auto simp: triple_def note_act_def on_trace_def)

lemma triple_supervise: "triple (on_trace p) (supervise env stage) (\<lambda>_. on_trace p) (on_trace p)"
  by (auto simp: triple_def supervise_def on_trace_def dest!: on_trace_awaited
      split: prod.splits sum.splits option.splits stage_outcome.splits)

lemma triple_call: "triple (on_trace p) (call_server env e call) (\<lambda>_. on_trace p) (on_trace p)"
  by (auto simp: triple_def call_server_def on_trace_def Let_def dest!: on_trace_awaited
      split: prod.splits sum.splits api_answer.splits)

lemma call_server_trace:
  "call_server env e call st = (st', r) \<Longrightarrow> rn_trace st' = rn_trace st \<and> rn_published st' = rn_published st"
  by (auto simp: call_server_def Let_def dest!: on_trace_awaited split: prod.splits sum.splits api_answer.splits)

lemma triple_enter:
  "triple (on_trace p) (enter env role phase b e) (\<lambda>_. on_trace (\<lambda>tr f. \<exists>tr0. p tr0 f \<and> tr = tr0 @ [Entered phase])) (on_trace p)"
  by (auto simp: triple_def enter_def on_trace_def note_act_def Let_def dest!: call_server_trace
      split: prod.splits sum.splits option.splits)

lemma triple_authority:
  "triple (on_trace p) (check_authority env) (\<lambda>_. on_trace (\<lambda>tr f. \<exists>tr0. p tr0 f \<and> tr = tr0 @ [Authority_Checked])) (on_trace p)"
  by (auto simp: triple_def check_authority_def on_trace_def note_act_def dest!: on_trace_awaited
      split: prod.splits sum.splits option.splits)

lemma triple_start: "triple (on_trace p) start_supervisor (\<lambda>_. on_trace p) E"
  by (simp add: triple_def start_supervisor_def on_trace_def)

lemma assignment_trace: "assignment env st = (st', r) \<Longrightarrow> rn_trace st' = rn_trace st \<and> rn_published st' = rn_published st"
  by (auto simp: assignment_def Let_def split: option.splits prod.splits bool.splits)

text \<open>With an exact trace: what has been done so far, and nothing is published yet.\<close>

definition did :: "side_act list \<Rightarrow> side_act list \<Rightarrow> bool \<Rightarrow> bool" where
  "did xs tr published \<longleftrightarrow> tr = xs \<and> \<not> published"

text \<open>What an early end may show: no publication, or the whole protocol before it and no removal after it.\<close>

definition publish_protocol :: "seed_job_archive_facts \<Rightarrow> seed_manifest_document \<Rightarrow> string \<Rightarrow> string \<Rightarrow> side_act list" where
  "publish_protocol facts d staging target =
     [Entered Downloading_Archive, Downloaded facts, Entered Verifying_Archive, Manifest_Read d, Path_Removed staging,
      Entered Extracting_Target, Extracted staging, Entered Verifying_Target, Tree_Verified staging d,
      Entered Publishing, Authority_Checked, Published staging target]"

definition unpublished_trace :: "side_act list \<Rightarrow> bool \<Rightarrow> bool" where
  "unpublished_trace tr published \<longleftrightarrow> \<not> published \<and> (\<forall>s t. Published s t \<notin> set tr)"

definition published_trace :: "side_act list \<Rightarrow> side_act list \<Rightarrow> bool \<Rightarrow> bool" where
  "published_trace protocol tr published \<longleftrightarrow>
     published \<and> (\<exists>post. tr = protocol @ post \<and> (\<forall>p. Path_Removed p \<notin> set post) \<and> (\<forall>s t. Published s t \<notin> set post))"

lemma triple_did:
  assumes "triple (on_trace (did xs)) m (\<lambda>x. on_trace (q x)) (on_trace (did xs))"
    and "\<And>x tr b. q x tr b \<Longrightarrow> did (ys x) tr b" and "\<forall>s t. Published s t \<notin> set xs"
  shows "triple (on_trace (did xs)) m (\<lambda>x. on_trace (did (ys x))) (on_trace unpublished_trace)"
  by (rule triple_weaken [OF assms(1)]) (use assms(2,3) in \<open>auto simp: on_trace_def did_def unpublished_trace_def\<close>)

definition no_publication :: "side_act list \<Rightarrow> bool" where
  "no_publication xs \<longleftrightarrow> (\<forall>s t. Published s t \<notin> set xs)"

lemma no_publication_simps [simp]:
  "no_publication []" "no_publication (xs @ ys) \<longleftrightarrow> no_publication xs \<and> no_publication ys"
  "no_publication (a # xs) \<longleftrightarrow> (\<forall>s t. a \<noteq> Published s t) \<and> no_publication xs"
  by (auto simp: no_publication_def)

lemma did_unpublished: "no_publication xs \<Longrightarrow> on_trace (did xs) st \<Longrightarrow> on_trace unpublished_trace st"
  by (auto simp: on_trace_def did_def unpublished_trace_def no_publication_def)

lemma did_enter [triples]:
  "no_publication xs \<Longrightarrow>
     triple (on_trace (did xs)) (enter env role phase b e) (\<lambda>_. on_trace (did (xs @ [Entered phase]))) (on_trace unpublished_trace)"
  by (rule triple_did [OF triple_enter]) (auto simp: did_def no_publication_def)

lemma did_authority [triples]:
  "no_publication xs \<Longrightarrow>
     triple (on_trace (did xs)) (check_authority env) (\<lambda>_. on_trace (did (xs @ [Authority_Checked]))) (on_trace unpublished_trace)"
  by (rule triple_did [OF triple_authority]) (auto simp: did_def no_publication_def)

lemma did_supervise [triples]:
  "no_publication xs \<Longrightarrow> triple (on_trace (did xs)) (supervise env stage) (\<lambda>_. on_trace (did xs)) (on_trace unpublished_trace)"
  by (rule triple_did [OF triple_supervise]) (auto simp: no_publication_def)

lemma did_note [triples]: "triple (on_trace (did xs)) (note_act a) (\<lambda>_. on_trace (did (xs @ [a]))) E"
  by (auto simp: triple_def note_act_def on_trace_def did_def)

lemma did_require [triples]:
  "no_publication xs \<Longrightarrow> triple (on_trace (did xs)) (require b e) (\<lambda>_. on_trace (did xs)) (on_trace unpublished_trace)"
  by (rule triple_require) (rule did_unpublished)

lemma did_throw [triples]: "no_publication xs \<Longrightarrow> triple (on_trace (did xs)) (throw e) Q (on_trace unpublished_trace)"
  by (rule triple_throw) (rule did_unpublished)

lemma did_start [triples]: "triple (on_trace (did xs)) start_supervisor (\<lambda>_. on_trace (did xs)) E"
  by (rule triple_start)

lemma did_clear [triples]:
  "no_publication xs \<Longrightarrow>
     triple (on_trace (did xs)) (clear_staging env staging) (\<lambda>_. on_trace (did (xs @ [Path_Removed staging]))) (on_trace unpublished_trace)"
  by (auto simp: triple_def clear_staging_def on_trace_def did_def unpublished_trace_def note_act_def no_publication_def
      split: prod.splits bool.splits)

lemma did_fetch_archive [triples]:
  "no_publication xs \<Longrightarrow> triple (on_trace (did xs)) (fetch_archive env job)
     (\<lambda>_. on_trace (did (xs @ [Entered Downloading_Archive, Downloaded (sj_archive job)]))) (on_trace unpublished_trace)"
  unfolding fetch_archive_def
  by (rule triple_then did_enter did_supervise did_require | simp)+
    (use did_note [of "xs @ [Entered Downloading_Archive]"] in simp)

lemma did_fetch_manifest [triples]:
  "no_publication xs \<Longrightarrow> triple (on_trace (did xs)) (fetch_manifest env job)
     (\<lambda>d. on_trace (did (xs @ [Entered Verifying_Archive, Manifest_Read d]))) (on_trace unpublished_trace)"
  unfolding fetch_manifest_def
  apply (rule triple_then, erule did_enter, rule triple_then, rule did_supervise, simp)
  subgoal for _ out
    using did_note [of "xs @ [Entered Verifying_Archive]"]
    by (cases out) (auto intro!: did_throw triple_then triple_give)
  done

lemma did_extract [triples]:
  "no_publication xs \<Longrightarrow> triple (on_trace (did xs)) (extract_and_verify env job staging d)
     (\<lambda>_. on_trace (did (xs @ [Entered Extracting_Target, Extracted staging, Entered Verifying_Target, Tree_Verified staging d])))
     (on_trace unpublished_trace)"
  unfolding extract_and_verify_def
  by (rule triple_then did_enter did_supervise did_require did_note | simp)+
    (use did_note [of "xs @ [Entered Extracting_Target, Extracted staging, Entered Verifying_Target]"] in simp)

lemma did_publish:
  assumes "no_publication xs" "xs @ [Entered Publishing, Authority_Checked, Published staging target] = protocol"
  shows "triple (on_trace (did xs)) (publish env staging target) (\<lambda>_ st. rn_trace st = protocol \<and> rn_published st) (on_trace unpublished_trace)"
proof -
  have "triple (on_trace (did (xs @ [Entered Publishing, Authority_Checked])))
      (\<lambda>st. case ev_publish env staging target (rn_world st) of
          (w, False) \<Rightarrow> (st\<lparr> rn_world := w \<rparr>, Inl (Broke Publication_Failed))
        | (w, True) \<Rightarrow> note_act (Published staging target) (st\<lparr> rn_world := w, rn_published := True \<rparr>))
      (\<lambda>_ st. rn_trace st = protocol \<and> rn_published st) (on_trace unpublished_trace)"
    using assms
    by (auto simp: triple_def on_trace_def did_def unpublished_trace_def note_act_def no_publication_def
        split: prod.splits bool.splits)
  then show ?thesis
    unfolding publish_def using assms(1) did_authority [of "xs @ [Entered Publishing]" env]
    by (intro triple_then [OF did_enter [OF assms(1)]]) (rule triple_then, auto)
qed

section \<open>After the publication\<close>

definition quiet :: "side_act list \<Rightarrow> bool" where
  "quiet ys \<longleftrightarrow> (\<forall>p. Path_Removed p \<notin> set ys) \<and> no_publication ys"

lemma quiet_simps [simp]:
  "quiet []" "quiet (xs @ ys) \<longleftrightarrow> quiet xs \<and> quiet ys"
  "quiet (a # xs) \<longleftrightarrow> (\<forall>p. a \<noteq> Path_Removed p) \<and> (\<forall>s t. a \<noteq> Published s t) \<and> quiet xs"
  by (auto simp: quiet_def)

definition after :: "side_act list \<Rightarrow> side_act list \<Rightarrow> side_act list \<Rightarrow> bool \<Rightarrow> bool" where
  "after protocol ys tr published \<longleftrightarrow> tr = protocol @ ys \<and> published"

lemma after_published: "quiet ys \<Longrightarrow> on_trace (after protocol ys) st \<Longrightarrow> on_trace (published_trace protocol) st"
  by (auto simp: on_trace_def after_def published_trace_def quiet_def no_publication_def)

lemma triple_after:
  assumes "triple (on_trace (after protocol ys)) m (\<lambda>x. on_trace (q x)) (on_trace (after protocol ys))"
    and "\<And>x tr b. q x tr b \<Longrightarrow> after protocol (zs x) tr b" and "quiet ys"
  shows "triple (on_trace (after protocol ys)) m (\<lambda>x. on_trace (after protocol (zs x))) (on_trace (published_trace protocol))"
  by (rule triple_weaken [OF assms(1)]) (use assms(2) after_published [OF assms(3)] in \<open>auto simp: on_trace_def\<close>)

lemma after_enter [triples]:
  "quiet ys \<Longrightarrow> triple (on_trace (after protocol ys)) (enter env role phase b e)
     (\<lambda>_. on_trace (after protocol (ys @ [Entered phase]))) (on_trace (published_trace protocol))"
  by (rule triple_after [OF triple_enter]) (auto simp: after_def)

lemma after_authority [triples]:
  "quiet ys \<Longrightarrow> triple (on_trace (after protocol ys)) (check_authority env)
     (\<lambda>_. on_trace (after protocol (ys @ [Authority_Checked]))) (on_trace (published_trace protocol))"
  by (rule triple_after [OF triple_authority]) (auto simp: after_def)

lemma after_supervise [triples]:
  "quiet ys \<Longrightarrow> triple (on_trace (after protocol ys)) (supervise env stage)
     (\<lambda>_. on_trace (after protocol ys)) (on_trace (published_trace protocol))"
  by (rule triple_after [OF triple_supervise]) auto

lemma after_call [triples]:
  "quiet ys \<Longrightarrow> triple (on_trace (after protocol ys)) (call_server env e call)
     (\<lambda>_. on_trace (after protocol ys)) (on_trace (published_trace protocol))"
  by (rule triple_after [OF triple_call]) auto

lemma after_note [triples]: "triple (on_trace (after protocol ys)) (note_act a) (\<lambda>_. on_trace (after protocol (ys @ [a]))) E"
  by (auto simp: triple_def note_act_def on_trace_def after_def)

lemma after_throw [triples]: "quiet ys \<Longrightarrow> triple (on_trace (after protocol ys)) (throw e) Q (on_trace (published_trace protocol))"
  by (rule triple_throw) (rule after_published)

lemma after_baseline [triples]:
  "triple (on_trace (after protocol [])) (validate_baseline env)
     (\<lambda>_. on_trace (after protocol [Entered Baseline_Validation, Baseline_Proved])) (on_trace (published_trace protocol))"
  unfolding validate_baseline_def
  apply (rule triple_then, rule after_enter, simp, rule triple_state, rule triple_then, rule after_supervise, simp)
  subgoal for _ _ verdict
    using after_note [of protocol "[Entered Baseline_Validation]" Baseline_Proved]
    by (cases verdict) (auto intro: after_throw)
  done

lemma after_report [triples]:
  "quiet ys \<Longrightarrow> triple (on_trace (after protocol ys)) (report_completed env)
     (\<lambda>_. on_trace (after protocol (ys @ [Authority_Checked, Completion_Reported]))) (on_trace (published_trace protocol))"
  unfolding report_completed_def
  apply (rule triple_then, erule after_authority, rule triple_then, rule after_call, simp)
  using after_note [of protocol "ys @ [Authority_Checked]" Completion_Reported] by simp

section \<open>The whole target half\<close>

definition safe_trace :: "'w seed_env \<Rightarrow> string \<Rightarrow> seed_job_archive_facts \<Rightarrow> side_act list \<Rightarrow> bool \<Rightarrow> bool" where
  "safe_trace env target facts tr published \<longleftrightarrow>
     unpublished_trace tr published \<or>
     (\<exists>d staging. seed_staging_path target (ev_job_id env) = Some staging \<and>
        published_trace (publish_protocol facts d staging target) tr published)"

definition completed_trace :: "'w seed_env \<Rightarrow> string \<Rightarrow> seed_job_archive_facts \<Rightarrow> side_act list \<Rightarrow> bool \<Rightarrow> bool" where
  "completed_trace env target facts tr published \<longleftrightarrow>
     (\<exists>d staging. seed_staging_path target (ev_job_id env) = Some staging \<and>
        after (publish_protocol facts d staging target)
          [Entered Baseline_Validation, Baseline_Proved, Authority_Checked, Completion_Reported] tr published)"

lemma take_over_trace:
  "triple (on_trace (did [])) (take_over env target job)
     (\<lambda>_. on_trace (completed_trace env target (sj_archive job))) (on_trace (safe_trace env target (sj_archive job)))"
proof -
  let ?E = "on_trace (safe_trace env target (sj_archive job))"
  have weak: "triple P m Q (on_trace unpublished_trace) \<Longrightarrow> triple P m Q ?E" for P and m :: "('a, 'b) side" and Q
    by (erule triple_weaken) (auto simp: on_trace_def safe_trace_def)
  have tail: "triple (on_trace (did [Entered Downloading_Archive, Downloaded (sj_archive job), Entered Verifying_Archive, Manifest_Read d]))
      (case seed_staging_path target (ev_job_id env) of
         None \<Rightarrow> throw No_Staging
       | Some staging \<Rightarrow>
           and_then (clear_staging env staging) (\<lambda>_.
           and_then (extract_and_verify env job staging d) (\<lambda>_.
           and_then (publish env staging target) (\<lambda>_.
           and_then (validate_baseline env) (\<lambda>_. report_completed env)))))
      (\<lambda>_. on_trace (completed_trace env target (sj_archive job))) ?E" for d
  proof (cases "seed_staging_path target (ev_job_id env)")
    case None
    then show ?thesis by (simp add: weak did_throw)
  next
    case (Some staging)
    let ?pre = "[Entered Downloading_Archive, Downloaded (sj_archive job), Entered Verifying_Archive, Manifest_Read d]"
    let ?pr = "publish_protocol (sj_archive job) d staging target"
    have pub: "triple P m Q (on_trace (published_trace ?pr)) \<Longrightarrow> triple P m Q ?E" for P and m :: "('a, unit) side" and Q
      by (erule triple_weaken) (use Some in \<open>auto simp: on_trace_def safe_trace_def\<close>)
    have clear: "triple (on_trace (did ?pre)) (clear_staging env staging) (\<lambda>_. on_trace (did (?pre @ [Path_Removed staging]))) ?E"
      by (rule weak [OF did_clear]) simp
    have unpack: "triple (on_trace (did (?pre @ [Path_Removed staging]))) (extract_and_verify env job staging d)
        (\<lambda>_. on_trace (did ((?pre @ [Path_Removed staging]) @ [Entered Extracting_Target, Extracted staging, Entered Verifying_Target, Tree_Verified staging d]))) ?E"
      by (rule weak [OF did_extract]) simp
    have publ: "triple (on_trace (did ((?pre @ [Path_Removed staging]) @ [Entered Extracting_Target, Extracted staging, Entered Verifying_Target, Tree_Verified staging d])))
        (publish env staging target) (\<lambda>_. on_trace (after ?pr [])) ?E"
      by (rule weak, rule triple_weaken, rule did_publish [where protocol = ?pr])
        (auto simp: publish_protocol_def on_trace_def after_def)
    have base: "triple (on_trace (after ?pr [])) (validate_baseline env)
        (\<lambda>_. on_trace (after ?pr [Entered Baseline_Validation, Baseline_Proved])) ?E"
      by (rule pub [OF after_baseline])
    have rep: "triple (on_trace (after ?pr [Entered Baseline_Validation, Baseline_Proved])) (report_completed env)
        (\<lambda>_. on_trace (completed_trace env target (sj_archive job))) ?E"
      by (rule pub, rule triple_weaken, rule after_report) (use Some in \<open>auto simp: on_trace_def completed_trace_def\<close>)
    show ?thesis unfolding Some option.case
      by (rule triple_then [OF clear], rule triple_then [OF unpack], rule triple_then [OF publ], rule triple_then [OF base], rule rep)
  qed
  have arch: "triple (on_trace (did [])) (fetch_archive env job)
      (\<lambda>_. on_trace (did [Entered Downloading_Archive, Downloaded (sj_archive job)])) ?E"
    using weak [OF did_fetch_archive [of "[]" env job]] by simp
  have man: "triple (on_trace (did [Entered Downloading_Archive, Downloaded (sj_archive job)])) (fetch_manifest env job)
      (\<lambda>d. on_trace (did [Entered Downloading_Archive, Downloaded (sj_archive job), Entered Verifying_Archive, Manifest_Read d])) ?E"
    using weak [OF did_fetch_manifest [of "[Entered Downloading_Archive, Downloaded (sj_archive job)]" env job]] by simp
  show ?thesis unfolding take_over_def
    by (rule triple_then [OF did_start], rule triple_then [OF arch], rule triple_then [OF man], rule tail)
qed

section \<open>The source publishes nothing\<close>

named_theorems unpublished

lemma triple_unpublished:
  assumes "triple (on_trace unpublished_trace) m (\<lambda>x. on_trace (q x)) (on_trace unpublished_trace)"
    and "\<And>x tr b. q x tr b \<Longrightarrow> unpublished_trace tr b"
  shows "triple (on_trace unpublished_trace) m (\<lambda>_. on_trace unpublished_trace) (on_trace unpublished_trace)"
  by (rule triple_weaken [OF assms(1)]) (use assms(2) in \<open>auto simp: on_trace_def\<close>)

lemma unpublished_enter [unpublished]:
  "triple (on_trace unpublished_trace) (enter env role p b e) (\<lambda>_. on_trace unpublished_trace) (on_trace unpublished_trace)"
  by (rule triple_unpublished [OF triple_enter]) (auto simp: unpublished_trace_def)

lemma unpublished_authority [unpublished]:
  "triple (on_trace unpublished_trace) (check_authority env) (\<lambda>_. on_trace unpublished_trace) (on_trace unpublished_trace)"
  by (rule triple_unpublished [OF triple_authority]) (auto simp: unpublished_trace_def)

lemma unpublished_supervise [unpublished]:
  "triple (on_trace unpublished_trace) (supervise env s) (\<lambda>_. on_trace unpublished_trace) (on_trace unpublished_trace)"
  by (rule triple_supervise)

lemma unpublished_call [unpublished]:
  "triple (on_trace unpublished_trace) (call_server env e c) (\<lambda>_. on_trace unpublished_trace) (on_trace unpublished_trace)"
  by (rule triple_call)

lemma unpublished_start [unpublished]:
  "triple (on_trace unpublished_trace) start_supervisor (\<lambda>_. on_trace unpublished_trace) (on_trace unpublished_trace)"
  by (rule triple_start)

lemma unpublished_require [unpublished]:
  "triple (on_trace unpublished_trace) (require b e) (\<lambda>_. on_trace unpublished_trace) (on_trace unpublished_trace)"
  by (rule triple_require)

lemma unpublished_throw [unpublished]:
  "triple (on_trace unpublished_trace) (throw e) (\<lambda>_. on_trace unpublished_trace) (on_trace unpublished_trace)"
  by (rule triple_throw)

lemma unpublished_give [unpublished]:
  "triple (on_trace unpublished_trace) (give x) (\<lambda>_. on_trace unpublished_trace) (on_trace unpublished_trace)"
  by (simp add: triple_def give_def)

lemma unpublished_note [unpublished]:
  "\<forall>s t. a \<noteq> Published s t \<Longrightarrow>
     triple (on_trace unpublished_trace) (note_act a) (\<lambda>_. on_trace unpublished_trace) (on_trace unpublished_trace)"
  by (rule triple_unpublished [OF triple_note]) (auto simp: unpublished_trace_def)

lemma unpublished_assignment [unpublished]:
  "triple (on_trace unpublished_trace) (assignment env) (\<lambda>_. on_trace unpublished_trace) (on_trace unpublished_trace)"
  by (auto simp: triple_def on_trace_def dest!: assignment_trace split: prod.splits sum.splits)

lemma unpublished_manifest [unpublished]:
  "triple (on_trace unpublished_trace) (build_manifest env a) (\<lambda>_. on_trace unpublished_trace) (on_trace unpublished_trace)"
  unfolding build_manifest_def by (intro triple_then unpublished) (auto intro: unpublished split: option.split)

lemma unpublished_archive [unpublished]:
  "triple (on_trace unpublished_trace) (create_archive env l m) (\<lambda>_. on_trace unpublished_trace) (on_trace unpublished_trace)"
  unfolding create_archive_def
  by (rule triple_then, rule unpublished, rule triple_state, rule triple_then, rule unpublished)
    (auto intro!: unpublished triple_then split: option.split)

lemma unpublished_upload [unpublished]:
  "triple (on_trace unpublished_trace) (upload_both env m c) (\<lambda>_. on_trace unpublished_trace) (on_trace unpublished_trace)"
  unfolding upload_both_def
  by (rule triple_then, rule unpublished, rule triple_state)
    (auto intro!: unpublished triple_then split: sum.split)

lemma unpublished_record [unpublished]:
  "triple (on_trace unpublished_trace) (record_facts env f) (\<lambda>_. on_trace unpublished_trace) (on_trace unpublished_trace)"
  unfolding record_facts_def
  by (rule triple_then, rule unpublished, rule triple_then, rule unpublished, rule unpublished) simp

lemma source_publishes_nothing:
  "triple (on_trace unpublished_trace) (run_source env) (\<lambda>_. on_trace unpublished_trace) (on_trace unpublished_trace)"
  unfolding run_source_def
  apply (rule triple_then, rule unpublished, rule triple_then, rule unpublished)
  subgoal for _ x
    apply (cases x, simp, rule triple_then, rule unpublished, rule triple_then, rule unpublished)
    apply (rule triple_state [where g = "\<lambda>st. ev_tar env (rn_world st)"])
    apply (rule triple_then, rule unpublished, rule triple_then, rule unpublished, rule triple_then, rule unpublished)
    by (rule unpublished)
  done

section \<open>The wait for the facts\<close>

lemma read_job_trace:
  "read_job env st = (st', r) \<Longrightarrow> rn_trace st' = rn_trace st \<and> rn_published st' = rn_published st"
  by (auto simp: read_job_def Let_def split: prod.splits api_answer.splits if_splits)

lemma wait_trace:
  "wait_for_source_facts env deadline st = Some run \<Longrightarrow>
     rn_trace (fst run) = rn_trace st \<and> rn_published (fst run) = rn_published st \<and>
     (\<forall>job. snd run = Inr job \<longrightarrow> seed_archive_facts_complete (sj_archive job))"
proof (induction rule: wait_for_source_facts.raw_induct [rotated, consumes 1])
  case (1 wait env deadline st run)
  obtain st1 r where rd: "read_job env st = (st1, r)" by fastforce
  note tr = read_job_trace [OF rd]
  show ?case
  proof (cases "\<exists>job. r = Inr (Some job) \<and> \<not> seed_archive_facts_complete (sj_archive job) \<and> \<not> ev_now env (rn_world st1) > deadline")
    case True
    then have "wait env deadline (st1\<lparr> rn_world := ev_sleep env (rn_world st1) \<rparr>) = Some run" using 1(2) rd by auto
    from 1(1) [OF this] show ?thesis using tr by simp
  next
    case False
    then show ?thesis using 1(2) rd tr by (auto split: sum.splits option.splits if_splits)
  qed
qed

text \<open>When every sleep moves the clock on and no read turns it back, the deadline comes.\<close>

lemma wait_returns:
  assumes clock: "\<And>w. ev_now env w + 500 \<le> ev_now env (ev_sleep env w)"
    and read: "\<And>w w' a. ev_get_job env w = (w', a) \<Longrightarrow> ev_now env w \<le> ev_now env w'"
  shows "\<exists>run. wait_for_source_facts env deadline st = Some run"
proof (induction "nat (deadline + 1 - ev_now env (rn_world st))" arbitrary: st rule: less_induct)
  case less
  obtain st1 r where rd: "read_job env st = (st1, r)" by fastforce
  have le: "ev_now env (rn_world st) \<le> ev_now env (rn_world st1)"
    using rd read by (auto simp: read_job_def Let_def split: prod.splits api_answer.splits if_splits)
  show ?case
  proof (cases "\<exists>job. r = Inr (Some job) \<and> \<not> seed_archive_facts_complete (sj_archive job) \<and> \<not> ev_now env (rn_world st1) > deadline")
    case True
    then obtain job where job: "r = Inr (Some job)" "\<not> seed_archive_facts_complete (sj_archive job)"
      "ev_now env (rn_world st1) \<le> deadline" by auto
    let ?st2 = "st1\<lparr> rn_world := ev_sleep env (rn_world st1) \<rparr>"
    have "nat (deadline + 1 - ev_now env (rn_world ?st2)) < nat (deadline + 1 - ev_now env (rn_world st))"
      using clock [of "rn_world st1"] le job(3) by simp
    from less [OF this] obtain run where "wait_for_source_facts env deadline ?st2 = Some run" by blast
    then show ?thesis using rd job by (subst wait_for_source_facts.simps) simp
  next
    case False
    then show ?thesis using rd
      by (subst wait_for_source_facts.simps) (auto split: sum.split option.split)
  qed
qed

section \<open>The whole run\<close>

lemma safe_trace_append:
  "safe_trace env target facts tr published \<Longrightarrow> no_publication xs \<Longrightarrow> published \<longrightarrow> (\<forall>p. Path_Removed p \<notin> set xs) \<Longrightarrow>
     safe_trace env target facts (tr @ xs) published"
  unfolding safe_trace_def
proof (elim disjE exE conjE, goal_cases)
  case (2 d staging)
  then have "published_trace (publish_protocol facts d staging target) (tr @ xs) published"
    by (auto simp: published_trace_def no_publication_def)
  then show ?case using 2(3) by blast
qed (simp add: unpublished_trace_def no_publication_def)

lemma safe_cleanup_relay:
  "on_trace (safe_trace env target facts) st \<Longrightarrow> on_trace (safe_trace env target facts) (cleanup_relay_objects env st)"
  by (auto simp: cleanup_relay_objects_def on_trace_def Let_def intro: safe_trace_append)

lemma safe_fail_job:
  assumes "on_trace (safe_trace env target facts) st"
  shows "on_trace (safe_trace env target facts) (fail_job env st)"
proof -
  obtain st1 r where call: "call_server env Completion_Refused (ev_complete env False) st = (st1, r)" by fastforce
  show ?thesis using assms call_server_trace [OF call]
    by (auto simp: fail_job_def on_trace_def call intro: safe_trace_append)
qed

lemma safe_release:
  "on_trace (safe_trace env target facts) st \<Longrightarrow> on_trace (safe_trace env target facts) (release env st)"
  by (auto simp: release_def cleanup_staging_def on_trace_def Let_def intro: safe_trace_append split: option.splits)

lemma safe_settle:
  "on_trace (safe_trace env target facts) (fst run) \<Longrightarrow> on_trace (safe_trace env target facts) (fst (settle env run))"
  by (cases run; cases "snd run")
    (auto simp: settle_def intro!: safe_release safe_cleanup_relay safe_fail_job split: run_end.split)

lemma unpublished_safe: "on_trace unpublished_trace st \<Longrightarrow> on_trace (safe_trace env target facts) st"
  by (simp add: on_trace_def safe_trace_def)

lemma triple_end: "triple P m Q E \<Longrightarrow> P st \<Longrightarrow> m st = (st', r) \<Longrightarrow> (case r of Inr x \<Rightarrow> Q x st' | Inl e \<Rightarrow> E st')"
  unfolding triple_def by fastforce

lemma completed_is_safe: "on_trace (completed_trace env target facts) st \<Longrightarrow> on_trace (safe_trace env target facts) st"
  unfolding on_trace_def completed_trace_def safe_trace_def after_def published_trace_def by fastforce

lemma choose_target_trace: "choose_target env st = (st', r) \<Longrightarrow> rn_trace st' = rn_trace st \<and> rn_published st' = rn_published st"
  by (auto simp: choose_target_def and_then_def require_def give_def throw_def dest!: assignment_trace
      split: prod.splits sum.splits if_splits)

lemma target_run_is_safe:
  assumes run: "run_target env (new_runner env job w) = Some res"
  shows "\<exists>target facts. seed_archive_facts_complete facts \<and> on_trace (safe_trace env target facts) (fst res) \<or>
     on_trace unpublished_trace (fst res)"
proof -
  have new: "on_trace (did []) (new_runner env job w)" by (simp add: on_trace_def did_def new_runner_def)
  obtain st1 r1 where first: "choose_target env (new_runner env job w) = (st1, r1)" by fastforce
  have st1: "on_trace (did []) st1"
    using choose_target_trace [OF first] new by (simp add: on_trace_def)
  show ?thesis
  proof (cases r1)
    case (Inl e)
    then show ?thesis using run first st1 by (auto simp: run_target_def on_trace_def did_def unpublished_trace_def)
  next
    case (Inr target)
    then obtain st2 r2 where wait: "wait_for_source_facts env (ev_now env (rn_world st1) + 1800000) st1 = Some (st2, r2)"
      using run first by (auto simp: run_target_def split: option.splits)
    from wait_trace [OF wait] have st2: "on_trace (did []) st2"
      and complete: "\<And>j. r2 = Inr j \<Longrightarrow> seed_archive_facts_complete (sj_archive j)"
      using st1 by (auto simp: on_trace_def)
    show ?thesis
    proof (cases r2)
      case (Inl e)
      then show ?thesis using run first Inr wait st2 by (auto simp: run_target_def on_trace_def did_def unpublished_trace_def)
    next
      case [simp]: (Inr j)
      obtain st3 r3 where over: "take_over env target j st2 = (st3, r3)" by fastforce
      have safe: "on_trace (safe_trace env target (sj_archive j)) st3"
        using triple_end [OF take_over_trace st2 over] by (auto dest: completed_is_safe split: sum.splits)
      have "fst res = st3 \<or> fst res = cleanup_relay_objects env st3"
        using run first \<open>r1 = Inr target\<close> wait by (cases r3) (auto simp: run_target_def over)
      then show ?thesis using safe safe_cleanup_relay [OF safe] complete [OF Inr] by metis
    qed
  qed
qed

lemma source_run_is_unpublished: "on_trace unpublished_trace (fst (run_source env (new_runner env job w)))"
proof -
  have "on_trace unpublished_trace (new_runner env job w)"
    by (simp add: on_trace_def new_runner_def unpublished_trace_def)
  from triple_end [OF source_publishes_nothing this prod.collapse [symmetric]] show ?thesis by (simp split: sum.splits)
qed

lemma settle_published [simp]: "rn_published (fst (settle env run)) = rn_published (fst run)"
proof -
  have "rn_published (release env st) = rn_published st" for st
    by (simp add: release_def cleanup_staging_def Let_def split: option.split)
  moreover have "rn_published (cleanup_relay_objects env st) = rn_published st" for st
    by (simp add: cleanup_relay_objects_def Let_def)
  moreover have "rn_published (fail_job env st) = rn_published st" for st
    using call_server_trace [of env Completion_Refused "ev_complete env False" st] by (cases "call_server env Completion_Refused (ev_complete env False) st") (simp add: fail_job_def)
  ultimately show ?thesis by (cases run; cases "snd run") (auto simp: settle_def split: run_end.split)
qed

lemma settle_unpublished:
  assumes "on_trace unpublished_trace (fst run)"
  shows "on_trace unpublished_trace (fst (settle env run))"
proof -
  have "safe_trace env target facts (rn_trace (fst (settle env run))) (rn_published (fst run))" for target facts
    using safe_settle [OF unpublished_safe [OF assms, of env target facts]] by (simp add: on_trace_def)
  moreover have "\<not> rn_published (fst run)" using assms by (simp add: on_trace_def unpublished_trace_def)
  ultimately show ?thesis by (simp add: on_trace_def safe_trace_def published_trace_def)
qed

text \<open>How an action that has something to do runs.\<close>

lemma action_runs:
  assumes "run_seed_action env w = Some (w', trace, outcome)" and "trace \<noteq> []"
  obtains job w2 run where "(run = run_source env (new_runner env job w2) \<and> ev_payload_role env = Source_Role) \<or>
      (run_target env (new_runner env job w2) = Some run \<and> ev_payload_role env = Target_Role)"
    and "trace = rn_trace (fst (settle env run))" and "outcome = snd (settle env run)"
proof -
  obtain w1 space where sp: "issued_space env w = (w1, Some space)"
    using assms by (auto simp: run_seed_action_def split: prod.splits option.splits)
  obtain w2 job where job: "ev_get_job env w1 = (w2, Api_Ok job)"
    using assms sp by (auto simp: run_seed_action_def split: prod.splits option.splits api_answer.splits)
  have "seed_job_role_for (sj_host_id job) (sj_source_host_id job) (Some (ev_host_id env)) = Some (ev_payload_role env)"
    using assms sp job by (auto simp: run_seed_action_def split: option.splits if_splits)
  then obtain run where "(run = run_source env (new_runner env job w2) \<and> ev_payload_role env = Source_Role) \<or>
      (run_target env (new_runner env job w2) = Some run \<and> ev_payload_role env = Target_Role)"
    and "trace = rn_trace (fst (settle env run))" and "outcome = snd (settle env run)"
    using assms sp job
    by (cases "ev_payload_role env") (auto simp: run_seed_action_def case_prod_beta split: if_splits)
  with that show thesis by blast
qed


text \<open>When the target's half ends well, the whole protocol is what it did.\<close>

lemma target_done:
  assumes run: "run_target env (new_runner env job w) = Some (st, Inr u)"
  shows "\<exists>target staging d facts keys. seed_staging_path target (ev_job_id env) = Some staging \<and> rn_published st \<and>
     seed_archive_facts_complete facts \<and>
     (rn_trace st = publish_protocol facts d staging target @
        [Entered Baseline_Validation, Baseline_Proved, Authority_Checked, Completion_Reported] @ keys) \<and>
     (\<forall>a\<in>set keys. \<exists>ks. a = Objects_Deleted ks)"
proof -
  have new: "on_trace (did []) (new_runner env job w)" by (simp add: on_trace_def did_def new_runner_def)
  obtain st1 target where first: "choose_target env (new_runner env job w) = (st1, Inr target)"
    using run by (auto simp: run_target_def split: prod.splits sum.splits)
  have st1: "on_trace (did []) st1"
    using choose_target_trace [OF first] new by (simp add: on_trace_def)
  obtain st2 j where wait: "wait_for_source_facts env (ev_now env (rn_world st1) + 1800000) st1 = Some (st2, Inr j)"
    using run first by (auto simp: run_target_def split: option.splits sum.splits)
  from wait_trace [OF wait] have st2: "on_trace (did []) st2" and complete: "seed_archive_facts_complete (sj_archive j)"
    using st1 by (auto simp: on_trace_def)
  obtain st3 where over: "take_over env target j st2 = (st3, Inr ())" and st: "st = cleanup_relay_objects env st3"
    using run first wait by (auto simp: run_target_def split: prod.splits sum.splits)
  from triple_end [OF take_over_trace st2 over] have done3: "on_trace (completed_trace env target (sj_archive j)) st3" by simp
  have "rn_published st = rn_published st3" and "\<exists>keys. rn_trace st = rn_trace st3 @ keys \<and> (\<forall>a\<in>set keys. \<exists>ks. a = Objects_Deleted ks)"
    by (auto simp: st cleanup_relay_objects_def Let_def)
  with done3 complete show ?thesis unfolding on_trace_def completed_trace_def after_def by fastforce
qed


text \<open>
  C16. A seed action ends: when each sleep of the poll moves the clock on by its half second and
  a read does not turn it back, the run returns, whatever the job and the answers are.
\<close>

theorem seed_actions_end:
  assumes "\<And>w. ev_now env w + 500 \<le> ev_now env (ev_sleep env w)"
    and "\<And>w w' a. ev_get_job env w = (w', a) \<Longrightarrow> ev_now env w \<le> ev_now env w'"
  shows "\<exists>result. run_seed_action env w = Some result"
proof -
  have waits: "wait_for_source_facts env deadline st \<noteq> None" for deadline st
    using wait_returns [where deadline = deadline and st = st, OF assms] by auto
  have target: "run_target env st \<noteq> None" for st
    by (auto simp: run_target_def waits split: prod.split sum.split option.split)
  have "run_seed_action env w \<noteq> None"
    by (auto simp: run_seed_action_def target simp del: not_None_eq split: prod.split option.split api_answer.split seed_job_role.split)
  then show ?thesis by blast
qed

section \<open>A run\<close>

text \<open>The clock is the world, and a read takes a millisecond; the server grants what it is asked.\<close>

definition sample_seed_folder :: folder where
  "sample_seed_folder = sample_backup_folder\<lparr> fo_type := FSync \<rparr>"

definition sample_seed_config :: host_config where
  "sample_seed_config =
     \<lparr> hc_folders = [sample_seed_folder], hc_assignments = [sample_assignment ''b''], hc_rclone_config = ''[r]'',
       hc_seed_relay = Some \<lparr> sp_job_id = ''j1'', sp_role = Target_Role, sp_backend_id = ''x'', sp_endpoint = ''https://s3'',
         sp_bucket = ''seed'', sp_region = None, sp_access_key_id = ''k'', sp_secret_access_key = ''s'' \<rparr> \<rparr>"

definition sample_seed_env :: "(int \<Rightarrow> seed_job api_answer) \<Rightarrow> int seed_env" where
  "sample_seed_env reads =
     \<lparr> ev_host_id = ''b'', ev_job_id = ''j1'', ev_payload_role = Target_Role, ev_lease_ms = None, ev_interval_ms = None,
       ev_parse = (\<lambda>t. Some (JObj [(''stats'', JObj [(''totalTransfers'', JNum (Fin 0)), (''bytes'', JNum (Fin 0))])])),
       ev_now = (\<lambda>w. w), ev_config = (\<lambda>w. Some sample_seed_config), ev_refresh = (\<lambda>w. (w, True)), ev_sleep = (\<lambda>w. w + 500),
       ev_events = (\<lambda>w. (w, [])), ev_get_job = (\<lambda>w. (w + 1, reads w)), ev_progress = (\<lambda>p l b e w. (w, reads 0)),
       ev_facts = (\<lambda>f w. (w, reads 0)), ev_complete = (\<lambda>ok w. (w, if ok then reads 0 else Api_Status 409 ''not yours'')),
       ev_manifest = (\<lambda>a w. (w, Threw)), ev_tar = (\<lambda>w. True), ev_archive = (\<lambda>f p m w. (w, Threw)),
       ev_upload = (\<lambda>f p n w. (w, Threw)), ev_upload_manifest = (\<lambda>m w. (w, Threw)), ev_download = (\<lambda>f w. (w, Gave True)),
       ev_download_manifest = (\<lambda>f w. (w, Gave (Inr sample_document))), ev_extract = (\<lambda>f s w. (w, Gave True)),
       ev_verify = (\<lambda>s d w. (w, Gave True)), ev_publish = (\<lambda>s t w. (w, True)),
       ev_resync = (\<lambda>p l c w. (w, Gave (0, ''{}'' @ [CHR 0x0A] @ ''Bisync successful''))), ev_remove = (\<lambda>p w. (w, True)),
       ev_cleanup = (\<lambda>ks c w. w) \<rparr>"

definition sample_open_job :: "seed_job_archive_facts \<Rightarrow> seed_job" where
  "sample_open_job facts = sample_job\<lparr> lf_phase := Work Uploading_Archive, sj_archive := facts \<rparr>"

definition sample_seed_run :: "(int \<times> side_act list \<times> action_outcome) option" where
  "sample_seed_run = run_seed_action (sample_seed_env (\<lambda>w. Api_Ok (sample_open_job sample_facts))) 0"

lemma sample_seed_run_ends: "map_option (snd \<circ> snd) sample_seed_run = Some Side_Done"
  by code_simp

lemma sample_seed_run_publishes: "map_option (\<lambda>r. list_ex (\<lambda>a. a = Published ''/.lamasync-seed-staging-data-j1'' ''/data'') (fst (snd r))) sample_seed_run = Some True"
  by code_simp



theorem seed_actions_end_witness: "\<exists>result. run_seed_action (sample_seed_env (\<lambda>w. Api_Ok sample_job)) 0 = Some result"
  by (rule seed_actions_end) (auto simp: sample_seed_env_def)

section \<open>What a run that stops or fails deletes\<close>

lemma action_starts:
  assumes "issued_space env w = (w1, Some space)" and "ev_get_job env w1 = (w2, Api_Ok job)"
    and "seed_job_role_for (sj_host_id job) (sj_source_host_id job) (Some (ev_host_id env)) = Some (ev_payload_role env)"
    and "\<not> is_terminal_seed_phase (lf_phase job)"
  shows "run_seed_action env w = map_option (\<lambda>run. case settle env run of (st, outcome) \<Rightarrow> (rn_world st, rn_trace st, outcome))
    (case ev_payload_role env of
       Source_Role \<Rightarrow> Some (run_source env (new_runner env job w2)) | Target_Role \<Rightarrow> run_target env (new_runner env job w2))"
  using assms by (simp add: run_seed_action_def)

lemma settle_before_staging:
  assumes "rn_staging st = None" and "rn_trace st = []" and "\<not> rn_cleaned st"
  shows "settle env (st, Inl (Stopped r)) = (st', outcome) \<Longrightarrow>
      rn_trace st' = [Objects_Deleted (relay_keys env (rn_job st))] \<and> outcome = Side_Stopped r"
    and "settle env (st, Inl (Broke e)) = (st', outcome) \<Longrightarrow>
      rn_trace st' = [Failure_Reported, Objects_Deleted (relay_keys env (rn_job st))] \<and> outcome = Side_Failed e"
  using assms
  by (auto simp: settle_def release_def cleanup_staging_def cleanup_relay_objects_def fail_job_def call_server_def await_events_def
      Let_def split: prod.splits api_answer.splits)

text \<open>
  C17. A failed poll deletes the archive of an open job. While the target waits for the source's
  facts it holds no lease, so the server may refuse its failure report; but when one read of the
  poll fails, the target's run ends, and it deletes the job's objects, though the job it read last
  is open and the source may be uploading to them.
\<close>

theorem failed_poll_deletes_the_objects_of_an_open_job:
  assumes "issued_space env w = (w1, Some space)" and "ev_get_job env w1 = (w2, Api_Ok job)"
    and "seed_job_role_for (sj_host_id job) (sj_source_host_id job) (Some (ev_host_id env)) = Some Target_Role"
    and "ev_payload_role env = Target_Role" and "\<not> is_terminal_seed_phase (lf_phase job)"
    and "assignment_in (ev_config env w2) (sj_folder_id job) = Some (a, f)" and "fo_type f = FSync"
    and "ev_get_job env w2 = (w3, Api_Unreachable e)"
  shows "\<exists>w'. run_seed_action env w =
    Some (w', [Failure_Reported, Objects_Deleted (relay_keys env job)], Side_Failed Job_Unreadable)"
proof -
  let ?st = "new_runner env job w2"
  have "choose_target env ?st = (?st, Inr (fa_local_path a))"
    using assms(6,7) by (simp add: choose_target_def and_then_def assignment_def require_def give_def new_runner_def)
  moreover have "wait_for_source_facts env deadline ?st = Some (?st\<lparr> rn_world := w3 \<rparr>, Inl (Broke Job_Unreadable))" for deadline
    using assms(8) by (subst wait_for_source_facts.simps) (simp add: read_job_def new_runner_def)
  ultimately have "run_target env ?st = Some (?st\<lparr> rn_world := w3 \<rparr>, Inl (Broke Job_Unreadable))"
    by (simp add: run_target_def)
  moreover obtain st' outcome where settled: "settle env (?st\<lparr> rn_world := w3 \<rparr>, Inl (Broke Job_Unreadable)) = (st', outcome)" by fastforce
  ultimately show ?thesis
    using action_starts [OF assms(1,2) _ assms(5)] assms(3,4) settle_before_staging(2) [OF _ _ _ settled]
    by (simp add: new_runner_def)
qed

theorem failed_poll_deletes_the_objects_of_an_open_job_witness:
  "\<exists>w'. run_seed_action (sample_seed_env (\<lambda>w. if w = 0 then Api_Ok sample_job else Api_Unreachable ''reset'')) 0 =
     Some (w', [Failure_Reported, Objects_Deleted [''lamasync/seed/j1/payload.tar.zst'', ''lamasync/seed/j1/manifest.json'']],
       Side_Failed Job_Unreadable)"
proof -
  let ?env = "sample_seed_env (\<lambda>w. if w = 0 then Api_Ok sample_job else Api_Unreachable ''reset'')"
  have "relay_keys ?env sample_job = [''lamasync/seed/j1/payload.tar.zst'', ''lamasync/seed/j1/manifest.json'']" by code_simp
  moreover have "\<exists>space. issued_space ?env 0 = (0, Some space)"
    by (simp add: issued_space_def seed_relay_space_from_host_config_def sample_seed_env_def sample_seed_config_def)
  moreover have "seed_job_role_for (sj_host_id sample_job) (sj_source_host_id sample_job) (Some ''b'') = Some Target_Role" by code_simp
  moreover have "assignment_in (Some sample_seed_config) (sj_folder_id sample_job) = Some (sample_assignment ''b'', sample_seed_folder)"
    by (simp add: assignment_in_def sample_seed_config_def sample_job_def sample_seed_folder_def sample_backup_folder_def sample_assignment_def)
  moreover have "ev_host_id ?env = ''b''" "ev_payload_role ?env = Target_Role" "ev_config ?env 1 = Some sample_seed_config"
    "ev_get_job ?env 0 = (1, Api_Ok sample_job)" "ev_get_job ?env 1 = (2, Api_Unreachable ''reset'')"
    by (simp_all add: sample_seed_env_def)
  ultimately show ?thesis
    using failed_poll_deletes_the_objects_of_an_open_job [of ?env 0 0 _ 1 sample_job "sample_assignment ''b''" sample_seed_folder 2 "''reset''"]
    by (auto simp: sample_seed_folder_def)
qed

text \<open>
  A redelivered source action deletes the archive it had handed over. When the source's
  action runs again on a job that is still open - its device stopped after the handover, before
  the action was acknowledged - the server refuses its first phase, the run stops, and it
  deletes the archive and the manifest that the target is still to read.
\<close>

theorem a_source_that_starts_over_deletes_its_archive:
  assumes "issued_space env w = (w1, Some space)" and "ev_get_job env w1 = (w2, Api_Ok job)"
    and "seed_job_role_for (sj_host_id job) (sj_source_host_id job) (Some (ev_host_id env)) = Some Source_Role"
    and "ev_payload_role env = Source_Role" and "\<not> is_terminal_seed_phase (lf_phase job)"
    and "assignment_in (ev_config env w2) (sj_folder_id job) = Some (a, f)" and "fo_type f = FSync"
    and "\<And>lease. ev_progress env Measuring_Source lease None None w2 = (w3, Api_Status status e)"
  shows "\<exists>w'. run_seed_action env w =
    Some (w', [Objects_Deleted (relay_keys env job)], Side_Stopped (Stop_Phase_Refused Measuring_Source))"
proof -
  let ?st = "(new_runner env job w2)\<lparr> rn_sup := sv_start (rn_sup (new_runner env job w2)) \<rparr>"
  have live: "sv_stopped (rn_sup ?st) = None" by (simp add: new_runner_def new_supervisor_def sv_start_def Let_def)
  obtain w4 evs where events: "ev_events env w3 = (w4, evs)" by fastforce
  obtain st1 where enter: "enter env Source_Role Measuring_Source None None ?st = (st1, Inl (Stopped (Stop_Phase_Refused Measuring_Source)))"
    and st1: "rn_staging st1 = None" "rn_trace st1 = []" "\<not> rn_cleaned st1" "rn_job st1 = job"
    using live assms(8)
    by (simp add: enter_def call_server_def await_events_def new_runner_def Let_def events)
  have "run_source env (new_runner env job w2) = (st1, Inl (Stopped (Stop_Phase_Refused Measuring_Source)))"
    using enter assms(6,7)
    by (simp add: run_source_def and_then_def start_supervisor_def assignment_def require_def give_def build_manifest_def new_runner_def)
  moreover obtain st' outcome where settled: "settle env (st1, Inl (Stopped (Stop_Phase_Refused Measuring_Source))) = (st', outcome)" by fastforce
  ultimately show ?thesis
    using action_starts [OF assms(1,2) _ assms(5)] assms(3,4) settle_before_staging(1) [OF st1(1-3) settled] st1(4) by simp
qed

definition restarted_source_env :: "int seed_env" where
  "restarted_source_env = (sample_seed_env (\<lambda>w. Api_Ok (sample_open_job sample_facts)))
     \<lparr> ev_host_id := ''a'', ev_payload_role := Source_Role,
       ev_config := (\<lambda>w. Some (sample_seed_config\<lparr> hc_seed_relay := map_option (sp_role_update (\<lambda>_. Source_Role)) (hc_seed_relay sample_seed_config) \<rparr>)),
       ev_progress := (\<lambda>p l b e w. (w, Api_Status 409 ''the archive is recorded'')) \<rparr>"

theorem a_source_that_starts_over_deletes_its_archive_witness:
  "seed_archive_facts_complete (sj_archive (sample_open_job sample_facts)) \<and>
   (\<exists>w'. run_seed_action restarted_source_env 0 =
     Some (w', [Objects_Deleted [''lamasync/seed/j1/payload.tar.zst'', ''lamasync/seed/j1/manifest.json'']],
       Side_Stopped (Stop_Phase_Refused Measuring_Source)))"
proof -
  let ?job = "sample_open_job sample_facts"
  have "relay_keys restarted_source_env ?job = [''lamasync/seed/j1/payload.tar.zst'', ''lamasync/seed/j1/manifest.json'']" by code_simp
  moreover have "\<exists>space. issued_space restarted_source_env 0 = (0, Some space)"
    by (simp add: issued_space_def seed_relay_space_from_host_config_def sample_seed_env_def sample_seed_config_def restarted_source_env_def)
  moreover have "seed_job_role_for (sj_host_id ?job) (sj_source_host_id ?job) (Some ''a'') = Some Source_Role" by code_simp
  moreover have "assignment_in (ev_config restarted_source_env 1) (sj_folder_id ?job) = Some (sample_assignment ''b'', sample_seed_folder)"
    by (simp add: assignment_in_def sample_seed_config_def restarted_source_env_def sample_open_job_def sample_job_def sample_seed_folder_def
        sample_backup_folder_def sample_assignment_def)
  moreover have "ev_host_id restarted_source_env = ''a''" "ev_payload_role restarted_source_env = Source_Role"
    "ev_get_job restarted_source_env 0 = (1, Api_Ok ?job)"
    "\<And>lease. ev_progress restarted_source_env Measuring_Source lease None None 1 = (1, Api_Status 409 ''the archive is recorded'')"
    by (simp_all add: sample_seed_env_def restarted_source_env_def)
  moreover have "\<not> is_terminal_seed_phase (lf_phase ?job)" by code_simp
  ultimately show ?thesis
    using a_source_that_starts_over_deletes_its_archive [of restarted_source_env 0 0 _ 1 ?job "sample_assignment ''b''" sample_seed_folder 1 409
        "''the archive is recorded''"]
    by (auto simp: sample_seed_folder_def sample_open_job_def)
qed

end
