(* ===== verification/Spec2Isabelle.thy ===== *)
theory Spec2Isabelle
  imports Versions Destinations Seed_Archive Seed_Phases Seed_Facts Seed_Wire Seed_Pilot
    Seed_Space Seed_Staging Folder_Health Seed_Plan Seed_Jobs Seed_Routes Seed_Machine Seed_Safety
    Operation_Locks Action_Queue Retention
    Mobile_Routes Enrollment_Safety Pairing S3_Listing Log_Archive
    Relay_Local Seed_Runner
begin

text \<open>
  LamaSync keeps folders in sync between devices: a server holds folders, assignments and
  jobs, and a daemon on every device runs rclone, reports health and executes what the
  server queues. Its largest piece of own logic is the seed transfer, in which a first
  copy of a big folder travels from one device (the source) to another (the target) as an
  archive: the source archives and uploads, the server hands the job over exactly once,
  and the target downloads, verifies, extracts and publishes.

  The theories follow the modules, bottom up.

  \<^item> \<open>Prelude\<close>: JavaScript numbers, strings and JSON values as the code uses them, and the
    lemma collections shared by the components.
  \<^item> \<open>Versions\<close>: \<open>core/src/version-compare.ts\<close> and \<open>core/src/remote-update.ts\<close>.
  \<^item> \<open>Destinations\<close>: \<open>core/src/destination.ts\<close>, \<open>effective-type.ts\<close>, \<open>folder-watch.ts\<close> and
    the two records of \<open>types.ts\<close> they read.
  \<^item> \<open>Seed_Archive\<close>, \<open>Seed_Phases\<close>, \<open>Seed_Facts\<close>, \<open>Seed_Space\<close>, \<open>Seed_Staging\<close>: the parts of
    \<open>core/src/folder-seed.ts\<close> in its order (archive formats and member names; phases, roles,
    leases and deadlines; archive facts; space; staging paths).
  \<^item> \<open>Wire_Grammar\<close>, \<open>Seed_Wire\<close>: the payload parsers of \<open>folder-seed.ts\<close>. The locale
    \<open>closed_wire\<close> states what every such parser promises (unknown fields are refused, what
    is accepted is well formed, the encoded form is accepted) and is interpreted on each.
  \<^item> \<open>Seed_Pilot\<close>: \<open>core/src/seed-pilot.ts\<close>, which pair of devices may seed which folder.
  \<^item> \<open>Folder_Health\<close>: \<open>core/src/folder-health.ts\<close>, the health verdict of an assignment, the
    intervention payloads and the reviewed plans.
  \<^item> \<open>Seed_Plan\<close>: seed plans, their prerequisites and validity (\<open>folder-seed.ts\<close>) and how the
    server builds one (\<open>server/src/seed-jobs.ts\<close>, \<open>buildSeedPlan\<close>).
  \<^item> \<open>Seed_Jobs\<close>: the tables of \<open>server/src/seed-jobs.ts\<close>. A table is the list of its rows, an
    UPDATE is \<open>db_update\<close> with the WHERE clause and the SET list of the statement. The locale
    \<open>guarded_writer\<close> is the contract of the nine compare-and-set writers (a refusal changes
    nothing, a write changes exactly the one row, only open rows are written, the identity
    columns stay) and is interpreted on all of them.
  \<^item> \<open>Seed_Routes\<close>: the handlers of \<open>server/src/routes/folder-seed.ts\<close>.
  \<^item> \<open>Seed_Machine\<close>: the abstract machine of one job (\<open>job_step\<close>: who may change a job, when,
    and how), the server as the composition of the routes (\<open>handle_request\<close>), its runs
    (\<open>server_reach\<close>, \<open>server_later\<close>), and that each handler is one step of one job.
  \<^item> \<open>Seed_Safety\<close>: the refinement theorem and what follows for every run of the server.
  \<^item> \<open>Seed_Relay\<close>: \<open>core/src/seed-relay.ts\<close>, the contract of the temporary object space: keys,
    metadata, the transported manifest, which objects a sweep may delete.
  \<^item> \<open>Seed_Transport\<close>: \<open>daemon/src/seed-transport.ts\<close> over a record of store operations
    (\<open>seed_relay_store\<close>). The locale \<open>relay_store\<close> is the contract of \<open>SeedRelayStore\<close> (what a put,
    a get and a delete promise of the stored contents) and has the client lemmas: an accepted
    upload can be downloaded. \<open>Relay_Local\<close>: \<open>daemon/src/seed-relay-local.ts\<close>, the store on a
    directory, interprets it.
  \<^item> \<open>Lease_Supervisor\<close>: \<open>daemon/src/seed-lease-supervisor.ts\<close>, the renewal of a job's lease
    while a stage runs. \<open>Seed_Runner\<close>: \<open>daemon/src/seed-runner.ts\<close>, one side of a job from its
    queued action to the outcome, over the supervisor, with the transport's stages as
    operations of its world.
  \<^item> \<open>Principals\<close>: who a request comes from and the gates of \<open>server/src/auth.ts\<close>.
  \<^item> \<open>Operation_Locks\<close>: the destination locks of \<open>server/src/routes/operations.ts\<close>, keyed by
    the canonical destination of \<open>Destinations\<close>.
  \<^item> \<open>Action_Queue\<close>: \<open>server/src/routes/actions.ts\<close>, the queue between the control plane and
    the daemons: \<open>act_step\<close> is the life of one action, every handler moves every row along it.
    It uses the payload grammar and the reviewed plans of \<open>Folder_Health\<close>, and takes the
    actions a new seed job queues (\<open>Seed_Routes\<close>).
  \<^item> \<open>Civil_Calendar\<close>, \<open>Retention\<close>: \<open>core/src/retention.ts\<close>. The evaluator is modelled pass by
    pass; \<open>policy_keeps\<close> says the same without the passes.
  \<^item> \<open>Runs\<close>: the locales \<open>preserved\<close> (every step keeps an invariant) and \<open>growing\<close> (every step
    also only adds to the state), with the lemmas about lists of steps proved once.
  \<^item> \<open>Mobile_Uploads\<close>: \<open>server/src/mobile-uploads.ts\<close>, resumable uploads of a phone.
    \<open>Mobile_Ledger\<close> has the abstract machine of rows and history and the invariant of every
    run, \<open>Mobile_Safety\<close> the published tree and the staging directory, both as interpretations
    of the locales of \<open>Runs\<close>; \<open>Mobile_Routes\<close> is \<open>server/src/routes/mobile-uploads.ts\<close>.
  \<^item> \<open>Mobile_Enrollment\<close>: \<open>server/src/mobile-store.ts\<close>, pairing codes, native tokens, web
    grants and sessions, revocation, rate limits; \<open>Enrollment_Safety\<close> is about its runs.
  \<^item> \<open>Api_Keys\<close>: \<open>server/src/api-keys.ts\<close> and its routes. \<open>Auth_Boundary\<close>: the rest of
    \<open>server/src/auth.ts\<close>, from the headers of a request to the principal the handlers see, over
    the keys and the store of \<open>Mobile_Enrollment\<close>. \<open>Pairing\<close>: \<open>server/src/routes/pairing.ts\<close>
    behind that boundary, whose exchange issues a device key.
  \<^item> \<open>S3_Listing\<close>: \<open>server/src/s3-list.ts\<close> without the signing. \<open>Log_Archive\<close>: pruning and
    exporting the operation log, \<open>server/src/routes/admin.ts\<close>.

  State and effects. A handler takes the authenticated principal, the decoded body, the
  clock and the rows, and returns its reply and the new rows. The handlers are synchronous
  over SQLite, so a request runs to completion before the next one: an interleaving of
  requests is a sequence of them, in any order and with any clock values. The exception is
  the publication of an upload into a managed folder, which awaits the copy: it is two steps
  (\<open>finalize_mobile_upload\<close>, \<open>finalize_resume\<close>) between which others run. UUIDs, the clock,
  the pilot verdict, config revisions and the derived health records are parameters; a fresh
  UUID is an id no stored job has. The daemon's runner awaits everywhere: it is a function on
  its state over a world of any type (\<open>seed_env\<close>: the server's answers, disk, transport,
  rclone), what its supervisor's timer does during an await is a list of events, and
  \<open>rn_trace\<close> lists what it has done; \<open>triple\<close> is the judgement its lemmas are stated in.
  Errors are values: a parser returns an error or a
  payload, a handler a refusal with its status code.

  Values. Optional and nullable fields are options. Timestamps, byte counts and sizes are
  integers where the code stores them as such, \<open>jnum\<close> (a rational, an infinity or NaN) where
  it tests \<open>Number.isFinite\<close>. Fractions are exact rationals: rounding of a double product is
  not modelled. Strings are lists of characters below 256, which covers every character the
  code tests for. A sentence shown to the operator is a value that names it and carries the
  values interpolated into it.

  Termination. The recursions are over lists, or have a measure (the XML reader, whose loop
  always moves its position). No fuel is needed. Two loops may not end. The target's wait for
  the source's facts (\<open>wait_for_source_facts\<close>) is a partial function, and a run is proved to
  return when each sleep moves the clock on by its half second. The size of a prefix
  asks for pages as long as the endpoint says there are more, so \<open>size_loop\<close> is a partial
  function, it is proved to return when some page is the last one, and an endpoint that never
  says so keeps it asking (\<open>endless_listing_never_returns\<close>).

  What the lemmas show. The parsers: closed wires and round trips. The rules: agreement of
  the SQL guards with the pure rules of the core module, exclusive claims, exact reaping.
  The server: each request is at most one permitted step of one job (refinement), the
  target never works without the source's digests, recorded facts never change, only the
  right device changes a job and only under its live lease, ended jobs are final, one job
  is active for a pair. The daemon: a tree is published only after the whole protocol (download
  against recorded facts, manifest, staging of its own, verification, authority check), a seed
  is reported done only after the zero-change proof, a download that succeeds has the recorded
  bytes and digest, the members that arrive are those that were sent, supervised work ends
  before its lease, and a failed poll deletes the objects of an open job. The health model: the verdict is
  the worst reason and healthy means that every fact supports it; an intervention executes the reviewed plan or nothing. Locks:
  one live holder for a destination, expired locks never block. Actions: leased claims, one
  log entry for an outcome. Retention: the passes compute the described set, protected
  snapshots and one capture always stay. Uploads: a published file is never overwritten, is
  published only under live grants and with the declared digest and size, and its row tells
  its content; an ended upload stays ended; a phone reaches only its own. Enrollment:
  a code is exchanged once, a revoked device never comes back. Authentication: who the
  boundary lets through has shown a live credential of its own kind, unless the request is
  exempt or claims to be a web-socket upgrade, which \<open>strangers_can_mint_device_keys\<close> turns
  into a device key. The log: pruning keeps every host; an export may lose rows.

  Not modelled: the daemon's processes (rclone, tar), the S3 store and the archive primitives,
  which are operations of the runner's world, its end-to-end seam, the other routes of the
  server, the database schema, the web interface, the command line, the Android client and
  the deploy agent. They are I/O around the logic above or components left for later.
\<close>

end
